(* ===== verification/Prelude.thy ===== *)
theory Prelude
  imports Main "HOL-Library.Word"
begin

text \<open>
  What the components share: the types of identifiers, the supply fresh identifiers are
  drawn from, results that may be an error, the two shapes the code's loops have, and the
  lemmas about them that the component proofs use.
\<close>

section \<open>Identifiers\<close>

text \<open>
  A \<^verbatim>\<open>uuid.UUID\<close> is sixteen bytes, compared as a whole and, where the code sorts, byte
  by byte from the most significant: a 128-bit word. \<^verbatim>\<open>uuid.Nil\<close> is the zero word.
\<close>

type_synonym uuid = "128 word"

abbreviation nil_uuid :: uuid where
  "nil_uuid \<equiv> 0"

text \<open>
  \<^verbatim>\<open>uuid.New\<close> of the package \<^verbatim>\<open>github.com/google/uuid\<close> draws a random identifier. An
  operation that mints identifiers takes the sequence of draws to come and returns what is
  left of it. That a draw is fresh is never built in: a theorem that needs it says so.
\<close>

type_synonym uuid_source = "nat \<Rightarrow> uuid"

definition drawn :: "uuid_source \<Rightarrow> uuid" where
  "drawn s = s 0"

definition after_draw :: "uuid_source \<Rightarrow> uuid_source" where
  "after_draw s = (\<lambda>k. s (Suc k))"

text \<open>
  The first \<open>n\<close> draws are usable: no nil identifier, no repetition, nothing in use.
\<close>

definition fresh_draws :: "nat \<Rightarrow> uuid set \<Rightarrow> uuid_source \<Rightarrow> bool" where
  "fresh_draws n used s \<longleftrightarrow>
     distinct (map s [0..<n]) \<and> (\<forall>k<n. s k \<noteq> nil_uuid \<and> s k \<notin> used)"

lemma fresh_draws_drawn:
  "fresh_draws (Suc n) used s \<Longrightarrow> drawn s \<noteq> nil_uuid \<and> drawn s \<notin> used"
  by (auto simp: fresh_draws_def drawn_def)

lemma fresh_draws_after:
  assumes "fresh_draws (Suc n) used s"
  shows "fresh_draws n (insert (drawn s) used) (after_draw s)"
proof -
  have inj: "inj_on s {0..<Suc n}"
    using assms by (auto simp: fresh_draws_def distinct_map simp del: upt_Suc)
  have ne: "s (Suc k) \<noteq> s 0" if "k < n" for k
    using inj_onD [OF inj, of "Suc k" 0] that by auto
  have "inj_on (\<lambda>k. s (Suc k)) {0..<n}"
    by (rule inj_onI) (use inj_onD [OF inj] in fastforce)
  then show ?thesis
    using assms ne
    by (auto simp: fresh_draws_def drawn_def after_draw_def distinct_map)
qed

lemma fresh_draws_mono:
  assumes "fresh_draws n used s" and "m \<le> n" and "used' \<subseteq> used"
  shows "fresh_draws m used' s"
  using assms
  by (auto simp: fresh_draws_def distinct_map elim: inj_on_subset)

section \<open>Text\<close>

text \<open>
  A Go string is a sequence of bytes, as an Isabelle string is. \<^verbatim>\<open>strings.Join\<close> puts a
  separator between the parts.
\<close>

fun join :: "string \<Rightarrow> string list \<Rightarrow> string" where
  "join sep [] = []"
| "join sep [x] = x"
| "join sep (x # y # rest) = x @ sep @ join sep (y # rest)"

text \<open>The decimal digits \<^verbatim>\<open>%d\<close> and \<^verbatim>\<open>strconv.Itoa\<close> write a count with.\<close>

definition digit :: "nat \<Rightarrow> char" where
  "digit n = char_of (48 + n)"

fun decimal :: "nat \<Rightarrow> string" where
  "decimal n = (if n < 10 then [digit n] else decimal (n div 10) @ [digit (n mod 10)])"

declare decimal.simps [simp del]

lemma decimal_not_Nil [simp]: "decimal n \<noteq> []"
  by (subst decimal.simps) simp

text \<open>\<^verbatim>\<open>uuid.UUID.String\<close>: 32 hexadecimal digits in five groups.\<close>

definition hex_digit :: "nat \<Rightarrow> char" where
  "hex_digit n = (if n < 10 then char_of (48 + n) else char_of (87 + n))"

definition uuid_text :: "uuid \<Rightarrow> string" where
  "uuid_text u =
     (let ds = map (\<lambda>i. hex_digit (unat u div 16 ^ (31 - i) mod 16)) [0..<32]
      in take 8 ds @ ''-'' @ take 4 (drop 8 ds) @ ''-'' @ take 4 (drop 12 ds) @ ''-'' @
         take 4 (drop 16 ds) @ ''-'' @ drop 20 ds)"

section \<open>Steps that may refuse\<close>

text \<open>
  A Go function returns early with its error: \<open>and_then\<close> runs the rest where a step succeeded,
  \<open>ensure\<close> is a guard, \<open>explain\<close> wraps the error a callee returned.
\<close>

definition and_then :: "'e + 'a \<Rightarrow> ('a \<Rightarrow> 'e + 'b) \<Rightarrow> 'e + 'b" where
  "and_then m f = (case m of Inl e \<Rightarrow> Inl e | Inr x \<Rightarrow> f x)"

definition ensure :: "bool \<Rightarrow> 'e \<Rightarrow> 'e + unit" where
  "ensure c e = (if c then Inr () else Inl e)"

definition explain :: "('e \<Rightarrow> 'f) \<Rightarrow> 'e + 'a \<Rightarrow> 'f + 'a" where
  "explain wrap m = (case m of Inl e \<Rightarrow> Inl (wrap e) | Inr x \<Rightarrow> Inr x)"

definition or_refuse :: "'e \<Rightarrow> 'a option \<Rightarrow> 'e + 'a" where
  "or_refuse e m = (case m of None \<Rightarrow> Inl e | Some x \<Rightarrow> Inr x)"

lemma and_then_simps [simp]:
  "and_then (Inr x) f = f x"
  "and_then (Inl e) f = Inl e"
  by (simp_all add: and_then_def)

lemma and_then_Inr: "and_then m f = Inr y \<longleftrightarrow> (\<exists>x. m = Inr x \<and> f x = Inr y)"
  by (cases m) simp_all

lemma ensure_Inr [simp]: "ensure c e = Inr u \<longleftrightarrow> c"
  by (simp add: ensure_def)

lemma explain_Inr [simp]: "explain wrap m = Inr x \<longleftrightarrow> m = Inr x"
  by (cases m) (simp_all add: explain_def)

lemma or_refuse_Inr [simp]: "or_refuse e m = Inr x \<longleftrightarrow> m = Some x"
  by (cases m) (simp_all add: or_refuse_def)

lemma guard_simps [simp]:
  "ensure True e = Inr ()" "ensure False e = Inl e"
  "explain wrap (Inr x) = Inr x" "explain wrap (Inl e') = Inl (wrap e')"
  "or_refuse e (Some x) = Inr x" "or_refuse e None = Inl e"
  by (simp_all add: ensure_def explain_def or_refuse_def)

section \<open>Loops that may refuse\<close>

text \<open>
  The code's loops come in two shapes. One visits the items in order with a running state
  (the identifiers seen so far, say) and stops at the first refusal; the other also builds
  one output per item. Both carry the item's index, which the refusals name.
\<close>

fun each_from :: "nat \<Rightarrow> (nat \<Rightarrow> 'a \<Rightarrow> 's \<Rightarrow> 'e + 's) \<Rightarrow> 'a list \<Rightarrow> 's \<Rightarrow> 'e + 's" where
  "each_from i f [] s = Inr s"
| "each_from i f (x # xs) s =
     (case f i x s of
        Inl e \<Rightarrow> Inl e
      | Inr s' \<Rightarrow> each_from (Suc i) f xs s')"

abbreviation each :: "(nat \<Rightarrow> 'a \<Rightarrow> 's \<Rightarrow> 'e + 's) \<Rightarrow> 'a list \<Rightarrow> 's \<Rightarrow> 'e + 's" where
  "each f xs s \<equiv> each_from 0 f xs s"

fun collect_from ::
  "nat \<Rightarrow> (nat \<Rightarrow> 'a \<Rightarrow> 's \<Rightarrow> 'e + 'b \<times> 's) \<Rightarrow> 'a list \<Rightarrow> 's \<Rightarrow> 'e + 'b list \<times> 's" where
  "collect_from i f [] s = Inr ([], s)"
| "collect_from i f (x # xs) s =
     (case f i x s of
        Inl e \<Rightarrow> Inl e
      | Inr (y, s') \<Rightarrow>
          (case collect_from (Suc i) f xs s' of
             Inl e \<Rightarrow> Inl e
           | Inr (ys, s'') \<Rightarrow> Inr (y # ys, s'')))"

abbreviation collect :: "(nat \<Rightarrow> 'a \<Rightarrow> 's \<Rightarrow> 'e + 'b \<times> 's) \<Rightarrow> 'a list \<Rightarrow> 's \<Rightarrow> 'e + 'b list \<times> 's" where
  "collect f xs s \<equiv> collect_from 0 f xs s"

lemma each_from_append:
  "each_from i f (xs @ ys) s =
     (case each_from i f xs s of Inl e \<Rightarrow> Inl e | Inr s' \<Rightarrow> each_from (i + length xs) f ys s')"
  by (induction xs arbitrary: i s) (auto split: sum.splits)

lemma each_from_invariant:
  assumes "each_from i f xs s = Inr s'" and "P s"
    and "\<And>j x t t'. \<lbrakk>x \<in> set xs; f j x t = Inr t'; P t\<rbrakk> \<Longrightarrow> P t'"
  shows "P s'"
  using assms
proof (induction xs arbitrary: i s)
  case Nil
  then show ?case by simp
next
  case (Cons x xs)
  then obtain t where t: "f i x s = Inr t" "each_from (Suc i) f xs t = Inr s'"
    by (auto split: sum.splits)
  have "P t" using Cons.prems(3) [OF _ t(1) Cons.prems(2)] by simp
  with Cons.IH [OF t(2)] Cons.prems(3) show ?case by fastforce
qed

text \<open>Every item of a loop that finished was accepted in some state.\<close>

lemma each_from_accepted:
  assumes "each_from i f xs s = Inr s'" and "x \<in> set xs"
  shows "\<exists>j t t'. f j x t = Inr t'"
  using assms
  by (induction xs arbitrary: i s) (auto split: sum.splits)

text \<open>Where the loop accumulates what it has seen, its final state says what it saw.\<close>

lemma each_from_map_state:
  assumes "each_from i f xs s = Inr s'"
    and "\<And>j x t t'. f j x t = Inr t' \<Longrightarrow> g t' = h x (g t)"
  shows "g s' = fold h xs (g s)"
  using assms(1)
  by (induction xs arbitrary: i s) (auto split: sum.splits simp: assms(2))

lemma collect_from_length:
  "collect_from i f xs s = Inr (ys, s') \<Longrightarrow> length ys = length xs"
  by (induction xs arbitrary: i s ys s') (auto split: sum.splits prod.splits)

lemma collect_from_accepted:
  assumes "collect_from i f xs s = Inr r" and "x \<in> set xs"
  shows "\<exists>j t r. f j x t = Inr r"
  using assms
  by (induction xs arbitrary: i s r) (fastforce split: sum.splits prod.splits)+

text \<open>What holds of every output where it was made holds of all of them.\<close>

lemma collect_from_pairs:
  assumes "collect_from i f xs s = Inr (ys, s')"
    and "\<And>j x t y t'. \<lbrakk>x \<in> set xs; f j x t = Inr (y, t')\<rbrakk> \<Longrightarrow> P x y"
  shows "list_all2 P xs ys"
  using assms
proof (induction xs arbitrary: i s ys s')
  case Nil
  then show ?case by simp
next
  case (Cons x xs)
  then obtain y t ys' where s: "f i x s = Inr (y, t)"
    "collect_from (Suc i) f xs t = Inr (ys', s')" "ys = y # ys'"
    by (auto split: sum.splits prod.splits)
  have "P x y" using Cons.prems(2) [OF _ s(1)] by simp
  moreover have "list_all2 P xs ys'"
    by (rule Cons.IH [OF s(2)]) (use Cons.prems(2) in auto)
  ultimately show ?case by (simp add: s(3))
qed

text \<open>The same with an invariant of the running state.\<close>

lemma collect_from_rule:
  assumes "collect_from i f xs s = Inr (ys, s')" and "I s"
    and "\<And>j x t y t'. \<lbrakk>x \<in> set xs; I t; f j x t = Inr (y, t')\<rbrakk> \<Longrightarrow> I t' \<and> P x y"
  shows "I s' \<and> list_all2 P xs ys"
  using assms
proof (induction xs arbitrary: i s ys s')
  case Nil
  then show ?case by simp
next
  case (Cons x xs)
  then obtain y t ys' where s: "f i x s = Inr (y, t)"
    "collect_from (Suc i) f xs t = Inr (ys', s')" "ys = y # ys'"
    by (auto split: sum.splits prod.splits)
  have t: "I t \<and> P x y" using Cons.prems(3) [OF _ Cons.prems(2) s(1)] by simp
  have step: "I u' \<and> P x' y'" if "x' \<in> set xs" "I u" "f j x' u = Inr (y', u')" for j x' u y' u'
    using Cons.prems(3) [OF _ that(2,3)] that(1) by simp
  have "I s' \<and> list_all2 P xs ys'"
    using Cons.IH [OF s(2)] t step by blast
  with t show ?case by (simp add: s(3))
qed

lemma collect_from_all:
  assumes "collect_from i f xs s = Inr (ys, s')"
    and "\<And>j x t y t'. f j x t = Inr (y, t') \<Longrightarrow> P y"
  shows "list_all P ys"
  using assms
  by (induction xs arbitrary: i s ys s') (fastforce split: sum.splits prod.splits)+

text \<open>
  Where the body computes its output and its state whenever it accepts, so does the loop; and
  where it accepts every item, the loop accepts.
\<close>

lemma collect_from_pure:
  assumes "collect_from i f xs s = Inr (ys, s')"
    and "\<And>j x t y t'. \<lbrakk>x \<in> set xs; f j x t = Inr (y, t')\<rbrakk> \<Longrightarrow> y = g x \<and> t' = h x t"
  shows "ys = map g xs \<and> s' = fold h xs s"
  using assms
proof (induction xs arbitrary: i s ys)
  case Nil
  then show ?case by simp
next
  case (Cons x xs)
  then obtain y t ys' where one: "f i x s = Inr (y, t)"
    and rest: "collect_from (Suc i) f xs t = Inr (ys', s')" "ys = y # ys'"
    by (auto split: sum.splits prod.splits)
  have "y = g x \<and> t = h x s" using Cons.prems(2) [OF _ one] by simp
  moreover have "ys' = map g xs \<and> s' = fold h xs t"
    by (rule Cons.IH [OF rest(1)]) (use Cons.prems(2) in auto)
  ultimately show ?case using rest(2) by simp
qed

lemma collect_from_accepts:
  assumes "\<And>j x t. x \<in> set xs \<Longrightarrow> f j x t = Inr (g x, h x t)"
  shows "collect_from i f xs s = Inr (map g xs, fold h xs s)"
  using assms by (induction xs arbitrary: i s) simp_all

text \<open>An accepting loop body that never refuses gives a loop that never refuses.\<close>

lemma collect_from_total:
  assumes "\<And>j x t. x \<in> set xs \<Longrightarrow> \<exists>r. f j x t = Inr r"
  shows "\<exists>r. collect_from i f xs s = Inr r"
  using assms
proof (induction xs arbitrary: i s)
  case Nil
  then show ?case by simp
next
  case (Cons x xs)
  obtain y t where s: "f i x s = Inr (y, t)" using Cons.prems [of x i s] by auto
  obtain r where "collect_from (Suc i) f xs t = Inr r"
    using Cons.IH [of "Suc i" t] Cons.prems by auto
  with s show ?case by (auto split: prod.splits)
qed

text \<open>A loop with no running state accepts exactly when its body accepts every item.\<close>

lemma each_from_checks:
  fixes f :: "nat \<Rightarrow> 'a \<Rightarrow> unit \<Rightarrow> 'e + unit"
  assumes "\<And>j x. x \<in> set xs \<Longrightarrow> f j x () = Inr () \<longleftrightarrow> P x"
  shows "each_from i f xs s = Inr s' \<longleftrightarrow> list_all P xs"
  using assms
proof (induction xs arbitrary: i)
  case Nil
  then show ?case by simp
next
  case (Cons x xs)
  have "f i x s = Inr () \<longleftrightarrow> P x" using Cons.prems [of x i] by simp
  moreover have "each_from (Suc i) f xs () = Inr () \<longleftrightarrow> list_all P xs"
    using Cons.IH [of "Suc i"] Cons.prems by simp
  ultimately show ?case by (cases "f i x ()") auto
qed

text \<open>A loop refuses with the refusal of the first item that is refused.\<close>

lemma each_from_refused:
  assumes "each_from i f xs s = Inl e"
  shows "\<exists>j x t. x \<in> set xs \<and> f j x t = Inl e"
  using assms
  by (induction xs arbitrary: i s) (fastforce split: sum.splits)+

end
