(* ===== verification/Vocabulary.thy ===== *)
theory Vocabulary
  imports Prelude
begin

text \<open>
  The closed vocabularies of the content model (package \<^verbatim>\<open>block\<close>, under
  \<^verbatim>\<open>api/internal/block\<close>). In Go each is a string type with a list of constants, a method
  \<^verbatim>\<open>Known\<close> and a function listing the values a refusal offers. Here each is a datatype with
  one constructor per constant and one for a string outside the list; \<open>*_wire\<close> is the string
  a value is stored and served as.

  The locales say what such a vocabulary promises and prove, once, what the decoders and the
  refusals rely on; every vocabulary of the package is an interpretation.
\<close>

section \<open>Interfaces\<close>

text \<open>The value a stored string reads as: the constant it spells, or itself.\<close>

definition read_wire :: "('v \<Rightarrow> string) \<Rightarrow> (string \<Rightarrow> 'v) \<Rightarrow> 'v list \<Rightarrow> string \<Rightarrow> 'v" where
  "read_wire wire other named s =
     (case find (\<lambda>v. wire v = s) named of Some v \<Rightarrow> v | None \<Rightarrow> other s)"

locale wire_vocabulary =
  fixes wire :: "'v \<Rightarrow> string"
    and other :: "string \<Rightarrow> 'v"
    and named :: "'v list"
  assumes wire_other: "wire (other s) = s"
    and distinct_wires: "distinct (map wire named)"
begin

lemma wire_read: "wire (read_wire wire other named s) = s"
  by (auto simp: read_wire_def wire_other find_Some_iff split: option.split)

lemma read_named:
  assumes "v \<in> set named"
  shows "read_wire wire other named (wire v) = v"
proof -
  have inj: "inj_on wire (set named)"
    using distinct_wires by (simp add: distinct_map)
  have "find (\<lambda>w. wire w = wire v) named \<noteq> None"
    using assms by (auto simp: find_None_iff)
  then obtain w where w: "find (\<lambda>w. wire w = wire v) named = Some w" by blast
  then have "wire w = wire v" and "w \<in> set named"
    by (auto simp: find_Some_iff)
  then have "w = v" using inj assms by (blast dest: inj_onD)
  with w show ?thesis by (simp add: read_wire_def)
qed

lemma read_fresh:
  assumes "s \<notin> wire ` set named"
  shows "read_wire wire other named s = other s"
proof -
  have "find (\<lambda>v. wire v = s) named = None"
    using assms by (auto simp: find_None_iff)
  then show ?thesis by (simp add: read_wire_def)
qed

end

locale closed_vocabulary = wire_vocabulary +
  fixes known :: "'a \<Rightarrow> bool"
    and allowed :: "'a list"
  assumes known_iff: "known v \<longleftrightarrow> v \<in> set allowed"
    and allowed_named: "set allowed \<subseteq> set named"
begin

text \<open>A string is accepted exactly when it spells one of the allowed values.\<close>

lemma known_read: "known (read_wire wire other named s) \<longleftrightarrow> s \<in> wire ` set allowed"
proof
  assume "known (read_wire wire other named s)"
  then have "read_wire wire other named s \<in> set allowed" by (simp add: known_iff)
  then have "wire (read_wire wire other named s) \<in> wire ` set allowed" by (rule imageI)
  then show "s \<in> wire ` set allowed" by (simp add: wire_read)
next
  assume "s \<in> wire ` set allowed"
  then obtain v where "v \<in> set allowed" "s = wire v" by blast
  then show "known (read_wire wire other named s)"
    using allowed_named by (auto simp: known_iff read_named)
qed

text \<open>Every value a refusal may offer is one the next attempt is accepted with.\<close>

lemma offered_known: "list_all known allowed"
  by (simp add: list_all_iff known_iff)

end

section \<open>The wording of a choice\<close>

text \<open>
  \<^verbatim>\<open>joinWithOr\<close> (\<^verbatim>\<open>validation.go\<close>) writes a closed vocabulary the way a refusal reads it.
\<close>

fun join_with_or :: "string list \<Rightarrow> string" where
  "join_with_or [] = ''''"
| "join_with_or [n] = n"
| "join_with_or (n # m # rest) =
     join '', '' (butlast (n # m # rest)) @ '' or '' @ last (n # m # rest)"

section \<open>The vocabularies\<close>

text \<open>
  \<^verbatim>\<open>Display\<close>: whether a text body is authored prose or exact
  prompt text. A type with no text body leaves it unset.
\<close>

datatype display =
    NoDisplay
  | DisplayRich
  | DisplayVerbatim
  | OtherDisplay string

fun display_wire :: "display \<Rightarrow> string" where
  "display_wire NoDisplay = ''''"
| "display_wire DisplayRich = ''rich''"
| "display_wire DisplayVerbatim = ''verbatim''"
| "display_wire (OtherDisplay s) = s"

definition displays :: "display list" where
  "displays =
    [DisplayRich, DisplayVerbatim]"

fun display_known :: "display \<Rightarrow> bool" where
  "display_known DisplayRich = True"
| "display_known DisplayVerbatim = True"
| "display_known _ = False"

interpretation display: closed_vocabulary display_wire OtherDisplay "([NoDisplay] @ displays)" display_known "displays"
proof unfold_locales
  show "display_known v \<longleftrightarrow> v \<in> set displays" for v
    by (cases v) (simp_all add: displays_def)
qed (simp_all add: displays_def)

text \<open>
  \<^verbatim>\<open>ItemSize\<close>: how large the images inside an element are drawn.
\<close>

datatype item_size =
    NoItemSize
  | ItemSmall
  | ItemMedium
  | ItemLarge
  | OtherItemSize string

fun item_size_wire :: "item_size \<Rightarrow> string" where
  "item_size_wire NoItemSize = ''''"
| "item_size_wire ItemSmall = ''small''"
| "item_size_wire ItemMedium = ''medium''"
| "item_size_wire ItemLarge = ''large''"
| "item_size_wire (OtherItemSize s) = s"

definition item_sizes :: "item_size list" where
  "item_sizes =
    [ItemSmall, ItemMedium, ItemLarge]"

fun item_size_known :: "item_size \<Rightarrow> bool" where
  "item_size_known ItemSmall = True"
| "item_size_known ItemMedium = True"
| "item_size_known ItemLarge = True"
| "item_size_known _ = False"

interpretation item_size: closed_vocabulary item_size_wire OtherItemSize "([NoItemSize] @ item_sizes)" item_size_known "item_sizes"
proof unfold_locales
  show "item_size_known v \<longleftrightarrow> v \<in> set item_sizes" for v
    by (cases v) (simp_all add: item_sizes_def)
qed (simp_all add: item_sizes_def)

text \<open>
  \<^verbatim>\<open>EntryPosition\<close>: where a lorebook entry is inserted. Unset
  leaves it to the reader of the book.
\<close>

datatype entry_position =
    NoPosition
  | BeforeCharacter
  | AfterCharacter
  | OtherPosition string

fun entry_position_wire :: "entry_position \<Rightarrow> string" where
  "entry_position_wire NoPosition = ''''"
| "entry_position_wire BeforeCharacter = ''before_character''"
| "entry_position_wire AfterCharacter = ''after_character''"
| "entry_position_wire (OtherPosition s) = s"

definition entry_positions :: "entry_position list" where
  "entry_positions =
    [BeforeCharacter, AfterCharacter]"

fun entry_position_known :: "entry_position \<Rightarrow> bool" where
  "entry_position_known NoPosition = True"
| "entry_position_known BeforeCharacter = True"
| "entry_position_known AfterCharacter = True"
| "entry_position_known _ = False"

interpretation entry_position: closed_vocabulary entry_position_wire OtherPosition "([NoPosition] @ entry_positions)" entry_position_known "([NoPosition] @ entry_positions)"
proof unfold_locales
  show "entry_position_known v \<longleftrightarrow> v \<in> set ([NoPosition] @ entry_positions)" for v
    by (cases v) (simp_all add: entry_positions_def)
qed (simp_all add: entry_positions_def)

text \<open>\<^verbatim>\<open>PromptRole\<close>: who speaks a fragment.\<close>

datatype prompt_role =
    NoPromptRole
  | PromptSystem
  | PromptUser
  | PromptAssistant
  | PromptUserAppend
  | PromptAssistantAppend
  | OtherPromptRole string

fun prompt_role_wire :: "prompt_role \<Rightarrow> string" where
  "prompt_role_wire NoPromptRole = ''''"
| "prompt_role_wire PromptSystem = ''system''"
| "prompt_role_wire PromptUser = ''user''"
| "prompt_role_wire PromptAssistant = ''assistant''"
| "prompt_role_wire PromptUserAppend = ''user_append''"
| "prompt_role_wire PromptAssistantAppend = ''assistant_append''"
| "prompt_role_wire (OtherPromptRole s) = s"

definition prompt_roles :: "prompt_role list" where
  "prompt_roles =
    [PromptSystem, PromptUser, PromptAssistant, PromptUserAppend,
     PromptAssistantAppend]"

fun prompt_role_known :: "prompt_role \<Rightarrow> bool" where
  "prompt_role_known NoPromptRole = True"
| "prompt_role_known PromptSystem = True"
| "prompt_role_known PromptUser = True"
| "prompt_role_known PromptAssistant = True"
| "prompt_role_known PromptUserAppend = True"
| "prompt_role_known PromptAssistantAppend = True"
| "prompt_role_known _ = False"

interpretation prompt_role: closed_vocabulary prompt_role_wire OtherPromptRole "([NoPromptRole] @ prompt_roles)" prompt_role_known "([NoPromptRole] @ prompt_roles)"
proof unfold_locales
  show "prompt_role_known v \<longleftrightarrow> v \<in> set ([NoPromptRole] @ prompt_roles)" for v
    by (cases v) (simp_all add: prompt_roles_def)
qed (simp_all add: prompt_roles_def)

text \<open>
  \<^verbatim>\<open>PromptPlacement\<close>: where a fragment goes relative to the
  conversation.
\<close>

datatype prompt_placement =
    NoPlacement
  | BeforeHistory
  | AfterHistory
  | InHistory
  | OtherPlacement string

fun prompt_placement_wire :: "prompt_placement \<Rightarrow> string" where
  "prompt_placement_wire NoPlacement = ''''"
| "prompt_placement_wire BeforeHistory = ''pre_history''"
| "prompt_placement_wire AfterHistory = ''post_history''"
| "prompt_placement_wire InHistory = ''in_history''"
| "prompt_placement_wire (OtherPlacement s) = s"

definition prompt_placements :: "prompt_placement list" where
  "prompt_placements =
    [BeforeHistory, AfterHistory, InHistory]"

fun prompt_placement_known :: "prompt_placement \<Rightarrow> bool" where
  "prompt_placement_known NoPlacement = True"
| "prompt_placement_known BeforeHistory = True"
| "prompt_placement_known AfterHistory = True"
| "prompt_placement_known InHistory = True"
| "prompt_placement_known _ = False"

interpretation prompt_placement: closed_vocabulary prompt_placement_wire OtherPlacement "([NoPlacement] @ prompt_placements)" prompt_placement_known "([NoPlacement] @ prompt_placements)"
proof unfold_locales
  show "prompt_placement_known v \<longleftrightarrow> v \<in> set ([NoPlacement] @ prompt_placements)" for v
    by (cases v) (simp_all add: prompt_placements_def)
qed (simp_all add: prompt_placements_def)

text \<open>\<^verbatim>\<open>SettingType\<close>: what one setting holds.\<close>

datatype setting_type =
    SettingNumber
  | SettingBoolean
  | SettingText
  | SettingStrings
  | OtherSetting string

fun setting_type_wire :: "setting_type \<Rightarrow> string" where
  "setting_type_wire SettingNumber = ''number''"
| "setting_type_wire SettingBoolean = ''boolean''"
| "setting_type_wire SettingText = ''text''"
| "setting_type_wire SettingStrings = ''string_list''"
| "setting_type_wire (OtherSetting s) = s"

definition setting_types :: "setting_type list" where
  "setting_types =
    [SettingNumber, SettingBoolean, SettingText, SettingStrings]"

fun setting_type_known :: "setting_type \<Rightarrow> bool" where
  "setting_type_known SettingNumber = True"
| "setting_type_known SettingBoolean = True"
| "setting_type_known SettingText = True"
| "setting_type_known SettingStrings = True"
| "setting_type_known _ = False"

interpretation setting_type: closed_vocabulary setting_type_wire OtherSetting "setting_types" setting_type_known "setting_types"
proof unfold_locales
  show "setting_type_known v \<longleftrightarrow> v \<in> set setting_types" for v
    by (cases v) (simp_all add: setting_types_def)
qed (simp_all add: setting_types_def)

text \<open>
  \<^verbatim>\<open>VariableWidget\<close>: the control a variable is filled in with.
\<close>

datatype variable_widget =
    WidgetSwitch
  | WidgetSelect
  | WidgetMultiSelect
  | WidgetNumber
  | WidgetSlider
  | WidgetText
  | WidgetTextArea
  | OtherWidget string

fun variable_widget_wire :: "variable_widget \<Rightarrow> string" where
  "variable_widget_wire WidgetSwitch = ''switch''"
| "variable_widget_wire WidgetSelect = ''select''"
| "variable_widget_wire WidgetMultiSelect = ''multiselect''"
| "variable_widget_wire WidgetNumber = ''number''"
| "variable_widget_wire WidgetSlider = ''slider''"
| "variable_widget_wire WidgetText = ''text''"
| "variable_widget_wire WidgetTextArea = ''textarea''"
| "variable_widget_wire (OtherWidget s) = s"

definition variable_widgets :: "variable_widget list" where
  "variable_widgets =
    [WidgetSwitch, WidgetSelect, WidgetMultiSelect, WidgetNumber, WidgetSlider,
     WidgetText, WidgetTextArea]"

fun variable_widget_known :: "variable_widget \<Rightarrow> bool" where
  "variable_widget_known WidgetSwitch = True"
| "variable_widget_known WidgetSelect = True"
| "variable_widget_known WidgetMultiSelect = True"
| "variable_widget_known WidgetNumber = True"
| "variable_widget_known WidgetSlider = True"
| "variable_widget_known WidgetText = True"
| "variable_widget_known WidgetTextArea = True"
| "variable_widget_known _ = False"

interpretation variable_widget: closed_vocabulary variable_widget_wire OtherWidget "variable_widgets" variable_widget_known "variable_widgets"
proof unfold_locales
  show "variable_widget_known v \<longleftrightarrow> v \<in> set variable_widgets" for v
    by (cases v) (simp_all add: variable_widgets_def)
qed (simp_all add: variable_widgets_def)

text \<open>\<^verbatim>\<open>ScriptTarget\<close>: the text a script runs over.\<close>

datatype script_target =
    TargetUserInput
  | TargetModelOutput
  | TargetSlashCommand
  | TargetLorebook
  | OtherTarget string

fun script_target_wire :: "script_target \<Rightarrow> string" where
  "script_target_wire TargetUserInput = ''user_input''"
| "script_target_wire TargetModelOutput = ''model_output''"
| "script_target_wire TargetSlashCommand = ''slash_command''"
| "script_target_wire TargetLorebook = ''lorebook''"
| "script_target_wire (OtherTarget s) = s"

definition script_targets :: "script_target list" where
  "script_targets =
    [TargetUserInput, TargetModelOutput, TargetSlashCommand, TargetLorebook]"

fun script_target_known :: "script_target \<Rightarrow> bool" where
  "script_target_known TargetUserInput = True"
| "script_target_known TargetModelOutput = True"
| "script_target_known TargetSlashCommand = True"
| "script_target_known TargetLorebook = True"
| "script_target_known _ = False"

interpretation script_target: closed_vocabulary script_target_wire OtherTarget "script_targets" script_target_known "script_targets"
proof unfold_locales
  show "script_target_known v \<longleftrightarrow> v \<in> set script_targets" for v
    by (cases v) (simp_all add: script_targets_def)
qed (simp_all add: script_targets_def)

text \<open>\<^verbatim>\<open>ScriptEffect\<close>: what a replacement changes.\<close>

datatype script_effect =
    EffectDisplay
  | EffectPrompt
  | OtherEffect string

fun script_effect_wire :: "script_effect \<Rightarrow> string" where
  "script_effect_wire EffectDisplay = ''display''"
| "script_effect_wire EffectPrompt = ''prompt''"
| "script_effect_wire (OtherEffect s) = s"

definition script_effects :: "script_effect list" where
  "script_effects =
    [EffectDisplay, EffectPrompt]"

fun script_effect_known :: "script_effect \<Rightarrow> bool" where
  "script_effect_known EffectDisplay = True"
| "script_effect_known EffectPrompt = True"
| "script_effect_known _ = False"

interpretation script_effect: closed_vocabulary script_effect_wire OtherEffect "script_effects" script_effect_known "script_effects"
proof unfold_locales
  show "script_effect_known v \<longleftrightarrow> v \<in> set script_effects" for v
    by (cases v) (simp_all add: script_effects_def)
qed (simp_all add: script_effects_def)

text \<open>\<^verbatim>\<open>RecordSchema\<close>: the shape a pack's records have.\<close>

datatype record_schema =
    LumiaRecordSchema
  | OtherSchema string

fun record_schema_wire :: "record_schema \<Rightarrow> string" where
  "record_schema_wire LumiaRecordSchema = ''lumia''"
| "record_schema_wire (OtherSchema s) = s"

definition record_schemas :: "record_schema list" where
  "record_schemas =
    [LumiaRecordSchema]"

fun record_schema_known :: "record_schema \<Rightarrow> bool" where
  "record_schema_known LumiaRecordSchema = True"
| "record_schema_known _ = False"

interpretation record_schema: closed_vocabulary record_schema_wire OtherSchema "record_schemas" record_schema_known "record_schemas"
proof unfold_locales
  show "record_schema_known v \<longleftrightarrow> v \<in> set record_schemas" for v
    by (cases v) (simp_all add: record_schemas_def)
qed (simp_all add: record_schemas_def)

text \<open>
  \<^verbatim>\<open>Role\<close>: what an element's content means, and the whole of what
  import and export read. \<open>NoRole\<close> is the empty string: no import or export
  meaning.
\<close>

datatype role =
    NoRole
  | RoleDescription
  | RolePersonality
  | RoleScenario
  | RoleGreetings
  | RoleGroupGreetings
  | RoleExampleDialogue
  | RoleSystemPrompt
  | RolePostHistoryInstructions
  | RoleCreatorNotes
  | RoleGallery
  | RoleExpressions
  | RoleLorebookEntries
  | RolePromptFragments
  | RolePromptVariables
  | RoleSamplerSettings
  | RoleCompletionSettings
  | RoleAdvancedSettings
  | RolePromptNudges
  | RoleRegexScripts
  | RoleThemeTokens
  | RoleThemeControls
  | RoleStylesheets
  | RolePackItems
  | OtherRole string

fun role_wire :: "role \<Rightarrow> string" where
  "role_wire NoRole = ''''"
| "role_wire RoleDescription = ''description''"
| "role_wire RolePersonality = ''personality''"
| "role_wire RoleScenario = ''scenario''"
| "role_wire RoleGreetings = ''greetings''"
| "role_wire RoleGroupGreetings = ''group_greetings''"
| "role_wire RoleExampleDialogue = ''example_dialogue''"
| "role_wire RoleSystemPrompt = ''system_prompt''"
| "role_wire RolePostHistoryInstructions = ''post_history_instructions''"
| "role_wire RoleCreatorNotes = ''creator_notes''"
| "role_wire RoleGallery = ''gallery''"
| "role_wire RoleExpressions = ''expressions''"
| "role_wire RoleLorebookEntries = ''lorebook_entries''"
| "role_wire RolePromptFragments = ''prompt_fragments''"
| "role_wire RolePromptVariables = ''prompt_variables''"
| "role_wire RoleSamplerSettings = ''sampler_settings''"
| "role_wire RoleCompletionSettings = ''completion_settings''"
| "role_wire RoleAdvancedSettings = ''advanced_settings''"
| "role_wire RolePromptNudges = ''prompt_nudges''"
| "role_wire RoleRegexScripts = ''regex_scripts''"
| "role_wire RoleThemeTokens = ''theme_tokens''"
| "role_wire RoleThemeControls = ''theme_controls''"
| "role_wire RoleStylesheets = ''stylesheets''"
| "role_wire RolePackItems = ''pack_items''"
| "role_wire (OtherRole s) = s"

definition roles :: "role list" where
  "roles =
    [RoleDescription, RolePersonality, RoleScenario, RoleGreetings,
     RoleGroupGreetings, RoleExampleDialogue, RoleSystemPrompt,
     RolePostHistoryInstructions, RoleCreatorNotes, RoleGallery, RoleExpressions,
     RoleLorebookEntries, RolePromptFragments, RolePromptVariables,
     RoleSamplerSettings, RoleCompletionSettings, RoleAdvancedSettings,
     RolePromptNudges, RoleRegexScripts, RoleThemeTokens, RoleThemeControls,
     RoleStylesheets, RolePackItems]"

fun role_known :: "role \<Rightarrow> bool" where
  "role_known RoleDescription = True"
| "role_known RolePersonality = True"
| "role_known RoleScenario = True"
| "role_known RoleGreetings = True"
| "role_known RoleGroupGreetings = True"
| "role_known RoleExampleDialogue = True"
| "role_known RoleSystemPrompt = True"
| "role_known RolePostHistoryInstructions = True"
| "role_known RoleCreatorNotes = True"
| "role_known RoleGallery = True"
| "role_known RoleExpressions = True"
| "role_known RoleLorebookEntries = True"
| "role_known RolePromptFragments = True"
| "role_known RolePromptVariables = True"
| "role_known RoleSamplerSettings = True"
| "role_known RoleCompletionSettings = True"
| "role_known RoleAdvancedSettings = True"
| "role_known RolePromptNudges = True"
| "role_known RoleRegexScripts = True"
| "role_known RoleThemeTokens = True"
| "role_known RoleThemeControls = True"
| "role_known RoleStylesheets = True"
| "role_known RolePackItems = True"
| "role_known _ = False"

interpretation role: closed_vocabulary role_wire OtherRole "([NoRole] @ roles)" role_known "roles"
proof unfold_locales
  show "role_known v \<longleftrightarrow> v \<in> set roles" for v
    by (cases v) (simp_all add: roles_def)
qed (simp_all add: roles_def)

section \<open>The choices refusals offer\<close>

definition join_item_sizes :: string where
  "join_item_sizes = join_with_or (map item_size_wire item_sizes)"

definition join_prompt_roles :: string where
  "join_prompt_roles = join_with_or (map prompt_role_wire prompt_roles)"

definition join_placements :: string where
  "join_placements = join_with_or (map prompt_placement_wire prompt_placements)"

definition join_setting_types :: string where
  "join_setting_types = join_with_or (map setting_type_wire setting_types)"

definition join_widgets :: string where
  "join_widgets = join_with_or (map variable_widget_wire variable_widgets)"

definition join_script_targets :: string where
  "join_script_targets = join_with_or (map script_target_wire script_targets)"

end
