(* ===== verification/Content.thy ===== *)
theory Content
  imports Vocabulary
begin

text \<open>
  The element content model (\<^verbatim>\<open>element.go\<close>, \<^verbatim>\<open>entry_table.go\<close>, \<^verbatim>\<open>preset.go\<close>, \<^verbatim>\<open>theme.go\<close>,
  \<^verbatim>\<open>pack.go\<close>, \<^verbatim>\<open>item.go\<close>, \<^verbatim>\<open>schema.go\<close> of package \<^verbatim>\<open>block\<close>): the element types and the
  content each carries, what counts as empty, the identified items inside a content, the
  element itself, and which roles attach to which types.

  A nil slice and an empty one are both the empty list here: every function of the package
  modelled reads them alike. A \<^verbatim>\<open>float64\<close> is carried and never computed with, so it is its
  64 bits. A Go \<^verbatim>\<open>int\<close> of this package is only compared, so it is an \<open>int\<close>.
\<close>

section \<open>Element types\<close>

datatype elem_type =
    TypeProse
  | TypeTextSet
  | TypeFieldList
  | TypeDialogueSample
  | TypeImageSet
  | TypeLinkList
  | TypeEntryTable
  | TypePromptList
  | TypeVariableSchema
  | TypeSettingGroup
  | TypeScriptList
  | TypeColorSet
  | TypeStylesheetSet
  | TypeRecordList
  | OtherType string

fun elem_type_wire :: "elem_type \<Rightarrow> string" where
  "elem_type_wire TypeProse = ''prose''"
| "elem_type_wire TypeTextSet = ''text_set''"
| "elem_type_wire TypeFieldList = ''field_list''"
| "elem_type_wire TypeDialogueSample = ''dialogue_sample''"
| "elem_type_wire TypeImageSet = ''image_set''"
| "elem_type_wire TypeLinkList = ''link_list''"
| "elem_type_wire TypeEntryTable = ''entry_table''"
| "elem_type_wire TypePromptList = ''prompt_list''"
| "elem_type_wire TypeVariableSchema = ''variable_schema''"
| "elem_type_wire TypeSettingGroup = ''setting_group''"
| "elem_type_wire TypeScriptList = ''script_list''"
| "elem_type_wire TypeColorSet = ''color_set''"
| "elem_type_wire TypeStylesheetSet = ''stylesheet_set''"
| "elem_type_wire TypeRecordList = ''record_list''"
| "elem_type_wire (OtherType s) = s"

section \<open>Presentation options\<close>

record options =
  opt_display :: display
  opt_item_size :: item_size

abbreviation no_options :: options where
  "no_options \<equiv> \<lparr>opt_display = NoDisplay, opt_item_size = NoItemSize\<rparr>"

section \<open>The items inside an element\<close>

type_synonym float64 = "64 word"

record text_item =
  text_id :: uuid
  text_name :: string
  text_text :: string

record dialogue_turn =
  turn_id :: uuid
  turn_speaker :: string
  turn_text :: string

record image_item =
  image_id :: uuid
  image_media_id :: uuid
  image_name :: string

record field_item =
  field_id :: uuid
  field_name :: string
  field_value :: string

record link_item =
  link_id :: uuid
  link_label :: string
  link_url :: string
  link_note :: string

record entry_recursion =
  rec_exclude :: bool
  rec_prevent :: bool
  rec_delay_until :: bool

record entry =
  entry_id :: uuid
  entry_name :: string
  entry_keys :: "string list"
  entry_secondary_keys :: "string list"
  entry_selective :: bool
  entry_case_sensitive :: bool
  entry_constant :: bool
  entry_enabled :: bool
  entry_order :: int
  entry_position :: entry_position
  entry_recursion :: entry_recursion
  entry_text :: string

record prompt_group =
  group_id :: uuid
  group_name :: string

record prompt_fragment =
  frag_id :: uuid
  frag_name :: string
  frag_group_id :: "uuid option"
  frag_role :: prompt_role
  frag_text :: string
  frag_protected :: bool
  frag_marker :: string
  frag_enabled :: bool
  frag_placement :: prompt_placement
  frag_depth :: "int option"

text \<open>A setting or variable value, \<^verbatim>\<open>Value\<close>: each form it may be given in, where it is.\<close>

record held_value =
  val_number :: "float64 option"
  val_boolean :: "bool option"
  val_text :: "string option"
  val_strings :: "string list"

record setting =
  set_id :: uuid
  set_name :: string
  set_label :: string
  set_type :: setting_type
  set_choices :: "string list"
  set_value :: "held_value option"

record variable_option =
  vopt_key :: string
  vopt_label :: string
  vopt_value :: string

record variable_range =
  range_min :: "float64 option"
  range_max :: "float64 option"
  range_step :: "float64 option"

record variable =
  var_id :: uuid
  var_name :: string
  var_widget :: variable_widget
  var_label :: string
  var_description :: string
  var_fragment_id :: "uuid option"
  var_default :: "held_value option"
  var_value :: "held_value option"
  var_options :: "variable_option list"
  var_range :: "variable_range option"
  var_separator :: string
  var_rows :: int

record script =
  script_id :: uuid
  script_name :: string
  script_description :: string
  script_find :: string
  script_flags :: string
  script_replace :: string
  script_trim :: "string list"
  script_targets_held :: "script_target list"
  script_affects :: "script_effect list"
  script_enabled :: bool
  script_min_depth :: "int option"
  script_max_depth :: "int option"
  script_run_on_edit :: bool

record color =
  color_id :: uuid
  color_name :: string
  color_value :: string

record color_mode =
  mode_name :: string
  mode_colors :: "color list"

record stylesheet =
  sheet_id :: uuid
  sheet_name :: string
  sheet_css :: string
  sheet_enabled :: bool

record stylesheet_asset =
  asset_id :: uuid
  asset_path :: string
  asset_media_type :: string
  asset_data :: "8 word list"

record lumia_record =
  lumia_id :: uuid
  lumia_name :: string
  lumia_definition :: string
  lumia_personality :: string
  lumia_behavior :: string
  lumia_avatar_url :: "uuid option"
  lumia_gender_identity :: int
  lumia_author_name :: string
  lumia_version :: int

section \<open>Content\<close>

text \<open>
  The body of one element type, one constructor per implementation of the interface
  \<^verbatim>\<open>Content\<close>.
\<close>

datatype content =
    Prose string
  | TextSet "text_item list"
  | DialogueSample "dialogue_turn list"
  | ImageSet "image_item list"
  | FieldList "field_item list"
  | LinkList "link_item list"
  | EntryTable "entry list"
  | PromptList "prompt_group list" "prompt_fragment list"
  | VariableSchema "variable list"
  | SettingGroup "setting list"
  | ScriptList "script list"
  | ColorSet "color_mode list"
  | StylesheetSet string "stylesheet list" "stylesheet_asset list"
  | RecordList record_schema "lumia_record list"

text \<open>What a saved choice calls an option of a variable (\<^verbatim>\<open>VariableOption.Named\<close>).\<close>

definition option_named :: "variable_option \<Rightarrow> string" where
  "option_named o' = (if vopt_key o' \<noteq> [] then vopt_key o' else vopt_value o')"

text \<open>Whether an element carries nothing a reader would see (the \<^verbatim>\<open>Empty\<close> methods).\<close>

fun content_empty :: "content \<Rightarrow> bool" where
  "content_empty (Prose t) \<longleftrightarrow> t = []"
| "content_empty (TextSet ts) \<longleftrightarrow> list_all (\<lambda>i. text_text i = []) ts"
| "content_empty (DialogueSample ts) \<longleftrightarrow> ts = []"
| "content_empty (ImageSet is) \<longleftrightarrow> is = []"
| "content_empty (FieldList fs) \<longleftrightarrow> list_all (\<lambda>f. field_value f = []) fs"
| "content_empty (LinkList ls) \<longleftrightarrow> list_all (\<lambda>l. link_url l = []) ls"
| "content_empty (EntryTable es) \<longleftrightarrow> list_all (\<lambda>e. entry_text e = []) es"
| "content_empty (PromptList gs fs) \<longleftrightarrow> fs = []"
| "content_empty (VariableSchema vs) \<longleftrightarrow> vs = []"
| "content_empty (SettingGroup ss) \<longleftrightarrow> list_all (\<lambda>s. set_value s = None) ss"
| "content_empty (ScriptList ss) \<longleftrightarrow> ss = []"
| "content_empty (ColorSet ms) \<longleftrightarrow>
     list_all (\<lambda>m. list_all (\<lambda>c. color_value c = []) (mode_colors m)) ms"
| "content_empty (StylesheetSet g ss as) \<longleftrightarrow>
     g = [] \<and> as = [] \<and> list_all (\<lambda>s. sheet_css s = []) ss"
| "content_empty (RecordList sc rs) \<longleftrightarrow> rs = []"

text \<open>How many of a group's settings somebody filled in (\<^verbatim>\<open>SettingGroup.Supplied\<close>).\<close>

definition supplied :: "setting list \<Rightarrow> nat" where
  "supplied ss = length (filter (\<lambda>s. set_value s \<noteq> None) ss)"

section \<open>The element vocabulary\<close>

text \<open>
  \<^verbatim>\<open>schemas\<close> (\<^verbatim>\<open>schema.go\<close>): every type of the vocabulary with the content an element of it
  starts with and the number of upgrades stored content goes through, one fewer than its
  version.
\<close>

definition schemas :: "(elem_type \<times> content \<times> nat) list" where
  "schemas =
    [(TypeProse, Prose '''', 0),
     (TypeTextSet, TextSet [], 1),
     (TypeDialogueSample, DialogueSample [], 1),
     (TypeImageSet, ImageSet [], 1),
     (TypeFieldList, FieldList [], 1),
     (TypeLinkList, LinkList [], 1),
     (TypeEntryTable, EntryTable [], 1),
     (TypePromptList, PromptList [] [], 0),
     (TypeVariableSchema, VariableSchema [], 0),
     (TypeSettingGroup, SettingGroup [], 0),
     (TypeScriptList, ScriptList [], 0),
     (TypeColorSet, ColorSet [], 0),
     (TypeStylesheetSet, StylesheetSet '''' [] [], 0),
     (TypeRecordList, RecordList LumiaRecordSchema [], 0)]"

text \<open>\<^verbatim>\<open>Type.Known\<close>, \<^verbatim>\<open>Type.Empty\<close> (no content for a type outside the vocabulary) and the
  schema version an element is stored at.\<close>

definition elem_type_known :: "elem_type \<Rightarrow> bool" where
  "elem_type_known t \<longleftrightarrow> map_of schemas t \<noteq> None"

definition type_empty :: "elem_type \<Rightarrow> content option" where
  "type_empty t = map_option fst (map_of schemas t)"

definition schema_version :: "elem_type \<Rightarrow> nat option" where
  "schema_version t = map_option (\<lambda>(c, upgrades). Suc upgrades) (map_of schemas t)"

text \<open>The type whose implementation a content is.\<close>

fun content_type :: "content \<Rightarrow> elem_type" where
  "content_type (Prose t) = TypeProse"
| "content_type (TextSet ts) = TypeTextSet"
| "content_type (DialogueSample ts) = TypeDialogueSample"
| "content_type (ImageSet is) = TypeImageSet"
| "content_type (FieldList fs) = TypeFieldList"
| "content_type (LinkList ls) = TypeLinkList"
| "content_type (EntryTable es) = TypeEntryTable"
| "content_type (PromptList gs fs) = TypePromptList"
| "content_type (VariableSchema vs) = TypeVariableSchema"
| "content_type (SettingGroup ss) = TypeSettingGroup"
| "content_type (ScriptList ss) = TypeScriptList"
| "content_type (ColorSet ms) = TypeColorSet"
| "content_type (StylesheetSet g ss as) = TypeStylesheetSet"
| "content_type (RecordList sc rs) = TypeRecordList"

lemma type_empty_type: "type_empty t = Some c \<Longrightarrow> content_type c = t"
  by (cases t) (auto simp: type_empty_def schemas_def)

lemma type_empty_empty: "type_empty t = Some c \<Longrightarrow> content_empty c"
  by (cases t) (auto simp: type_empty_def schemas_def)

lemma type_empty_known: "elem_type_known t \<longleftrightarrow> (\<exists>c. type_empty t = Some c)"
  by (auto simp: elem_type_known_def type_empty_def)

lemma content_type_known: "elem_type_known (content_type c)"
  by (cases c) (simp_all add: elem_type_known_def schemas_def)

definition elem_types :: "elem_type list" where
  "elem_types = map fst schemas"

interpretation elem_type:
  closed_vocabulary elem_type_wire OtherType elem_types elem_type_known elem_types
proof unfold_locales
  show "elem_type_known v \<longleftrightarrow> v \<in> set elem_types" for v
    by (simp add: elem_type_known_def elem_types_def map_of_eq_None_iff)
qed (simp_all add: elem_types_def schemas_def)

section \<open>Items and their identifiers\<close>

text \<open>\<^verbatim>\<open>itemID\<close> keeps the identifier an item arrived with and mints one where it has none.\<close>

definition item_id :: "uuid \<Rightarrow> uuid_source \<Rightarrow> uuid \<times> uuid_source" where
  "item_id supplied_id src =
     (if supplied_id \<noteq> nil_uuid then (supplied_id, src) else (drawn src, after_draw src))"

text \<open>\<^verbatim>\<open>ItemIDs\<close>: the identifiers of an element's items, in order.\<close>

fun item_ids :: "content \<Rightarrow> uuid list" where
  "item_ids (TextSet ts) = map text_id ts"
| "item_ids (DialogueSample ts) = map turn_id ts"
| "item_ids (ImageSet is) = map image_id is"
| "item_ids (FieldList fs) = map field_id fs"
| "item_ids (LinkList ls) = map link_id ls"
| "item_ids (EntryTable es) = map entry_id es"
| "item_ids (PromptList gs fs) = map group_id gs @ map frag_id fs"
| "item_ids (VariableSchema vs) = map var_id vs"
| "item_ids (SettingGroup ss) = map set_id ss"
| "item_ids (ScriptList ss) = map script_id ss"
| "item_ids (ColorSet ms) = concat (map (\<lambda>m. map color_id (mode_colors m)) ms)"
| "item_ids (StylesheetSet g ss as) = map sheet_id ss @ map asset_id as"
| "item_ids (RecordList sc rs) = map lumia_id rs"
| "item_ids (Prose t) = []"

text \<open>\<^verbatim>\<open>elementItems\<close> (\<^verbatim>\<open>validation.go\<close>): everything a limit is measured against.\<close>

datatype item =
    ItemText text_item
  | ItemTurn dialogue_turn
  | ItemImage image_item
  | ItemField field_item
  | ItemLink link_item
  | ItemEntry entry
  | ItemGroup prompt_group
  | ItemFragment prompt_fragment
  | ItemVariable variable
  | ItemSetting setting
  | ItemScript script
  | ItemColor color
  | ItemSheet stylesheet
  | ItemAsset stylesheet_asset
  | ItemRecord lumia_record

fun element_items :: "content \<Rightarrow> item list" where
  "element_items (TextSet ts) = map ItemText ts"
| "element_items (DialogueSample ts) = map ItemTurn ts"
| "element_items (ImageSet is) = map ItemImage is"
| "element_items (FieldList fs) = map ItemField fs"
| "element_items (LinkList ls) = map ItemLink ls"
| "element_items (EntryTable es) = map ItemEntry es"
| "element_items (PromptList gs fs) = map ItemGroup gs @ map ItemFragment fs"
| "element_items (VariableSchema vs) = map ItemVariable vs"
| "element_items (SettingGroup ss) = map ItemSetting ss"
| "element_items (ScriptList ss) = map ItemScript ss"
| "element_items (ColorSet ms) = concat (map (\<lambda>m. map ItemColor (mode_colors m)) ms)"
| "element_items (StylesheetSet g ss as) = map ItemSheet ss @ map ItemAsset as"
| "element_items (RecordList sc rs) = map ItemRecord rs"
| "element_items (Prose t) = []"

fun own_id :: "item \<Rightarrow> uuid" where
  "own_id (ItemText i) = text_id i"
| "own_id (ItemTurn i) = turn_id i"
| "own_id (ItemImage i) = image_id i"
| "own_id (ItemField i) = field_id i"
| "own_id (ItemLink i) = link_id i"
| "own_id (ItemEntry i) = entry_id i"
| "own_id (ItemGroup i) = group_id i"
| "own_id (ItemFragment i) = frag_id i"
| "own_id (ItemVariable i) = var_id i"
| "own_id (ItemSetting i) = set_id i"
| "own_id (ItemScript i) = script_id i"
| "own_id (ItemColor i) = color_id i"
| "own_id (ItemSheet i) = sheet_id i"
| "own_id (ItemAsset i) = asset_id i"
| "own_id (ItemRecord i) = lumia_id i"

text \<open>
  The two lists of items the package keeps, one for identifiers and one for limits, agree.
\<close>

lemma item_ids_element_items: "item_ids c = map own_id (element_items c)"
  by (cases c) (simp_all add: map_concat comp_def)

section \<open>Elements\<close>

text \<open>
  \<^verbatim>\<open>Slot\<close> is the name of a place in a layout; \<^verbatim>\<open>Element\<close> is one piece of content in a block.
  The content is an interface value, which may be nil.
\<close>

datatype slot = SlotMain | SlotLeft | SlotRight | SlotAside | SlotMiddle | SlotTop | SlotBottom
  | NoSlot | OtherSlot string

record element =
  el_id :: uuid
  el_type :: elem_type
  el_role :: role
  el_slot :: slot
  el_options :: options
  el_content :: "content option"

definition written :: "element \<Rightarrow> bool" where
  "written e \<longleftrightarrow> (case el_content e of None \<Rightarrow> False | Some c \<Rightarrow> \<not> content_empty c)"

definition element_item_ids :: "element \<Rightarrow> uuid list" where
  "element_item_ids e = (case el_content e of None \<Rightarrow> [] | Some c \<Rightarrow> item_ids c)"

section \<open>Roles\<close>

datatype cardinality = Singular | Repeatable

definition role_cardinality :: "role \<Rightarrow> cardinality" where
  "role_cardinality r = (if r = RoleGallery then Repeatable else Singular)"

text \<open>\<^verbatim>\<open>roleTypes\<close>, \<^verbatim>\<open>Role.AllowedTypes\<close> and \<^verbatim>\<open>Role.Allows\<close>.\<close>

fun allowed_types :: "role \<Rightarrow> elem_type list" where
  "allowed_types RoleDescription = [TypeProse]"
| "allowed_types RolePersonality = [TypeProse]"
| "allowed_types RoleScenario = [TypeProse]"
| "allowed_types RoleGreetings = [TypeTextSet]"
| "allowed_types RoleGroupGreetings = [TypeTextSet]"
| "allowed_types RoleExampleDialogue = [TypeDialogueSample]"
| "allowed_types RoleGallery = [TypeImageSet]"
| "allowed_types RoleSystemPrompt = [TypeProse]"
| "allowed_types RolePostHistoryInstructions = [TypeProse]"
| "allowed_types RoleCreatorNotes = [TypeProse]"
| "allowed_types RoleExpressions = [TypeImageSet]"
| "allowed_types RoleLorebookEntries = [TypeEntryTable]"
| "allowed_types RolePromptFragments = [TypePromptList]"
| "allowed_types RolePromptVariables = [TypeVariableSchema]"
| "allowed_types RoleSamplerSettings = [TypeSettingGroup]"
| "allowed_types RoleCompletionSettings = [TypeSettingGroup]"
| "allowed_types RoleAdvancedSettings = [TypeSettingGroup]"
| "allowed_types RolePromptNudges = [TypeTextSet]"
| "allowed_types RoleRegexScripts = [TypeScriptList]"
| "allowed_types RoleThemeTokens = [TypeColorSet]"
| "allowed_types RoleThemeControls = [TypeSettingGroup]"
| "allowed_types RoleStylesheets = [TypeStylesheetSet]"
| "allowed_types RolePackItems = [TypeRecordList]"
| "allowed_types NoRole = []"
| "allowed_types (OtherRole s) = []"

definition role_allows :: "role \<Rightarrow> elem_type \<Rightarrow> bool" where
  "role_allows r t \<longleftrightarrow> t \<in> set (allowed_types r)"

text \<open>A role has a type to attach to exactly when it is in the shared vocabulary.\<close>

lemma allowed_types_known: "allowed_types r \<noteq> [] \<longleftrightarrow> role_known r"
  by (cases r) simp_all

lemma role_allows_known: "role_allows r t \<Longrightarrow> role_known r \<and> elem_type_known t"
  by (cases r) (auto simp: role_allows_def elem_type_known_def schemas_def)

section \<open>Wording\<close>

text \<open>
  \<^verbatim>\<open>Role.Label\<close>, the labels of the types, and \<^verbatim>\<open>Element.Label\<close>, which falls back from the one
  to the other. The apostrophe of the author's notes is the three bytes of U+2019.
\<close>

fun role_label :: "role \<Rightarrow> string" where
  "role_label RoleDescription = ''Description''"
| "role_label RolePersonality = ''Personality''"
| "role_label RoleScenario = ''Scenario''"
| "role_label RoleGreetings = ''Greetings''"
| "role_label RoleGroupGreetings = ''Group-only greetings''"
| "role_label RoleExampleDialogue = ''Example dialogue''"
| "role_label RoleGallery = ''Images''"
| "role_label RoleSystemPrompt = ''System prompt''"
| "role_label RolePostHistoryInstructions = ''Post-history instructions''"
| "role_label RoleCreatorNotes =
     ''Author'' @ [CHR 0xE2, CHR 0x80, CHR 0x99] @ ''s notes''"
| "role_label RoleExpressions = ''Expressions''"
| "role_label RoleLorebookEntries = ''Entries''"
| "role_label RolePromptFragments = ''Prompt fragments''"
| "role_label RolePromptVariables = ''Variables''"
| "role_label RoleSamplerSettings = ''Samplers''"
| "role_label RoleCompletionSettings = ''Completion''"
| "role_label RoleAdvancedSettings = ''Advanced''"
| "role_label RolePromptNudges = ''Nudges''"
| "role_label RoleRegexScripts = ''Regex scripts''"
| "role_label RoleThemeTokens = ''Palette''"
| "role_label RoleThemeControls = ''Theme controls''"
| "role_label RoleStylesheets = ''Stylesheets''"
| "role_label RolePackItems = ''Items''"
| "role_label NoRole = ''''"
| "role_label (OtherRole s) = ''''"

fun type_label :: "elem_type \<Rightarrow> string" where
  "type_label TypeProse = ''Text''"
| "type_label TypeTextSet = ''List''"
| "type_label TypeFieldList = ''Details''"
| "type_label TypeDialogueSample = ''Dialogue''"
| "type_label TypeImageSet = ''Images''"
| "type_label TypeLinkList = ''Links''"
| "type_label TypeEntryTable = ''Entries''"
| "type_label TypePromptList = ''Prompt fragments''"
| "type_label TypeVariableSchema = ''Variables''"
| "type_label TypeSettingGroup = ''Settings''"
| "type_label TypeScriptList = ''Regex scripts''"
| "type_label TypeColorSet = ''Palette''"
| "type_label TypeStylesheetSet = ''Stylesheets''"
| "type_label TypeRecordList = ''Records''"
| "type_label (OtherType s) = ''''"

definition element_label :: "element \<Rightarrow> string" where
  "element_label e =
     (if role_label (el_role e) \<noteq> [] then role_label (el_role e) else type_label (el_type e))"

lemma element_label_known: "elem_type_known (el_type e) \<Longrightarrow> element_label e \<noteq> []"
  by (cases "el_type e") (auto simp: element_label_def elem_type_known_def schemas_def)

end
