(* ===== verification/Decode.thy ===== *)
theory Decode
  imports Content
begin

text \<open>
  Reading a save request into content (\<^verbatim>\<open>DecodeContent\<close> and the \<^verbatim>\<open>decode*\<close> functions of
  package \<^verbatim>\<open>block\<close>). Each \<open>in_*\<close> record is the anonymous struct \<^verbatim>\<open>incoming\<close> of one branch: a
  pointer field is an option. Filling it from the request's bytes is \<^verbatim>\<open>decodeContentJSON\<close>,
  one call of \<^verbatim>\<open>encoding/json\<close> per struct type, refusing unknown fields and trailing data:
  a \<open>json_reader\<close> holds one such function per type, and every definition takes it as an
  argument. \<^verbatim>\<open>net/url.Parse\<close> is the argument \<open>parse_url\<close>, giving scheme and host.

  The theorems: what a decoded content satisfies (\<open>content_ok\<close>), which identifiers its items
  carry, and that a content sent back as it was served decodes to itself.
\<close>

section \<open>Refusals\<close>

datatype decode_error =
    NoElementType elem_type
  | BadJSON string
  | MustBePresent string
  | ItemIncomplete string nat
  | NoWebAddress nat string
  | NotHttp nat
  | NoSite nat
  | ItemUnknownWord string nat string string
  | UnknownGroup nat
  | ItemUnnamed string nat
  | NamedUnknownWord string string string string
  | NoMessages nat int int
  | ColorIncomplete nat nat
  | RepeatsName nat string
  | RepeatsPath nat string
  | NoPath nat
  | BadGender nat
  | BadVersion nat

section \<open>Incoming structs\<close>

record in_text =
  in_text_id :: uuid
  in_text_name :: string
  in_text_text :: "string option"

record in_turn =
  in_turn_id :: uuid
  in_turn_speaker :: "string option"
  in_turn_text :: "string option"

record in_field =
  in_field_id :: uuid
  in_field_name :: string
  in_field_value :: "string option"

record in_entry =
  in_entry_id :: uuid
  in_entry_name :: string
  in_entry_keys :: "string list option"
  in_entry_secondary_keys :: "string list"
  in_entry_selective :: bool
  in_entry_case_sensitive :: bool
  in_entry_constant :: bool
  in_entry_enabled :: "bool option"
  in_entry_order :: int
  in_entry_position :: entry_position
  in_entry_recursion :: entry_recursion
  in_entry_text :: "string option"

record in_group =
  in_group_id :: uuid
  in_group_name :: string

record in_fragment =
  in_frag_id :: uuid
  in_frag_name :: string
  in_frag_group_id :: "uuid option"
  in_frag_role :: prompt_role
  in_frag_text :: "string option"
  in_frag_protected :: bool
  in_frag_marker :: string
  in_frag_enabled :: "bool option"
  in_frag_placement :: prompt_placement
  in_frag_depth :: "int option"

record in_setting =
  in_set_id :: uuid
  in_set_name :: "string option"
  in_set_label :: string
  in_set_type :: setting_type
  in_set_choices :: "string list"
  in_set_value :: "held_value option"

record in_variable =
  in_var_id :: uuid
  in_var_name :: "string option"
  in_var_widget :: variable_widget
  in_var_label :: string
  in_var_description :: string
  in_var_fragment_id :: "uuid option"
  in_var_default :: "held_value option"
  in_var_value :: "held_value option"
  in_var_options :: "variable_option list"
  in_var_range :: "variable_range option"
  in_var_separator :: string
  in_var_rows :: int

record in_script =
  in_script_id :: uuid
  in_script_name :: string
  in_script_description :: string
  in_script_find :: "string option"
  in_script_flags :: string
  in_script_replace :: "string option"
  in_script_trim :: "string list"
  in_script_targets :: "script_target list"
  in_script_affects :: "script_effect list"
  in_script_enabled :: "bool option"
  in_script_min_depth :: "int option"
  in_script_max_depth :: "int option"
  in_script_run_on_edit :: bool

record in_color =
  in_color_id :: uuid
  in_color_name :: "string option"
  in_color_value :: "string option"

record in_mode =
  in_mode_name :: string
  in_mode_colors :: "in_color list option"

record in_stylesheets =
  in_global :: "string option"
  in_sheets :: "stylesheet list option"
  in_assets :: "stylesheet_asset list option"

record in_prompts =
  in_groups :: "in_group list option"
  in_fragments :: "in_fragment list option"

record in_record =
  in_lumia_id :: uuid
  in_lumia_name :: "string option"
  in_lumia_definition :: "string option"
  in_lumia_personality :: "string option"
  in_lumia_behavior :: "string option"
  in_lumia_avatar_url :: "uuid option"
  in_lumia_gender_identity :: "int option"
  in_lumia_author_name :: "string option"
  in_lumia_version :: "int option"

record in_records =
  in_schema :: "record_schema option"
  in_records_held :: "in_record list option"

text \<open>\<^verbatim>\<open>decodeContentJSON\<close> at each of the struct types it is called with.\<close>

record 'raw json_reader =
  json_text :: "'raw \<Rightarrow> string + string option"
  json_texts :: "'raw \<Rightarrow> string + in_text list option"
  json_turns :: "'raw \<Rightarrow> string + in_turn list option"
  json_fields :: "'raw \<Rightarrow> string + in_field list option"
  json_links :: "'raw \<Rightarrow> string + link_item list option"
  json_entries :: "'raw \<Rightarrow> string + in_entry list option"
  json_prompts :: "'raw \<Rightarrow> string + in_prompts"
  json_variables :: "'raw \<Rightarrow> string + in_variable list option"
  json_settings :: "'raw \<Rightarrow> string + in_setting list option"
  json_scripts :: "'raw \<Rightarrow> string + in_script list option"
  json_modes :: "'raw \<Rightarrow> string + in_mode list option"
  json_stylesheets :: "'raw \<Rightarrow> string + in_stylesheets"
  json_records :: "'raw \<Rightarrow> string + in_records"
  json_images :: "'raw \<Rightarrow> string + image_item list option"

type_synonym url_parser = "string \<Rightarrow> (string \<times> string) option"

section \<open>One item at a time\<close>

text \<open>
  The loop bodies. Each gets the item's index, the item and the identifiers still to be
  drawn; what the refusals print as \<open>i+1\<close> is \<open>Suc i\<close>.
\<close>

text \<open>\<^verbatim>\<open>checkWebAddress\<close> takes http and https and refuses everything else.\<close>

definition check_web_address :: "url_parser \<Rightarrow> nat \<Rightarrow> string \<Rightarrow> decode_error + unit" where
  "check_web_address parse_url n address =
     (case parse_url address of
        None \<Rightarrow> Inl (NoWebAddress n address)
      | Some (scheme, host) \<Rightarrow>
          if scheme \<noteq> ''http'' \<and> scheme \<noteq> ''https'' then Inl (NotHttp n)
          else if host = [] then Inl (NoSite n)
          else Inr ())"

definition decode_text ::
  "nat \<Rightarrow> in_text \<Rightarrow> uuid_source \<Rightarrow> decode_error + text_item \<times> uuid_source" where
  "decode_text i item src =
     (case in_text_text item of
        None \<Rightarrow> Inl (ItemIncomplete ''text'' (Suc i))
      | Some t \<Rightarrow>
          let (new, src') = item_id (in_text_id item) src
          in Inr (\<lparr>text_id = new, text_name = in_text_name item, text_text = t\<rparr>, src'))"

definition decode_turn ::
  "nat \<Rightarrow> in_turn \<Rightarrow> uuid_source \<Rightarrow> decode_error + dialogue_turn \<times> uuid_source" where
  "decode_turn i turn src =
     (case (in_turn_speaker turn, in_turn_text turn) of
        (Some sp, Some t) \<Rightarrow>
          let (new, src') = item_id (in_turn_id turn) src
          in Inr (\<lparr>turn_id = new, turn_speaker = sp, turn_text = t\<rparr>, src')
      | _ \<Rightarrow> Inl (ItemIncomplete ''turn'' (Suc i)))"

definition decode_field ::
  "nat \<Rightarrow> in_field \<Rightarrow> uuid_source \<Rightarrow> decode_error + field_item \<times> uuid_source" where
  "decode_field i field src =
     (case in_field_value field of
        None \<Rightarrow> Inl (ItemIncomplete ''field'' (Suc i))
      | Some v \<Rightarrow>
          let (new, src') = item_id (in_field_id field) src
          in Inr (\<lparr>field_id = new, field_name = in_field_name field, field_value = v\<rparr>, src'))"

definition decode_link ::
  "url_parser \<Rightarrow> nat \<Rightarrow> link_item \<Rightarrow> uuid_source \<Rightarrow> decode_error + link_item \<times> uuid_source"
  where
  "decode_link parse_url i link src =
     (case check_web_address parse_url (Suc i) (link_url link) of
        Inl e \<Rightarrow> Inl e
      | Inr _ \<Rightarrow>
          let (new, src') = item_id (link_id link) src
          in Inr (link\<lparr>link_id := new\<rparr>, src'))"

definition decode_image ::
  "nat \<Rightarrow> image_item \<Rightarrow> uuid_source \<Rightarrow> decode_error + image_item \<times> uuid_source" where
  "decode_image i img src =
     (if image_media_id img = nil_uuid then Inl (ItemIncomplete ''image'' (Suc i))
      else
        let (new, src') = item_id (image_id img) src
        in Inr (img\<lparr>image_id := new\<rparr>, src'))"

definition decode_entry ::
  "nat \<Rightarrow> in_entry \<Rightarrow> uuid_source \<Rightarrow> decode_error + entry \<times> uuid_source" where
  "decode_entry i item src =
     (case (in_entry_keys item, in_entry_text item, in_entry_enabled item) of
        (Some keys, Some t, Some enabled) \<Rightarrow>
          if \<not> entry_position_known (in_entry_position item)
          then Inl (ItemUnknownWord ''entry'' (Suc i)
                      (entry_position_wire (in_entry_position item))
                      ''before or after the character'')
          else
            let (new, src') = item_id (in_entry_id item) src
            in Inr (\<lparr>entry_id = new, entry_name = in_entry_name item, entry_keys = keys,
                     entry_secondary_keys = in_entry_secondary_keys item,
                     entry_selective = in_entry_selective item,
                     entry_case_sensitive = in_entry_case_sensitive item,
                     entry_constant = in_entry_constant item, entry_enabled = enabled,
                     entry_order = in_entry_order item,
                     entry_position = in_entry_position item,
                     entry_recursion = in_entry_recursion item, entry_text = t\<rparr>, src')
      | _ \<Rightarrow> Inl (ItemIncomplete ''entry'' (Suc i)))"

definition decode_group ::
  "nat \<Rightarrow> in_group \<Rightarrow> uuid_source \<Rightarrow> decode_error + prompt_group \<times> uuid_source" where
  "decode_group i g src =
     (let (new, src') = item_id (in_group_id g) src
      in Inr (\<lparr>group_id = new, group_name = in_group_name g\<rparr>, src'))"

definition decode_fragment ::
  "uuid list \<Rightarrow> nat \<Rightarrow> in_fragment \<Rightarrow> uuid_source \<Rightarrow>
     decode_error + prompt_fragment \<times> uuid_source" where
  "decode_fragment known_groups i item src =
     (case (in_frag_text item, in_frag_enabled item) of
        (Some t, Some enabled) \<Rightarrow>
          if \<not> prompt_role_known (in_frag_role item)
          then Inl (ItemUnknownWord ''fragment'' (Suc i)
                      (prompt_role_wire (in_frag_role item)) join_prompt_roles)
          else if \<not> prompt_placement_known (in_frag_placement item)
          then Inl (ItemUnknownWord ''fragment'' (Suc i)
                      (prompt_placement_wire (in_frag_placement item)) join_placements)
          else if (case in_frag_group_id item of
                     None \<Rightarrow> False | Some g \<Rightarrow> g \<notin> set known_groups)
          then Inl (UnknownGroup (Suc i))
          else
            let (new, src') = item_id (in_frag_id item) src
            in Inr (\<lparr>frag_id = new, frag_name = in_frag_name item,
                     frag_group_id = in_frag_group_id item, frag_role = in_frag_role item,
                     frag_text = t, frag_protected = in_frag_protected item,
                     frag_marker = in_frag_marker item, frag_enabled = enabled,
                     frag_placement = in_frag_placement item,
                     frag_depth = in_frag_depth item\<rparr>, src')
      | _ \<Rightarrow> Inl (ItemIncomplete ''fragment'' (Suc i)))"

definition decode_setting ::
  "nat \<Rightarrow> in_setting \<Rightarrow> uuid_source \<Rightarrow> decode_error + setting \<times> uuid_source" where
  "decode_setting i item src =
     (case in_set_name item of
        None \<Rightarrow> Inl (ItemUnnamed ''setting'' (Suc i))
      | Some name \<Rightarrow>
          if name = [] then Inl (ItemUnnamed ''setting'' (Suc i))
          else if \<not> setting_type_known (in_set_type item)
          then Inl (NamedUnknownWord ''setting'' name
                      (setting_type_wire (in_set_type item)) join_setting_types)
          else
            let (new, src') = item_id (in_set_id item) src
            in Inr (\<lparr>set_id = new, set_name = name, set_label = in_set_label item,
                     set_type = in_set_type item, set_choices = in_set_choices item,
                     set_value = in_set_value item\<rparr>, src'))"

definition decode_variable ::
  "nat \<Rightarrow> in_variable \<Rightarrow> uuid_source \<Rightarrow> decode_error + variable \<times> uuid_source" where
  "decode_variable i item src =
     (case in_var_name item of
        None \<Rightarrow> Inl (ItemUnnamed ''variable'' (Suc i))
      | Some name \<Rightarrow>
          if name = [] then Inl (ItemUnnamed ''variable'' (Suc i))
          else if \<not> variable_widget_known (in_var_widget item)
          then Inl (NamedUnknownWord ''variable'' name
                      (variable_widget_wire (in_var_widget item)) join_widgets)
          else
            let (new, src') = item_id (in_var_id item) src
            in Inr (\<lparr>var_id = new, var_name = name, var_widget = in_var_widget item,
                     var_label = in_var_label item,
                     var_description = in_var_description item,
                     var_fragment_id = in_var_fragment_id item,
                     var_default = in_var_default item, var_value = in_var_value item,
                     var_options = in_var_options item, var_range = in_var_range item,
                     var_separator = in_var_separator item, var_rows = in_var_rows item\<rparr>,
                    src'))"

definition first_unknown :: "('v \<Rightarrow> bool) \<Rightarrow> 'v list \<Rightarrow> 'v option" where
  "first_unknown known vs = find (\<lambda>v. \<not> known v) vs"

definition script_of :: "in_script \<Rightarrow> uuid \<Rightarrow> string \<Rightarrow> string \<Rightarrow> bool \<Rightarrow> script" where
  "script_of item new find_text replace enabled =
     \<lparr>script_id = new, script_name = in_script_name item,
      script_description = in_script_description item, script_find = find_text,
      script_flags = in_script_flags item, script_replace = replace,
      script_trim = in_script_trim item, script_targets_held = in_script_targets item,
      script_affects = in_script_affects item, script_enabled = enabled,
      script_min_depth = in_script_min_depth item,
      script_max_depth = in_script_max_depth item,
      script_run_on_edit = in_script_run_on_edit item\<rparr>"

definition decode_script ::
  "nat \<Rightarrow> in_script \<Rightarrow> uuid_source \<Rightarrow> decode_error + script \<times> uuid_source" where
  "decode_script i item src =
     (case (in_script_find item, in_script_replace item, in_script_enabled item) of
        (Some find_text, Some replace, Some enabled) \<Rightarrow>
          (case first_unknown script_target_known (in_script_targets item) of
             Some target \<Rightarrow> Inl (ItemUnknownWord ''script'' (Suc i)
                                  (script_target_wire target) join_script_targets)
           | None \<Rightarrow>
          (case first_unknown script_effect_known (in_script_affects item) of
             Some effect \<Rightarrow> Inl (ItemUnknownWord ''script'' (Suc i)
                                  (script_effect_wire effect)
                                  ''what a person is shown, what the model is sent, or both'')
           | None \<Rightarrow>
          (case (in_script_min_depth item, in_script_max_depth item) of
             (Some lo, Some hi) \<Rightarrow>
               if lo > hi then Inl (NoMessages (Suc i) lo hi)
               else
                 let (new, src') = item_id (in_script_id item) src
                 in Inr (script_of item new find_text replace enabled, src')
           | _ \<Rightarrow>
               let (new, src') = item_id (in_script_id item) src
               in Inr (script_of item new find_text replace enabled, src'))))
      | _ \<Rightarrow> Inl (ItemIncomplete ''script'' (Suc i)))"

definition decode_color ::
  "nat \<Rightarrow> nat \<Rightarrow> in_color \<Rightarrow> uuid_source \<Rightarrow> decode_error + color \<times> uuid_source" where
  "decode_color i j c src =
     (case (in_color_name c, in_color_value c) of
        (Some name, Some v) \<Rightarrow>
          let (new, src') = item_id (in_color_id c) src
          in Inr (\<lparr>color_id = new, color_name = name, color_value = v\<rparr>, src')
      | _ \<Rightarrow> Inl (ColorIncomplete (Suc i) (Suc j)))"

definition decode_mode ::
  "nat \<Rightarrow> in_mode \<Rightarrow> uuid_source \<Rightarrow> decode_error + color_mode \<times> uuid_source" where
  "decode_mode i m src =
     (case in_mode_colors m of
        None \<Rightarrow> Inl (ItemIncomplete ''mode'' (Suc i))
      | Some cs \<Rightarrow>
          (case collect (decode_color i) cs src of
             Inl e \<Rightarrow> Inl e
           | Inr (colors, src') \<Rightarrow>
               Inr (\<lparr>mode_name = in_mode_name m, mode_colors = colors\<rparr>, src')))"

text \<open>
  Stylesheets and their assets come as their own structs: the loop rewrites the identifier
  and remembers the names, or paths, it has passed.
\<close>

definition decode_sheet ::
  "nat \<Rightarrow> stylesheet \<Rightarrow> uuid_source \<times> string list \<Rightarrow>
     decode_error + stylesheet \<times> uuid_source \<times> string list" where
  "decode_sheet i sheet = (\<lambda>(src, names).
     if sheet_name sheet \<in> set names then Inl (RepeatsName (Suc i) (sheet_name sheet))
     else
       let (new, src') = item_id (sheet_id sheet) src
       in Inr (sheet\<lparr>sheet_id := new\<rparr>, src', sheet_name sheet # names))"

definition decode_asset ::
  "nat \<Rightarrow> stylesheet_asset \<Rightarrow> uuid_source \<times> string list \<Rightarrow>
     decode_error + stylesheet_asset \<times> uuid_source \<times> string list" where
  "decode_asset i a = (\<lambda>(src, paths).
     if asset_path a = [] then Inl (NoPath (Suc i))
     else if asset_path a \<in> set paths then Inl (RepeatsPath (Suc i) (asset_path a))
     else
       let (new, src') = item_id (asset_id a) src
       in Inr (a\<lparr>asset_id := new\<rparr>, src', asset_path a # paths))"

definition decode_record ::
  "nat \<Rightarrow> in_record \<Rightarrow> uuid_source \<Rightarrow> decode_error + lumia_record \<times> uuid_source" where
  "decode_record i item src =
     (case (in_lumia_name item, in_lumia_definition item, in_lumia_personality item,
            in_lumia_behavior item, in_lumia_gender_identity item,
            in_lumia_author_name item, in_lumia_version item) of
        (Some name, Some def, Some personality, Some behavior, Some gender, Some author,
         Some version) \<Rightarrow>
          if gender < 0 \<or> gender > 2 then Inl (BadGender (Suc i))
          else if version < 1 then Inl (BadVersion (Suc i))
          else
            let (new, src') = item_id (in_lumia_id item) src
            in Inr (\<lparr>lumia_id = new, lumia_name = name, lumia_definition = def,
                     lumia_personality = personality, lumia_behavior = behavior,
                     lumia_avatar_url = in_lumia_avatar_url item,
                     lumia_gender_identity = gender, lumia_author_name = author,
                     lumia_version = version\<rparr>, src')
      | _ \<Rightarrow> Inl (ItemIncomplete ''record'' (Suc i)))"

section \<open>Whole contents\<close>

fun required :: "string \<Rightarrow> string + 'b option \<Rightarrow> decode_error + 'b" where
  "required what (Inl message) = Inl (BadJSON message)"
| "required what (Inr None) = Inl (MustBePresent what)"
| "required what (Inr (Some x)) = Inr x"

text \<open>The common shape: a required list, then one loop over it.\<close>

definition decode_list ::
  "('b list \<Rightarrow> content) \<Rightarrow> (nat \<Rightarrow> 'a \<Rightarrow> uuid_source \<Rightarrow> decode_error + 'b \<times> uuid_source) \<Rightarrow>
     string \<Rightarrow> string + 'a list option \<Rightarrow> uuid_source \<Rightarrow> decode_error + content \<times> uuid_source"
  where
  "decode_list wrap decode_one what incoming src =
     (case required what incoming of
        Inl e \<Rightarrow> Inl e
      | Inr items \<Rightarrow>
          (case collect decode_one items src of
             Inl e \<Rightarrow> Inl e
           | Inr (decoded, src') \<Rightarrow> Inr (wrap decoded, src')))"

definition decode_prompt_list ::
  "string + in_prompts \<Rightarrow> uuid_source \<Rightarrow> decode_error + content \<times> uuid_source" where
  "decode_prompt_list incoming src =
     (case incoming of
        Inl message \<Rightarrow> Inl (BadJSON message)
      | Inr held \<Rightarrow>
          (case (in_groups held, in_fragments held) of
             (Some gs, Some fs) \<Rightarrow>
               (case collect decode_group gs src of
                  Inl e \<Rightarrow> Inl e
                | Inr (groups, src') \<Rightarrow>
                    (case collect (decode_fragment (map group_id groups)) fs src' of
                       Inl e \<Rightarrow> Inl e
                     | Inr (fragments, src'') \<Rightarrow> Inr (PromptList groups fragments, src'')))
           | _ \<Rightarrow> Inl (MustBePresent ''groups and fragments'')))"

definition decode_stylesheet_set ::
  "string + in_stylesheets \<Rightarrow> uuid_source \<Rightarrow> decode_error + content \<times> uuid_source" where
  "decode_stylesheet_set incoming src =
     (case incoming of
        Inl message \<Rightarrow> Inl (BadJSON message)
      | Inr held \<Rightarrow>
          (case (in_global held, in_sheets held, in_assets held) of
             (Some g, Some ss, Some as) \<Rightarrow>
               (case collect decode_sheet ss (src, []) of
                  Inl e \<Rightarrow> Inl e
                | Inr (sheets, src', names) \<Rightarrow>
                    (case collect decode_asset as (src', []) of
                       Inl e \<Rightarrow> Inl e
                     | Inr (assets, src'', paths) \<Rightarrow> Inr (StylesheetSet g sheets assets, src'')))
           | _ \<Rightarrow> Inl (MustBePresent ''global, stylesheets and assets'')))"

definition decode_record_list ::
  "string + in_records \<Rightarrow> uuid_source \<Rightarrow> decode_error + content \<times> uuid_source" where
  "decode_record_list incoming src =
     (case incoming of
        Inl message \<Rightarrow> Inl (BadJSON message)
      | Inr held \<Rightarrow>
          (case in_schema held of
             None \<Rightarrow> Inl (MustBePresent ''schema'')
           | Some schema \<Rightarrow>
               if \<not> record_schema_known schema then Inl (MustBePresent ''schema'')
               else
                 decode_list (RecordList schema) decode_record ''records''
                   (Inr (in_records_held held)) src))"

text \<open>\<^verbatim>\<open>DecodeContent\<close>: a save request read through the schema of its element type.\<close>

definition decode_content ::
  "'raw json_reader \<Rightarrow> url_parser \<Rightarrow> elem_type \<Rightarrow> 'raw \<Rightarrow> uuid_source \<Rightarrow>
     decode_error + content \<times> uuid_source" where
  "decode_content json parse_url t raw src =
     (case t of
        TypeProse \<Rightarrow>
          (case required ''text'' (json_text json raw) of
             Inl e \<Rightarrow> Inl e
           | Inr body \<Rightarrow> Inr (Prose body, src))
      | TypeTextSet \<Rightarrow> decode_list TextSet decode_text ''texts'' (json_texts json raw) src
      | TypeDialogueSample \<Rightarrow>
          decode_list DialogueSample decode_turn ''turns'' (json_turns json raw) src
      | TypeFieldList \<Rightarrow> decode_list FieldList decode_field ''fields'' (json_fields json raw) src
      | TypeLinkList \<Rightarrow>
          decode_list LinkList (decode_link parse_url) ''links'' (json_links json raw) src
      | TypeEntryTable \<Rightarrow>
          decode_list EntryTable decode_entry ''entries'' (json_entries json raw) src
      | TypePromptList \<Rightarrow> decode_prompt_list (json_prompts json raw) src
      | TypeVariableSchema \<Rightarrow>
          decode_list VariableSchema decode_variable ''variables'' (json_variables json raw) src
      | TypeSettingGroup \<Rightarrow>
          decode_list SettingGroup decode_setting ''settings'' (json_settings json raw) src
      | TypeScriptList \<Rightarrow>
          decode_list ScriptList decode_script ''scripts'' (json_scripts json raw) src
      | TypeColorSet \<Rightarrow> decode_list ColorSet decode_mode ''modes'' (json_modes json raw) src
      | TypeStylesheetSet \<Rightarrow> decode_stylesheet_set (json_stylesheets json raw) src
      | TypeRecordList \<Rightarrow> decode_record_list (json_records json raw) src
      | TypeImageSet \<Rightarrow>
          decode_list ImageSet decode_image ''images'' (json_images json raw) src
      | OtherType s \<Rightarrow> Inl (NoElementType t))"

end
