(* ===== verification/DecodeFacts.thy ===== *)
theory DecodeFacts
  imports Decode
begin

text \<open>
  What decoding guarantees: the checks a decoded content has passed (\<open>content_ok\<close>), the
  identifiers its items carry, and that content sent back as it was served is read as it is.

  The loops of the decoders share a contract, which two locales state: an \<open>item_reader\<close>
  keeps the identifier an item arrived with or draws one, and an \<open>item_decoder\<close> also accepts
  its own output again. What follows for a whole list is proved there once.
\<close>

section \<open>The contract of a loop body\<close>

lemma item_id_not_nil:
  "\<lbrakk>item_id i s = (j, s'); \<forall>k. s k \<noteq> nil_uuid\<rbrakk> \<Longrightarrow> j \<noteq> nil_uuid \<and> (\<forall>k. s' k \<noteq> nil_uuid)"
  by (auto simp: item_id_def drawn_def after_draw_def split: if_splits)

locale item_reader =
  fixes read_one :: "nat \<Rightarrow> 'i \<Rightarrow> 's \<Rightarrow> decode_error + 'o \<times> 's"
    and source :: "'s \<Rightarrow> uuid_source"
    and in_id :: "'i \<Rightarrow> uuid"
    and out_id :: "'o \<Rightarrow> uuid"
    and ok :: "'o \<Rightarrow> bool"
  assumes read_id: "read_one i x s = Inr (y, s') \<Longrightarrow> item_id (in_id x) (source s) = (out_id y, source s')"
    and read_ok: "read_one i x s = Inr (y, s') \<Longrightarrow> ok y"
begin

lemma all_ok: "collect_from i read_one xs s = Inr (ys, s') \<Longrightarrow> list_all ok ys"
  by (erule collect_from_all) (rule read_ok)

lemma keeps_ids:
  assumes "collect_from i read_one xs s = Inr (ys, s')"
  shows "list_all2 (\<lambda>x y. in_id x \<noteq> nil_uuid \<longrightarrow> out_id y = in_id x) xs ys"
  using assms
  by (rule collect_from_pairs) (auto dest!: read_id simp: item_id_def split: if_splits)

lemma no_nil_ids:
  assumes "collect_from i read_one xs s = Inr (ys, s')" and "\<forall>k. source s k \<noteq> nil_uuid"
  shows "nil_uuid \<notin> set (map out_id ys) \<and> (\<forall>k. source s' k \<noteq> nil_uuid)"
proof -
  have "(\<forall>k. source s' k \<noteq> nil_uuid) \<and> list_all2 (\<lambda>x y. out_id y \<noteq> nil_uuid) xs ys"
    using assms by (rule collect_from_rule) (blast dest: read_id item_id_not_nil)
  then show ?thesis
    by (auto simp: list_all2_conv_all_nth in_set_conv_nth)
qed

end

locale item_decoder = item_reader decode_one "\<lambda>s. s" in_id out_id ok
  for decode_one :: "nat \<Rightarrow> 'i \<Rightarrow> uuid_source \<Rightarrow> decode_error + 'o \<times> uuid_source"
    and in_id :: "'i \<Rightarrow> uuid"
    and out_id :: "'o \<Rightarrow> uuid"
    and ok :: "'o \<Rightarrow> bool" +
  fixes sent :: "'o \<Rightarrow> 'i"
  assumes resent: "\<lbrakk>ok y; out_id y \<noteq> nil_uuid\<rbrakk> \<Longrightarrow> decode_one i (sent y) s = Inr (y, s)"
begin

lemma list_resent:
  "\<lbrakk>list_all ok ys; nil_uuid \<notin> out_id ` set ys\<rbrakk> \<Longrightarrow>
     collect_from i decode_one (map sent ys) s = Inr (ys, s)"
  by (induction ys arbitrary: i) (auto simp: resent)

lemma content_all_ok:
  assumes "decode_list wrap decode_one what incoming src = Inr (c, src')"
  shows "\<exists>ys. c = wrap ys \<and> list_all ok ys"
  using assms by (auto simp: decode_list_def all_ok split: sum.splits)

lemma content_no_nil:
  assumes "decode_list wrap decode_one what incoming src = Inr (c, src')"
    and "\<forall>k. src k \<noteq> nil_uuid"
  shows "\<exists>ys. c = wrap ys \<and> nil_uuid \<notin> set (map out_id ys)"
  using assms by (fastforce simp: decode_list_def split: sum.splits dest: no_nil_ids)

lemma content_keeps:
  assumes "decode_list wrap decode_one what (Inr (Some xs)) src = Inr (c, src')"
  shows "\<exists>ys. c = wrap ys \<and>
           list_all2 (\<lambda>x y. in_id x \<noteq> nil_uuid \<longrightarrow> out_id y = in_id x) xs ys"
  using assms by (auto simp: decode_list_def split: sum.splits dest: keeps_ids)

lemma content_resent:
  "\<lbrakk>list_all ok ys; nil_uuid \<notin> out_id ` set ys\<rbrakk> \<Longrightarrow>
     decode_list wrap decode_one what (Inr (Some (map sent ys))) src = Inr (wrap ys, src)"
  by (simp add: decode_list_def list_resent)

end

text \<open>
  A loop that also refuses a key it has passed: the keys of what it produced are distinct.
\<close>

locale keyed_reader = item_reader read_one fst in_id out_id ok
  for read_one :: "nat \<Rightarrow> 'o \<Rightarrow> uuid_source \<times> string list \<Rightarrow>
        decode_error + 'o \<times> uuid_source \<times> string list"
    and in_id :: "'o \<Rightarrow> uuid"
    and out_id :: "'o \<Rightarrow> uuid"
    and ok :: "'o \<Rightarrow> bool" +
  fixes key :: "'o \<Rightarrow> string"
  assumes read_key: "read_one i x (s, seen) = Inr (y, s', seen') \<Longrightarrow>
      seen' = key y # seen \<and> key y \<notin> set seen"
    and reread: "\<lbrakk>ok x; out_id x \<noteq> nil_uuid; key x \<notin> set seen\<rbrakk> \<Longrightarrow>
      read_one i x (s, seen) = Inr (x, s, key x # seen)"
begin

lemma keys_distinct:
  assumes "collect_from i read_one xs (s, seen) = Inr (ys, s', seen')" and "distinct seen"
  shows "distinct (rev (map key ys) @ seen)"
  using assms
proof (induction xs arbitrary: i s seen ys)
  case Nil
  then show ?case by simp
next
  case (Cons x xs)
  then obtain y t seen1 ys' where y: "read_one i x (s, seen) = Inr (y, t, seen1)"
    "collect_from (Suc i) read_one xs (t, seen1) = Inr (ys', s', seen')" "ys = y # ys'"
    by (auto split: sum.splits prod.splits)
  have seen1: "seen1 = key y # seen" "key y \<notin> set seen" using read_key [OF y(1)] by auto
  have "distinct (rev (map key ys') @ seen1)"
    using Cons.IH [OF y(2)] seen1 Cons.prems(2) by simp
  then show ?case by (simp add: y(3) seen1(1))
qed

lemma list_reread:
  assumes "list_all ok xs" and "nil_uuid \<notin> out_id ` set xs"
    and "distinct (map key xs)" and "key ` set xs \<inter> set seen = {}"
  shows "collect_from i read_one xs (s, seen) = Inr (xs, s, rev (map key xs) @ seen)"
  using assms
  by (induction xs arbitrary: i seen) (auto simp: reread)

end

section \<open>What each kind of item has passed\<close>

definition web_address :: "url_parser \<Rightarrow> string \<Rightarrow> bool" where
  "web_address parse_url address \<longleftrightarrow>
     (case parse_url address of
        None \<Rightarrow> False
      | Some (scheme, host) \<Rightarrow> (scheme = ''http'' \<or> scheme = ''https'') \<and> host \<noteq> [])"

lemma check_web_address_ok:
  "check_web_address parse_url n a = Inr u \<longleftrightarrow> web_address parse_url a"
  by (auto simp: check_web_address_def web_address_def split: option.split)

definition fragment_ok :: "uuid list \<Rightarrow> prompt_fragment \<Rightarrow> bool" where
  "fragment_ok groups f \<longleftrightarrow>
     prompt_role_known (frag_role f) \<and> prompt_placement_known (frag_placement f) \<and>
     (case frag_group_id f of None \<Rightarrow> True | Some g \<Rightarrow> g \<in> set groups)"

definition setting_ok :: "setting \<Rightarrow> bool" where
  "setting_ok s \<longleftrightarrow> set_name s \<noteq> [] \<and> setting_type_known (set_type s)"

definition variable_ok :: "variable \<Rightarrow> bool" where
  "variable_ok v \<longleftrightarrow> var_name v \<noteq> [] \<and> variable_widget_known (var_widget v)"

definition depths_ok :: "int option \<Rightarrow> int option \<Rightarrow> bool" where
  "depths_ok lo hi \<longleftrightarrow> (case (lo, hi) of (Some l, Some h) \<Rightarrow> l \<le> h | _ \<Rightarrow> True)"

definition script_ok :: "script \<Rightarrow> bool" where
  "script_ok s \<longleftrightarrow>
     list_all script_target_known (script_targets_held s) \<and>
     list_all script_effect_known (script_affects s) \<and>
     depths_ok (script_min_depth s) (script_max_depth s)"

definition record_ok :: "lumia_record \<Rightarrow> bool" where
  "record_ok r \<longleftrightarrow>
     0 \<le> lumia_gender_identity r \<and> lumia_gender_identity r \<le> 2 \<and> 1 \<le> lumia_version r"

text \<open>
  What \<^verbatim>\<open>DecodeContent\<close> checks of a content. How large it is, and whether two of its items carry one
  identifier, is for \<^verbatim>\<open>ValidateContentLimits\<close> and \<^verbatim>\<open>ValidateStructure\<close> to check.
\<close>

fun content_ok :: "url_parser \<Rightarrow> content \<Rightarrow> bool" where
  "content_ok parse_url (LinkList ls) \<longleftrightarrow>
     list_all (\<lambda>l. web_address parse_url (link_url l)) ls"
| "content_ok parse_url (ImageSet is) \<longleftrightarrow> list_all (\<lambda>i. image_media_id i \<noteq> nil_uuid) is"
| "content_ok parse_url (EntryTable es) \<longleftrightarrow>
     list_all (\<lambda>e. entry_position_known (entry_position e)) es"
| "content_ok parse_url (PromptList gs fs) \<longleftrightarrow> list_all (fragment_ok (map group_id gs)) fs"
| "content_ok parse_url (VariableSchema vs) \<longleftrightarrow> list_all variable_ok vs"
| "content_ok parse_url (SettingGroup ss) \<longleftrightarrow> list_all setting_ok ss"
| "content_ok parse_url (ScriptList ss) \<longleftrightarrow> list_all script_ok ss"
| "content_ok parse_url (StylesheetSet g ss as) \<longleftrightarrow>
     distinct (map sheet_name ss) \<and> distinct (map asset_path as) \<and>
     list_all (\<lambda>a. asset_path a \<noteq> []) as"
| "content_ok parse_url (RecordList sc rs) \<longleftrightarrow> record_schema_known sc \<and> list_all record_ok rs"
| "content_ok parse_url (Prose t) \<longleftrightarrow> True"
| "content_ok parse_url (TextSet ts) \<longleftrightarrow> True"
| "content_ok parse_url (DialogueSample ts) \<longleftrightarrow> True"
| "content_ok parse_url (FieldList fs) \<longleftrightarrow> True"
| "content_ok parse_url (ColorSet ms) \<longleftrightarrow> True"

section \<open>Sending an item back\<close>

text \<open>
  The struct a request carries when it sends back an item as it was served: the same fields,
  the required ones present.
\<close>

definition sent_text :: "text_item \<Rightarrow> in_text" where
  "sent_text i = \<lparr>in_text_id = text_id i, in_text_name = text_name i,
                  in_text_text = Some (text_text i)\<rparr>"

definition sent_turn :: "dialogue_turn \<Rightarrow> in_turn" where
  "sent_turn t = \<lparr>in_turn_id = turn_id t, in_turn_speaker = Some (turn_speaker t),
                  in_turn_text = Some (turn_text t)\<rparr>"

definition sent_field :: "field_item \<Rightarrow> in_field" where
  "sent_field f = \<lparr>in_field_id = field_id f, in_field_name = field_name f,
                   in_field_value = Some (field_value f)\<rparr>"

definition sent_entry :: "entry \<Rightarrow> in_entry" where
  "sent_entry e =
     \<lparr>in_entry_id = entry_id e, in_entry_name = entry_name e,
      in_entry_keys = Some (entry_keys e), in_entry_secondary_keys = entry_secondary_keys e,
      in_entry_selective = entry_selective e, in_entry_case_sensitive = entry_case_sensitive e,
      in_entry_constant = entry_constant e, in_entry_enabled = Some (entry_enabled e),
      in_entry_order = entry_order e, in_entry_position = entry_position e,
      in_entry_recursion = entry_recursion e, in_entry_text = Some (entry_text e)\<rparr>"

definition sent_group :: "prompt_group \<Rightarrow> in_group" where
  "sent_group g = \<lparr>in_group_id = group_id g, in_group_name = group_name g\<rparr>"

definition sent_fragment :: "prompt_fragment \<Rightarrow> in_fragment" where
  "sent_fragment f =
     \<lparr>in_frag_id = frag_id f, in_frag_name = frag_name f, in_frag_group_id = frag_group_id f,
      in_frag_role = frag_role f, in_frag_text = Some (frag_text f),
      in_frag_protected = frag_protected f, in_frag_marker = frag_marker f,
      in_frag_enabled = Some (frag_enabled f), in_frag_placement = frag_placement f,
      in_frag_depth = frag_depth f\<rparr>"

definition sent_setting :: "setting \<Rightarrow> in_setting" where
  "sent_setting s =
     \<lparr>in_set_id = set_id s, in_set_name = Some (set_name s), in_set_label = set_label s,
      in_set_type = set_type s, in_set_choices = set_choices s, in_set_value = set_value s\<rparr>"

definition sent_variable :: "variable \<Rightarrow> in_variable" where
  "sent_variable v =
     \<lparr>in_var_id = var_id v, in_var_name = Some (var_name v), in_var_widget = var_widget v,
      in_var_label = var_label v, in_var_description = var_description v,
      in_var_fragment_id = var_fragment_id v, in_var_default = var_default v,
      in_var_value = var_value v, in_var_options = var_options v, in_var_range = var_range v,
      in_var_separator = var_separator v, in_var_rows = var_rows v\<rparr>"

definition sent_script :: "script \<Rightarrow> in_script" where
  "sent_script s =
     \<lparr>in_script_id = script_id s, in_script_name = script_name s,
      in_script_description = script_description s, in_script_find = Some (script_find s),
      in_script_flags = script_flags s, in_script_replace = Some (script_replace s),
      in_script_trim = script_trim s, in_script_targets = script_targets_held s,
      in_script_affects = script_affects s, in_script_enabled = Some (script_enabled s),
      in_script_min_depth = script_min_depth s, in_script_max_depth = script_max_depth s,
      in_script_run_on_edit = script_run_on_edit s\<rparr>"

definition sent_color :: "color \<Rightarrow> in_color" where
  "sent_color c = \<lparr>in_color_id = color_id c, in_color_name = Some (color_name c),
                   in_color_value = Some (color_value c)\<rparr>"

definition sent_mode :: "color_mode \<Rightarrow> in_mode" where
  "sent_mode m = \<lparr>in_mode_name = mode_name m,
                  in_mode_colors = Some (map sent_color (mode_colors m))\<rparr>"

definition sent_record :: "lumia_record \<Rightarrow> in_record" where
  "sent_record r =
     \<lparr>in_lumia_id = lumia_id r, in_lumia_name = Some (lumia_name r),
      in_lumia_definition = Some (lumia_definition r),
      in_lumia_personality = Some (lumia_personality r),
      in_lumia_behavior = Some (lumia_behavior r), in_lumia_avatar_url = lumia_avatar_url r,
      in_lumia_gender_identity = Some (lumia_gender_identity r),
      in_lumia_author_name = Some (lumia_author_name r),
      in_lumia_version = Some (lumia_version r)\<rparr>"

lemmas sent_defs = sent_text_def sent_turn_def sent_field_def sent_entry_def sent_group_def
  sent_fragment_def sent_setting_def sent_variable_def sent_script_def sent_color_def
  sent_mode_def sent_record_def

section \<open>The loop bodies keep the contract\<close>

interpretation texts: item_decoder decode_text in_text_id text_id "\<lambda>_. True" sent_text
  by unfold_locales (auto simp: decode_text_def sent_defs item_id_def split: option.splits if_splits)

interpretation turns: item_decoder decode_turn in_turn_id turn_id "\<lambda>_. True" sent_turn
  by unfold_locales (auto simp: decode_turn_def sent_defs item_id_def split: option.splits if_splits)

interpretation fields: item_decoder decode_field in_field_id field_id "\<lambda>_. True" sent_field
  by unfold_locales (auto simp: decode_field_def sent_defs item_id_def split: option.splits if_splits)

interpretation links: item_decoder "decode_link parse_url" link_id link_id
    "\<lambda>l. web_address parse_url (link_url l)" "\<lambda>l. l" for parse_url
  by unfold_locales
    (auto simp: decode_link_def check_web_address_def web_address_def item_id_def
      split: option.splits if_splits)

interpretation images: item_decoder decode_image image_id image_id
    "\<lambda>i. image_media_id i \<noteq> nil_uuid" "\<lambda>i. i"
  by unfold_locales (auto simp: decode_image_def item_id_def split: if_splits)

interpretation entries: item_decoder decode_entry in_entry_id entry_id
    "\<lambda>e. entry_position_known (entry_position e)" sent_entry
  by unfold_locales (auto simp: decode_entry_def sent_defs item_id_def split: option.splits if_splits)

interpretation groups: item_decoder decode_group in_group_id group_id "\<lambda>_. True" sent_group
  by unfold_locales (auto simp: decode_group_def sent_defs item_id_def split: if_splits)

interpretation fragments: item_decoder "decode_fragment groups" in_frag_id frag_id
    "fragment_ok groups" sent_fragment for groups
  by unfold_locales
    (auto simp: decode_fragment_def fragment_ok_def sent_defs item_id_def split: option.splits if_splits)

interpretation settings: item_decoder decode_setting in_set_id set_id setting_ok sent_setting
  by unfold_locales
    (auto simp: decode_setting_def setting_ok_def sent_defs item_id_def split: option.splits if_splits)

interpretation variables: item_decoder decode_variable in_var_id var_id variable_ok sent_variable
  by unfold_locales
    (auto simp: decode_variable_def variable_ok_def sent_defs item_id_def split: option.splits if_splits)

lemma first_unknown_None: "first_unknown known vs = None \<longleftrightarrow> list_all known vs"
  by (auto simp: first_unknown_def find_None_iff list_all_iff)

interpretation scripts: item_decoder decode_script in_script_id script_id script_ok sent_script
  by unfold_locales
    (auto simp: decode_script_def script_ok_def depths_ok_def script_of_def sent_defs item_id_def
      first_unknown_None split: option.splits if_splits)

interpretation colors: item_decoder "decode_color i" in_color_id color_id "\<lambda>_. True" sent_color
  for i
  by unfold_locales (auto simp: decode_color_def sent_defs item_id_def split: option.splits if_splits)

interpretation records: item_decoder decode_record in_lumia_id lumia_id record_ok sent_record
  by unfold_locales
    (auto simp: decode_record_def record_ok_def sent_defs item_id_def split: option.splits if_splits)

interpretation sheets: keyed_reader decode_sheet sheet_id sheet_id "\<lambda>_. True" sheet_name
  by unfold_locales (auto simp: decode_sheet_def item_id_def split: if_splits)

interpretation assets: keyed_reader decode_asset asset_id asset_id
    "\<lambda>a. asset_path a \<noteq> []" asset_path
  by unfold_locales (auto simp: decode_asset_def item_id_def split: if_splits)

section \<open>Decoded content\<close>

lemma list_all2_right: "list_all2 (\<lambda>x y. P y) xs ys \<Longrightarrow> \<forall>y \<in> set ys. P y"
  by (auto simp: list_all2_conv_all_nth in_set_conv_nth)

lemma mode_ids_not_nil:
  assumes "decode_mode i m s = Inr (y, s')" and "\<forall>k. s k \<noteq> nil_uuid"
  shows "(\<forall>k. s' k \<noteq> nil_uuid) \<and> nil_uuid \<notin> set (map color_id (mode_colors y))"
  using assms
  by (fastforce simp: decode_mode_def split: option.splits sum.splits dest: colors.no_nil_ids)

lemma modes_not_nil:
  assumes "collect_from i decode_mode ms s = Inr (ys, s')" and "\<forall>k. s k \<noteq> nil_uuid"
  shows "nil_uuid \<notin> set (item_ids (ColorSet ys))"
proof -
  have "(\<forall>k. s' k \<noteq> nil_uuid) \<and>
      list_all2 (\<lambda>x y. nil_uuid \<notin> set (map color_id (mode_colors y))) ms ys"
    using assms
    by (rule collect_from_rule [where I = "\<lambda>s. \<forall>k. s k \<noteq> nil_uuid"])
      (blast dest: mode_ids_not_nil)
  then have "\<forall>y \<in> set ys. nil_uuid \<notin> set (map color_id (mode_colors y))"
    by (blast dest: list_all2_right)
  then show ?thesis by auto
qed

lemma mode_resent:
  assumes "nil_uuid \<notin> color_id ` set (mode_colors m)"
  shows "decode_mode i (sent_mode m) s = Inr (m, s)"
  using colors.list_resent [of "mode_colors m"] assms
  by (simp add: decode_mode_def sent_mode_def list_all_iff)

lemma modes_resent:
  "\<forall>m \<in> set ms. nil_uuid \<notin> color_id ` set (mode_colors m) \<Longrightarrow>
     collect_from i decode_mode (map sent_mode ms) s = Inr (ms, s)"
  by (induction ms arbitrary: i) (simp_all add: mode_resent)


lemma decode_prompt_list_cases:
  assumes "decode_prompt_list incoming src = Inr (c, src')"
  obtains gs fs groups fragments src1 where
    "collect decode_group gs src = Inr (groups, src1)"
    "collect (decode_fragment (map group_id groups)) fs src1 = Inr (fragments, src')"
    "c = PromptList groups fragments"
  using assms
  by (auto simp: decode_prompt_list_def split: sum.splits option.splits prod.splits)

lemma decode_stylesheet_set_cases:
  assumes "decode_stylesheet_set incoming src = Inr (c, src')"
  obtains g ss as sheets assets src1 names paths where
    "collect decode_sheet ss (src, []) = Inr (sheets, src1, names)"
    "collect decode_asset as (src1, []) = Inr (assets, src', paths)"
    "c = StylesheetSet g sheets assets"
  using assms
  by (auto simp: decode_stylesheet_set_def split: sum.splits option.splits prod.splits)

lemma decode_record_list_cases:
  assumes "decode_record_list incoming src = Inr (c, src')"
  obtains sc recs where "record_schema_known sc"
    "decode_list (RecordList sc) decode_record ''records'' recs src = Inr (c, src')"
  using assms
  by (auto simp: decode_record_list_def split: sum.splits option.splits if_splits)

lemma decode_list_wraps:
  "decode_list wrap f what incoming src = Inr (c, src') \<Longrightarrow> \<exists>ys. c = wrap ys"
  by (auto simp: decode_list_def split: sum.splits)

lemma prompt_list_ok:
  assumes "decode_prompt_list incoming src = Inr (c, src')"
  shows "content_type c = TypePromptList \<and> content_ok parse_url c"
  using assms by (rule decode_prompt_list_cases) (auto dest: fragments.all_ok)

lemma stylesheet_set_ok:
  assumes "decode_stylesheet_set incoming src = Inr (c, src')"
  shows "content_type c = TypeStylesheetSet \<and> content_ok parse_url c"
  using assms
  by (rule decode_stylesheet_set_cases)
    (auto dest: sheets.keys_distinct assets.keys_distinct assets.all_ok)

lemma record_list_ok:
  assumes "decode_record_list incoming src = Inr (c, src')"
  shows "content_type c = TypeRecordList \<and> content_ok parse_url c"
  using assms by (rule decode_record_list_cases) (auto dest: records.content_all_ok)

lemma decode_content_checked:
  assumes "decode_content json parse_url t raw src = Inr (c, src')"
  shows "content_type c = t \<and> content_ok parse_url c"
proof (cases t)
  case TypePromptList
  then show ?thesis using assms by (auto simp: decode_content_def dest: prompt_list_ok)
next
  case TypeStylesheetSet
  then show ?thesis using assms by (auto simp: decode_content_def dest: stylesheet_set_ok)
next
  case TypeRecordList
  then show ?thesis using assms by (auto simp: decode_content_def dest: record_list_ok)
qed (use assms in \<open>auto simp: decode_content_def split: sum.splits
       dest: decode_list_wraps links.content_all_ok images.content_all_ok
         entries.content_all_ok variables.content_all_ok settings.content_all_ok
         scripts.content_all_ok\<close>)

lemma prompt_list_no_nil:
  assumes "decode_prompt_list incoming src = Inr (c, src')" and "\<forall>k. src k \<noteq> nil_uuid"
  shows "nil_uuid \<notin> set (item_ids c)"
  using assms(1)
proof (rule decode_prompt_list_cases)
  fix gs fs groups fragments src1
  assume g: "collect decode_group gs src = Inr (groups, src1)"
    and f: "collect (decode_fragment (map group_id groups)) fs src1 = Inr (fragments, src')"
    and c: "c = PromptList groups fragments"
  from groups.no_nil_ids [OF g] assms(2)
  have 1: "nil_uuid \<notin> set (map group_id groups)" and src1: "\<forall>k. src1 k \<noteq> nil_uuid" by simp_all
  from fragments.no_nil_ids [OF f] src1 have "nil_uuid \<notin> set (map frag_id fragments)" by simp
  with 1 show ?thesis by (simp add: c)
qed

lemma stylesheet_set_no_nil:
  assumes "decode_stylesheet_set incoming src = Inr (c, src')" and "\<forall>k. src k \<noteq> nil_uuid"
  shows "nil_uuid \<notin> set (item_ids c)"
  using assms(1)
proof (rule decode_stylesheet_set_cases)
  fix g ss as sheets assets src1 names paths
  assume s: "collect decode_sheet ss (src, []) = Inr (sheets, src1, names)"
    and a: "collect decode_asset as (src1, []) = Inr (assets, src', paths)"
    and c: "c = StylesheetSet g sheets assets"
  from sheets.no_nil_ids [OF s] assms(2)
  have 1: "nil_uuid \<notin> set (map sheet_id sheets)" and src1: "\<forall>k. src1 k \<noteq> nil_uuid" by simp_all
  from assets.no_nil_ids [OF a] src1 have "nil_uuid \<notin> set (map asset_id assets)" by simp
  with 1 show ?thesis by (simp add: c)
qed

lemma record_list_no_nil:
  assumes "decode_record_list incoming src = Inr (c, src')" and "\<forall>k. src k \<noteq> nil_uuid"
  shows "nil_uuid \<notin> set (item_ids c)"
  using assms(1) by (rule decode_record_list_cases) (auto dest!: records.content_no_nil [OF _ assms(2)])

text \<open>
  Decoding leaves no item without an identifier, as long as the identifiers drawn for
  those that came without one are not the nil identifier: preserved data can key against
  every item of what a save accepted.
\<close>

theorem decode_content_no_nil_ids:
  assumes "decode_content json parse_url t raw src = Inr (c, src')"
    and "\<forall>k. src k \<noteq> nil_uuid"
  shows "nil_uuid \<notin> set (item_ids c)"
proof (cases t)
  case TypePromptList
  then have "decode_prompt_list (json_prompts json raw) src = Inr (c, src')"
    using assms(1) by (simp add: decode_content_def)
  then show ?thesis
    using assms(2) by (rule prompt_list_no_nil)
next
  case TypeStylesheetSet
  then have "decode_stylesheet_set (json_stylesheets json raw) src = Inr (c, src')"
    using assms(1) by (simp add: decode_content_def)
  then show ?thesis
    using assms(2) by (rule stylesheet_set_no_nil)
next
  case TypeRecordList
  then have "decode_record_list (json_records json raw) src = Inr (c, src')"
    using assms(1) by (simp add: decode_content_def)
  then show ?thesis
    using assms(2) by (rule record_list_no_nil)
next
  case TypeColorSet
  then show ?thesis
    using assms
    by (auto simp: decode_content_def decode_list_def split: sum.splits
        simp del: item_ids.simps dest: modes_not_nil)
qed (use assms in \<open>auto simp: decode_content_def split: sum.splits
       dest!: texts.content_no_nil turns.content_no_nil fields.content_no_nil
         links.content_no_nil images.content_no_nil entries.content_no_nil
         variables.content_no_nil settings.content_no_nil scripts.content_no_nil\<close>)

text \<open>The request that sends a content back as it was served.\<close>

fun reads_as :: "'raw json_reader \<Rightarrow> 'raw \<Rightarrow> content \<Rightarrow> bool" where
  "reads_as json raw (Prose t) \<longleftrightarrow> json_text json raw = Inr (Some t)"
| "reads_as json raw (TextSet ts) \<longleftrightarrow> json_texts json raw = Inr (Some (map sent_text ts))"
| "reads_as json raw (DialogueSample ts) \<longleftrightarrow> json_turns json raw = Inr (Some (map sent_turn ts))"
| "reads_as json raw (ImageSet is) \<longleftrightarrow> json_images json raw = Inr (Some is)"
| "reads_as json raw (FieldList fs) \<longleftrightarrow> json_fields json raw = Inr (Some (map sent_field fs))"
| "reads_as json raw (LinkList ls) \<longleftrightarrow> json_links json raw = Inr (Some ls)"
| "reads_as json raw (EntryTable es) \<longleftrightarrow> json_entries json raw = Inr (Some (map sent_entry es))"
| "reads_as json raw (PromptList gs fs) \<longleftrightarrow>
     json_prompts json raw =
       Inr \<lparr>in_groups = Some (map sent_group gs), in_fragments = Some (map sent_fragment fs)\<rparr>"
| "reads_as json raw (VariableSchema vs) \<longleftrightarrow>
     json_variables json raw = Inr (Some (map sent_variable vs))"
| "reads_as json raw (SettingGroup ss) \<longleftrightarrow>
     json_settings json raw = Inr (Some (map sent_setting ss))"
| "reads_as json raw (ScriptList ss) \<longleftrightarrow> json_scripts json raw = Inr (Some (map sent_script ss))"
| "reads_as json raw (ColorSet ms) \<longleftrightarrow> json_modes json raw = Inr (Some (map sent_mode ms))"
| "reads_as json raw (StylesheetSet g ss as) \<longleftrightarrow>
     json_stylesheets json raw =
       Inr \<lparr>in_global = Some g, in_sheets = Some ss, in_assets = Some as\<rparr>"
| "reads_as json raw (RecordList sc rs) \<longleftrightarrow>
     json_records json raw =
       Inr \<lparr>in_schema = Some sc, in_records_held = Some (map sent_record rs)\<rparr>"

lemma prompt_list_resent:
  assumes "content_ok parse_url (PromptList gs fs)"
    and "nil_uuid \<notin> set (item_ids (PromptList gs fs))"
  shows "decode_prompt_list (Inr \<lparr>in_groups = Some (map sent_group gs),
      in_fragments = Some (map sent_fragment fs)\<rparr>) src = Inr (PromptList gs fs, src)"
  using assms
  by (simp add: decode_prompt_list_def groups.list_resent fragments.list_resent list_all_iff)

lemma stylesheet_set_resent:
  assumes "content_ok parse_url (StylesheetSet g ss as)"
    and "nil_uuid \<notin> set (item_ids (StylesheetSet g ss as))"
  shows "decode_stylesheet_set (Inr \<lparr>in_global = Some g, in_sheets = Some ss,
      in_assets = Some as\<rparr>) src = Inr (StylesheetSet g ss as, src)"
  using assms
  by (simp add: decode_stylesheet_set_def sheets.list_reread assets.list_reread list_all_iff)

text \<open>
  Saving is a round trip: content that has passed the checks and whose items all carry
  identifiers, sent back as it was served, decodes to itself, and no identifier is drawn.
\<close>

theorem decode_content_resent:
  assumes "content_ok parse_url c" and "nil_uuid \<notin> set (item_ids c)"
    and "reads_as json raw c"
  shows "decode_content json parse_url (content_type c) raw src = Inr (c, src)"
proof (cases c)
  case (PromptList gs fs)
  then show ?thesis
    using assms prompt_list_resent by (fastforce simp: decode_content_def)
next
  case (StylesheetSet g ss as)
  then show ?thesis
    using assms stylesheet_set_resent by (fastforce simp: decode_content_def)
next
  case (ColorSet ms)
  then show ?thesis
    using assms modes_resent [of ms 0 src] by (auto simp: decode_content_def decode_list_def)
next
  case (RecordList sc rs)
  then show ?thesis
    using assms records.content_resent [of rs "RecordList sc" "''records''" src]
    by (auto simp: decode_content_def decode_record_list_def)
qed (use assms in \<open>auto simp: decode_content_def list_all_iff
       intro!: texts.content_resent turns.content_resent fields.content_resent
         links.content_resent [unfolded list.map_ident]
         images.content_resent [unfolded list.map_ident] entries.content_resent
         variables.content_resent settings.content_resent scripts.content_resent\<close>)

text \<open>
  C6. Whatever \<^verbatim>\<open>DecodeContent\<close> accepts is content of the element type it was asked for and has
  passed the checks of that type: links are http or https addresses with a host, images name their
  media, words come from their closed vocabularies, fragments sit in groups the list carries,
  settings and variables are named, scripts reach back a possible distance, stylesheet names and
  asset paths do not repeat, records are within the Lumia bounds. Every item carries an identifier,
  as long as none that is drawn is nil, and sent again as it was served the content decodes to
  itself, with nothing drawn. Sizes, and items that repeat an identifier, are not checked here.
\<close>

theorem decode_content_sound:
  assumes "decode_content json parse_url t raw src = Inr (c, src')" "\<forall>k. src k \<noteq> nil_uuid"
  shows "content_type c = t \<and> content_ok parse_url c \<and> nil_uuid \<notin> set (item_ids c) \<and>
    (\<forall>again drawing. reads_as json again c \<longrightarrow>
       decode_content json parse_url t again drawing = Inr (c, drawing))"
proof -
  have ok: "content_type c = t" "content_ok parse_url c" using decode_content_checked [OF assms(1)] by simp_all
  have ids: "nil_uuid \<notin> set (item_ids c)" by (rule decode_content_no_nil_ids [OF assms])
  have "decode_content json parse_url t again drawing = Inr (c, drawing)" if "reads_as json again c"
    for again and drawing :: uuid_source
    using decode_content_resent [OF ok(2) ids that] ok(1) by simp
  then show ?thesis using ok ids by simp
qed

section \<open>A request\<close>

text \<open>
  A page saved with one link and a prompt of one group and one fragment in it; every other
  type's request is malformed.
\<close>

definition sample_link :: link_item where
  "sample_link = \<lparr>link_id = 0, link_label = ''site'', link_url = ''https://a.example'',
                  link_note = []\<rparr>"

definition sample_group :: prompt_group where
  "sample_group = \<lparr>group_id = 7, group_name = ''main''\<rparr>"

definition sample_fragment :: prompt_fragment where
  "sample_fragment =
     \<lparr>frag_id = 8, frag_name = ''intro'', frag_group_id = Some 7, frag_role = PromptSystem,
      frag_text = ''You are'', frag_protected = True, frag_marker = [], frag_enabled = True,
      frag_placement = BeforeHistory, frag_depth = None\<rparr>"

definition sample_reader :: "string json_reader" where
  "sample_reader =
     \<lparr>json_text = (\<lambda>raw. Inl ''no''), json_texts = (\<lambda>raw. Inl ''no''),
      json_turns = (\<lambda>raw. Inl ''no''), json_fields = (\<lambda>raw. Inl ''no''),
      json_links = (\<lambda>raw. Inr (Some [sample_link])), json_entries = (\<lambda>raw. Inl ''no''),
      json_prompts = (\<lambda>raw. Inr \<lparr>in_groups = Some (map sent_group [sample_group]),
                                 in_fragments = Some (map sent_fragment [sample_fragment])\<rparr>),
      json_variables = (\<lambda>raw. Inl ''no''), json_settings = (\<lambda>raw. Inl ''no''),
      json_scripts = (\<lambda>raw. Inl ''no''), json_modes = (\<lambda>raw. Inl ''no''),
      json_stylesheets = (\<lambda>raw. Inl ''no''), json_records = (\<lambda>raw. Inl ''no''),
      json_images = (\<lambda>raw. Inl ''no'')\<rparr>"

definition sample_urls :: url_parser where
  "sample_urls a = (if a = ''https://a.example'' then Some (''https'', ''a.example'') else None)"

lemma sample_decoded:
  "decode_content sample_reader sample_urls TypeLinkList [] (\<lambda>k. 5) =
     Inr (LinkList [sample_link\<lparr>link_id := 5\<rparr>], \<lambda>k. 5)"
  by (simp add: decode_content_def decode_list_def decode_link_def check_web_address_def
      sample_reader_def sample_urls_def sample_link_def item_id_def drawn_def after_draw_def)

theorem decode_content_sound_witness:
  "content_type (LinkList [sample_link\<lparr>link_id := 5\<rparr>]) = TypeLinkList \<and>
   content_ok sample_urls (LinkList [sample_link\<lparr>link_id := 5\<rparr>]) \<and>
   nil_uuid \<notin> set (item_ids (LinkList [sample_link\<lparr>link_id := 5\<rparr>]))"
  using decode_content_sound [OF sample_decoded] by auto

theorem decode_content_no_nil_ids_witness:
  "nil_uuid \<notin> set (item_ids (LinkList [sample_link\<lparr>link_id := 5\<rparr>]))"
  by (rule decode_content_no_nil_ids [OF sample_decoded]) simp

theorem decode_content_resent_witness:
  "decode_content sample_reader sample_urls TypePromptList [] (\<lambda>k. 5) =
     Inr (PromptList [sample_group] [sample_fragment], \<lambda>k. 5)"
proof -
  have ok: "content_ok sample_urls (PromptList [sample_group] [sample_fragment])"
    by (simp add: fragment_ok_def sample_fragment_def sample_group_def)
  have ids: "nil_uuid \<notin> set (item_ids (PromptList [sample_group] [sample_fragment]))"
    by (simp add: sample_fragment_def sample_group_def)
  have reads: "reads_as sample_reader [] (PromptList [sample_group] [sample_fragment])"
    by (simp add: sample_reader_def)
  show ?thesis using decode_content_resent [OF ok ids reads] by simp
qed

end
