(* ===== verification/Catalog.thy ===== *)
theory Catalog
  imports Content
begin

text \<open>
  Layouts, widths and the block catalogs (\<^verbatim>\<open>layout.go\<close>, \<^verbatim>\<open>catalog.go\<close>, \<^verbatim>\<open>block.go\<close> of package
  \<^verbatim>\<open>block\<close>): what a kind's page may hold, in which arrangement, and how a catalog entry is
  looked up. The lemmas say what the catalogs promise the components that read them: every
  entry's elements attach to their roles, carry the options their types take, and fit a
  layout the entry's width can hold.
\<close>

section \<open>Layouts and widths\<close>

datatype layout = Single | Duo | MainAside | Trio | Stack2 | Stack3 | OtherLayout string

datatype width = Full | TwoThirds | Half | Third | OtherWidth string

text \<open>\<^verbatim>\<open>Layout.Slots\<close>; a layout outside the set has none.\<close>

fun layout_slots :: "layout \<Rightarrow> slot list" where
  "layout_slots Single = [SlotMain]"
| "layout_slots Duo = [SlotLeft, SlotRight]"
| "layout_slots MainAside = [SlotMain, SlotAside]"
| "layout_slots Trio = [SlotLeft, SlotMiddle, SlotRight]"
| "layout_slots Stack2 = [SlotTop, SlotBottom]"
| "layout_slots Stack3 = [SlotTop, SlotMiddle, SlotBottom]"
| "layout_slots (OtherLayout s) = []"

text \<open>\<^verbatim>\<open>Layout.MinimumWidth\<close>; the zero value of a missing map entry is the empty string.\<close>

fun minimum_width :: "layout \<Rightarrow> width" where
  "minimum_width Single = Third"
| "minimum_width Duo = TwoThirds"
| "minimum_width MainAside = TwoThirds"
| "minimum_width Trio = Full"
| "minimum_width Stack2 = Third"
| "minimum_width Stack3 = Third"
| "minimum_width (OtherLayout s) = OtherWidth []"

fun columns :: "width \<Rightarrow> nat" where
  "columns Full = 12"
| "columns TwoThirds = 8"
| "columns Half = 6"
| "columns Third = 4"
| "columns (OtherWidth s) = 0"

fun width_label :: "width \<Rightarrow> string" where
  "width_label Full = ''full width''"
| "width_label TwoThirds = ''two thirds''"
| "width_label Half = ''half''"
| "width_label Third = ''a third''"
| "width_label (OtherWidth s) = s"

lemma layout_slots_distinct [simp]: "distinct (layout_slots l)"
  by (cases l) simp_all

lemma minimum_width_columns: "layout_slots l \<noteq> [] \<Longrightarrow> 4 \<le> columns (minimum_width l)"
  by (cases l) simp_all

section \<open>Blocks\<close>

datatype definition_id =
    CharacterCore | LorebookCore | PresetCore | PresetSettings | PresetVariables
  | PresetScripts | PresetNudges | ThemeCore | ThemeStylesheet | PackCore | Messages
  | Expressions | Lorebook | ImagePrompts | ModelInstructions | Relationships | Gallery
  | Usage | Changelog | Attributes | AuthorNotes | RunsBestWith | CustomBlock
  | OtherDefinition string

record block =
  blk_id :: uuid
  blk_definition :: definition_id
  blk_title :: "string option"
  blk_position :: nat
  blk_hidden :: bool
  blk_layout :: layout
  blk_width :: width
  blk_elements :: "element list"

text \<open>\<^verbatim>\<open>Block.Empty\<close>.\<close>

definition block_empty :: "block \<Rightarrow> bool" where
  "block_empty b \<longleftrightarrow> \<not> list_ex written (blk_elements b)"

section \<open>Catalog entries\<close>

datatype catalog_group = GroupFile | GroupReader | GroupWork | GroupOther | NoGroup

definition groups_in_order :: "catalog_group list" where
  "groups_in_order = [GroupFile, GroupReader, GroupWork, GroupOther]"

fun group_title :: "catalog_group \<Rightarrow> string" where
  "group_title GroupFile = ''Content that travels with the file''"
| "group_title GroupReader = ''Things a reader sees''"
| "group_title GroupWork = ''About the work''"
| "group_title GroupOther = ''Anything else''"
| "group_title NoGroup = []"

record defined_element =
  de_role :: role
  de_type :: elem_type
  de_options :: options
  de_pinned :: bool

record block_definition =
  def_id :: definition_id
  def_title :: string
  def_required :: bool
  def_hideable :: bool
  def_elements :: "defined_element list"
  def_layouts :: "layout list"
  def_width :: width
  def_summary :: string
  def_group :: catalog_group
  def_repeatable :: bool
  def_choices :: "defined_element list"

text \<open>The zero value a composite literal fills the fields it does not name with.\<close>

definition blank_definition :: block_definition where
  "blank_definition =
     \<lparr>def_id = OtherDefinition [], def_title = [], def_required = False, def_hideable = False,
      def_elements = [], def_layouts = [], def_width = OtherWidth [], def_summary = [],
      def_group = NoGroup, def_repeatable = False, def_choices = []\<rparr>"

abbreviation rich :: options where
  "rich \<equiv> \<lparr>opt_display = DisplayRich, opt_item_size = NoItemSize\<rparr>"

abbreviation verbatim :: options where
  "verbatim \<equiv> \<lparr>opt_display = DisplayVerbatim, opt_item_size = NoItemSize\<rparr>"

abbreviation drawn_at :: "item_size \<Rightarrow> options" where
  "drawn_at s \<equiv> \<lparr>opt_display = NoDisplay, opt_item_size = s\<rparr>"

abbreviation pinned_el :: "role \<Rightarrow> elem_type \<Rightarrow> options \<Rightarrow> defined_element" where
  "pinned_el r t opts \<equiv> \<lparr>de_role = r, de_type = t, de_options = opts, de_pinned = True\<rparr>"

abbreviation loose_el :: "role \<Rightarrow> elem_type \<Rightarrow> options \<Rightarrow> defined_element" where
  "loose_el r t opts \<equiv> \<lparr>de_role = r, de_type = t, de_options = opts, de_pinned = False\<rparr>"

section \<open>The catalogs\<close>

definition character_catalog :: "block_definition list" where
  "character_catalog =
    [blank_definition\<lparr>def_id := CharacterCore, def_title := ''The character'',
       def_required := True, def_hideable := True,
       def_elements :=
         [pinned_el RoleDescription TypeProse rich,
          pinned_el RolePersonality TypeProse rich,
          pinned_el RoleScenario TypeProse rich],
       def_layouts := [Stack3, Trio], def_width := TwoThirds\<rparr>,
     blank_definition\<lparr>def_id := Messages, def_title := ''Messages'',
       def_required := True, def_hideable := False,
       def_elements :=
         [pinned_el RoleGreetings TypeTextSet rich,
          pinned_el RoleExampleDialogue TypeDialogueSample no_options,
          loose_el RoleGroupGreetings TypeTextSet rich],
       def_layouts := [Stack2, Stack3], def_width := Full\<rparr>,
     blank_definition\<lparr>def_id := Expressions, def_title := ''Expressions'',
       def_summary := ''A picture per expression, each named as the source named it.'',
       def_group := GroupFile,
       def_elements := [loose_el RoleExpressions TypeImageSet (drawn_at ItemSmall)],
       def_layouts := [Single], def_width := Full\<rparr>,
     blank_definition\<lparr>def_id := Lorebook, def_title := ''Lorebook'',
       def_summary := ''Entries a model reads once one of their key words turns up.'',
       def_group := GroupFile,
       def_elements := [loose_el RoleLorebookEntries TypeEntryTable no_options],
       def_layouts := [Single], def_width := TwoThirds\<rparr>,
     blank_definition\<lparr>def_id := ImagePrompts, def_title := ''Image prompts'',
       def_summary := ''The settings and the prompt text the artwork came from.'',
       def_group := GroupWork,
       def_elements :=
         [loose_el NoRole TypeFieldList no_options,
          loose_el NoRole TypeProse verbatim,
          loose_el NoRole TypeProse verbatim],
       def_layouts := [Stack3], def_width := TwoThirds\<rparr>,
     blank_definition\<lparr>def_id := ModelInstructions, def_title := ''Model instructions'',
       def_summary := ''The system prompt, and the note that goes after the history.'',
       def_group := GroupFile,
       def_elements :=
         [loose_el RoleSystemPrompt TypeProse verbatim,
          loose_el RolePostHistoryInstructions TypeProse verbatim],
       def_layouts := [Stack2, Duo], def_width := Half\<rparr>,
     blank_definition\<lparr>def_id := Relationships, def_title := ''Relationships'',
       def_summary := ''Links to the work this character belongs beside.'',
       def_group := GroupReader,
       def_elements := [loose_el NoRole TypeLinkList no_options],
       def_layouts := [Single], def_width := Third\<rparr>]"

definition lorebook_catalog :: "block_definition list" where
  "lorebook_catalog =
    [blank_definition\<lparr>def_id := LorebookCore, def_title := ''Entries'',
       def_required := True, def_hideable := False,
       def_elements := [pinned_el RoleLorebookEntries TypeEntryTable no_options],
       def_layouts := [Single], def_width := Full\<rparr>]"

definition preset_catalog :: "block_definition list" where
  "preset_catalog =
    [blank_definition\<lparr>def_id := PresetCore, def_title := ''Prompt fragments'',
       def_required := True, def_hideable := False,
       def_elements := [pinned_el RolePromptFragments TypePromptList no_options],
       def_layouts := [Single], def_width := Full\<rparr>,
     blank_definition\<lparr>def_id := PresetSettings, def_title := ''Settings'',
       def_summary := ''Samplers, completion behaviour, and the advanced settings.'',
       def_group := GroupFile,
       def_elements :=
         [loose_el RoleSamplerSettings TypeSettingGroup no_options,
          loose_el RoleCompletionSettings TypeSettingGroup no_options,
          loose_el RoleAdvancedSettings TypeSettingGroup no_options],
       def_layouts := [Trio, Stack3], def_width := Full\<rparr>,
     blank_definition\<lparr>def_id := PresetVariables, def_title := ''Variables'',
       def_summary := ''The form a reader fills in before they use the preset.'',
       def_group := GroupFile,
       def_elements := [loose_el RolePromptVariables TypeVariableSchema no_options],
       def_layouts := [Single], def_width := TwoThirds\<rparr>,
     blank_definition\<lparr>def_id := PresetScripts, def_title := ''Regex scripts'',
       def_summary := ''Find and replace over what is written and what comes back.'',
       def_group := GroupFile,
       def_elements := [loose_el RoleRegexScripts TypeScriptList no_options],
       def_layouts := [Single], def_width := TwoThirds\<rparr>,
     blank_definition\<lparr>def_id := PresetNudges, def_title := ''Nudges'',
       def_summary := ''The short prompts an app sends on its own, and the formats it wraps.'',
       def_group := GroupFile,
       def_elements := [loose_el RolePromptNudges TypeTextSet verbatim],
       def_layouts := [Single], def_width := Third\<rparr>]"

definition theme_catalog :: "block_definition list" where
  "theme_catalog =
    [blank_definition\<lparr>def_id := ThemeCore, def_title := ''Palette'',
       def_required := True, def_hideable := False,
       def_elements :=
         [pinned_el RoleThemeTokens TypeColorSet no_options,
          pinned_el RoleThemeControls TypeSettingGroup no_options],
       def_layouts := [Duo, Stack2], def_width := Full\<rparr>,
     blank_definition\<lparr>def_id := ThemeStylesheet, def_title := ''Stylesheets'',
       def_required := True, def_hideable := True,
       def_elements := [pinned_el RoleStylesheets TypeStylesheetSet no_options],
       def_layouts := [Single], def_width := Full\<rparr>]"

definition pack_catalog :: "block_definition list" where
  "pack_catalog =
    [blank_definition\<lparr>def_id := PackCore, def_title := ''Pack items'',
       def_required := True, def_hideable := False,
       def_elements := [pinned_el RolePackItems TypeRecordList no_options],
       def_layouts := [Single], def_width := Full\<rparr>]"

definition shared_catalog :: "block_definition list" where
  "shared_catalog =
    [blank_definition\<lparr>def_id := Gallery, def_title := ''Gallery'',
       def_summary := ''Images of the work, kept together and carried in a download.'',
       def_group := GroupFile,
       def_elements := [loose_el RoleGallery TypeImageSet (drawn_at ItemMedium)],
       def_layouts := [Single], def_width := Half\<rparr>,
     blank_definition\<lparr>def_id := Usage, def_title := ''How to use this'',
       def_summary := ''A note on how to run it and what it expects.'',
       def_group := GroupReader,
       def_elements := [loose_el NoRole TypeProse rich],
       def_layouts := [Single], def_width := Half\<rparr>,
     blank_definition\<lparr>def_id := Changelog, def_title := ''Changelog'',
       def_summary := ''What changed, one entry at a time.'',
       def_group := GroupWork,
       def_elements := [loose_el NoRole TypeTextSet rich],
       def_layouts := [Single], def_width := Half\<rparr>,
     blank_definition\<lparr>def_id := Attributes, def_title := ''Attributes'',
       def_summary := ''Short facts as a grid, each one a name and a value.'',
       def_group := GroupReader,
       def_elements := [loose_el NoRole TypeFieldList no_options],
       def_layouts := [Single], def_width := Third\<rparr>,
     blank_definition\<lparr>def_id := AuthorNotes,
       def_title := ''Author'' @ [CHR 0xE2, CHR 0x80, CHR 0x99] @ ''s notes'',
       def_summary := ''What you want to say about making it.'',
       def_group := GroupWork,
       def_elements := [loose_el RoleCreatorNotes TypeProse rich],
       def_layouts := [Single], def_width := Third\<rparr>,
     blank_definition\<lparr>def_id := RunsBestWith, def_title := ''Runs best with'',
       def_summary := ''Links to the work a reader should pair this with.'',
       def_group := GroupReader,
       def_elements := [loose_el NoRole TypeLinkList no_options],
       def_layouts := [Single], def_width := Third\<rparr>,
     blank_definition\<lparr>def_id := CustomBlock, def_title := ''New block'',
       def_summary := ''A heading you write, with text, images, links or a list under it.'',
       def_group := GroupOther, def_repeatable := True,
       def_layouts := [Single, Duo, MainAside, Trio, Stack2, Stack3], def_width := Full,
       def_choices :=
         [loose_el NoRole TypeProse rich,
          loose_el NoRole TypeImageSet (drawn_at ItemMedium),
          loose_el NoRole TypeLinkList no_options,
          loose_el NoRole TypeTextSet rich]\<rparr>]"

definition catalogs :: "(string \<times> block_definition list) list" where
  "catalogs =
    [(''character'', character_catalog), (''lorebook'', lorebook_catalog),
     (''preset'', preset_catalog), (''theme'', theme_catalog), (''pack'', pack_catalog)]"

lemmas catalog_defs = catalogs_def character_catalog_def lorebook_catalog_def
  preset_catalog_def theme_catalog_def pack_catalog_def shared_catalog_def
  blank_definition_def

text \<open>\<^verbatim>\<open>Catalog\<close> and \<^verbatim>\<open>Kinds\<close> (whose order Go leaves open).\<close>

definition catalog :: "string \<Rightarrow> block_definition list option" where
  "catalog kind =
     (case map_of catalogs kind of
        None \<Rightarrow> None
      | Some own \<Rightarrow> Some (own @ shared_catalog))"

definition kinds :: "string list" where
  "kinds = map fst catalogs"

text \<open>\<^verbatim>\<open>DefinitionID.Definition\<close>, \<^verbatim>\<open>Definition.element\<close>, \<^verbatim>\<open>Definition.layoutFor\<close>.\<close>

definition definition_of :: "definition_id \<Rightarrow> string \<Rightarrow> block_definition option" where
  "definition_of i kind =
     (case catalog kind of
        None \<Rightarrow> None
      | Some definitions \<Rightarrow> find (\<lambda>d. def_id d = i) definitions)"

definition defined_for :: "block_definition \<Rightarrow> role \<Rightarrow> defined_element option" where
  "defined_for d r = find (\<lambda>e. de_role e = r) (def_elements d)"

definition layout_for :: "block_definition \<Rightarrow> nat \<Rightarrow> layout option" where
  "layout_for d count = find (\<lambda>l. length (layout_slots l) \<ge> count) (def_layouts d)"

text \<open>\<^verbatim>\<open>Block.Pinned\<close> (\<^verbatim>\<open>placement.go\<close>): read from the catalog, never from the row.\<close>

definition block_pinned :: "block \<Rightarrow> role \<Rightarrow> string \<Rightarrow> bool" where
  "block_pinned b r kind =
     (case definition_of (blk_definition b) kind of
        None \<Rightarrow> False
      | Some d \<Rightarrow>
          (case defined_for d r of
             None \<Rightarrow> False
           | Some e \<Rightarrow> de_pinned e))"

lemma definition_of_catalog:
  "definition_of i kind = Some d \<Longrightarrow> \<exists>ds. catalog kind = Some ds \<and> d \<in> set ds \<and> def_id d = i"
  by (auto simp: definition_of_def find_Some_iff split: option.splits)

section \<open>What the catalogs promise\<close>

text \<open>The presentation an element type takes, as a save checks it.\<close>

definition takes_display :: "elem_type \<Rightarrow> bool" where
  "takes_display t \<longleftrightarrow> t = TypeProse \<or> t = TypeTextSet"

definition options_fit :: "elem_type \<Rightarrow> options \<Rightarrow> bool" where
  "options_fit t opts \<longleftrightarrow>
     (if takes_display t then display_known (opt_display opts) else opt_display opts = NoDisplay) \<and>
     (if t = TypeImageSet then item_size_known (opt_item_size opts)
      else opt_item_size opts = NoItemSize)"

definition role_fits :: "role \<Rightarrow> elem_type \<Rightarrow> bool" where
  "role_fits r t \<longleftrightarrow> r = NoRole \<or> role_allows r t"

definition defined_element_ok :: "defined_element \<Rightarrow> bool" where
  "defined_element_ok e \<longleftrightarrow>
     elem_type_known (de_type e) \<and> options_fit (de_type e) (de_options e) \<and>
     role_fits (de_role e) (de_type e)"

text \<open>A layout holds \<open>n\<close> elements of the entry, at the entry's own width.\<close>

definition fits_count :: "block_definition \<Rightarrow> nat \<Rightarrow> bool" where
  "fits_count d n \<longleftrightarrow>
     (case layout_for d n of
        None \<Rightarrow> False
      | Some l \<Rightarrow> columns (minimum_width l) \<le> columns (def_width d))"

definition entry_ok :: "block_definition \<Rightarrow> bool" where
  "entry_ok d \<longleftrightarrow>
     list_all defined_element_ok (def_elements d @ def_choices d) \<and>
     list_all (fits_count d) [0..<Suc (length (def_elements d))] \<and>
     (def_choices d \<noteq> [] \<longrightarrow> fits_count d 1) \<and>
     list_all (\<lambda>l. layout_slots l \<noteq> []) (def_layouts d) \<and>
     columns (def_width d) \<noteq> 0"

lemmas entry_ok_defs = entry_ok_def fits_count_def layout_for_def defined_element_ok_def
  options_fit_def role_fits_def role_allows_def takes_display_def

text \<open>A fact of every catalog is a fact of the five lists.\<close>

lemma catalog_cases:
  assumes "catalog kind = Some ds"
    and "P (character_catalog @ shared_catalog)" and "P (lorebook_catalog @ shared_catalog)"
    and "P (preset_catalog @ shared_catalog)" and "P (theme_catalog @ shared_catalog)"
    and "P (pack_catalog @ shared_catalog)"
  shows "P ds"
  using assms by (auto simp: catalog_def catalogs_def split: if_splits option.splits)

lemma known_types [simp]:
  "elem_type_known TypeProse" "elem_type_known TypeTextSet" "elem_type_known TypeFieldList"
  "elem_type_known TypeDialogueSample" "elem_type_known TypeImageSet"
  "elem_type_known TypeLinkList" "elem_type_known TypeEntryTable"
  "elem_type_known TypePromptList" "elem_type_known TypeVariableSchema"
  "elem_type_known TypeSettingGroup" "elem_type_known TypeScriptList"
  "elem_type_known TypeColorSet" "elem_type_known TypeStylesheetSet"
  "elem_type_known TypeRecordList"
  by (simp_all add: elem_type_known_def schemas_def)

lemma own_entries_ok:
  "list_all entry_ok character_catalog" "list_all entry_ok lorebook_catalog"
  "list_all entry_ok preset_catalog" "list_all entry_ok theme_catalog"
  "list_all entry_ok pack_catalog" "list_all entry_ok shared_catalog"
  by (simp_all add: catalog_defs entry_ok_defs)

lemma catalog_entries_ok: "catalog kind = Some ds \<Longrightarrow> list_all entry_ok ds"
  by (erule catalog_cases) (simp_all add: own_entries_ok)

lemma definition_of_ok: "definition_of i kind = Some d \<Longrightarrow> entry_ok d"
  by (auto simp: list_all_iff dest!: definition_of_catalog catalog_entries_ok)

text \<open>No two entries of a catalog share an identifier, so a lookup finds the entry itself.\<close>

lemma catalog_ids_distinct: "catalog kind = Some ds \<Longrightarrow> distinct (map def_id ds)"
  by (erule catalog_cases) (simp_all add: catalog_defs)

lemma find_unique:
  "\<lbrakk>distinct (map f xs); x \<in> set xs\<rbrakk> \<Longrightarrow> find (\<lambda>y. f y = f x) xs = Some x"
  by (induction xs) auto

lemma definition_of_entry:
  assumes "catalog kind = Some ds" and "d \<in> set ds"
  shows "definition_of (def_id d) kind = Some d"
  using find_unique [OF catalog_ids_distinct [OF assms(1)] assms(2)] assms(1)
  by (simp add: definition_of_def)

text \<open>No role is placed twice in one catalog.\<close>

definition entry_roles :: "block_definition list \<Rightarrow> role list" where
  "entry_roles ds = filter (\<lambda>r. r \<noteq> NoRole) (concat (map (\<lambda>d. map de_role (def_elements d)) ds))"

lemma catalog_roles_distinct: "catalog kind = Some ds \<Longrightarrow> distinct (entry_roles ds)"
  by (erule catalog_cases) (simp_all add: catalog_defs entry_roles_def)

text \<open>Only a block that may repeat is offered with a choice of starts.\<close>

lemma entry_choices_repeatable:
  "catalog kind = Some ds \<Longrightarrow> list_all (\<lambda>d. def_choices d \<noteq> [] \<longleftrightarrow> def_repeatable d) ds"
  by (erule catalog_cases) (simp_all add: catalog_defs)

text \<open>A pinned element is a required block's, and a required block never repeats.\<close>

lemma entry_pinned_required:
  "catalog kind = Some ds \<Longrightarrow>
     list_all (\<lambda>d. (list_ex de_pinned (def_elements d) \<longleftrightarrow> def_required d) \<and>
                   (def_required d \<longrightarrow> \<not> def_repeatable d)) ds"
  by (erule catalog_cases) (simp_all add: catalog_defs)

lemma layout_for_Some:
  "layout_for d n = Some l \<Longrightarrow> l \<in> set (def_layouts d) \<and> n \<le> length (layout_slots l)"
  by (auto simp: layout_for_def find_Some_iff)

lemma entry_layout:
  assumes "entry_ok d" and "n \<le> length (def_elements d)"
  obtains l where "layout_for d n = Some l" "columns (minimum_width l) \<le> columns (def_width d)"
    "l \<in> set (def_layouts d)" "n \<le> length (layout_slots l)" "layout_slots l \<noteq> []"
proof -
  have "fits_count d n"
    using assms by (auto simp: entry_ok_def list_all_iff simp del: upt_Suc)
  then obtain l where l: "layout_for d n = Some l"
      "columns (minimum_width l) \<le> columns (def_width d)"
    by (auto simp: fits_count_def split: option.splits)
  moreover from layout_for_Some [OF l(1)]
  have "l \<in> set (def_layouts d)" "n \<le> length (layout_slots l)" by auto
  moreover from this(1) have "layout_slots l \<noteq> []"
    using assms(1) by (auto simp: entry_ok_def list_all_iff)
  ultimately show ?thesis by (rule that)
qed

end
