(* ===== verification/Placement.thy ===== *)
theory Placement
  imports Catalog "HOL-Library.Multiset"
begin

text \<open>
  Arranging elements into blocks (\<^verbatim>\<open>placement.go\<close>) and the add tray (\<^verbatim>\<open>tray.go\<close>): \<^verbatim>\<open>Place\<close>,
  which import and migration call to turn role-tagged elements into a page, and \<^verbatim>\<open>Offers\<close> and
  \<^verbatim>\<open>NewBlock\<close>, which a creator adds a block with.

  The lemmas: a placed page follows the catalog's order, holds every required block, no
  empty optional one, and every element it was given, once; what it adds is empty and
  pinned. A block the tray offers can be added.
\<close>

section \<open>Place\<close>

datatype place_error =
    NoCatalog string
  | MoreThanOne definition_id elem_type
  | WrongType role elem_type definition_id elem_type
  | NoSuchType elem_type
  | NoLayoutRoom definition_id nat
  | NowhereToPut string role

text \<open>
  \<^verbatim>\<open>take\<close> looks for the one unplaced element that matches a catalog slot. Its loop keeps the
  first match and refuses at the second.
\<close>

definition matches :: "defined_element \<Rightarrow> element \<Rightarrow> bool \<Rightarrow> bool" where
  "matches defined candidate is_placed \<longleftrightarrow>
     \<not> (is_placed \<or> el_role candidate \<noteq> de_role defined \<or> el_type candidate \<noteq> de_type defined)"

fun take_from ::
  "definition_id \<Rightarrow> defined_element \<Rightarrow> nat \<Rightarrow> nat option \<Rightarrow> (element \<times> bool) list \<Rightarrow>
     place_error + nat option" where
  "take_from d defined i found [] = Inr found"
| "take_from d defined i found ((candidate, is_placed) # rest) =
     (if \<not> matches defined candidate is_placed then take_from d defined (Suc i) found rest
      else if found \<noteq> None then Inl (MoreThanOne d (de_type defined))
      else take_from d defined (Suc i) (Some i) rest)"

definition take_element ::
  "block_definition \<Rightarrow> defined_element \<Rightarrow> element list \<Rightarrow> bool list \<Rightarrow> place_error + nat option"
  where
  "take_element d defined tagged placed =
     take_from (def_id d) defined 0 None (zip tagged placed)"

text \<open>
  The body of \<^verbatim>\<open>fill\<close>'s loop: no element where the source supplied none and the slot is not
  pinned. Its state is the marks and the identifiers to draw.
\<close>

definition fill_one ::
  "block_definition \<Rightarrow> element list \<Rightarrow> nat \<Rightarrow> defined_element \<Rightarrow> bool list \<times> uuid_source \<Rightarrow>
     place_error + element option \<times> bool list \<times> uuid_source" where
  "fill_one d tagged i defined = (\<lambda>(placed, src).
     (case take_element d defined tagged placed of
        Inl e \<Rightarrow> Inl e
      | Inr None \<Rightarrow>
          if \<not> de_pinned defined then Inr (None, placed, src)
          else
            (case type_empty (de_type defined) of
               None \<Rightarrow> Inl (NoSuchType (de_type defined))
             | Some c \<Rightarrow>
                 Inr (Some \<lparr>el_id = drawn src, el_type = de_type defined,
                            el_role = de_role defined, el_slot = NoSlot,
                            el_options = de_options defined, el_content = Some c\<rparr>,
                      placed, after_draw src))
      | Inr (Some found) \<Rightarrow>
          let e = tagged ! found
          in if el_type e \<noteq> de_type defined
             then Inl (WrongType (de_role defined) (el_type e) (def_id d) (de_type defined))
             else
               let (new, src') = item_id (el_id e) src
               in Inr (Some (e\<lparr>el_id := new, el_options := de_options defined\<rparr>),
                       placed[found := True], src')))"

definition fill ::
  "block_definition \<Rightarrow> element list \<Rightarrow> bool list \<times> uuid_source \<Rightarrow>
     place_error + element list \<times> bool list \<times> uuid_source" where
  "fill d tagged s =
     (case collect (fill_one d tagged) (def_elements d) s of
        Inl e \<Rightarrow> Inl e
      | Inr (found, s') \<Rightarrow> Inr (List.map_filter (\<lambda>x. x) found, s'))"

text \<open>
  Elements take the layout's slots in order. \<open>layout_for\<close> gave a layout with room, so the
  index never leaves the slots.
\<close>

definition seated :: "layout \<Rightarrow> element list \<Rightarrow> element list" where
  "seated l es = map (\<lambda>(e, s). e\<lparr>el_slot := s\<rparr>) (zip es (layout_slots l))"

definition place_one ::
  "element list \<Rightarrow> nat \<Rightarrow> block_definition \<Rightarrow> block list \<times> bool list \<times> uuid_source \<Rightarrow>
     place_error + block list \<times> bool list \<times> uuid_source" where
  "place_one tagged i d = (\<lambda>(blocks, placed, src).
     (case fill d tagged (placed, src) of
        Inl e \<Rightarrow> Inl e
      | Inr (elements, placed', src') \<Rightarrow>
          if elements = [] \<and> \<not> def_required d then Inr (blocks, placed', src')
          else
            (case layout_for d (length elements) of
               None \<Rightarrow> Inl (NoLayoutRoom (def_id d) (length elements))
             | Some l \<Rightarrow>
                 Inr (blocks @
                        [\<lparr>blk_id = drawn src', blk_definition = def_id d, blk_title = None,
                          blk_position = length blocks, blk_hidden = False, blk_layout = l,
                          blk_width = def_width d, blk_elements = seated l elements\<rparr>],
                      placed', after_draw src'))))"

definition place ::
  "string \<Rightarrow> element list \<Rightarrow> uuid_source \<Rightarrow> place_error + block list \<times> uuid_source" where
  "place kind tagged src =
     (case catalog kind of
        None \<Rightarrow> Inl (NoCatalog kind)
      | Some definitions \<Rightarrow>
          (case each (place_one tagged) definitions
                  ([], replicate (length tagged) False, src) of
             Inl e \<Rightarrow> Inl e
           | Inr (blocks, placed, src') \<Rightarrow>
               (case find (\<lambda>(e, is_placed). \<not> is_placed) (zip tagged placed) of
                  Some (e, _) \<Rightarrow> Inl (NowhereToPut kind (el_role e))
                | None \<Rightarrow> Inr (blocks, src'))))"

section \<open>The add tray\<close>

record start =
  start_type :: elem_type
  start_label :: string
  start_elements :: "defined_element list"

text \<open>\<^verbatim>\<open>Definition.starts\<close> (\<^verbatim>\<open>catalog.go\<close>): the ways a block may begin.\<close>

definition starts :: "block_definition \<Rightarrow> start list" where
  "starts d =
     (if def_choices d \<noteq> [] then
        map (\<lambda>c. \<lparr>start_type = de_type c, start_label = type_label (de_type c),
                   start_elements = [c]\<rparr>) (def_choices d)
      else
        (case def_elements d of
           [] \<Rightarrow> []
         | e # es \<Rightarrow> [\<lparr>start_type = de_type e, start_label = def_title d,
                        start_elements = e # es\<rparr>]))"

record offer =
  offer_definition :: definition_id
  offer_title :: string
  offer_summary :: string
  offer_group :: catalog_group
  offer_repeatable :: bool
  offer_choices :: "(elem_type \<times> string) list"

definition offers :: "string \<Rightarrow> offer list option" where
  "offers kind =
     map_option
       (\<lambda>definitions.
          map (\<lambda>d. \<lparr>offer_definition = def_id d, offer_title = def_title d,
                     offer_summary = def_summary d, offer_group = def_group d,
                     offer_repeatable = def_repeatable d,
                     offer_choices = map (\<lambda>s. (start_type s, start_label s)) (starts d)\<rparr>)
            (filter (\<lambda>d. \<not> def_required d) definitions))
       (catalog kind)"

datatype add_error =
    HasNoBlock string definition_id
  | AlwaysThere string string
  | AlreadyThere string
  | DoesNotHold string elem_type
  | NoRoomToStart definition_id nat
  | StartTypeUnknown elem_type

text \<open>The body of \<^verbatim>\<open>NewBlock\<close>'s loop: an empty element for one slot.\<close>

definition start_one ::
  "layout \<Rightarrow> nat \<Rightarrow> defined_element \<Rightarrow> uuid_source \<Rightarrow> add_error + element \<times> uuid_source" where
  "start_one l i defined src =
     (case type_empty (de_type defined) of
        None \<Rightarrow> Inl (StartTypeUnknown (de_type defined))
      | Some c \<Rightarrow>
          Inr (\<lparr>el_id = drawn src, el_type = de_type defined, el_role = de_role defined,
                el_slot = layout_slots l ! i, el_options = de_options defined,
                el_content = Some c\<rparr>, after_draw src))"

definition new_block ::
  "string \<Rightarrow> definition_id \<Rightarrow> elem_type \<Rightarrow> block list \<Rightarrow> uuid_source \<Rightarrow>
     add_error + block \<times> uuid_source" where
  "new_block kind i t page src =
     (case definition_of i kind of
        None \<Rightarrow> Inl (HasNoBlock kind i)
      | Some d \<Rightarrow>
          if def_required d then Inl (AlwaysThere (def_title d) kind)
          else if \<not> def_repeatable d \<and> list_ex (\<lambda>b. blk_definition b = i) page
          then Inl (AlreadyThere (def_title d))
          else
            (case find (\<lambda>s. start_type s = t) (starts d) of
               None \<Rightarrow> Inl (DoesNotHold (def_title d) t)
             | Some chosen \<Rightarrow>
                 (case layout_for d (length (start_elements chosen)) of
                    None \<Rightarrow> Inl (NoRoomToStart i (length (start_elements chosen)))
                  | Some l \<Rightarrow>
                      (case collect (start_one l) (start_elements chosen) src of
                         Inl e \<Rightarrow> Inl e
                       | Inr (elements, src') \<Rightarrow>
                           Inr (\<lparr>blk_id = drawn src', blk_definition = i, blk_title = None,
                                 blk_position = length page, blk_hidden = False, blk_layout = l,
                                 blk_width = def_width d, blk_elements = elements\<rparr>,
                                after_draw src')))))"

section \<open>What one slot takes\<close>

lemma take_from_Some:
  assumes "take_from d defined i found xs = Inr (Some k)"
  shows "found = Some k \<or>
    (i \<le> k \<and> k < i + length xs \<and> matches defined (fst (xs ! (k - i))) (snd (xs ! (k - i))))"
  using assms
proof (induction xs arbitrary: i found)
  case Nil
  then show ?case by simp
next
  case (Cons x xs)
  obtain e p where x: "x = (e, p)" by (cases x)
  consider (skip) "take_from d defined (Suc i) found xs = Inr (Some k)"
    | (hit) "matches defined e p" "take_from d defined (Suc i) (Some i) xs = Inr (Some k)"
    using Cons.prems by (auto simp: x split: if_splits)
  then show ?case
  proof cases
    case skip
    from Cons.IH [OF skip] show ?thesis by (auto simp: nth_Cons')
  next
    case hit
    from Cons.IH [OF hit(2)] hit(1) show ?thesis by (auto simp: nth_Cons' x)
  qed
qed

lemma take_element_Some:
  assumes "take_element d defined tagged placed = Inr (Some k)"
    and "length placed = length tagged"
  shows "k < length tagged \<and> \<not> placed ! k \<and>
    el_role (tagged ! k) = de_role defined \<and> el_type (tagged ! k) = de_type defined"
  using take_from_Some [OF assms(1) [unfolded take_element_def]] assms(2)
  by (auto simp: matches_def)

text \<open>The elements the marks say are placed.\<close>

definition marked :: "element list \<Rightarrow> bool list \<Rightarrow> element list" where
  "marked tagged placed = map fst (filter snd (zip tagged placed))"

lemma marked_none [simp]: "marked tagged (replicate (length tagged) False) = []"
  by (induction tagged) (simp_all add: marked_def)

lemma marked_all:
  assumes "length placed = length tagged"
    and "find (\<lambda>(e, is_placed). \<not> is_placed) (zip tagged placed) = None"
  shows "marked tagged placed = tagged"
  using assms by (induction placed tagged rule: list_induct2) (auto simp: marked_def split: if_splits)

lemma marked_update:
  assumes "k < length tagged" and "\<not> placed ! k" and "length placed = length tagged"
  shows "mset (marked tagged (placed[k := True])) = add_mset (tagged ! k) (mset (marked tagged placed))"
  using assms(3,1,2)
proof (induction placed tagged arbitrary: k rule: list_induct2)
  case Nil
  then show ?case by simp
next
  case (Cons p ps e es)
  then show ?case by (cases k) (auto simp: marked_def)
qed

text \<open>What of an element placement keeps: its meaning, its type and its content.\<close>

definition core :: "element \<Rightarrow> role \<times> elem_type \<times> content option" where
  "core e = (el_role e, el_type e, el_content e)"

definition blank_core :: "role \<times> elem_type \<times> content option \<Rightarrow> bool" where
  "blank_core x \<longleftrightarrow> (\<exists>c. snd (snd x) = Some c \<and> content_empty c)"

text \<open>The blank elements a catalog's entries pin.\<close>

definition blank_of :: "defined_element \<Rightarrow> role \<times> elem_type \<times> content option" where
  "blank_of defined = (de_role defined, de_type defined, type_empty (de_type defined))"

definition pinned_blanks :: "defined_element list \<Rightarrow> (role \<times> elem_type \<times> content option) multiset" where
  "pinned_blanks ds = mset (map blank_of (filter de_pinned ds))"

lemma pinned_blanks_append [simp]: "pinned_blanks (ds @ ds') = pinned_blanks ds + pinned_blanks ds'"
  by (simp add: pinned_blanks_def)

text \<open>
  Elements made between two states of the marks for the entries \<open>ds\<close>: those newly marked, and for
  an entry that pins its element at most one blank one.
\<close>

definition conserves ::
  "element list \<Rightarrow> defined_element list \<Rightarrow> element list \<Rightarrow> bool list \<Rightarrow> bool list \<Rightarrow> bool" where
  "conserves tagged ds es placed placed' \<longleftrightarrow>
     (\<exists>E. mset (map core es) + mset (map core (marked tagged placed)) =
            mset (map core (marked tagged placed')) + E \<and> E \<subseteq># pinned_blanks ds \<and>
          (\<forall>x \<in># E. blank_core x))"

lemma conserves_none [simp]: "conserves tagged ds [] placed placed"
  by (auto simp: conserves_def)

lemma conserves_append:
  assumes "conserves tagged ds es p1 p2" and "conserves tagged ds' es' p2 p3"
  shows "conserves tagged (ds @ ds') (es @ es') p1 p3"
proof -
  obtain E where E: "mset (map core es) + mset (map core (marked tagged p1)) =
      mset (map core (marked tagged p2)) + E" "E \<subseteq># pinned_blanks ds" "\<forall>x \<in># E. blank_core x"
    using assms(1) by (auto simp: conserves_def)
  obtain E' where E': "mset (map core es') + mset (map core (marked tagged p2)) =
      mset (map core (marked tagged p3)) + E'" "E' \<subseteq># pinned_blanks ds'" "\<forall>x \<in># E'. blank_core x"
    using assms(2) by (auto simp: conserves_def)
  have "mset (map core (es @ es')) + mset (map core (marked tagged p1)) =
      (mset (map core es) + mset (map core (marked tagged p1))) + mset (map core es')"
    by (simp add: ac_simps)
  also have "\<dots> = (mset (map core es') + mset (map core (marked tagged p2))) + E"
    by (simp only: E(1)) (simp add: ac_simps)
  also have "\<dots> = mset (map core (marked tagged p3)) + (E + E')"
    by (simp only: E'(1)) (simp add: ac_simps)
  finally have "mset (map core (es @ es')) + mset (map core (marked tagged p1)) =
      mset (map core (marked tagged p3)) + (E + E')" .
  moreover have "E + E' \<subseteq># pinned_blanks (ds @ ds')"
    using subset_mset.add_mono [OF E(2) E'(2)] by simp
  moreover have "\<forall>x \<in># E + E'. blank_core x" using E(3) E'(3) by auto
  ultimately show ?thesis unfolding conserves_def by blast
qed

text \<open>The element of a slot: its role, type and options are the catalog's.\<close>

definition fills :: "defined_element \<Rightarrow> element \<Rightarrow> bool" where
  "fills defined e \<longleftrightarrow>
     el_role e = de_role defined \<and> el_type e = de_type defined \<and> el_options e = de_options defined"

lemma fill_one_slot:
  assumes "fill_one d tagged i defined (placed, src) = Inr (x, placed', src')"
    and "length placed = length tagged"
  shows "length placed' = length tagged \<and>
    (case x of
       None \<Rightarrow> placed' = placed \<and> \<not> de_pinned defined
     | Some e \<Rightarrow> fills defined e \<and> conserves tagged [defined] [e] placed placed')"
proof (cases "take_element d defined tagged placed")
  case (Inl e)
  then show ?thesis using assms by (simp add: fill_one_def)
next
  case (Inr found)
  show ?thesis
  proof (cases found)
    case None
    then show ?thesis
      using assms Inr
      by (auto simp: fill_one_def fills_def conserves_def blank_core_def core_def pinned_blanks_def
          blank_of_def split: if_splits option.splits dest: type_empty_empty)
  next
    case (Some k)
    with Inr have k: "k < length tagged" "\<not> placed ! k"
        "el_role (tagged ! k) = de_role defined" "el_type (tagged ! k) = de_type defined"
      using take_element_Some assms(2) by simp_all
    then show ?thesis
      using assms Inr Some
      by (auto simp: fill_one_def fills_def conserves_def core_def marked_update Let_def
          split: prod.splits)
  qed
qed

lemma fill_one_refusal:
  assumes "fill_one d tagged i defined (placed, src) = Inl e"
    and "length placed = length tagged" and "elem_type_known (de_type defined)"
  shows "e = MoreThanOne (def_id d) (de_type defined)"
proof (cases "take_element d defined tagged placed")
  case (Inl e')
  have "take_from (def_id d) defined n found xs = Inl e' \<Longrightarrow>
      e' = MoreThanOne (def_id d) (de_type defined)" for n found xs
    by (induction xs arbitrary: n found) (auto split: if_splits)
  with Inl assms(1) show ?thesis by (auto simp: fill_one_def take_element_def)
next
  case (Inr found)
  then show ?thesis
    using assms take_element_Some [of d defined tagged placed]
    by (auto simp: fill_one_def type_empty_known Let_def split: option.splits if_splits prod.splits)
qed

section \<open>What one block is filled with\<close>

text \<open>The elements sit in the order of the slots, and no pinned slot is left out.\<close>

fun seats :: "defined_element list \<Rightarrow> element list \<Rightarrow> bool" where
  "seats [] es \<longleftrightarrow> es = []"
| "seats (defined # rest) es \<longleftrightarrow>
     (case es of [] \<Rightarrow> False | e # es' \<Rightarrow> fills defined e \<and> seats rest es') \<or>
     (\<not> de_pinned defined \<and> seats rest es)"

lemma seats_length: "seats ds es \<Longrightarrow> length es \<le> length ds"
  by (induction ds es rule: seats.induct) (auto split: list.splits)

lemma seats_fills: "seats ds es \<Longrightarrow> e \<in> set es \<Longrightarrow> \<exists>d \<in> set ds. fills d e"
  by (induction ds es rule: seats.induct) (auto split: list.splits)

lemma seats_pinned: "seats ds es \<Longrightarrow> d \<in> set ds \<Longrightarrow> de_pinned d \<Longrightarrow> \<exists>e \<in> set es. fills d e"
  by (induction ds es rule: seats.induct) (auto split: list.splits)

lemma seats_subset: "seats ds es \<Longrightarrow> el_role ` set es \<subseteq> de_role ` set ds"
  by (auto simp: fills_def dest!: seats_fills)

lemma seats_roles:
  "seats ds es \<Longrightarrow> distinct (filter (\<lambda>r. r \<noteq> NoRole) (map de_role ds)) \<Longrightarrow>
     distinct (filter (\<lambda>r. r \<noteq> NoRole) (map el_role es))"
proof (induction ds es rule: seats.induct)
  case (1 es)
  then show ?case by simp
next
  case (2 d ds es)
  have rest: "distinct (filter (\<lambda>r. r \<noteq> NoRole) (map de_role ds))"
    using "2.prems"(2) by (simp split: if_splits)
  from "2.prems"(1) consider
      (seat) e es' where "es = e # es'" "fills d e" "seats ds es'"
    | (skip) "seats ds es" "\<not> de_pinned d"
    by (auto split: list.splits)
  then show ?case
  proof cases
    case seat
    have "el_role e \<notin> el_role ` set es'" if "el_role e \<noteq> NoRole"
      using that seat(2) seats_subset [OF seat(3)] "2.prems"(2) by (auto simp: fills_def)
    with seat "2.IH"(1) [OF seat(1,3) rest] show ?thesis by auto
  next
    case skip
    then show ?thesis using "2.IH"(2) rest by blast
  qed
qed

lemma fill_loop:
  assumes "collect_from i (fill_one d tagged) ds (placed, src) = Inr (xs, placed', src')"
    and "length placed = length tagged"
  shows "length placed' = length tagged \<and> seats ds (List.map_filter (\<lambda>x. x) xs) \<and>
    conserves tagged ds (List.map_filter (\<lambda>x. x) xs) placed placed'"
  using assms
proof (induction ds arbitrary: i placed src xs)
  case Nil
  then show ?case by (simp add: List.map_filter_simps)
next
  case (Cons defined ds)
  then obtain x p1 src1 xs' where
    one: "fill_one d tagged i defined (placed, src) = Inr (x, p1, src1)" and
    rest: "collect_from (Suc i) (fill_one d tagged) ds (p1, src1) = Inr (xs', placed', src')" and
    xs: "xs = x # xs'"
    by (auto split: sum.splits prod.splits)
  note slot = fill_one_slot [OF one Cons.prems(2)]
  then have "length p1 = length tagged" by simp
  note IH = Cons.IH [OF rest this]
  show ?case
  proof (cases x)
    case None
    then have "conserves tagged ([defined] @ ds) ([] @ List.map_filter (\<lambda>x. x) xs') placed placed'"
      using slot IH conserves_append [OF conserves_none, of tagged ds _ placed placed' "[defined]"] None
      by simp
    then show ?thesis using None slot IH xs
      by (auto simp: List.map_filter_simps split: list.splits)
  next
    case (Some e)
    then show ?thesis using slot IH xs
        conserves_append [of tagged "[defined]" "[e]" placed p1 ds "List.map_filter (\<lambda>x. x) xs'" placed']
      by (auto simp: List.map_filter_simps)
  qed
qed

lemma fill_facts:
  assumes "fill d tagged (placed, src) = Inr (es, placed', src')"
    and "length placed = length tagged"
  shows "length placed' = length tagged \<and> seats (def_elements d) es \<and>
    conserves tagged (def_elements d) es placed placed'"
  using assms fill_loop by (fastforce simp: fill_def split: sum.splits)

section \<open>The page\<close>

definition page_elements :: "block list \<Rightarrow> element list" where
  "page_elements blocks = concat (map blk_elements blocks)"

lemma page_elements_simps [simp]:
  "page_elements [] = []"
  "page_elements (b # bs) = blk_elements b @ page_elements bs"
  "page_elements (bs @ cs) = page_elements bs @ page_elements cs"
  by (simp_all add: page_elements_def)

definition laid_from :: "block_definition \<Rightarrow> nat \<Rightarrow> block \<Rightarrow> bool" where
  "laid_from d n b \<longleftrightarrow>
     blk_definition b = def_id d \<and> blk_position b = n \<and> \<not> blk_hidden b \<and>
     blk_width b = def_width d \<and> blk_layout b \<in> set (def_layouts d) \<and>
     columns (minimum_width (blk_layout b)) \<le> columns (def_width d) \<and>
     length (blk_elements b) \<le> length (layout_slots (blk_layout b)) \<and>
     map el_slot (blk_elements b) = take (length (blk_elements b)) (layout_slots (blk_layout b)) \<and>
     seats (def_elements d) (blk_elements b) \<and>
     (blk_elements b = [] \<longrightarrow> def_required d)"

fun laid_out :: "nat \<Rightarrow> block_definition list \<Rightarrow> block list \<Rightarrow> bool" where
  "laid_out n [] bs \<longleftrightarrow> bs = []"
| "laid_out n (d # ds) bs \<longleftrightarrow>
     (case bs of [] \<Rightarrow> False | b # bs' \<Rightarrow> laid_from d n b \<and> laid_out (Suc n) ds bs') \<or>
     (\<not> def_required d \<and> laid_out n ds bs)"

lemma seated_core [simp]: "length es \<le> length (layout_slots l) \<Longrightarrow>
    map core (seated l es) = map core es"
  by (rule nth_equalityI) (simp_all add: seated_def core_def)

lemma seated_slots: "length es \<le> length (layout_slots l) \<Longrightarrow>
    map el_slot (seated l es) = take (length es) (layout_slots l)"
  by (rule nth_equalityI) (simp_all add: seated_def)

lemma length_seated [simp]: "length es \<le> length (layout_slots l) \<Longrightarrow>
    length (seated l es) = length es"
  by (simp add: seated_def)

lemma seated_Nil [simp]: "length es \<le> length (layout_slots l) \<Longrightarrow> seated l es = [] \<longleftrightarrow> es = []"
  by (metis length_0_conv length_seated)

lemma seats_same:
  assumes "list_all2 (\<lambda>e e'. el_role e = el_role e' \<and> el_type e = el_type e' \<and>
      el_options e = el_options e') es es'"
    and "seats ds es"
  shows "seats ds es'"
  using assms
proof (induction ds arbitrary: es es')
  case Nil
  then show ?case by simp
next
  case (Cons d ds)
  from Cons.prems(2) consider
      (seat) e rest where "es = e # rest" "fills d e" "seats ds rest"
    | (skip) "\<not> de_pinned d" "seats ds es"
    by (auto split: list.splits)
  then show ?case
  proof cases
    case seat
    then obtain e' rest' where es': "es' = e' # rest'" "fills d e'"
      using Cons.prems(1) by (auto simp: list_all2_Cons1 fills_def)
    with seat Cons.prems(1) have "seats ds rest'"
      by (intro Cons.IH [OF _ seat(3)]) simp
    with es' show ?thesis by simp
  next
    case skip
    then show ?thesis using Cons.IH [OF Cons.prems(1)] by simp
  qed
qed

lemma seats_seated: "length es \<le> length (layout_slots l) \<Longrightarrow> seats ds es \<Longrightarrow> seats ds (seated l es)"
  by (erule seats_same [rotated]) (simp add: seated_def list_all2_conv_all_nth)

lemma place_one_facts:
  assumes "place_one tagged i d (blocks, placed, src) = Inr (blocks', placed', src')"
    and "length placed = length tagged" and "entry_ok d"
  shows "length placed' = length tagged \<and>
    ((blocks' = blocks \<and> \<not> def_required d \<and> conserves tagged (def_elements d) [] placed placed') \<or>
     (\<exists>b. blocks' = blocks @ [b] \<and> laid_from d (length blocks) b \<and>
          conserves tagged (def_elements d) (blk_elements b) placed placed'))"
proof -
  obtain es src1 where es: "fill d tagged (placed, src) = Inr (es, placed', src1)"
    using assms(1) by (auto simp: place_one_def split: sum.splits prod.splits if_splits option.splits)
  from fill_facts [OF es assms(2)]
  have es': "length placed' = length tagged" "seats (def_elements d) es"
      "conserves tagged (def_elements d) es placed placed'" by simp_all
  obtain l where l: "layout_for d (length es) = Some l"
      "columns (minimum_width l) \<le> columns (def_width d)" "l \<in> set (def_layouts d)"
      "length es \<le> length (layout_slots l)" "layout_slots l \<noteq> []"
    by (rule entry_layout [OF assms(3) seats_length [OF es'(2)]])
  have seated: "conserves tagged (def_elements d) (seated l es) placed placed'"
    using es'(3) l(4) by (simp add: conserves_def)
  show ?thesis
  proof (cases "es = [] \<and> \<not> def_required d")
    case True
    then show ?thesis using assms(1) es es' by (simp add: place_one_def)
  next
    case False
    let ?b = "\<lparr>blk_id = drawn src1, blk_definition = def_id d, blk_title = None,
      blk_position = length blocks, blk_hidden = False, blk_layout = l,
      blk_width = def_width d, blk_elements = seated l es\<rparr>"
    have "blocks' = blocks @ [?b]"
      using assms(1) False by (auto simp: place_one_def es l(1))
    moreover have "laid_from d (length blocks) ?b"
      using False es'(2) l by (auto simp: laid_from_def seated_slots seats_seated)
    ultimately show ?thesis using es'(1) seated by auto
  qed
qed

lemma place_loop:
  assumes "each_from i (place_one tagged) ds (blocks, placed, src) = Inr (blocks', placed', src')"
    and "length placed = length tagged" and "list_all entry_ok ds"
  shows "\<exists>new. blocks' = blocks @ new \<and> length placed' = length tagged \<and>
    laid_out (length blocks) ds new \<and>
    conserves tagged (concat (map def_elements ds)) (page_elements new) placed placed'"
  using assms
proof (induction ds arbitrary: i blocks placed src)
  case Nil
  then show ?case by simp
next
  case (Cons d ds)
  then obtain b1 p1 src1 where
    one: "place_one tagged i d (blocks, placed, src) = Inr (b1, p1, src1)" and
    rest: "each_from (Suc i) (place_one tagged) ds (b1, p1, src1) = Inr (blocks', placed', src')"
    by (auto split: sum.splits)
  have ok: "entry_ok d" "list_all entry_ok ds" using Cons.prems(3) by simp_all
  note step = place_one_facts [OF one Cons.prems(2) ok(1)]
  then have "length p1 = length tagged" by simp
  from Cons.IH [OF rest this ok(2)] obtain new where
    new: "blocks' = b1 @ new" "length placed' = length tagged"
      "laid_out (length b1) ds new"
      "conserves tagged (concat (map def_elements ds)) (page_elements new) p1 placed'"
    by blast
  from step consider
      (skip) "b1 = blocks" "\<not> def_required d" "conserves tagged (def_elements d) [] placed p1"
    | (add) b where "b1 = blocks @ [b]" "laid_from d (length blocks) b"
        "conserves tagged (def_elements d) (blk_elements b) placed p1"
    by blast
  then show ?case
  proof cases
    case skip
    then show ?thesis
      using new conserves_append [OF skip(3) new(4)] by (intro exI [of _ new]) simp
  next
    case add
    then show ?thesis
      using new conserves_append [OF add(3) new(4)] by (intro exI [of _ "b # new"]) simp
  qed
qed

text \<open>What a successful placement is made of, in one rule.\<close>

lemma place_cases:
  assumes "place kind tagged src = Inr (blocks, src')"
  obtains ds E where "catalog kind = Some ds" "laid_out 0 ds blocks"
    "mset (map core (page_elements blocks)) = mset (map core tagged) + E"
    "E \<subseteq># pinned_blanks (concat (map def_elements ds))" "\<forall>x \<in># E. blank_core x"
proof -
  from assms obtain ds placed where
    ds: "catalog kind = Some ds" and
    loop: "each (place_one tagged) ds ([], replicate (length tagged) False, src) =
        Inr (blocks, placed, src')" and
    all: "find (\<lambda>(e, is_placed). \<not> is_placed) (zip tagged placed) = None"
    by (auto simp: place_def split: option.splits sum.splits prod.splits)
  from place_loop [OF loop _ catalog_entries_ok [OF ds]]
  have facts: "length placed = length tagged" "laid_out 0 ds blocks"
      "conserves tagged (concat (map def_elements ds)) (page_elements blocks)
        (replicate (length tagged) False) placed"
    by auto
  with marked_all [OF _ all] that ds show ?thesis by (auto simp: conserves_def)
qed

section \<open>The shape of a placed page\<close>

lemma laid_out_positions: "laid_out n ds bs \<Longrightarrow> map blk_position bs = [n..<n + length bs]"
proof (induction n ds bs rule: laid_out.induct)
  case (1 n bs)
  then show ?case by simp
next
  case (2 n d ds bs)
  then show ?case
    by (auto simp: laid_from_def upt_conv_Cons simp del: upt_Suc split: list.splits)
qed

lemma laid_out_block: "laid_out n ds bs \<Longrightarrow> b \<in> set bs \<Longrightarrow> \<exists>d \<in> set ds. \<exists>m. laid_from d m b"
  by (induction n ds bs rule: laid_out.induct) (auto split: list.splits)

lemma laid_out_required:
  "laid_out n ds bs \<Longrightarrow> d \<in> set ds \<Longrightarrow> def_required d \<Longrightarrow> \<exists>b \<in> set bs. blk_definition b = def_id d"
  by (induction n ds bs rule: laid_out.induct) (auto simp: laid_from_def split: list.splits)

lemma laid_out_subset: "laid_out n ds bs \<Longrightarrow> blk_definition ` set bs \<subseteq> def_id ` set ds"
  by (auto simp: laid_from_def dest!: laid_out_block)

lemma laid_out_distinct:
  assumes "laid_out n ds bs" and "distinct (map def_id ds)"
  shows "distinct (map blk_definition bs)"
  using assms
proof (induction ds arbitrary: n bs)
  case Nil
  then show ?case by simp
next
  case (Cons d ds)
  from Cons.prems(1) consider
      (lay) b bs' where "bs = b # bs'" "blk_definition b = def_id d" "laid_out (Suc n) ds bs'"
    | (skip) "laid_out n ds bs"
    by (auto simp: laid_from_def split: list.splits)
  then show ?case
  proof cases
    case lay
    have "def_id d \<notin> blk_definition ` set bs'"
      using laid_out_subset [OF lay(3)] Cons.prems(2) by auto
    then show ?thesis using lay Cons.IH [OF lay(3)] Cons.prems(2) by auto
  next
    case skip
    then show ?thesis using Cons.IH Cons.prems(2) by simp
  qed
qed

text \<open>
  C4. Placing loses nothing and invents nothing but what the catalog pins: the elements of the page
  \<^verbatim>\<open>Place\<close> returns are, as a multiset of roles, types and contents, the elements the source supplied
  together with blank ones, of which each has the role, the type and the empty content of an entry
  of the kind's catalog that pins its element, and each such entry gives at most one.
\<close>

theorem place_conserves:
  assumes "place kind tagged src = Inr (blocks, src')"
  shows "\<exists>ds E. catalog kind = Some ds \<and>
    mset (map core (page_elements blocks)) = mset (map core tagged) + E \<and>
    E \<subseteq># pinned_blanks (concat (map def_elements ds)) \<and> (\<forall>x \<in># E. blank_core x)"
  using assms by (rule place_cases) blast

text \<open>
  A placed page follows its catalog: positions count up from 0, every required entry has
  its block, no entry has two, and each block is laid out as its own entry declares, an
  optional one only with something in it.
\<close>

theorem place_follows_catalog:
  assumes "place kind tagged src = Inr (blocks, src')"
  shows "map blk_position blocks = [0..<length blocks] \<and>
    distinct (map blk_definition blocks) \<and>
    (\<exists>ds. catalog kind = Some ds \<and>
      (\<forall>d \<in> set ds. def_required d \<longrightarrow> def_id d \<in> blk_definition ` set blocks) \<and>
      (\<forall>b \<in> set blocks. \<exists>d \<in> set ds. \<exists>n. laid_from d n b))"
proof -
  from assms obtain ds where ds: "catalog kind = Some ds" "laid_out 0 ds blocks"
    by (rule place_cases)
  then have "map blk_position blocks = [0..<length blocks]"
    using laid_out_positions by fastforce
  moreover have "distinct (map blk_definition blocks)"
    using laid_out_distinct [OF ds(2) catalog_ids_distinct [OF ds(1)]] .
  moreover have "\<forall>d \<in> set ds. def_required d \<longrightarrow> def_id d \<in> blk_definition ` set blocks"
    using laid_out_required [OF ds(2)] by force
  moreover have "\<forall>b \<in> set blocks. \<exists>d \<in> set ds. \<exists>n. laid_from d n b"
    using laid_out_block [OF ds(2)] by blast
  ultimately show ?thesis using ds(1) by blast
qed

section \<open>Refusals of placement\<close>

lemma fill_loop_refusal:
  assumes "collect_from i (fill_one d tagged) ds (placed, src) = Inl e"
    and "length placed = length tagged" and "list_all defined_element_ok ds"
  shows "\<exists>t. e = MoreThanOne (def_id d) t"
  using assms
proof (induction ds arbitrary: i placed src)
  case Nil
  then show ?case by simp
next
  case (Cons defined ds)
  have known: "elem_type_known (de_type defined)"
    using Cons.prems(3) by (simp add: defined_element_ok_def)
  show ?case
  proof (cases "fill_one d tagged i defined (placed, src)")
    case (Inl e')
    with Cons.prems(1) fill_one_refusal [OF Inl Cons.prems(2) known] show ?thesis by auto
  next
    case (Inr r)
    obtain x p1 src1 where r: "r = (x, p1, src1)" by (cases r)
    have "length p1 = length tagged"
      using fill_one_slot [OF Inr [unfolded r] Cons.prems(2)] by simp
    moreover have "collect_from (Suc i) (fill_one d tagged) ds (p1, src1) = Inl e"
      using Cons.prems(1) by (simp add: Inr r split: sum.splits prod.splits)
    ultimately show ?thesis using Cons.IH Cons.prems(3) by simp
  qed
qed

lemma place_one_refusal:
  assumes "place_one tagged i d (blocks, placed, src) = Inl e"
    and "length placed = length tagged" and "entry_ok d"
  shows "\<exists>t. e = MoreThanOne (def_id d) t"
proof (cases "fill d tagged (placed, src)")
  case (Inl e')
  then have "\<exists>t. e' = MoreThanOne (def_id d) t"
    using fill_loop_refusal assms(2,3)
    by (fastforce simp: fill_def entry_ok_def split: sum.splits)
  with Inl assms(1) show ?thesis by (simp add: place_one_def)
next
  case (Inr r)
  obtain es p1 src1 where r: "r = (es, p1, src1)" by (cases r)
  have "seats (def_elements d) es" using fill_facts [OF Inr [unfolded r] assms(2)] by simp
  then obtain l where "layout_for d (length es) = Some l"
    using entry_layout [OF assms(3) seats_length] by metis
  with assms(1) show ?thesis by (simp add: place_one_def Inr r split: if_splits)
qed

lemma place_loop_refusal:
  assumes "each_from i (place_one tagged) ds (blocks, placed, src) = Inl e"
    and "length placed = length tagged" and "list_all entry_ok ds"
  shows "\<exists>d \<in> set ds. \<exists>t. e = MoreThanOne (def_id d) t"
  using assms
proof (induction ds arbitrary: i blocks placed src)
  case Nil
  then show ?case by simp
next
  case (Cons d ds)
  show ?case
  proof (cases "place_one tagged i d (blocks, placed, src)")
    case (Inl e')
    then show ?thesis using place_one_refusal [OF Inl Cons.prems(2)] Cons.prems by simp
  next
    case (Inr r)
    obtain b1 p1 src1 where r: "r = (b1, p1, src1)" by (cases r)
    have "length p1 = length tagged"
      using place_one_facts [OF Inr [unfolded r] Cons.prems(2)] Cons.prems(3) by simp
    then show ?thesis using Cons.IH Cons.prems by (simp add: Inr r)
  qed
qed

text \<open>
  Placement refuses for three reasons only: a kind with no catalog, a second element for
  a place that takes one, an element with no place. The other refusals of the code (an
  element type the vocabulary lacks, an element of the wrong type, no layout with room) cannot
  be reached with the catalogs it has.
\<close>

theorem place_refusals:
  assumes "place kind tagged src = Inl e"
  shows "e = NoCatalog kind \<and> catalog kind = None \<or>
    (\<exists>d t. e = MoreThanOne d t \<and> definition_of d kind \<noteq> None) \<or>
    (\<exists>x \<in> set tagged. e = NowhereToPut kind (el_role x))"
proof (cases "catalog kind")
  case None
  with assms show ?thesis by (simp add: place_def)
next
  case (Some ds)
  show ?thesis
  proof (cases "each (place_one tagged) ds ([], replicate (length tagged) False, src)")
    case (Inl e')
    then obtain d t where d: "d \<in> set ds" "e' = MoreThanOne (def_id d) t"
      using place_loop_refusal catalog_entries_ok [OF Some] by fastforce
    then have "definition_of (def_id d) kind \<noteq> None"
      using definition_of_entry [OF Some] by simp
    with d Inl assms Some show ?thesis by (simp add: place_def) blast
  next
    case (Inr r)
    obtain bs placed src1 where r: "r = (bs, placed, src1)" by (cases r)
    obtain x p where x: "find (\<lambda>(e, is_placed). \<not> is_placed) (zip tagged placed) = Some (x, p)"
        "e = NowhereToPut kind (el_role x)"
      using assms by (auto simp: place_def Some Inr r split: option.splits)
    then have "(x, p) \<in> set (zip tagged placed)" by (auto simp: find_Some_iff in_set_conv_nth)
    with x show ?thesis by (auto dest: set_zip_leftD)
  qed
qed

section \<open>What the tray offers can be added\<close>

lemma start_fits:
  assumes "entry_ok d" and "s \<in> set (starts d)"
  shows "list_all defined_element_ok (start_elements s) \<and> start_elements s \<noteq> [] \<and>
    fits_count d (length (start_elements s))"
  using assms by (auto simp: entry_ok_def starts_def list_all_iff simp del: upt_Suc
      split: list.splits if_splits)

lemma start_loop:
  assumes "list_all defined_element_ok es"
  shows "\<exists>r. collect_from i (start_one l) es src = Inr r"
  by (rule collect_from_total)
    (use assms in \<open>auto simp: start_one_def defined_element_ok_def type_empty_known list_all_iff
      split: option.split\<close>)

text \<open>
  Every way the tray offers to start a block is one \<^verbatim>\<open>NewBlock\<close> accepts, unless the block
  may appear once and is on the page already.
\<close>

theorem offers_accepted:
  assumes "offers kind = Some os" and "o' \<in> set os" and "(t, label) \<in> set (offer_choices o')"
    and "offer_repeatable o' \<or> offer_definition o' \<notin> blk_definition ` set page"
  shows "\<exists>b src'. new_block kind (offer_definition o') t page src = Inr (b, src')"
proof -
  obtain ds d where ds: "catalog kind = Some ds" and d: "d \<in> set ds" "\<not> def_required d"
      "offer_definition o' = def_id d" "offer_repeatable o' = def_repeatable d"
      "(t, label) \<in> (\<lambda>s. (start_type s, start_label s)) ` set (starts d)"
    using assms(1-3) by (auto simp: offers_def)
  have look: "definition_of (def_id d) kind = Some d" and ok: "entry_ok d"
    using definition_of_entry [OF ds d(1)] definition_of_ok by auto
  obtain chosen where chosen: "find (\<lambda>s. start_type s = t) (starts d) = Some chosen"
    using d(5) by (cases "find (\<lambda>s. start_type s = t) (starts d)") (auto simp: find_None_iff)
  then have "chosen \<in> set (starts d)" by (auto simp: find_Some_iff)
  note start = start_fits [OF ok this]
  obtain l where l: "layout_for d (length (start_elements chosen)) = Some l"
    using start by (auto simp: fits_count_def split: option.splits)
  obtain es src' where es: "collect (start_one l) (start_elements chosen) src = Inr (es, src')"
    using start_loop start by fastforce
  have "\<not> (\<not> def_repeatable d \<and> list_ex (\<lambda>b. blk_definition b = def_id d) page)"
    using assms(4) d(3,4) by (force simp: list_ex_iff image_iff)
  then show ?thesis
    using d(2,3) by (auto simp: new_block_def look chosen l es)
qed

section \<open>Two pieces of text with no role\<close>

text \<open>
  The image prompts block has two places for prose with no role, and the comment on \<^verbatim>\<open>take\<close>
  says a definition has one place for an element it takes. Two pieces of prose with no role
  both match the first of the two places, so they are refused; each alone is placed there.
\<close>

definition plain_prose :: "uuid \<Rightarrow> string \<Rightarrow> element" where
  "plain_prose i t =
     \<lparr>el_id = i, el_type = TypeProse, el_role = NoRole, el_slot = NoSlot, el_options = rich,
      el_content = Some (Prose t)\<rparr>"

lemma image_prompts_places:
  "\<exists>d. definition_of ImagePrompts ''character'' = Some d \<and>
     length (filter (\<lambda>e. de_role e = NoRole \<and> de_type e = TypeProse) (def_elements d)) = 2"
  by (simp add: definition_of_def catalog_def catalog_defs)

text \<open>
  Two pieces of prose with no role cannot be placed on a character's page, though its image
  prompts block has two places for such prose.
\<close>

theorem place_two_plain_proses:
  "place ''character'' [plain_prose i t, plain_prose j u] src = Inl (MoreThanOne ImagePrompts TypeProse)"
  by (simp add: place_def catalog_def catalog_defs place_one_def fill_def fill_one_def
      take_element_def matches_def plain_prose_def type_empty_def schemas_def
      List.map_filter_simps layout_for_def seated_def)

definition sample_book :: element where
  "sample_book =
     \<lparr>el_id = 3, el_type = TypeEntryTable, el_role = RoleLorebookEntries, el_slot = NoSlot,
      el_options = no_options, el_content = Some (EntryTable [])\<rparr>"

lemma sample_placed:
  "place ''lorebook'' [sample_book] (\<lambda>k. 5) =
     Inr ([\<lparr>blk_id = 5, blk_definition = LorebookCore, blk_title = None, blk_position = 0,
            blk_hidden = False, blk_layout = Single, blk_width = Full,
            blk_elements = [sample_book\<lparr>el_slot := SlotMain\<rparr>]\<rparr>], \<lambda>k. 5)"
  by (simp add: place_def catalog_def catalog_defs place_one_def fill_def fill_one_def
      take_element_def matches_def sample_book_def item_id_def drawn_def after_draw_def
      List.map_filter_simps layout_for_def seated_def)

theorem place_conserves_witness:
  "\<exists>ds E. catalog ''lorebook'' = Some ds \<and>
     mset (map core [sample_book\<lparr>el_slot := SlotMain\<rparr>]) = mset (map core [sample_book]) + E \<and>
     E \<subseteq># pinned_blanks (concat (map def_elements ds))"
  using place_conserves [OF sample_placed] by auto

theorem place_follows_catalog_witness:
  "\<exists>ds. catalog ''lorebook'' = Some ds \<and>
     (\<forall>d \<in> set ds. def_required d \<longrightarrow> def_id d \<in> {LorebookCore})"
  using place_follows_catalog [OF sample_placed] by auto

lemma sample_refused:
  "place ''theme'' [sample_book] (\<lambda>k. 5) = Inl (NowhereToPut ''theme'' RoleLorebookEntries)"
  by (simp add: place_def catalog_def catalog_defs place_one_def fill_def fill_one_def
      take_element_def matches_def sample_book_def item_id_def drawn_def after_draw_def
      type_empty_def schemas_def List.map_filter_simps layout_for_def seated_def)

theorem place_refusals_witness:
  "\<exists>x \<in> set [sample_book]. NowhereToPut ''theme'' RoleLorebookEntries = NowhereToPut ''theme'' (el_role x)"
  using place_refusals [OF sample_refused] by simp

theorem offers_accepted_witness:
  "\<exists>b src'. new_block ''theme'' CustomBlock TypeLinkList [] (\<lambda>k. 5) = Inr (b, src')"
proof -
  obtain os where os: "offers ''theme'' = Some os"
    by (simp add: offers_def catalog_def catalog_defs)
  then have "\<exists>o' \<in> set os. offer_definition o' = CustomBlock \<and>
      (TypeLinkList, type_label TypeLinkList) \<in> set (offer_choices o') \<and> offer_repeatable o'"
    by (auto simp: offers_def catalog_def catalog_defs starts_def)
  then show ?thesis using offers_accepted [OF os] by metis
qed

end
