(* ===== verification/Validation.thy ===== *)
theory Validation
  imports Placement
begin

text \<open>
  What a save checks (\<^verbatim>\<open>validation.go\<close>): the limits of a content, the structure of one block
  (\<^verbatim>\<open>ValidateStructure\<close>) and the catalog's rules across a page (\<^verbatim>\<open>ValidateBuilderConstraints\<close>).

  The checks are loops with running maps. The theorems say what they decide: a block or a
  page passes exactly when it satisfies a declarative description (\<open>well_structured\<close>,
  \<open>page_allowed\<close>) with no loop in it. Pages that \<^verbatim>\<open>Place\<close> makes and blocks that \<^verbatim>\<open>NewBlock\<close>
  makes pass.

  The byte lengths the limits measure come from \<^verbatim>\<open>json.Marshal\<close>; an \<open>encoder\<close> gives them.
\<close>

section \<open>Limits\<close>

definition max_payload_bytes :: nat where
  "max_payload_bytes = 8 * 2 ^ 20"

definition max_collection_items :: nat where
  "max_collection_items = 5000"

definition max_item_bytes :: nat where
  "max_item_bytes = 8 * 2 ^ 20"

record encoder =
  item_bytes :: "item \<Rightarrow> string + nat"
  content_bytes :: "content option \<Rightarrow> string + nat"

datatype structure_error =
    TooManyItems string nat
  | CannotMeasureItem string nat string
  | ItemTooLarge string nat nat
  | CannotMeasure string string
  | PayloadTooLarge string nat
  | UnknownLayout
  | NoRoomFor definition_id "string list" layout
  | UnknownElementType string elem_type
  | NilElementId string
  | SharedElementId string string
  | NilItemId string nat
  | SharedItemId string
  | BadDisplay string display
  | NoDisplayOption string
  | BadItemSize string item_size string
  | NoItemSizeOption string
  | NotASlot string slot layout "slot list"
  | SlotTaken string string slot

definition held_items :: "element \<Rightarrow> item list" where
  "held_items e = (case el_content e of None \<Rightarrow> [] | Some c \<Rightarrow> element_items c)"

definition check_item_size ::
  "encoder \<Rightarrow> string \<Rightarrow> nat \<Rightarrow> item \<Rightarrow> unit \<Rightarrow> structure_error + unit" where
  "check_item_size enc label i x s =
     (case item_bytes enc x of
        Inl message \<Rightarrow> Inl (CannotMeasureItem label (Suc i) message)
      | Inr n \<Rightarrow> if n > max_item_bytes then Inl (ItemTooLarge label (Suc i) n) else Inr ())"

definition check_limits ::
  "encoder \<Rightarrow> nat \<Rightarrow> element \<Rightarrow> unit \<Rightarrow> structure_error + unit" where
  "check_limits enc i e s =
     (let label = role_label (el_role e); items = held_items e in
      if length items > max_collection_items then Inl (TooManyItems label (length items))
      else
        (case each (check_item_size enc label) items () of
           Inl err \<Rightarrow> Inl err
         | Inr _ \<Rightarrow>
             (case content_bytes enc (el_content e) of
                Inl message \<Rightarrow> Inl (CannotMeasure label message)
              | Inr n \<Rightarrow>
                  if n > max_payload_bytes then Inl (PayloadTooLarge label n) else Inr ())))"

definition validate_content_limits :: "encoder \<Rightarrow> element list \<Rightarrow> structure_error + unit" where
  "validate_content_limits enc es = each (check_limits enc) es ()"

section \<open>The structure of one block\<close>

text \<open>
  \<^verbatim>\<open>elementName\<close>: what a refusal calls one element. The position stands in where the type is
  unknown and the role says nothing.
\<close>

definition element_name :: "element \<Rightarrow> nat \<Rightarrow> string" where
  "element_name e i =
     (if element_label e \<noteq> [] then element_label e
      else ''Element '' @ decimal (i + 1))"

text \<open>\<^verbatim>\<open>validateItemIDs\<close>: no item without an identifier, no identifier twice.\<close>

definition check_item_id ::
  "string \<Rightarrow> nat \<Rightarrow> uuid \<Rightarrow> uuid set \<Rightarrow> structure_error + uuid set" where
  "check_item_id name i x seen =
     (if x = nil_uuid then Inl (NilItemId name (Suc i))
      else if x \<in> seen then Inl (SharedItemId name)
      else Inr (insert x seen))"

definition validate_item_ids :: "element \<Rightarrow> string \<Rightarrow> structure_error + uuid set" where
  "validate_item_ids e name = each (check_item_id name) (element_item_ids e) {}"

text \<open>
  The body of \<^verbatim>\<open>ValidateStructure\<close>'s loop. Its state is the map of occupied slots and the map
  of identities, each to the name of the element that has it.
\<close>

definition check_element ::
  "layout \<Rightarrow> nat \<Rightarrow> element \<Rightarrow> (slot \<times> string) list \<times> (uuid \<times> string) list \<Rightarrow>
     structure_error + (slot \<times> string) list \<times> (uuid \<times> string) list" where
  "check_element l i e = (\<lambda>(occupied, identities).
     (let name = element_name e i in
      if \<not> elem_type_known (el_type e) then Inl (UnknownElementType name (el_type e))
      else if el_id e = nil_uuid then Inl (NilElementId name)
      else (case map_of identities (el_id e) of
              Some prior \<Rightarrow> Inl (SharedElementId prior name)
            | None \<Rightarrow>
      (case validate_item_ids e name of
         Inl err \<Rightarrow> Inl err
       | Inr _ \<Rightarrow>
      if takes_display (el_type e) \<and> \<not> display_known (opt_display (el_options e))
      then Inl (BadDisplay name (opt_display (el_options e)))
      else if \<not> takes_display (el_type e) \<and> opt_display (el_options e) \<noteq> NoDisplay
      then Inl (NoDisplayOption name)
      else if el_type e = TypeImageSet \<and> \<not> item_size_known (opt_item_size (el_options e))
      then Inl (BadItemSize name (opt_item_size (el_options e)) join_item_sizes)
      else if el_type e \<noteq> TypeImageSet \<and> opt_item_size (el_options e) \<noteq> NoItemSize
      then Inl (NoItemSizeOption name)
      else if el_slot e \<notin> set (layout_slots l)
      then Inl (NotASlot name (el_slot e) l (layout_slots l))
      else (case map_of occupied (el_slot e) of
              Some prior \<Rightarrow> Inl (SlotTaken prior name (el_slot e))
            | None \<Rightarrow>
                Inr ((el_slot e, name) # occupied, (el_id e, name) # identities))))))"

definition validate_structure :: "encoder \<Rightarrow> block \<Rightarrow> structure_error + unit" where
  "validate_structure enc b =
     (case validate_content_limits enc (blk_elements b) of
        Inl err \<Rightarrow> Inl err
      | Inr _ \<Rightarrow>
          (let available = layout_slots (blk_layout b); held = blk_elements b in
           if available = [] then Inl UnknownLayout
           else if length held > length available then
             Inl (NoRoomFor (blk_definition b)
                    (map (\<lambda>i. element_name (held ! i) i) [length available..<length held])
                    (blk_layout b))
           else
             (case each (check_element (blk_layout b)) held ([], []) of
                Inl err \<Rightarrow> Inl err
              | Inr _ \<Rightarrow> Inr ())))"

section \<open>The rules of the catalog across a page\<close>

datatype builder_error =
    NotInCatalog definition_id string
  | OnlyOnce string
  | LayoutNotOffered string "layout list"
  | ChooseAWidth
  | WidenFirst layout string string
  | AnotherLayoutFirst layout string string
  | ChangeOne layout string string
  | PageSharedId string string
  | NotExistingId string
  | RoleOnlyOnce string
  | UnknownRole string
  | WrongContentType string "elem_type list"
  | PinnedMissing string string

text \<open>
  The arrangement a block had before: a block not on the page then reads as the zero block.
\<close>

definition original_arrangement :: "block list \<Rightarrow> uuid \<Rightarrow> layout \<times> width" where
  "original_arrangement before i =
     (case map_of (rev (map (\<lambda>b. (blk_id b, b)) before)) i of
        None \<Rightarrow> (OtherLayout [], OtherWidth [])
      | Some b \<Rightarrow> (blk_layout b, blk_width b))"

text \<open>The three loops of \<^verbatim>\<open>ValidateBuilderConstraints\<close>: over the blocks after the save,\<close>

definition check_block ::
  "string \<Rightarrow> block list \<Rightarrow> nat \<Rightarrow> block \<Rightarrow> definition_id set \<Rightarrow>
     builder_error + definition_id set" where
  "check_block kind before i b seen =
     (case definition_of (blk_definition b) kind of
        None \<Rightarrow> Inl (NotInCatalog (blk_definition b) kind)
      | Some d \<Rightarrow>
          if blk_definition b \<in> seen \<and> \<not> def_repeatable d then Inl (OnlyOnce (def_title d))
          else if blk_layout b \<notin> set (def_layouts d)
          then Inl (LayoutNotOffered (def_title d) (def_layouts d))
          else if columns (blk_width b) = 0 then Inl ChooseAWidth
          else
            (let minimum = minimum_width (blk_layout b) in
             if columns (blk_width b) \<ge> columns minimum
             then Inr (insert (blk_definition b) seen)
             else
               (let (l, w) = original_arrangement before (blk_id b) in
                if l \<noteq> blk_layout b \<and> w = blk_width b
                then Inl (WidenFirst (blk_layout b) (width_label minimum) (width_label (blk_width b)))
                else if l = blk_layout b \<and> w \<noteq> blk_width b
                then Inl (AnotherLayoutFirst (blk_layout b) (width_label minimum)
                            (width_label (blk_width b)))
                else Inl (ChangeOne (blk_layout b) (width_label minimum)
                            (width_label (blk_width b))))))"

text \<open>over their elements, with the count of each role and the map of identities,\<close>

definition check_page_element ::
  "uuid set \<Rightarrow> nat \<Rightarrow> element \<Rightarrow> (role \<Rightarrow> nat) \<times> (uuid \<times> string) list \<Rightarrow>
     builder_error + (role \<Rightarrow> nat) \<times> (uuid \<times> string) list" where
  "check_page_element existing i e = (\<lambda>(counts, identities).
     (let name = element_name e i; r = el_role e in
      case map_of identities (el_id e) of
        Some prior \<Rightarrow> Inl (PageSharedId prior name)
      | None \<Rightarrow>
          if el_id e \<notin> existing then Inl (NotExistingId name)
          else if r = NoRole then Inr (counts, (el_id e, name) # identities)
          else if role_allows r (el_type e) then
            (let counts' = counts(r := Suc (counts r)) in
             if role_cardinality r = Singular \<and> counts' r > 1
             then Inl (RoleOnlyOnce (role_label r))
             else Inr (counts', (el_id e, name) # identities))
          else if allowed_types r = [] then Inl (UnknownRole name)
          else Inl (WrongContentType name (allowed_types r))))"

definition check_page_block ::
  "uuid set \<Rightarrow> nat \<Rightarrow> block \<Rightarrow> (role \<Rightarrow> nat) \<times> (uuid \<times> string) list \<Rightarrow>
     builder_error + (role \<Rightarrow> nat) \<times> (uuid \<times> string) list" where
  "check_page_block existing i b s = each (check_page_element existing) (blk_elements b) s"

text \<open>and over the blocks before it, whose pinned elements must still be where they were.\<close>

definition pinned_element_present :: "block list \<Rightarrow> uuid \<Rightarrow> element \<Rightarrow> bool" where
  "pinned_element_present blocks i original \<longleftrightarrow>
     list_ex (\<lambda>b. blk_id b = i \<and>
       list_ex (\<lambda>c. el_id c = el_id original \<and> el_role c = el_role original \<and>
                    el_type c = el_type original) (blk_elements b)) blocks"

definition check_pinned ::
  "string \<Rightarrow> block list \<Rightarrow> nat \<Rightarrow> block \<Rightarrow> unit \<Rightarrow> builder_error + unit" where
  "check_pinned kind after i b s =
     (case definition_of (blk_definition b) kind of
        None \<Rightarrow> Inr ()
      | Some d \<Rightarrow>
          each (\<lambda>j original s.
              if \<not> block_pinned b (el_role original) kind then Inr ()
              else if pinned_element_present after (blk_id b) original then Inr ()
              else Inl (PinnedMissing (role_label (el_role original)) (def_title d)))
            (blk_elements b) ())"

definition validate_builder_constraints ::
  "string \<Rightarrow> block list \<Rightarrow> block list \<Rightarrow> builder_error + unit" where
  "validate_builder_constraints kind before after =
     (case each (check_block kind before) after {} of
        Inl err \<Rightarrow> Inl err
      | Inr _ \<Rightarrow>
          (case each (check_page_block (el_id ` set (page_elements before))) after
                  (\<lambda>_. 0, []) of
             Inl err \<Rightarrow> Inl err
           | Inr _ \<Rightarrow> each (check_pinned kind after) before ()))"

section \<open>What a passing block is\<close>

text \<open>The sizes a save allows one element.\<close>

definition item_within :: "encoder \<Rightarrow> item \<Rightarrow> bool" where
  "item_within enc x \<longleftrightarrow>
     (case item_bytes enc x of Inl _ \<Rightarrow> False | Inr n \<Rightarrow> n \<le> max_item_bytes)"

definition within_limits :: "encoder \<Rightarrow> element \<Rightarrow> bool" where
  "within_limits enc e \<longleftrightarrow>
     length (held_items e) \<le> max_collection_items \<and>
     list_all (item_within enc) (held_items e) \<and>
     (case content_bytes enc (el_content e) of Inl _ \<Rightarrow> False | Inr n \<Rightarrow> n \<le> max_payload_bytes)"

lemma check_limits_iff: "check_limits enc i e s = Inr s' \<longleftrightarrow> within_limits enc e"
proof -
  have "check_item_size enc label j x () = Inr () \<longleftrightarrow> item_within enc x" for label j x
    by (auto simp: check_item_size_def item_within_def split: sum.splits)
  then have "each (check_item_size enc (role_label (el_role e))) (held_items e) () = Inr () \<longleftrightarrow>
      list_all (item_within enc) (held_items e)"
    by (rule each_from_checks)
  then show ?thesis
    by (auto simp: check_limits_def within_limits_def Let_def split: sum.splits)
qed

lemma validate_content_limits_iff:
  "validate_content_limits enc es = Inr s \<longleftrightarrow> list_all (within_limits enc) es"
  unfolding validate_content_limits_def by (rule each_from_checks) (rule check_limits_iff)

lemma check_item_id_loop:
  "(\<exists>s'. each_from i (check_item_id name) xs seen = Inr s') \<longleftrightarrow>
     distinct xs \<and> nil_uuid \<notin> set xs \<and> set xs \<inter> seen = {}"
  by (induction xs arbitrary: i seen) (auto simp: check_item_id_def)

lemma validate_item_ids_iff:
  "(\<exists>s. validate_item_ids e name = Inr s) \<longleftrightarrow>
     distinct (element_item_ids e) \<and> nil_uuid \<notin> set (element_item_ids e)"
  using check_item_id_loop [of 0 name "element_item_ids e" "{}"]
  by (simp add: validate_item_ids_def)

text \<open>What is asked of one element whatever the others are.\<close>

definition element_sound :: "element \<Rightarrow> bool" where
  "element_sound e \<longleftrightarrow>
     elem_type_known (el_type e) \<and> el_id e \<noteq> nil_uuid \<and>
     distinct (element_item_ids e) \<and> nil_uuid \<notin> set (element_item_ids e) \<and>
     options_fit (el_type e) (el_options e)"

lemma check_element_iff:
  "check_element l i e (occupied, identities) = Inr s' \<longleftrightarrow>
     element_sound e \<and> el_slot e \<in> set (layout_slots l) \<and>
     el_id e \<notin> fst ` set identities \<and> el_slot e \<notin> fst ` set occupied \<and>
     s' = ((el_slot e, element_name e i) # occupied, (el_id e, element_name e i) # identities)"
proof -
  have ids: "map_of identities (el_id e) = None \<longleftrightarrow> el_id e \<notin> fst ` set identities"
    "map_of occupied (el_slot e) = None \<longleftrightarrow> el_slot e \<notin> fst ` set occupied"
    by (simp_all add: map_of_eq_None_iff)
  show ?thesis
    using validate_item_ids_iff [of e "element_name e i"]
    by (cases "validate_item_ids e (element_name e i)")
       (auto simp: check_element_def element_sound_def options_fit_def Let_def ids [symmetric]
             split: option.splits)
qed

text \<open>
  A block a save takes: a layout with a slot for every element, no slot or identifier
  twice, and every element sound and within the limits.
\<close>

definition well_structured :: "encoder \<Rightarrow> block \<Rightarrow> bool" where
  "well_structured enc b \<longleftrightarrow>
     layout_slots (blk_layout b) \<noteq> [] \<and>
     list_all (within_limits enc) (blk_elements b) \<and>
     list_all element_sound (blk_elements b) \<and>
     set (map el_slot (blk_elements b)) \<subseteq> set (layout_slots (blk_layout b)) \<and>
     distinct (map el_slot (blk_elements b)) \<and>
     distinct (map el_id (blk_elements b))"

lemma check_element_loop:
  "(\<exists>s'. each_from i (check_element l) es (occupied, identities) = Inr s') \<longleftrightarrow>
     list_all element_sound es \<and> set (map el_slot es) \<subseteq> set (layout_slots l) \<and>
     distinct (map el_slot es) \<and> distinct (map el_id es) \<and>
     set (map el_slot es) \<inter> fst ` set occupied = {} \<and>
     set (map el_id es) \<inter> fst ` set identities = {}"
proof (induction es arbitrary: i occupied identities)
  case Nil
  then show ?case by simp
next
  case (Cons e es)
  let ?n = "element_name e i"
  note IH = Cons.IH [of "Suc i" "(el_slot e, ?n) # occupied" "(el_id e, ?n) # identities"]
  show ?case
  proof (cases "check_element l i e (occupied, identities)")
    case (Inl err)
    then have "\<not> (element_sound e \<and> el_slot e \<in> set (layout_slots l) \<and>
        el_id e \<notin> fst ` set identities \<and> el_slot e \<notin> fst ` set occupied)"
      using check_element_iff [of l i e occupied identities] by auto
    with Inl show ?thesis by auto
  next
    case (Inr s')
    then have s': "element_sound e" "el_slot e \<in> set (layout_slots l)"
      "el_id e \<notin> fst ` set identities" "el_slot e \<notin> fst ` set occupied"
      "s' = ((el_slot e, ?n) # occupied, (el_id e, ?n) # identities)"
      using check_element_iff [of l i e occupied identities] by auto
    show ?thesis using IH s'(1-4) by (auto simp: Inr s'(5))
  qed
qed

lemma structure_well_structured:
  "validate_structure enc b = Inr () \<longleftrightarrow> well_structured enc b"
proof -
  let ?es = "blk_elements b" and ?sl = "layout_slots (blk_layout b)"
  have room: "length ?es \<le> length ?sl"
    if "set (map el_slot ?es) \<subseteq> set ?sl" "distinct (map el_slot ?es)"
    using card_mono [OF _ that(1)] distinct_card [OF that(2)] card_length [of ?sl] by simp
  show ?thesis
    using check_element_loop [of 0 "blk_layout b" ?es "[]" "[]"] room
      validate_content_limits_iff [of enc ?es "()"]
    by (cases "validate_content_limits enc ?es"; cases "each (check_element (blk_layout b)) ?es ([], [])")
       (auto simp: validate_structure_def well_structured_def Let_def)
qed

text \<open>
  C2. \<^verbatim>\<open>ValidateStructure\<close> lets a block through exactly when the block is well structured: its
  layout is known and has a different slot for each element, its elements have their own
  identifiers, none of them nil, so do the items in each of them, every element has a known
  type and the presentation its type takes, and nothing is over a limit. The early check for
  room is implied by the rest.
\<close>

theorem validate_structure_decides:
  "validate_structure enc b = Inr () \<longleftrightarrow> well_structured enc b"
  by (rule structure_well_structured)

section \<open>What a passing page is\<close>

definition arrangement_ok :: "string \<Rightarrow> block \<Rightarrow> bool" where
  "arrangement_ok kind b \<longleftrightarrow>
     (case definition_of (blk_definition b) kind of
        None \<Rightarrow> False
      | Some d \<Rightarrow>
          blk_layout b \<in> set (def_layouts d) \<and> columns (blk_width b) \<noteq> 0 \<and>
          columns (minimum_width (blk_layout b)) \<le> columns (blk_width b))"

definition repeatable :: "string \<Rightarrow> definition_id \<Rightarrow> bool" where
  "repeatable kind i \<longleftrightarrow>
     (case definition_of i kind of None \<Rightarrow> False | Some d \<Rightarrow> def_repeatable d)"

definition singular :: "role \<Rightarrow> bool" where
  "singular r \<longleftrightarrow> r \<noteq> NoRole \<and> role_cardinality r = Singular"

lemma check_block_iff:
  "check_block kind before i b seen = Inr s' \<longleftrightarrow>
     arrangement_ok kind b \<and>
     (blk_definition b \<in> seen \<longrightarrow> repeatable kind (blk_definition b)) \<and>
     s' = insert (blk_definition b) seen"
  by (auto simp: check_block_def arrangement_ok_def repeatable_def Let_def
      split: option.splits prod.splits)

lemma check_block_loop:
  "(\<exists>s'. each_from i (check_block kind before) bs seen = Inr s') \<longleftrightarrow>
     list_all (arrangement_ok kind) bs \<and>
     distinct (filter (\<lambda>i. \<not> repeatable kind i) (map blk_definition bs)) \<and>
     (\<forall>b \<in> set bs. blk_definition b \<in> seen \<longrightarrow> repeatable kind (blk_definition b))"
proof (induction bs arbitrary: i seen)
  case Nil
  then show ?case by simp
next
  case (Cons b bs)
  note step = check_block_iff [of kind before i b seen]
  show ?case
  proof (cases "check_block kind before i b seen")
    case (Inl err)
    with step have "\<not> (arrangement_ok kind b \<and>
        (blk_definition b \<in> seen \<longrightarrow> repeatable kind (blk_definition b)))" by auto
    with Inl show ?thesis by auto
  next
    case (Inr s')
    with step have s': "arrangement_ok kind b"
      "blk_definition b \<in> seen \<longrightarrow> repeatable kind (blk_definition b)"
      "s' = insert (blk_definition b) seen" by auto
    have "blk_definition b \<in> set (filter (\<lambda>i. \<not> repeatable kind i) (map blk_definition bs)) \<longleftrightarrow>
        (\<exists>c \<in> set bs. blk_definition c = blk_definition b \<and> \<not> repeatable kind (blk_definition b))"
      by (auto simp: image_iff) metis
    then show ?thesis using s'(1,2) Cons.IH [of "Suc i" s'] by (auto simp: Inr s'(3))
  qed
qed

text \<open>
  The elements of a page, given the identifiers it may use, the roles already counted and the
  identifiers already met.
\<close>

definition elements_ok :: "uuid set \<Rightarrow> role set \<Rightarrow> uuid set \<Rightarrow> element list \<Rightarrow> bool" where
  "elements_ok existing counted met es \<longleftrightarrow>
     list_all (\<lambda>e. role_fits (el_role e) (el_type e)) es \<and>
     distinct (map el_id es) \<and> set (map el_id es) \<subseteq> existing - met \<and>
     distinct (filter singular (map el_role es)) \<and>
     (\<forall>e \<in> set es. singular (el_role e) \<longrightarrow> el_role e \<notin> counted)"

definition counted :: "(role \<Rightarrow> nat) \<Rightarrow> role set" where
  "counted counts = {r. 0 < counts r}"

definition roles_of :: "element list \<Rightarrow> role set" where
  "roles_of es = el_role ` set es - {NoRole}"

lemma roles_of_one: "roles_of [e] = (if el_role e = NoRole then {} else {el_role e})"
  by (auto simp: roles_of_def)

lemma singular_role: "singular r \<Longrightarrow> r \<noteq> NoRole"
  by (simp add: singular_def)

lemma elements_ok_Nil [simp]: "elements_ok existing R K []"
  by (simp add: elements_ok_def)

lemma elements_ok_Cons:
  "elements_ok existing R K (e # es) \<longleftrightarrow>
     role_fits (el_role e) (el_type e) \<and> el_id e \<in> existing \<and> el_id e \<notin> K \<and>
     (singular (el_role e) \<longrightarrow> el_role e \<notin> R) \<and>
     elements_ok existing (R \<union> roles_of [e]) (insert (el_id e) K) es"
proof (cases "singular (el_role e)")
  case True
  then have "roles_of [e] = {el_role e}" by (simp add: roles_of_one singular_role)
  moreover have "el_role e \<notin> set (filter singular (map el_role es)) \<longleftrightarrow>
      (\<forall>x \<in> set es. singular (el_role x) \<longrightarrow> el_role x \<noteq> el_role e)"
    using True by (auto simp: image_iff)
  ultimately show ?thesis using True by (simp add: elements_ok_def) blast
next
  case False
  then have "singular (el_role x) \<Longrightarrow> el_role x \<notin> roles_of [e]" for x
    by (auto simp: roles_of_one)
  with False show ?thesis by (simp add: elements_ok_def) blast
qed

lemmas elements_ok_simps = elements_ok_Nil elements_ok_Cons

lemma elements_ok_append:
  "elements_ok existing R K (xs @ ys) \<longleftrightarrow>
     elements_ok existing R K xs \<and>
     elements_ok existing (R \<union> roles_of xs) (K \<union> el_id ` set xs) ys"
proof (induction xs arbitrary: R K)
  case Nil
  then show ?case by (simp add: elements_ok_simps roles_of_def)
next
  case (Cons x xs)
  have "R \<union> roles_of [x] \<union> roles_of xs = R \<union> roles_of (x # xs)"
    by (auto simp: roles_of_def)
  then show ?case
    using Cons.IH [of "R \<union> roles_of [x]" "insert (el_id x) K"]
    by (simp add: elements_ok_simps)
qed

lemma counted_count:
  "counted (counts(r := Suc n)) = insert r (counted counts)"
  by (auto simp: counted_def)

text \<open>The count of a singular role is at most one as long as the loop runs.\<close>

lemma check_page_element_step:
  assumes "\<forall>r. singular r \<longrightarrow> counts r \<le> 1"
  shows "case check_page_element existing i e (counts, ids) of
      Inl _ \<Rightarrow> \<not> elements_ok existing (counted counts) (fst ` set ids) [e]
    | Inr (counts', ids') \<Rightarrow>
        elements_ok existing (counted counts) (fst ` set ids) [e] \<and>
        counted counts' = counted counts \<union> roles_of [e] \<and>
        fst ` set ids' = insert (el_id e) (fst ` set ids) \<and>
        (\<forall>r. singular r \<longrightarrow> counts' r \<le> 1)"
proof (cases "el_id e \<in> existing \<and> el_id e \<notin> fst ` set ids")
  case False
  then have "\<exists>err. check_page_element existing i e (counts, ids) = Inl err"
    by (auto simp: check_page_element_def Let_def split: option.splits
        dest: map_of_eq_None_iff [THEN iffD1])
  moreover have "\<not> elements_ok existing (counted counts) (fst ` set ids) [e]"
    using False by (simp add: elements_ok_Cons)
  ultimately show ?thesis by auto
next
  case True
  then have new: "map_of ids (el_id e) = None" by (simp add: map_of_eq_None_iff)
  consider (none) "el_role e = NoRole"
    | (bad) "el_role e \<noteq> NoRole" "\<not> role_allows (el_role e) (el_type e)"
    | (held) "el_role e \<noteq> NoRole" "role_allows (el_role e) (el_type e)" by blast
  then show ?thesis
  proof cases
    case none
    with True new assms show ?thesis
      by (simp add: check_page_element_def elements_ok_simps roles_of_one role_fits_def singular_def)
  next
    case bad
    with True new show ?thesis
      by (simp add: check_page_element_def elements_ok_simps role_fits_def Let_def)
  next
    case held
    show ?thesis
    proof (cases "role_cardinality (el_role e) = Singular \<and> counts (el_role e) > 0")
      case True': True
      with held True new show ?thesis
        by (simp add: check_page_element_def elements_ok_simps Let_def singular_def counted_def)
    next
      case False
      with held True new assms show ?thesis
        by (auto simp: check_page_element_def elements_ok_simps Let_def role_fits_def
            counted_count roles_of_one singular_def counted_def)
    qed
  qed
qed

lemma check_page_element_loop:
  assumes "\<forall>r. singular r \<longrightarrow> counts r \<le> 1"
  shows "case each_from i (check_page_element existing) es (counts, ids) of
      Inl _ \<Rightarrow> \<not> elements_ok existing (counted counts) (fst ` set ids) es
    | Inr (counts', ids') \<Rightarrow>
        elements_ok existing (counted counts) (fst ` set ids) es \<and>
        counted counts' = counted counts \<union> roles_of es \<and>
        fst ` set ids' = fst ` set ids \<union> el_id ` set es \<and>
        (\<forall>r. singular r \<longrightarrow> counts' r \<le> 1)"
  using assms
proof (induction es arbitrary: i counts ids)
  case Nil
  then show ?case by (simp add: roles_of_def)
next
  case (Cons e es)
  have roles: "roles_of (e # es) = roles_of [e] \<union> roles_of es" by (auto simp: roles_of_def)
  show ?case
  proof (cases "check_page_element existing i e (counts, ids)")
    case (Inl err)
    with check_page_element_step [OF Cons.prems, where existing = existing and i = i and e = e and ids = ids] show ?thesis
      by (auto simp: elements_ok_simps)
  next
    case (Inr s)
    obtain counts1 ids1 where s: "s = (counts1, ids1)" by (cases s)
    from check_page_element_step [OF Cons.prems, where existing = existing and i = i and e = e and ids = ids]
    have one: "elements_ok existing (counted counts) (fst ` set ids) [e]"
      "counted counts1 = counted counts \<union> roles_of [e]"
      "fst ` set ids1 = insert (el_id e) (fst ` set ids)"
      "\<forall>r. singular r \<longrightarrow> counts1 r \<le> 1"
      by (auto simp: Inr s)
    have whole: "elements_ok existing (counted counts) (fst ` set ids) (e # es) \<longleftrightarrow>
        elements_ok existing (counted counts1) (fst ` set ids1) es"
      using one(1) by (simp add: elements_ok_Cons one(2,3))
    show ?thesis
      using Cons.IH [OF one(4), where i = "Suc i" and ids = ids1]
      by (simp add: Inr s whole one(2,3) roles Un_assoc split: sum.splits prod.splits)
  qed
qed

lemma check_page_block_loop:
  assumes "\<forall>r. singular r \<longrightarrow> counts r \<le> 1"
  shows "(\<exists>s'. each_from i (check_page_block existing) bs (counts, ids) = Inr s') \<longleftrightarrow>
    elements_ok existing (counted counts) (fst ` set ids) (page_elements bs)"
  using assms
proof (induction bs arbitrary: i counts ids)
  case Nil
  then show ?case by simp
next
  case (Cons b bs)
  note loop = check_page_element_loop [OF Cons.prems, where i = 0 and existing = existing and
      es = "blk_elements b" and ids = ids]
  show ?case
  proof (cases "each (check_page_element existing) (blk_elements b) (counts, ids)")
    case (Inl err)
    with loop show ?thesis by (simp add: check_page_block_def elements_ok_append)
  next
    case (Inr s)
    obtain counts1 ids1 where s: "s = (counts1, ids1)" by (cases s)
    from loop show ?thesis
      using Cons.IH [of counts1 "Suc i" ids1]
      by (simp add: Inr s check_page_block_def elements_ok_append)
  qed
qed

lemma check_pinned_iff:
  "check_pinned kind after i b s = Inr s' \<longleftrightarrow>
     list_all (\<lambda>e. block_pinned b (el_role e) kind \<longrightarrow>
                   pinned_element_present after (blk_id b) e) (blk_elements b)"
proof (cases "definition_of (blk_definition b) kind")
  case None
  then show ?thesis by (simp add: check_pinned_def block_pinned_def list_all_iff)
next
  case (Some d)
  show ?thesis
    unfolding check_pinned_def Some option.case by (rule each_from_checks) simp
qed

text \<open>
  A page a save may leave behind, given the page before it.
\<close>

definition page_allowed :: "string \<Rightarrow> block list \<Rightarrow> block list \<Rightarrow> bool" where
  "page_allowed kind before after \<longleftrightarrow>
     list_all (arrangement_ok kind) after \<and>
     distinct (filter (\<lambda>i. \<not> repeatable kind i) (map blk_definition after)) \<and>
     list_all (\<lambda>e. role_fits (el_role e) (el_type e)) (page_elements after) \<and>
     distinct (filter singular (map el_role (page_elements after))) \<and>
     distinct (map el_id (page_elements after)) \<and>
     el_id ` set (page_elements after) \<subseteq> el_id ` set (page_elements before) \<and>
     list_all (\<lambda>b. list_all (\<lambda>e. block_pinned b (el_role e) kind \<longrightarrow>
       pinned_element_present after (blk_id b) e) (blk_elements b)) before"

lemma elements_ok_empty:
  "elements_ok existing {} {} es \<longleftrightarrow>
     list_all (\<lambda>e. role_fits (el_role e) (el_type e)) es \<and>
     distinct (filter singular (map el_role es)) \<and>
     distinct (map el_id es) \<and> el_id ` set es \<subseteq> existing"
  by (simp add: elements_ok_def) blast

lemma builder_constraints_allowed:
  "validate_builder_constraints kind before after = Inr () \<longleftrightarrow> page_allowed kind before after"
proof -
  let ?ex = "el_id ` set (page_elements before)"
  have blocks: "(\<exists>s'. each (check_block kind before) after {} = Inr s') \<longleftrightarrow>
      list_all (arrangement_ok kind) after \<and>
      distinct (filter (\<lambda>i. \<not> repeatable kind i) (map blk_definition after))"
    using check_block_loop [of 0 kind before after "{}"] by simp
  have elements: "(\<exists>s'. each (check_page_block ?ex) after (\<lambda>_. 0, []) = Inr s') \<longleftrightarrow>
      elements_ok ?ex {} {} (page_elements after)"
    using check_page_block_loop [of "\<lambda>_. 0" 0 ?ex after "[]"] by (simp add: counted_def)
  have pinned: "each (check_pinned kind after) before () = Inr () \<longleftrightarrow>
      list_all (\<lambda>b. list_all (\<lambda>e. block_pinned b (el_role e) kind \<longrightarrow>
        pinned_element_present after (blk_id b) e) (blk_elements b)) before"
    by (rule each_from_checks) (rule check_pinned_iff)
  show ?thesis
    using blocks elements pinned
    by (cases "each (check_block kind before) after {}";
        cases "each (check_page_block ?ex) after (\<lambda>_. 0, [])")
       (simp_all add: validate_builder_constraints_def page_allowed_def elements_ok_empty, blast+)
qed

text \<open>
  C1. \<^verbatim>\<open>ValidateBuilderConstraints\<close> lets a page through exactly when the page is allowed: every
  block is in the kind's catalog, in one of its layouts and at a width the layout fits, no
  block that may not repeat is there twice, every element attaches to its role, no singular
  role is there twice, the identifiers of the elements are distinct and are the ones the
  page had, and every pinned element is in the block it was in.
\<close>

theorem validate_builder_constraints_decides:
  "validate_builder_constraints kind before after = Inr () \<longleftrightarrow> page_allowed kind before after"
  by (rule builder_constraints_allowed)

end
