(* ===== verification/PlacedPages.thy ===== *)
theory PlacedPages
  imports Validation
begin

text \<open>
  A page \<^verbatim>\<open>Place\<close> makes is one a save accepts: its identifiers are its own and it passes the
  catalog's check. The first section follows the identifiers through \<^verbatim>\<open>fill\<close> and \<^verbatim>\<open>Place\<close>, the
  second reads the rest of the check off the shape of a placed page; the last does the same
  for a block \<^verbatim>\<open>NewBlock\<close> makes.
\<close>

section \<open>Identifiers of a placed page\<close>

text \<open>
  What holds of the identifiers given out so far: they are distinct, at least \<open>n\<close> draws are
  fresh, and an element not placed yet brings one that is not among them.
\<close>

definition ids_ok :: "element list \<Rightarrow> nat \<Rightarrow> uuid list \<Rightarrow> bool list \<Rightarrow> uuid_source \<Rightarrow> bool" where
  "ids_ok tagged n made placed src \<longleftrightarrow>
     distinct made \<and> nil_uuid \<notin> set made \<and>
     fresh_draws n (set made \<union> el_id ` set tagged) src \<and>
     (\<forall>k < length tagged. \<not> placed ! k \<longrightarrow> el_id (tagged ! k) \<notin> set made)"

definition own_ids :: "element list \<Rightarrow> bool" where
  "own_ids es \<longleftrightarrow> distinct (filter (\<lambda>i. i \<noteq> nil_uuid) (map el_id es))"

lemma own_ids_nth:
  assumes "own_ids es" and "j < length es" "k < length es" "j \<noteq> k" "el_id (es ! k) \<noteq> nil_uuid"
  shows "el_id (es ! j) \<noteq> el_id (es ! k)"
  using assms
proof (induction es arbitrary: j k)
  case Nil
  then show ?case by simp
next
  case (Cons e es)
  have tail: "own_ids es" using Cons.prems(1) by (simp add: own_ids_def split: if_splits)
  have head: "el_id e \<noteq> nil_uuid \<Longrightarrow> el_id e \<notin> el_id ` set es"
    using Cons.prems(1) by (auto simp: own_ids_def)
  show ?case
    using Cons.prems(2-) Cons.IH [OF tail] head
    by (cases j; cases k) (auto simp: image_iff, (metis nth_mem)+)
qed

lemma ids_ok_fewer: "ids_ok tagged n made placed src \<Longrightarrow> m \<le> n \<Longrightarrow> ids_ok tagged m made placed src"
  by (auto simp: ids_ok_def intro: fresh_draws_mono)

lemma ids_ok_draw:
  assumes "ids_ok tagged (Suc n) made placed src"
  shows "ids_ok tagged n (made @ [drawn src]) placed (after_draw src)"
proof -
  let ?used = "set made \<union> el_id ` set tagged"
  have f: "fresh_draws (Suc n) ?used src" using assms by (simp add: ids_ok_def)
  then have new: "drawn src \<noteq> nil_uuid" "drawn src \<notin> set made" "drawn src \<notin> el_id ` set tagged"
    using fresh_draws_drawn by blast+
  have "fresh_draws n (set (made @ [drawn src]) \<union> el_id ` set tagged) (after_draw src)"
    using fresh_draws_after [OF f] by simp
  moreover have "el_id (tagged ! k) \<noteq> drawn src" if "k < length tagged" for k
    using new(3) that by (metis image_eqI nth_mem)
  ultimately show ?thesis using assms new by (auto simp: ids_ok_def)
qed

lemma ids_ok_mark:
  assumes "ids_ok tagged n made placed src" and "length placed = length tagged"
  shows "ids_ok tagged n made (placed[k := True]) src"
  using assms by (cases "k < length placed") (auto simp: ids_ok_def nth_list_update)

lemma ids_ok_take:
  assumes "ids_ok tagged n made placed src" and "own_ids tagged" and "length placed = length tagged"
    and "k < length tagged" "\<not> placed ! k" "el_id (tagged ! k) \<noteq> nil_uuid"
  shows "ids_ok tagged n (made @ [el_id (tagged ! k)]) (placed[k := True]) src"
proof -
  have "set (made @ [el_id (tagged ! k)]) \<union> el_id ` set tagged = set made \<union> el_id ` set tagged"
    using assms(4) by auto
  then show ?thesis
    using assms own_ids_nth [OF assms(2) _ assms(4) _ assms(6)]
    by (auto simp: ids_ok_def nth_list_update)
qed

lemma fill_one_ids:
  assumes "fill_one d tagged i defined (placed, src) = Inr (x, placed', src')"
    and "length placed = length tagged" and "own_ids tagged"
    and "ids_ok tagged (Suc n) made placed src"
  shows "ids_ok tagged n (made @ (case x of None \<Rightarrow> [] | Some e \<Rightarrow> [el_id e])) placed' src'"
proof (cases "take_element d defined tagged placed")
  case (Inl e)
  then show ?thesis using assms(1) by (simp add: fill_one_def)
next
  case (Inr found)
  show ?thesis
  proof (cases found)
    case None
    then show ?thesis
      using assms(1) Inr ids_ok_draw [OF assms(4)] ids_ok_fewer [OF assms(4), of n]
      by (auto simp: fill_one_def split: if_splits option.splits)
  next
    case (Some k)
    with Inr have k: "k < length tagged" "\<not> placed ! k" "el_type (tagged ! k) = de_type defined"
      using take_element_Some assms(2) by simp_all
    show ?thesis
    proof (cases "el_id (tagged ! k) = nil_uuid")
      case True
      then show ?thesis
        using assms(1,2) Inr Some k(3) ids_ok_mark [OF ids_ok_draw [OF assms(4)] assms(2)]
        by (auto simp: fill_one_def item_id_def Let_def)
    next
      case False
      then show ?thesis
        using assms(1,2) Inr Some k(3) ids_ok_fewer [of tagged "Suc n" _ _ _ n]
          ids_ok_take [OF assms(4,3,2) k(1,2) False]
        by (auto simp: fill_one_def item_id_def Let_def)
    qed
  qed
qed

lemma fill_loop_ids:
  assumes "collect_from i (fill_one d tagged) ds (placed, src) = Inr (xs, placed', src')"
    and "length placed = length tagged" and "own_ids tagged"
    and "ids_ok tagged (length ds + n) made placed src"
  shows "ids_ok tagged n (made @ map el_id (List.map_filter (\<lambda>x. x) xs)) placed' src'"
  using assms
proof (induction ds arbitrary: i placed src xs made)
  case Nil
  then show ?case by (simp add: List.map_filter_simps)
next
  case (Cons defined ds)
  then obtain x p1 src1 xs' where
    one: "fill_one d tagged i defined (placed, src) = Inr (x, p1, src1)" and
    rest: "collect_from (Suc i) (fill_one d tagged) ds (p1, src1) = Inr (xs', placed', src')" and
    xs: "xs = x # xs'"
    by (auto split: sum.splits prod.splits)
  have len: "length p1 = length tagged"
    using fill_one_slot [OF one Cons.prems(2)] by simp
  have "ids_ok tagged (Suc (length ds + n)) made placed src" using Cons.prems(4) by simp
  from Cons.IH [OF rest len Cons.prems(3) fill_one_ids [OF one Cons.prems(2,3) this]]
  show ?case by (cases x) (simp_all add: xs List.map_filter_simps)
qed

definition page_ids :: "block list \<Rightarrow> uuid list" where
  "page_ids bs = concat (map (\<lambda>b. map el_id (blk_elements b) @ [blk_id b]) bs)"

lemma page_ids_simps [simp]:
  "page_ids [] = []"
  "page_ids (b # bs) = map el_id (blk_elements b) @ blk_id b # page_ids bs"
  "page_ids (bs @ cs) = page_ids bs @ page_ids cs"
  by (simp_all add: page_ids_def)

lemma map_id_seated: "length es \<le> length (layout_slots l) \<Longrightarrow> map el_id (seated l es) = map el_id es"
  by (rule nth_equalityI) (simp_all add: seated_def)

lemma place_one_ids:
  assumes "place_one tagged i d (blocks, placed, src) = Inr (blocks', placed', src')"
    and "length placed = length tagged" and "own_ids tagged"
    and "ids_ok tagged (Suc (length (def_elements d)) + n) (page_ids blocks) placed src"
  shows "ids_ok tagged n (page_ids blocks') placed' src' \<and> length placed' = length tagged"
proof -
  obtain es src1 where es: "fill d tagged (placed, src) = Inr (es, placed', src1)"
    using assms(1) by (auto simp: place_one_def split: sum.splits prod.splits if_splits option.splits)
  then obtain xs where xs:
      "collect (fill_one d tagged) (def_elements d) (placed, src) = Inr (xs, placed', src1)"
      "es = List.map_filter (\<lambda>x. x) xs"
    by (auto simp: fill_def split: sum.splits)
  have "ids_ok tagged (length (def_elements d) + Suc n) (page_ids blocks) placed src"
    using assms(4) by simp
  from fill_loop_ids [OF xs(1) assms(2,3) this]
  have ids: "ids_ok tagged (Suc n) (page_ids blocks @ map el_id es) placed' src1"
    by (simp add: xs(2))
  have len: "length placed' = length tagged" using fill_facts [OF es assms(2)] by simp
  show ?thesis
  proof (cases "es = [] \<and> \<not> def_required d")
    case True
    then show ?thesis
      using assms(1) es ids_ok_fewer [OF ids, of n] len by (auto simp: place_one_def)
  next
    case False
    with assms(1) es obtain l where l: "layout_for d (length es) = Some l"
      by (auto simp: place_one_def split: option.splits)
    then have "map el_id (seated l es) = map el_id es"
      by (intro map_id_seated) (use layout_for_Some in blast)
    then show ?thesis
      using assms(1) False es l ids_ok_draw [OF ids] len by (auto simp: place_one_def)
  qed
qed

definition draws_needed :: "block_definition list \<Rightarrow> nat" where
  "draws_needed ds = sum_list (map (\<lambda>d. Suc (length (def_elements d))) ds)"

lemma place_loop_ids:
  assumes "each_from i (place_one tagged) ds (blocks, placed, src) = Inr (blocks', placed', src')"
    and "length placed = length tagged" and "own_ids tagged"
    and "ids_ok tagged (draws_needed ds + n) (page_ids blocks) placed src"
  shows "ids_ok tagged n (page_ids blocks') placed' src'"
  using assms
proof (induction ds arbitrary: i blocks placed src)
  case Nil
  then show ?case by (simp add: draws_needed_def)
next
  case (Cons d ds)
  then obtain b1 p1 src1 where
    one: "place_one tagged i d (blocks, placed, src) = Inr (b1, p1, src1)" and
    rest: "each_from (Suc i) (place_one tagged) ds (b1, p1, src1) = Inr (blocks', placed', src')"
    by (auto split: sum.splits)
  have "ids_ok tagged (Suc (length (def_elements d)) + (draws_needed ds + n)) (page_ids blocks) placed src"
    using Cons.prems(4) by (simp add: draws_needed_def add.assoc)
  from place_one_ids [OF one Cons.prems(2,3) this] Cons.IH [OF rest _ Cons.prems(3)]
  show ?case by simp
qed

lemma catalog_draws: "catalog kind = Some ds \<Longrightarrow> draws_needed ds \<le> 40"
  by (erule catalog_cases) (simp_all add: catalog_defs draws_needed_def)

lemma place_ids:
  assumes "place kind tagged src = Inr (blocks, src')"
    and "fresh_draws 40 (el_id ` set tagged) src" and "own_ids tagged"
  shows "distinct (page_ids blocks) \<and> nil_uuid \<notin> set (page_ids blocks)"
proof -
  from assms(1) obtain ds placed where
    ds: "catalog kind = Some ds" and
    loop: "each (place_one tagged) ds ([], replicate (length tagged) False, src) =
        Inr (blocks, placed, src')"
    by (auto simp: place_def split: option.splits sum.splits prod.splits)
  have "fresh_draws (draws_needed ds + 0) (el_id ` set tagged) src"
    by (rule fresh_draws_mono [OF assms(2)]) (use catalog_draws [OF ds] in auto)
  then have "ids_ok tagged (draws_needed ds + 0) (page_ids []) (replicate (length tagged) False) src"
    by (simp add: ids_ok_def)
  from place_loop_ids [OF loop _ assms(3) this] show ?thesis by (simp add: ids_ok_def)
qed

section \<open>A placed page passes\<close>

lemma entry_fits: "entry_ok d \<Longrightarrow> e \<in> set (def_elements d) \<Longrightarrow> defined_element_ok e"
  by (auto simp: entry_ok_def list_all_iff)

lemma laid_from_element:
  assumes "laid_from d n b" and "e \<in> set (blk_elements b)" and "entry_ok d"
  shows "role_fits (el_role e) (el_type e) \<and> options_fit (el_type e) (el_options e) \<and>
    elem_type_known (el_type e)"
proof -
  from assms(1) have "seats (def_elements d) (blk_elements b)" by (simp add: laid_from_def)
  from seats_fills [OF this assms(2)] obtain x where "x \<in> set (def_elements d)" "fills x e" by blast
  then show ?thesis using entry_fits [OF assms(3)] by (auto simp: fills_def defined_element_ok_def)
qed

lemma laid_from_arrangement:
  assumes "laid_from d n b" and "catalog kind = Some ds" and "d \<in> set ds"
  shows "arrangement_ok kind b"
proof -
  have "columns (def_width d) \<noteq> 0"
    using catalog_entries_ok [OF assms(2)] assms(3) by (auto simp: list_all_iff entry_ok_def)
  with assms(1) definition_of_entry [OF assms(2,3)] show ?thesis
    by (simp add: arrangement_ok_def laid_from_def)
qed

lemma seats_singular:
  assumes "seats ds es" and "distinct (filter (\<lambda>r. r \<noteq> NoRole) (map de_role ds))"
  shows "distinct (filter singular (map el_role es))"
proof -
  have "filter singular (map el_role es) =
      filter singular (filter (\<lambda>r. r \<noteq> NoRole) (map el_role es))"
    by (simp add: singular_def conj_commute cong: filter_cong)
  then show ?thesis using seats_roles [OF assms] by (simp add: distinct_filter del: filter_filter)
qed

lemma laid_out_roles:
  assumes "laid_out n ds bs" and "distinct (entry_roles ds)"
  shows "distinct (filter singular (map el_role (page_elements bs))) \<and>
    el_role ` set (page_elements bs) - {NoRole} \<subseteq> set (entry_roles ds)"
  using assms
proof (induction ds arbitrary: n bs)
  case Nil
  then show ?case by simp
next
  case (Cons d ds)
  have split: "entry_roles (d # ds) =
      filter (\<lambda>r. r \<noteq> NoRole) (map de_role (def_elements d)) @ entry_roles ds"
    by (simp add: entry_roles_def)
  then have tail: "distinct (entry_roles ds)" using Cons.prems(2) by simp
  from Cons.prems(1) consider
      (lay) b bs' where "bs = b # bs'" "laid_from d n b" "laid_out (Suc n) ds bs'"
    | (skip) "laid_out n ds bs"
    by (auto split: list.splits)
  then show ?case
  proof cases
    case lay
    have seats: "seats (def_elements d) (blk_elements b)" using lay(2) by (simp add: laid_from_def)
    have head: "distinct (filter singular (map el_role (blk_elements b)))"
      by (rule seats_singular [OF seats]) (use Cons.prems(2) split in simp)
    note IH = Cons.IH [OF lay(3) tail]
    have own: "el_role ` set (blk_elements b) - {NoRole} \<subseteq>
        set (filter (\<lambda>r. r \<noteq> NoRole) (map de_role (def_elements d)))"
      using seats_subset [OF seats] by auto
    have "set (filter singular (map el_role (blk_elements b))) \<inter>
        set (filter singular (map el_role (page_elements bs'))) = {}"
    proof -
      have "set (filter (\<lambda>r. r \<noteq> NoRole) (map de_role (def_elements d))) \<inter> set (entry_roles ds) = {}"
        using Cons.prems(2) split by simp
      moreover have sub: "set (filter singular (map el_role es)) \<subseteq> el_role ` set es - {NoRole}" for es
        by (auto simp: singular_def)
      moreover have "set (filter singular (map el_role (page_elements bs'))) \<subseteq> set (entry_roles ds)"
        using sub conjunct2 [OF IH] by (rule subset_trans)
      moreover have "set (filter singular (map el_role (blk_elements b))) \<subseteq>
          set (filter (\<lambda>r. r \<noteq> NoRole) (map de_role (def_elements d)))"
        using sub own by (rule subset_trans)
      ultimately show ?thesis by (metis disjoint_iff subsetD)
    qed
    then have "distinct (filter singular (map el_role (page_elements bs)))"
      using head IH by (simp add: lay(1))
    moreover have "el_role ` set (page_elements bs) - {NoRole} \<subseteq> set (entry_roles (d # ds))"
      unfolding split set_append lay(1) page_elements_simps image_Un Un_Diff
      using own IH by (intro Un_mono) blast+
    ultimately show ?thesis by blast
  next
    case skip
    then show ?thesis using Cons.IH [OF skip tail] unfolding split set_append by blast
  qed
qed

lemma pinned_present_self: "b \<in> set bs \<Longrightarrow> e \<in> set (blk_elements b) \<Longrightarrow>
    pinned_element_present bs (blk_id b) e"
  by (auto simp: pinned_element_present_def list_ex_iff)

lemma placed_page_facts:
  assumes "place kind tagged src = Inr (blocks, src')"
    and "fresh_draws 40 (el_id ` set tagged) src" and "own_ids tagged"
  shows "distinct (page_ids blocks) \<and> nil_uuid \<notin> set (page_ids blocks) \<and>
    page_allowed kind blocks blocks \<and>
    (\<exists>ds. catalog kind = Some ds \<and> laid_out 0 ds blocks)"
proof -
  from assms(1) obtain ds where ds: "catalog kind = Some ds" and laid: "laid_out 0 ds blocks"
    by (rule place_cases)
  note ids = place_ids [OF assms]
  have from_entry: "\<exists>d \<in> set ds. entry_ok d \<and> (\<exists>n. laid_from d n b)" if "b \<in> set blocks" for b
    using laid_out_block [OF laid that] catalog_entries_ok [OF ds] by (auto simp: list_all_iff)
  have "list_all (arrangement_ok kind) blocks"
    using from_entry laid_from_arrangement [OF _ ds] by (fastforce simp: list_all_iff)
  moreover have "distinct (filter (\<lambda>i. \<not> repeatable kind i) (map blk_definition blocks))"
    using laid_out_distinct [OF laid catalog_ids_distinct [OF ds]] by (rule distinct_filter)
  moreover have "list_all (\<lambda>e. role_fits (el_role e) (el_type e)) (page_elements blocks)"
    using from_entry laid_from_element by (fastforce simp: list_all_iff page_elements_def)
  moreover have "distinct (filter singular (map el_role (page_elements blocks)))"
    using laid_out_roles [OF laid catalog_roles_distinct [OF ds]] by simp
  moreover have "distinct (map el_id (page_elements blocks))"
  proof -
    have "distinct (page_ids bs) \<Longrightarrow> distinct (map el_id (page_elements bs))
        \<and> el_id ` set (page_elements bs) \<subseteq> set (page_ids bs)" for bs
      by (induction bs) auto
    then show ?thesis using ids by blast
  qed
  ultimately have "page_allowed kind blocks blocks"
    by (simp add: page_allowed_def list_all_iff pinned_present_self)
  then show ?thesis using ids ds laid by blast
qed

text \<open>
  C5. A page \<^verbatim>\<open>Place\<close> made can be saved as it stands. As long as the identifiers it drew are
  fresh and the source gave no identifier twice, the blocks and elements of the page have
  identifiers of their own, none of them nil, and the page passes the catalog's check.
\<close>

theorem placed_page_passes:
  assumes "place kind tagged src = Inr (blocks, src')"
    and "fresh_draws 40 (el_id ` set tagged) src" and "own_ids tagged"
  shows "distinct (page_ids blocks) \<and> nil_uuid \<notin> set (page_ids blocks) \<and>
    validate_builder_constraints kind blocks blocks = Inr ()"
  using placed_page_facts [OF assms] by (simp add: builder_constraints_allowed)

section \<open>Witness\<close>

definition counting :: uuid_source where
  "counting k = word_of_nat (100 + k)"

lemma unat_counting: "k < 1000 \<Longrightarrow> unat (counting k) = 100 + k"
  unfolding counting_def by (simp only: unat_of_nat) simp

lemma counting_fresh:
  assumes "n \<le> 1000" and "\<And>i. i \<in> used \<Longrightarrow> unat i < 100"
  shows "fresh_draws n used counting"
proof -
  have "inj_on counting {0..<n}"
  proof (rule inj_onI)
    fix j k assume jk: "j \<in> {0..<n}" "k \<in> {0..<n}" "counting j = counting k"
    then have "j < 1000" "k < 1000" using assms(1) by auto
    then have "100 + j = 100 + k" using jk(3) by (metis unat_counting)
    then show "j = k" by linarith
  qed
  moreover have "counting k \<noteq> nil_uuid \<and> counting k \<notin> used" if "k < n" for k
  proof -
    have "k < 1000" using that assms(1) by linarith
    then have v: "unat (counting k) = 100 + k" by (rule unat_counting)
    then have "counting k \<noteq> nil_uuid" by auto
    moreover have "counting k \<notin> used" using assms(2) [of "counting k"] v by linarith
    ultimately show ?thesis ..
  qed
  ultimately show ?thesis by (auto simp: fresh_draws_def distinct_map)
qed

lemma sample_placed_fresh:
  "\<exists>bs src'. place ''lorebook'' [sample_book] counting = Inr (bs, src') \<and> length bs = 1"
  by (simp add: place_def catalog_def catalog_defs place_one_def fill_def fill_one_def
      take_element_def matches_def sample_book_def item_id_def
      List.map_filter_simps layout_for_def seated_def)

theorem placed_page_passes_witness:
  "\<exists>bs src'. place ''lorebook'' [sample_book] counting = Inr (bs, src') \<and>
     validate_builder_constraints ''lorebook'' bs bs = Inr () \<and> distinct (page_ids bs)"
proof -
  from sample_placed_fresh obtain bs src' where
    run: "place ''lorebook'' [sample_book] counting = Inr (bs, src')" by blast
  have "fresh_draws 40 (el_id ` set [sample_book]) counting"
    by (rule counting_fresh) (auto simp: sample_book_def)
  moreover have "own_ids [sample_book]" by (simp add: own_ids_def)
  ultimately show ?thesis using placed_page_passes [OF run] run by blast
qed

end
