(* ===== verification/Measures.thy ===== *)
theory Measures
  imports Placement
begin

text \<open>
  What the package counts: the content a kind asks for before publishing (\<^verbatim>\<open>floor.go\<close>), the
  facets a catalog search filters on (\<^verbatim>\<open>facet.go\<close>) and the facts a page prints about an
  element (\<^verbatim>\<open>facts.go\<close>), with what each of them decides.
\<close>

section \<open>The content floor\<close>

record requirement =
  req_id :: string
  req_label :: string
  req_detail :: string
  req_role :: role

record check_result =
  chk_requirement :: requirement
  chk_met :: bool
  chk_block :: "uuid option"

definition content_floors :: "(string \<times> requirement list) list" where
  "content_floors =
    [(''character'',
       [\<lparr>req_id = ''description'', req_label = ''Description'',
         req_detail = ''Write the description this character is built on.'',
         req_role = RoleDescription\<rparr>,
        \<lparr>req_id = ''greetings'', req_label = ''Greeting'',
         req_detail = ''Write at least one opening message.'', req_role = RoleGreetings\<rparr>]),
     (''lorebook'',
       [\<lparr>req_id = ''entries'', req_label = ''Entry'',
         req_detail = ''Write at least one entry.'', req_role = RoleLorebookEntries\<rparr>]),
     (''preset'',
       [\<lparr>req_id = ''prompt_fragments'', req_label = ''Prompt fragment'',
         req_detail = ''Write at least one prompt fragment.'',
         req_role = RolePromptFragments\<rparr>]),
     (''theme'',
       [\<lparr>req_id = ''palette'', req_label = ''Palette'',
         req_detail = ''Add at least one colour to the palette.'', req_role = RoleThemeTokens\<rparr>]),
     (''pack'',
       [\<lparr>req_id = ''items'', req_label = ''Item'',
         req_detail = ''Add at least one item to the pack.'', req_role = RolePackItems\<rparr>])]"

definition floor_of :: "string \<Rightarrow> requirement list" where
  "floor_of kind = (case map_of content_floors kind of None \<Rightarrow> [] | Some rs \<Rightarrow> rs)"

text \<open>
  The two inner loops of \<^verbatim>\<open>ContentFloor\<close>, over a running check: the first block with the role is
  remembered until one with something written in it comes.
\<close>

definition check_floor_element ::
  "uuid \<Rightarrow> element \<Rightarrow> check_result \<Rightarrow> check_result" where
  "check_floor_element holder e c =
     (if el_role e \<noteq> req_role (chk_requirement c) then c
      else
        (let c' = (if chk_block c = None \<or> (written e \<and> \<not> chk_met c)
                   then c\<lparr>chk_block := Some holder\<rparr> else c)
         in c'\<lparr>chk_met := chk_met c \<or> written e\<rparr>))"

definition check_floor_block :: "block \<Rightarrow> check_result \<Rightarrow> check_result" where
  "check_floor_block b c = fold (check_floor_element (blk_id b)) (blk_elements b) c"

definition content_floor :: "string \<Rightarrow> block list \<Rightarrow> check_result list" where
  "content_floor kind bs =
     map (\<lambda>r. fold check_floor_block bs
                \<lparr>chk_requirement = r, chk_met = False, chk_block = None\<rparr>)
       (floor_of kind)"

definition required_roles :: "string \<Rightarrow> role list" where
  "required_roles kind = map req_role (floor_of kind)"

section \<open>Facets\<close>

datatype facet_key = FacetLorebook | FacetAlternateGreetings | FacetExpressions | FacetGallery
  | FacetVariables | FacetRegexScripts | FacetItems

fun facet_key_wire :: "facet_key \<Rightarrow> string" where
  "facet_key_wire FacetLorebook = ''lorebook''"
| "facet_key_wire FacetAlternateGreetings = ''alternate_greetings''"
| "facet_key_wire FacetExpressions = ''expressions''"
| "facet_key_wire FacetGallery = ''gallery''"
| "facet_key_wire FacetVariables = ''variables''"
| "facet_key_wire FacetRegexScripts = ''regex_scripts''"
| "facet_key_wire FacetItems = ''items''"

definition no_ceiling :: int where
  "no_ceiling = -1"

record bucket =
  bkt_value :: string
  bkt_label :: string
  bkt_min :: int
  bkt_max :: int

definition bucket_holds :: "bucket \<Rightarrow> int \<Rightarrow> bool" where
  "bucket_holds b n \<longleftrightarrow>
     (if n < bkt_min b then False else bkt_max b = no_ceiling \<or> n \<le> bkt_max b)"

record facet =
  fct_key :: facet_key
  fct_label :: string
  fct_role :: role
  fct_measure :: "content \<Rightarrow> nat"
  fct_buckets :: "bucket list"

definition facet_bucket :: "facet \<Rightarrow> string \<Rightarrow> bucket option" where
  "facet_bucket f v = find (\<lambda>b. bkt_value b = v) (fct_buckets f)"

definition presence :: "bucket list" where
  "presence =
     [\<lparr>bkt_value = ''true'', bkt_label = ''Included'', bkt_min = 1, bkt_max = no_ceiling\<rparr>,
      \<lparr>bkt_value = ''false'', bkt_label = ''None'', bkt_min = 0, bkt_max = 0\<rparr>]"

definition count_entries :: "content \<Rightarrow> nat" where
  "count_entries c = (case c of EntryTable es \<Rightarrow> length es | _ \<Rightarrow> 0)"

definition count_alternate_greetings :: "content \<Rightarrow> nat" where
  "count_alternate_greetings c =
     (case c of TextSet ts \<Rightarrow> length (filter (\<lambda>i. text_text i \<noteq> []) ts) - 1 | _ \<Rightarrow> 0)"

definition count_images :: "content \<Rightarrow> nat" where
  "count_images c = (case c of ImageSet is \<Rightarrow> length is | _ \<Rightarrow> 0)"

definition count_variables :: "content \<Rightarrow> nat" where
  "count_variables c = (case c of VariableSchema vs \<Rightarrow> length vs | _ \<Rightarrow> 0)"

definition count_scripts :: "content \<Rightarrow> nat" where
  "count_scripts c = (case c of ScriptList ss \<Rightarrow> length ss | _ \<Rightarrow> 0)"

definition count_records :: "content \<Rightarrow> nat" where
  "count_records c = (case c of RecordList sc rs \<Rightarrow> length rs | _ \<Rightarrow> 0)"

definition character_facets :: "facet list" where
  "character_facets =
     [\<lparr>fct_key = FacetLorebook, fct_label = ''Lorebook'', fct_role = RoleLorebookEntries,
       fct_measure = count_entries, fct_buckets = presence\<rparr>,
      \<lparr>fct_key = FacetAlternateGreetings, fct_label = ''Alternate greetings'',
       fct_role = RoleGreetings, fct_measure = count_alternate_greetings,
       fct_buckets =
         [\<lparr>bkt_value = ''1'', bkt_label = ''1'', bkt_min = 1, bkt_max = 1\<rparr>,
          \<lparr>bkt_value = ''2-4'', bkt_label = ''2 to 4'', bkt_min = 2, bkt_max = 4\<rparr>,
          \<lparr>bkt_value = ''5-up'', bkt_label = ''5 or more'', bkt_min = 5, bkt_max = no_ceiling\<rparr>]\<rparr>,
      \<lparr>fct_key = FacetExpressions, fct_label = ''Expressions'', fct_role = RoleExpressions,
       fct_measure = count_images, fct_buckets = presence\<rparr>,
      \<lparr>fct_key = FacetGallery, fct_label = ''Gallery'', fct_role = RoleGallery,
       fct_measure = count_images, fct_buckets = presence\<rparr>]"

definition preset_facets :: "facet list" where
  "preset_facets =
     [\<lparr>fct_key = FacetVariables, fct_label = ''Variables'', fct_role = RolePromptVariables,
       fct_measure = count_variables, fct_buckets = presence\<rparr>,
      \<lparr>fct_key = FacetRegexScripts, fct_label = ''Regex scripts'', fct_role = RoleRegexScripts,
       fct_measure = count_scripts, fct_buckets = presence\<rparr>]"

definition pack_facets :: "facet list" where
  "pack_facets =
     [\<lparr>fct_key = FacetItems, fct_label = ''Items'', fct_role = RolePackItems,
       fct_measure = count_records,
       fct_buckets =
         [\<lparr>bkt_value = ''1'', bkt_label = ''1 item'', bkt_min = 1, bkt_max = 1\<rparr>,
          \<lparr>bkt_value = ''2-9'', bkt_label = ''2 to 9'', bkt_min = 2, bkt_max = 9\<rparr>,
          \<lparr>bkt_value = ''10-up'', bkt_label = ''10 or more'', bkt_min = 10, bkt_max = no_ceiling\<rparr>]\<rparr>]"

definition facets :: "string \<Rightarrow> facet list" where
  "facets kind =
     (case map_of [(''character'', character_facets), (''preset'', preset_facets),
                   (''pack'', pack_facets)] kind of
        None \<Rightarrow> [] | Some fs \<Rightarrow> fs)"

definition facet_by_key :: "string \<Rightarrow> string \<Rightarrow> facet option" where
  "facet_by_key kind key = find (\<lambda>f. facet_key_wire (fct_key f) = key) (facets kind)"

text \<open>\<^verbatim>\<open>MeasureFacets\<close>: one total per facet, over the elements of its role with content.\<close>

definition facet_total :: "facet \<Rightarrow> element list \<Rightarrow> nat" where
  "facet_total f es =
     fold (\<lambda>e total. (if el_role e \<noteq> fct_role f then total
                       else (case el_content e of None \<Rightarrow> total
                                                | Some c \<Rightarrow> total + fct_measure f c))) es 0"

definition measure_facets :: "string \<Rightarrow> element list \<Rightarrow> (facet_key \<times> nat) list" where
  "measure_facets kind es = map (\<lambda>f. (fct_key f, facet_total f es)) (facets kind)"

section \<open>Facts\<close>

text \<open>\<^verbatim>\<open>number\<close>: its loop moves the cut three places to the left and puts a comma there.\<close>

function number_from :: "nat \<Rightarrow> string \<Rightarrow> string" where
  "number_from c digits =
     (if c \<le> 3 then digits
      else number_from (c - 3) (take (c - 3) digits @ '','' @ drop (c - 3) digits))"
  by pat_completeness auto
termination by (relation "measure fst") auto

declare number_from.simps [simp del]

definition number :: "nat \<Rightarrow> string" where
  "number n = number_from (length (decimal n)) (decimal n)"

definition item_noun :: "element \<Rightarrow> string \<times> string" where
  "item_noun e =
     (case el_role e of
        RoleGreetings \<Rightarrow> (''greeting'', ''greetings'')
      | RoleGroupGreetings \<Rightarrow> (''group-only greeting'', ''group-only greetings'')
      | RoleExpressions \<Rightarrow> (''expression'', ''expressions'')
      | RoleLorebookEntries \<Rightarrow> (''entry'', ''entries'')
      | RolePromptNudges \<Rightarrow> (''nudge'', ''nudges'')
      | RolePackItems \<Rightarrow> (''item'', ''items'')
      | _ \<Rightarrow>
          (case el_type e of
             TypeImageSet \<Rightarrow> (''image'', ''images'')
           | TypeDialogueSample \<Rightarrow> (''turn'', ''turns'')
           | TypeFieldList \<Rightarrow> (''detail'', ''details'')
           | TypeLinkList \<Rightarrow> (''link'', ''links'')
           | TypeEntryTable \<Rightarrow> (''entry'', ''entries'')
           | TypePromptList \<Rightarrow> (''fragment'', ''fragments'')
           | TypeVariableSchema \<Rightarrow> (''variable'', ''variables'')
           | TypeSettingGroup \<Rightarrow> (''setting'', ''settings'')
           | TypeScriptList \<Rightarrow> (''script'', ''scripts'')
           | TypeColorSet \<Rightarrow> (''colour'', ''colours'')
           | TypeStylesheetSet \<Rightarrow> (''stylesheet'', ''stylesheets'')
           | TypeRecordList \<Rightarrow> (''record'', ''records'')
           | _ \<Rightarrow> (''item'', ''items'')))"

definition item_facts :: "element \<Rightarrow> nat \<Rightarrow> string list" where
  "item_facts e n =
     (if n = 0 then []
      else
        (let (one, many) = item_noun e; noun = (if n = 1 then one else many)
         in [number n @ '' '' @ noun]))"

text \<open>\<^verbatim>\<open>bookFacts\<close> and \<^verbatim>\<open>fragmentFacts\<close> differ in what they count only.\<close>

definition switched_facts :: "element \<Rightarrow> nat \<Rightarrow> nat \<Rightarrow> string list" where
  "switched_facts e held on =
     (let fs = item_facts e held in
      if fs = [] then []
      else if on = held then fs
      else fs @ [number on @ '' switched on''])"

definition book_facts :: "element \<Rightarrow> entry list \<Rightarrow> string list" where
  "book_facts e es = switched_facts e (length es) (length (filter entry_enabled es))"

definition fragment_facts :: "element \<Rightarrow> prompt_fragment list \<Rightarrow> string list" where
  "fragment_facts e fs = switched_facts e (length fs) (length (filter frag_enabled fs))"

definition setting_facts :: "element \<Rightarrow> setting list \<Rightarrow> string list" where
  "setting_facts e ss = item_facts e (supplied ss)"

definition element_facts :: "element \<Rightarrow> string list" where
  "element_facts e =
     (case el_content e of
        None \<Rightarrow> []
      | Some (EntryTable es) \<Rightarrow> book_facts e es
      | Some (PromptList gs fs) \<Rightarrow> fragment_facts e fs
      | Some (SettingGroup ss) \<Rightarrow> setting_facts e ss
      | Some (VariableSchema vs) \<Rightarrow> item_facts e (length vs)
      | Some (ScriptList ss) \<Rightarrow> item_facts e (length ss)
      | Some (ImageSet is) \<Rightarrow> item_facts e (length is)
      | Some (TextSet ts) \<Rightarrow> item_facts e (length ts)
      | Some (DialogueSample ts) \<Rightarrow> item_facts e (length ts)
      | Some (FieldList fs) \<Rightarrow> item_facts e (length fs)
      | Some (LinkList ls) \<Rightarrow> item_facts e (length ls)
      | Some (ColorSet ms) \<Rightarrow> item_facts e (sum_list (map (\<lambda>m. length (mode_colors m)) ms))
      | Some (StylesheetSet g ss as) \<Rightarrow>
          item_facts e ((if g \<noteq> [] then 1 else 0) + length ss)
      | Some (RecordList sc rs) \<Rightarrow> item_facts e (length rs)
      | Some (Prose t) \<Rightarrow> [])"

section \<open>What the floor decides\<close>

definition held_by :: "role \<Rightarrow> block list \<Rightarrow> (uuid \<times> element) list" where
  "held_by r bs =
     filter (\<lambda>(h, e). el_role e = r)
       (concat (map (\<lambda>b. map (\<lambda>e. (blk_id b, e)) (blk_elements b)) bs))"

definition floor_answer :: "requirement \<Rightarrow> block list \<Rightarrow> check_result" where
  "floor_answer r bs =
     (let held = held_by (req_role r) bs in
      \<lparr>chk_requirement = r, chk_met = list_ex (\<lambda>(h, e). written e) held,
       chk_block =
         (case find (\<lambda>(h, e). written e) held of
            Some (h, e) \<Rightarrow> Some h
          | None \<Rightarrow> (case held of [] \<Rightarrow> None | (h, e) # _ \<Rightarrow> Some h))\<rparr>)"

lemma check_floor_pairs:
  "fold check_floor_block bs c =
     fold (\<lambda>(h, e). check_floor_element h e)
       (concat (map (\<lambda>b. map (\<lambda>e. (blk_id b, e)) (blk_elements b)) bs)) c"
  by (induction bs arbitrary: c) (simp_all add: check_floor_block_def fold_map comp_def)

lemma check_floor_filter:
  "req_role (chk_requirement c) = r \<Longrightarrow>
     fold (\<lambda>(h, e). check_floor_element h e) ps c =
     fold (\<lambda>(h, e). check_floor_element h e) (filter (\<lambda>(h, e). el_role e = r) ps) c"
proof (induction ps arbitrary: c)
  case Nil
  then show ?case by simp
next
  case (Cons p ps)
  obtain h e where p: "p = (h, e)" by (cases p)
  have "req_role (chk_requirement (check_floor_element h e c)) = r"
    using Cons.prems by (simp add: check_floor_element_def Let_def)
  with Cons show ?case
    by (cases "el_role e = r") (simp_all add: p check_floor_element_def)
qed

lemma check_floor_run:
  assumes "\<forall>(h, e) \<in> set ps. el_role e = req_role r" and "met \<longrightarrow> b \<noteq> None"
  shows "fold (\<lambda>(h, e). check_floor_element h e) ps
      \<lparr>chk_requirement = r, chk_met = met, chk_block = b\<rparr> =
    \<lparr>chk_requirement = r, chk_met = met \<or> list_ex (\<lambda>(h, e). written e) ps,
     chk_block =
       (if met then b
        else case find (\<lambda>(h, e). written e) ps of
               Some (h, e) \<Rightarrow> Some h
             | None \<Rightarrow> (if b = None then (case ps of [] \<Rightarrow> None | (h, e) # _ \<Rightarrow> Some h) else b))\<rparr>"
  using assms
proof (induction ps arbitrary: met b)
  case Nil
  then show ?case by simp
next
  case (Cons p ps)
  obtain h e where p: "p = (h, e)" by (cases p)
  show ?case
    using Cons.prems Cons.IH [of "met \<or> written e" "if b = None \<or> (written e \<and> \<not> met) then Some h else b"]
    by (cases "find (\<lambda>(h, e). written e) ps")
       (auto simp: p check_floor_element_def Let_def split: option.splits)
qed

text \<open>
  \<^verbatim>\<open>ContentFloor\<close> answers every requirement of the kind in order: it is met exactly when some
  element of its role has something written in it, and the block it points a creator to is
  the first one with written content of the role, else the first with an element of the
  role, else none.
\<close>

theorem content_floor_answers:
  "content_floor kind bs = map (\<lambda>r. floor_answer r bs) (floor_of kind)"
proof -
  have "fold check_floor_block bs \<lparr>chk_requirement = r, chk_met = False, chk_block = None\<rparr> =
      floor_answer r bs" for r
  proof -
    let ?ps = "concat (map (\<lambda>b. map (\<lambda>e. (blk_id b, e)) (blk_elements b)) bs)"
    let ?c = "\<lparr>chk_requirement = r, chk_met = False, chk_block = None\<rparr>"
    have "fold check_floor_block bs ?c =
        fold (\<lambda>(h, e). check_floor_element h e) (held_by (req_role r) bs) ?c"
      unfolding check_floor_pairs held_by_def by (rule check_floor_filter) simp
    moreover have "\<forall>(h, e) \<in> set (held_by (req_role r) bs). el_role e = req_role r"
      by (auto simp: held_by_def)
    ultimately show ?thesis
      by (simp add: check_floor_run floor_answer_def Let_def)
  qed
  then show ?thesis by (simp add: content_floor_def)
qed

text \<open>Every role the floor asks for is one the kind's own page pins an element for.\<close>

lemma required_roles_pinned:
  "catalog kind = Some ds \<Longrightarrow>
     list_all (\<lambda>r. list_ex (\<lambda>d. def_required d \<and>
        list_ex (\<lambda>e. de_role e = r \<and> de_pinned e) (def_elements d)) ds) (required_roles kind)"
  by (auto simp: catalog_def catalogs_def required_roles_def floor_of_def content_floors_def
      split: if_splits option.splits)
     (simp_all add: catalog_defs)

section \<open>What the facets decide\<close>

lemma facets_cases:
  assumes "f \<in> set (facets kind)"
  shows "f \<in> set (character_facets @ preset_facets @ pack_facets)"
  using assms by (auto simp: facets_def split: if_splits option.splits)

lemma facet_total_sum:
  "facet_total f es =
     sum_list (map (\<lambda>e. case el_content e of None \<Rightarrow> 0 | Some c \<Rightarrow> fct_measure f c)
       (filter (\<lambda>e. el_role e = fct_role f) es))"
proof -
  have "fold (\<lambda>e total. (if el_role e \<noteq> fct_role f then total
        else (case el_content e of None \<Rightarrow> total | Some c \<Rightarrow> total + fct_measure f c))) es n =
      n + sum_list (map (\<lambda>e. case el_content e of None \<Rightarrow> 0 | Some c \<Rightarrow> fct_measure f c)
       (filter (\<lambda>e. el_role e = fct_role f) es))" for n
    by (induction es arbitrary: n) (auto split: option.splits)
  from this [of 0] show ?thesis by (simp add: facet_total_def)
qed

text \<open>
  What a page is found under: the count \<^verbatim>\<open>MeasureFacets\<close> gives for a facet of the kind lies in the
  bucket of the value.
\<close>

definition found_under :: "string \<Rightarrow> element list \<Rightarrow> string \<Rightarrow> string \<Rightarrow> bool" where
  "found_under kind es key value \<longleftrightarrow>
     (case facet_by_key kind key of
        None \<Rightarrow> False
      | Some f \<Rightarrow>
          (case (facet_bucket f value, map_of (measure_facets kind es) (fct_key f)) of
             (Some b, Some n) \<Rightarrow> bucket_holds b (int n)
           | _ \<Rightarrow> False))"

lemma measured_total:
  assumes "f \<in> set (facets kind)"
  shows "map_of (measure_facets kind es) (fct_key f) = Some (facet_total f es)"
proof -
  have "distinct (map fct_key (facets kind))"
    by (auto simp: facets_def character_facets_def preset_facets_def pack_facets_def
        split: option.splits if_splits)
  then have "distinct (map fst (measure_facets kind es))" by (simp add: measure_facets_def comp_def)
  then show ?thesis using assms by (force simp: measure_facets_def intro: map_of_is_SomeI)
qed

lemma found_under_bucket:
  assumes "facet_by_key kind key = Some f"
  shows "found_under kind es key value \<longleftrightarrow>
    (\<exists>b. facet_bucket f value = Some b \<and> bucket_holds b (int (facet_total f es)))"
proof -
  have "f \<in> set (facets kind)"
    using assms by (auto simp: facet_by_key_def find_Some_iff)
  then show ?thesis
    using assms measured_total by (simp add: found_under_def split: option.split)
qed

lemma facet_total_positive:
  "0 < facet_total f es \<longleftrightarrow>
     (\<exists>e \<in> set es. el_role e = fct_role f \<and> (\<exists>c. el_content e = Some c \<and> 0 < fct_measure f c))"
  by (auto simp: facet_total_sum sum_list_eq_0_iff neq0_conv [symmetric] simp del: neq0_conv
      split: option.split_asm)

lemma present_found:
  assumes "facet_by_key kind key = Some f" "fct_buckets f = presence"
    and "\<And>c. 0 < fct_measure f c \<longleftrightarrow> full c"
  shows "found_under kind es key ''true'' \<longleftrightarrow>
      (\<exists>e \<in> set es. el_role e = fct_role f \<and> (\<exists>c. el_content e = Some c \<and> full c))"
    and "found_under kind es key ''false'' \<longleftrightarrow> \<not> found_under kind es key ''true''"
proof -
  have holds: "found_under kind es key ''true'' \<longleftrightarrow> 0 < facet_total f es"
    "found_under kind es key ''false'' \<longleftrightarrow> facet_total f es = 0"
    using assms(2)
    by (auto simp: found_under_bucket [OF assms(1)] facet_bucket_def presence_def bucket_holds_def no_ceiling_def)
  then show "found_under kind es key ''true'' \<longleftrightarrow>
      (\<exists>e \<in> set es. el_role e = fct_role f \<and> (\<exists>c. el_content e = Some c \<and> full c))"
    using facet_total_positive assms(3) by simp
  show "found_under kind es key ''false'' \<longleftrightarrow> \<not> found_under kind es key ''true''" using holds by simp
qed

lemma facet_total_only:
  assumes "filter (\<lambda>e. el_role e = fct_role f) es = [e]" "el_content e = Some c"
  shows "facet_total f es = fct_measure f c"
  using assms by (simp add: facet_total_sum)

text \<open>A list of content that has something in it, and the greetings that are written.\<close>

definition listed :: "('a list \<Rightarrow> content) \<Rightarrow> role \<Rightarrow> element list \<Rightarrow> bool" where
  "listed wrap r es \<longleftrightarrow>
     (\<exists>e \<in> set es. el_role e = r \<and> (\<exists>x xs. el_content e = Some (wrap (x # xs))))"

definition written_texts :: "text_item list \<Rightarrow> nat" where
  "written_texts ts = length (filter (\<lambda>i. text_text i \<noteq> []) ts)"

lemmas facet_lists = facet_by_key_def facets_def character_facets_def preset_facets_def pack_facets_def

lemma character_found:
  "found_under ''character'' es ''lorebook'' ''true'' \<longleftrightarrow> listed EntryTable RoleLorebookEntries es"
  "found_under ''character'' es ''expressions'' ''true'' \<longleftrightarrow> listed ImageSet RoleExpressions es"
  "found_under ''character'' es ''gallery'' ''true'' \<longleftrightarrow> listed ImageSet RoleGallery es"
proof -
  have entries: "0 < count_entries c \<longleftrightarrow> (\<exists>x xs. c = EntryTable (x # xs))"
    and images: "0 < count_images c \<longleftrightarrow> (\<exists>x xs. c = ImageSet (x # xs))" for c
    by (auto simp: count_entries_def count_images_def neq_Nil_conv split: content.split)
  show "found_under ''character'' es ''lorebook'' ''true'' \<longleftrightarrow> listed EntryTable RoleLorebookEntries es"
    unfolding listed_def
    by (subst present_found(1) [where full = "\<lambda>c. \<exists>x xs. c = EntryTable (x # xs)"])
      (auto simp: facet_lists entries)
  show "found_under ''character'' es ''expressions'' ''true'' \<longleftrightarrow> listed ImageSet RoleExpressions es"
    unfolding listed_def
    by (subst present_found(1) [where full = "\<lambda>c. \<exists>x xs. c = ImageSet (x # xs)"])
      (auto simp: facet_lists images)
  show "found_under ''character'' es ''gallery'' ''true'' \<longleftrightarrow> listed ImageSet RoleGallery es"
    unfolding listed_def
    by (subst present_found(1) [where full = "\<lambda>c. \<exists>x xs. c = ImageSet (x # xs)"])
      (auto simp: facet_lists images)
qed

lemma preset_found:
  "found_under ''preset'' es ''variables'' ''true'' \<longleftrightarrow> listed VariableSchema RolePromptVariables es"
  "found_under ''preset'' es ''regex_scripts'' ''true'' \<longleftrightarrow> listed ScriptList RoleRegexScripts es"
proof -
  have variables: "0 < count_variables c \<longleftrightarrow> (\<exists>x xs. c = VariableSchema (x # xs))"
    and scripts: "0 < count_scripts c \<longleftrightarrow> (\<exists>x xs. c = ScriptList (x # xs))" for c
    by (auto simp: count_variables_def count_scripts_def neq_Nil_conv split: content.split)
  show "found_under ''preset'' es ''variables'' ''true'' \<longleftrightarrow> listed VariableSchema RolePromptVariables es"
    unfolding listed_def
    by (subst present_found(1) [where full = "\<lambda>c. \<exists>x xs. c = VariableSchema (x # xs)"])
      (auto simp: facet_lists variables)
  show "found_under ''preset'' es ''regex_scripts'' ''true'' \<longleftrightarrow> listed ScriptList RoleRegexScripts es"
    unfolding listed_def
    by (subst present_found(1) [where full = "\<lambda>c. \<exists>x xs. c = ScriptList (x # xs)"])
      (auto simp: facet_lists scripts)
qed

lemma absent_found:
  assumes "kind = ''character'' \<and> key \<in> {''lorebook'', ''expressions'', ''gallery''} \<or>
    kind = ''preset'' \<and> key \<in> {''variables'', ''regex_scripts''}"
  shows "found_under kind es key ''false'' \<longleftrightarrow> \<not> found_under kind es key ''true''"
proof -
  have "\<exists>f. facet_by_key kind key = Some f \<and> fct_buckets f = presence"
    using assms by (elim disjE conjE insertE emptyE) (simp_all add: facet_lists)
  then obtain f where f: "facet_by_key kind key = Some f" "fct_buckets f = presence" by (elim exE conjE)
  show ?thesis by (rule present_found(2) [OF f, where full = "\<lambda>c. 0 < fct_measure f c"]) simp
qed

lemma greetings_found:
  assumes "filter (\<lambda>e. el_role e = RoleGreetings) es = [e]" "el_content e = Some (TextSet ts)"
  shows "found_under ''character'' es ''alternate_greetings'' ''1'' \<longleftrightarrow> written_texts ts = 2"
    and "found_under ''character'' es ''alternate_greetings'' ''2-4'' \<longleftrightarrow>
      3 \<le> written_texts ts \<and> written_texts ts \<le> 5"
    and "found_under ''character'' es ''alternate_greetings'' ''5-up'' \<longleftrightarrow> 6 \<le> written_texts ts"
proof -
  obtain f where f: "facet_by_key ''character'' ''alternate_greetings'' = Some f"
    "fct_role f = RoleGreetings" "fct_measure f = count_alternate_greetings"
    "facet_bucket f ''1'' = Some \<lparr>bkt_value = ''1'', bkt_label = ''1'', bkt_min = 1, bkt_max = 1\<rparr>"
    "facet_bucket f ''2-4'' = Some \<lparr>bkt_value = ''2-4'', bkt_label = ''2 to 4'', bkt_min = 2, bkt_max = 4\<rparr>"
    "facet_bucket f ''5-up'' =
       Some \<lparr>bkt_value = ''5-up'', bkt_label = ''5 or more'', bkt_min = 5, bkt_max = no_ceiling\<rparr>"
    by (simp add: facet_lists facet_bucket_def)
  have "facet_total f es = written_texts ts - 1"
    using facet_total_only [of f es e "TextSet ts"] assms
    by (simp add: f(2,3) count_alternate_greetings_def written_texts_def)
  then show "found_under ''character'' es ''alternate_greetings'' ''1'' \<longleftrightarrow> written_texts ts = 2"
    "found_under ''character'' es ''alternate_greetings'' ''2-4'' \<longleftrightarrow>
      3 \<le> written_texts ts \<and> written_texts ts \<le> 5"
    "found_under ''character'' es ''alternate_greetings'' ''5-up'' \<longleftrightarrow> 6 \<le> written_texts ts"
    by (auto simp: found_under_bucket [OF f(1)] f(4-6) bucket_holds_def no_ceiling_def)
qed

lemma items_found:
  assumes "filter (\<lambda>e. el_role e = RolePackItems) es = [e]" "el_content e = Some (RecordList sc rs)"
  shows "found_under ''pack'' es ''items'' ''1'' \<longleftrightarrow> length rs = 1"
    and "found_under ''pack'' es ''items'' ''2-9'' \<longleftrightarrow> 2 \<le> length rs \<and> length rs \<le> 9"
    and "found_under ''pack'' es ''items'' ''10-up'' \<longleftrightarrow> 10 \<le> length rs"
proof -
  obtain f where f: "facet_by_key ''pack'' ''items'' = Some f"
    "fct_role f = RolePackItems" "fct_measure f = count_records"
    "facet_bucket f ''1'' = Some \<lparr>bkt_value = ''1'', bkt_label = ''1 item'', bkt_min = 1, bkt_max = 1\<rparr>"
    "facet_bucket f ''2-9'' = Some \<lparr>bkt_value = ''2-9'', bkt_label = ''2 to 9'', bkt_min = 2, bkt_max = 9\<rparr>"
    "facet_bucket f ''10-up'' =
       Some \<lparr>bkt_value = ''10-up'', bkt_label = ''10 or more'', bkt_min = 10, bkt_max = no_ceiling\<rparr>"
    by (simp add: facet_lists facet_bucket_def)
  have total: "facet_total f es = length rs"
    using facet_total_only [of f es e "RecordList sc rs"] assms by (simp add: f(2,3) count_records_def)
  have "found_under ''pack'' es ''items'' ''1'' \<longleftrightarrow> 1 \<le> length rs \<and> length rs \<le> 1"
    by (auto simp: found_under_bucket [OF f(1)] f(4-6) bucket_holds_def no_ceiling_def total Suc_le_eq)
  then show "found_under ''pack'' es ''items'' ''1'' \<longleftrightarrow> length rs = 1" by linarith
  show "found_under ''pack'' es ''items'' ''2-9'' \<longleftrightarrow> 2 \<le> length rs \<and> length rs \<le> 9"
    "found_under ''pack'' es ''items'' ''10-up'' \<longleftrightarrow> 10 \<le> length rs"
    by (auto simp: found_under_bucket [OF f(1)] f(4-6) bucket_holds_def no_ceiling_def total)
qed

text \<open>
  C9. What a page is found under is what is on it. A character is found under a lorebook exactly
  when an element of that role holds an entry table with an entry in it, and under expressions and
  a gallery when one of that role holds an image; a preset under variables and regex scripts when
  one of that role holds a variable, a script; and under the want of one exactly when it is not
  found under having it. A character with one greetings element is found under 1, 2 to 4 or 5 and
  more alternates when that many greetings beside the first are written in it, and a pack with one
  list of items under 1, 2 to 9 or 10 and more when the list is that long.
\<close>

theorem facets_measure:
  "(found_under ''character'' es ''lorebook'' ''true'' \<longleftrightarrow> listed EntryTable RoleLorebookEntries es) \<and>
   (found_under ''character'' es ''expressions'' ''true'' \<longleftrightarrow> listed ImageSet RoleExpressions es) \<and>
   (found_under ''character'' es ''gallery'' ''true'' \<longleftrightarrow> listed ImageSet RoleGallery es) \<and>
   (found_under ''preset'' es ''variables'' ''true'' \<longleftrightarrow> listed VariableSchema RolePromptVariables es) \<and>
   (found_under ''preset'' es ''regex_scripts'' ''true'' \<longleftrightarrow> listed ScriptList RoleRegexScripts es) \<and>
   (\<forall>key \<in> {''lorebook'', ''expressions'', ''gallery''}.
      found_under ''character'' es key ''false'' \<longleftrightarrow> \<not> found_under ''character'' es key ''true'') \<and>
   (\<forall>key \<in> {''variables'', ''regex_scripts''}.
      found_under ''preset'' es key ''false'' \<longleftrightarrow> \<not> found_under ''preset'' es key ''true'') \<and>
   (\<forall>e ts. filter (\<lambda>e. el_role e = RoleGreetings) es = [e] \<and> el_content e = Some (TextSet ts) \<longrightarrow>
      (found_under ''character'' es ''alternate_greetings'' ''1'' \<longleftrightarrow> written_texts ts = 2) \<and>
      (found_under ''character'' es ''alternate_greetings'' ''2-4'' \<longleftrightarrow>
         3 \<le> written_texts ts \<and> written_texts ts \<le> 5) \<and>
      (found_under ''character'' es ''alternate_greetings'' ''5-up'' \<longleftrightarrow> 6 \<le> written_texts ts)) \<and>
   (\<forall>e sc rs. filter (\<lambda>e. el_role e = RolePackItems) es = [e] \<and> el_content e = Some (RecordList sc rs) \<longrightarrow>
      (found_under ''pack'' es ''items'' ''1'' \<longleftrightarrow> length rs = 1) \<and>
      (found_under ''pack'' es ''items'' ''2-9'' \<longleftrightarrow> 2 \<le> length rs \<and> length rs \<le> 9) \<and>
      (found_under ''pack'' es ''items'' ''10-up'' \<longleftrightarrow> 10 \<le> length rs))"
  using character_found preset_found absent_found greetings_found items_found by auto

section \<open>How a count is written\<close>

text \<open>
  What a reader sees: groups of three digits from the right, a comma between them.
\<close>

fun grouped :: "nat \<Rightarrow> string" where
  "grouped n =
     (if n < 1000 then decimal n
      else grouped (n div 1000) @ '','' @
        [digit (n div 100 mod 10), digit (n div 10 mod 10), digit (n mod 10)])"

declare grouped.simps [simp del]

lemma decimal_step: "n \<ge> 10 \<Longrightarrow> decimal n = decimal (n div 10) @ [digit (n mod 10)]"
  by (subst decimal.simps) simp

lemma decimal_small: "n < 10 \<Longrightarrow> decimal n = [digit n]"
  by (subst decimal.simps) simp

lemma decimal_thousand:
  assumes "n \<ge> 1000"
  shows "decimal n =
    decimal (n div 1000) @ [digit (n div 100 mod 10), digit (n div 10 mod 10), digit (n mod 10)]"
proof -
  have "n div 10 \<ge> 10" "n div 100 \<ge> 10" using assms by auto
  then have "decimal n = decimal (n div 10 div 10 div 10) @ [digit (n div 10 div 10 mod 10)] @
      [digit (n div 10 mod 10)] @ [digit (n mod 10)]"
    using assms decimal_step [of n] decimal_step [of "n div 10"] decimal_step [of "n div 10 div 10"]
    by (simp add: div_mult2_eq [symmetric])
  then show ?thesis by (simp add: div_mult2_eq [symmetric])
qed

lemma length_decimal_small: "n < 1000 \<Longrightarrow> length (decimal n) \<le> 3"
proof -
  assume n: "n < 1000"
  consider "n < 10" | "10 \<le> n" "n div 10 < 10" | "10 \<le> n" "10 \<le> n div 10" by linarith
  then show ?thesis
  proof cases
    case 3
    have "n div 10 div 10 < 10" using n by simp
    then have "length (decimal (n div 10 div 10)) = 1" by (simp add: decimal_small)
    then show ?thesis by (simp only: decimal_step [OF 3(1)] decimal_step [OF 3(2)]) simp
  qed (simp_all only: decimal_step [of n] decimal_small, simp_all)
qed

lemma number_from_append:
  "c \<le> length ds \<Longrightarrow> number_from c (ds @ rest) = number_from c ds @ rest"
proof (induction c ds rule: number_from.induct)
  case (1 c ds)
  show ?case
  proof (cases "c \<le> 3")
    case True
    then show ?thesis by (simp add: number_from.simps)
  next
    case False
    have "number_from (c - 3) ((take (c - 3) ds @ '','' @ drop (c - 3) ds) @ rest) =
        number_from (c - 3) (take (c - 3) ds @ '','' @ drop (c - 3) ds) @ rest"
      using "1.IH" [OF False] "1.prems" by simp
    then show ?thesis
      using False "1.prems"
      by (simp add: number_from.simps [of c "ds @ rest"] number_from.simps [of c ds])
  qed
qed

text \<open>
  \<^verbatim>\<open>number\<close> writes every count in groups of three digits with commas between them, and
  what it writes is the plain decimal count once the commas are taken out.
\<close>

theorem number_groups:
  "number n = grouped n \<and> filter (\<lambda>c. c \<noteq> CHR '','') (number n) = decimal n"
proof
  show number: "number n = grouped n"
  proof (induction n rule: less_induct)
    case (less n)
    show ?case
    proof (cases "n < 1000")
      case True
      then have "number n = decimal n"
        using length_decimal_small [OF True] by (simp add: number_def number_from.simps)
      with True show ?thesis by (simp add: grouped.simps)
    next
      case False
      let ?d = "decimal (n div 1000)"
      let ?t = "[digit (n div 100 mod 10), digit (n div 10 mod 10), digit (n mod 10)]"
      have d: "decimal n = ?d @ ?t" using decimal_thousand False by simp
      have "number n = number_from (length ?d) (?d @ '','' @ ?t)"
      proof -
        have "0 < length ?d" by simp
        then show ?thesis
          unfolding number_def d by (subst number_from.simps) simp
      qed
      also have "\<dots> = number (n div 1000) @ '','' @ ?t"
        by (simp add: number_from_append number_def)
      also have "\<dots> = grouped n"
        using less [of "n div 1000"] False by (simp add: grouped.simps [of n])
      finally show ?thesis .
    qed
  qed
  have digit: "digit m \<noteq> CHR '',''" if "m < 10" for m
  proof
    assume "digit m = CHR '',''"
    then have "of_char (digit m) = (of_char (CHR '','') :: nat)" by (rule arg_cong)
    with that show False by (simp add: digit_def of_char_of)
  qed
  have plain: "filter (\<lambda>c. c \<noteq> CHR '','') (decimal m) = decimal m" for m
  proof (induction m rule: decimal.induct)
    case (1 m)
    then show ?case
      by (cases "m < 10") (simp_all add: decimal_small decimal_step [of m] digit)
  qed
  have "filter (\<lambda>c. c \<noteq> CHR '','') (grouped n) = decimal n"
  proof (induction n rule: grouped.induct)
    case (1 n)
    then show ?case
      by (cases "n < 1000") (simp_all add: grouped.simps [of n] plain decimal_thousand [of n] digit)
  qed
  with number show "filter (\<lambda>c. c \<noteq> CHR '','') (number n) = decimal n" by simp
qed

definition greetings_of :: "string list \<Rightarrow> element" where
  "greetings_of ts =
     \<lparr>el_id = 4, el_type = TypeTextSet, el_role = RoleGreetings, el_slot = NoSlot,
      el_options = no_options,
      el_content = Some (TextSet (map (\<lambda>t. \<lparr>text_id = 1, text_name = [], text_text = t\<rparr>) ts))\<rparr>"

theorem facets_measure_witness:
  "found_under ''character'' [sample_book, greetings_of [''a'', [], ''b'']] ''alternate_greetings'' ''1'' \<and>
   found_under ''character'' [sample_book, greetings_of [''a'', [], ''b'']] ''lorebook'' ''false''"
proof -
  let ?es = "[sample_book, greetings_of [''a'', [], ''b'']]"
  have one: "filter (\<lambda>e. el_role e = RoleGreetings) ?es = [greetings_of [''a'', [], ''b'']] \<and>
      el_content (greetings_of [''a'', [], ''b'']) =
        Some (TextSet (map (\<lambda>t. \<lparr>text_id = 1, text_name = [], text_text = t\<rparr>) [''a'', [], ''b'']))"
    by (simp add: sample_book_def greetings_of_def)
  have "\<not> listed EntryTable RoleLorebookEntries ?es"
    by (simp add: listed_def sample_book_def greetings_of_def)
  then show ?thesis
    using facets_measure [of ?es] one by (force simp: written_texts_def)
qed

end
