(* ===== verification/Protected.thy ===== *)
theory Protected
  imports Validation "HOL-Library.AList"
begin

text \<open>
  Sealed prompts (\<^verbatim>\<open>protected/prompt.go\<close>): the text of a protected prompt fragment is split from
  the page that everybody reads and kept in a store of its own, together with the apps it may
  be delivered to. \<^verbatim>\<open>SyncPromptFragments\<close> seals a page when it is saved,
  \<^verbatim>\<open>RestorePromptFragments\<close> puts the text back for its owner and for a delivery, and
  \<^verbatim>\<open>ImportPromptFragments\<close> takes the texts a file brought with it.

  The state is what two tables hold for one asset, \<^verbatim>\<open>protected_content\<close> by the fragment's
  identifier and \<^verbatim>\<open>protected_delivery_apps\<close>. A store is \<open>policy_kept\<close> when it meets the
  database's deferred constraint that either both have a row or neither has.
\<close>

section \<open>The store\<close>

record sealed_row =
  row_text :: string
  row_key :: "string option"
  row_digest :: string

record protected_store =
  payloads :: "(uuid \<times> sealed_row) list"
  apps :: "string list"

record prompt_value =
  pv_text :: string
  pv_key :: string
  pv_replace_key :: bool

record protected_prompt =
  pp_fragment :: uuid
  pp_text :: string
  pp_source_key :: string
  pp_reuse :: bool

datatype protected_error =
    MarkerSealed
  | PolicyRequired
  | NotAllowedApp string
  | NoPayload uuid
  | MetadataMismatch
  | UnknownFragment
  | NeedsSourceKey
  | NeedsOneValue string

definition app_lumiverse :: string where
  "app_lumiverse = ''lumiverse''"

definition app_targets :: "string \<Rightarrow> string \<Rightarrow> string list" where
  "app_targets kind app =
     (if kind = ''preset'' \<and> app = app_lumiverse then [''preset_lumiverse''] else [])"

definition eligible_apps :: "string \<Rightarrow> string list \<Rightarrow> string list" where
  "eligible_apps kind offered =
     filter (\<lambda>app. list_ex (\<lambda>target. list_ex (\<lambda>candidate. candidate = target) offered)
                     (app_targets kind app)) [app_lumiverse]"

definition prompts_of :: "element \<Rightarrow> prompt_fragment list" where
  "prompts_of e = (case el_content e of Some (PromptList gs fs) \<Rightarrow> fs | _ \<Rightarrow> [])"

definition has_prompt_fragments :: "block list \<Rightarrow> bool" where
  "has_prompt_fragments bs \<longleftrightarrow>
     list_ex (\<lambda>b. list_ex (\<lambda>e. list_ex frag_protected (prompts_of e)) (blk_elements b)) bs"

section \<open>Splitting and joining\<close>

text \<open>
  The code walks blocks, elements and fragments and writes each fragment in place. \<open>on_prompts\<close>
  is that walk: a body that rewrites one fragment and carries a state, and may refuse.
\<close>

definition on_element ::
  "(prompt_fragment \<Rightarrow> 's \<Rightarrow> 'e + prompt_fragment \<times> 's) \<Rightarrow> element \<Rightarrow> 's \<Rightarrow> 'e + element \<times> 's"
  where
  "on_element f e s =
     (case el_content e of
        Some (PromptList gs fs) \<Rightarrow>
          (case collect (\<lambda>i. f) fs s of
             Inl err \<Rightarrow> Inl err
           | Inr (fs', s') \<Rightarrow> Inr (e\<lparr>el_content := Some (PromptList gs fs')\<rparr>, s'))
      | _ \<Rightarrow> Inr (e, s))"

definition on_block ::
  "(prompt_fragment \<Rightarrow> 's \<Rightarrow> 'e + prompt_fragment \<times> 's) \<Rightarrow> block \<Rightarrow> 's \<Rightarrow> 'e + block \<times> 's"
  where
  "on_block f b s =
     (case collect (\<lambda>i. on_element f) (blk_elements b) s of
        Inl err \<Rightarrow> Inl err
      | Inr (es, s') \<Rightarrow> Inr (b\<lparr>blk_elements := es\<rparr>, s'))"

definition on_prompts ::
  "(prompt_fragment \<Rightarrow> 's \<Rightarrow> 'e + prompt_fragment \<times> 's) \<Rightarrow> block list \<Rightarrow> 's \<Rightarrow>
     'e + block list \<times> 's" where
  "on_prompts f bs s = collect (\<lambda>i. on_block f) bs s"

text \<open>
  Sealing one fragment: its text goes to the front of the list of sealed values, where it hides
  an earlier value of the same identifier as the assignment to the map does.
\<close>

definition seal_fragment ::
  "prompt_fragment \<Rightarrow> (uuid \<times> prompt_value) list \<Rightarrow>
     protected_error + prompt_fragment \<times> (uuid \<times> prompt_value) list" where
  "seal_fragment f sealed =
     (if \<not> frag_protected f then Inr (f, sealed)
      else if frag_marker f \<noteq> [] then Inl MarkerSealed
      else Inr (f\<lparr>frag_text := []\<rparr>,
                (frag_id f, \<lparr>pv_text = frag_text f, pv_key = [], pv_replace_key = False\<rparr>) # sealed))"

definition restore_fragment ::
  "protected_store \<Rightarrow> prompt_fragment \<Rightarrow> unit \<Rightarrow> protected_error + prompt_fragment \<times> unit" where
  "restore_fragment st f u =
     (if \<not> frag_protected f then Inr (f, ())
      else (case map_of (payloads st) (frag_id f) of
              None \<Rightarrow> Inl (NoPayload (frag_id f))
            | Some row \<Rightarrow> Inr (f\<lparr>frag_text := row_text row\<rparr>, ())))"

definition restore_prompt_fragments ::
  "protected_store \<Rightarrow> block list \<Rightarrow> protected_error + block list" where
  "restore_prompt_fragments st bs =
     (case on_prompts (restore_fragment st) bs () of
        Inl err \<Rightarrow> Inl err
      | Inr (bs', _) \<Rightarrow> Inr bs')"

section \<open>Writing the store\<close>

text \<open>
  \<^verbatim>\<open>policy\<close>: the apps a save asks for, each known and named once, or the apps the store has.
\<close>

definition check_app ::
  "nat \<Rightarrow> string \<Rightarrow> string list \<Rightarrow> protected_error + string list" where
  "check_app i app seen =
     (if app_targets ''preset'' app = [] \<or> app \<in> set seen then Inl (NotAllowedApp app)
      else Inr (seen @ [app]))"

definition policy ::
  "protected_store \<Rightarrow> string list option \<Rightarrow> protected_error + string list" where
  "policy st requested =
     (case requested of
        Some as \<Rightarrow> each check_app as []
      | None \<Rightarrow> Inr (apps st))"

text \<open>
  \<^verbatim>\<open>replacePromptPayloads\<close> upserts a row for every value and deletes the rest. The rows of the
  store are kept one to an identifier; \<open>hash\<close> is SHA-256.
\<close>

definition put_row ::
  "(string \<Rightarrow> string) \<Rightarrow> (uuid \<times> sealed_row) list \<Rightarrow> uuid \<times> prompt_value \<Rightarrow> uuid \<times> sealed_row"
  where
  "put_row hash old = (\<lambda>(i, v).
     (i, \<lparr>row_text = pv_text v,
          row_key =
            (let key = (if pv_key v \<noteq> [] then Some (pv_key v) else None) in
             case map_of old i of
               None \<Rightarrow> key
             | Some row \<Rightarrow> if pv_replace_key v then key else row_key row),
          row_digest = hash (pv_text v)\<rparr>))"

definition replace_prompt_payloads ::
  "(string \<Rightarrow> string) \<Rightarrow> protected_store \<Rightarrow> (uuid \<times> prompt_value) list \<Rightarrow> protected_store" where
  "replace_prompt_payloads hash st values =
     st\<lparr>payloads := map (put_row hash (payloads st)) (AList.clearjunk values)\<rparr>"

definition sync_prompt_fragments ::
  "(string \<Rightarrow> string) \<Rightarrow> block list \<Rightarrow> string list option \<Rightarrow> protected_store \<Rightarrow>
     protected_error + block list \<times> protected_store" where
  "sync_prompt_fragments hash bs requested st =
     (case on_prompts seal_fragment bs [] of
        Inl err \<Rightarrow> Inl err
      | Inr (bs', sealed) \<Rightarrow>
          if sealed = [] then Inr (bs', st\<lparr>payloads := [], apps := []\<rparr>)
          else
            (case policy st requested of
               Inl err \<Rightarrow> Inl err
             | Inr as \<Rightarrow>
                 if as = [] then Inl PolicyRequired
                 else
                   (let st' = (if requested \<noteq> None then st\<lparr>apps := as\<rparr> else st)
                    in Inr (bs', replace_prompt_payloads hash st' sealed))))"

section \<open>Taking an import\<close>

definition blank_prompts :: "block list \<Rightarrow> uuid list" where
  "blank_prompts bs =
     map frag_id (filter (\<lambda>f. frag_protected f \<and> frag_text f = [])
       (concat (map prompts_of (page_elements bs))))"

text \<open>\<^verbatim>\<open>promptTextBySourceKey\<close>: the one text the store has under a key.\<close>

definition prompt_text_by_source_key ::
  "protected_store \<Rightarrow> string \<Rightarrow> protected_error + string" where
  "prompt_text_by_source_key st key =
     (case map row_text (filter (\<lambda>row. row_key row = Some key) (map snd (payloads st))) of
        [text] \<Rightarrow> Inr text
      | _ \<Rightarrow> Inl (NeedsOneValue key))"

definition import_one ::
  "protected_store \<Rightarrow> uuid list \<Rightarrow> nat \<Rightarrow> protected_prompt \<Rightarrow> (uuid \<times> prompt_value) list \<Rightarrow>
     protected_error + (uuid \<times> prompt_value) list" where
  "import_one st owners i p values =
     (if pp_fragment p \<notin> set owners then Inl UnknownFragment
      else if \<not> pp_reuse p then
        Inr ((pp_fragment p, \<lparr>pv_text = pp_text p, pv_key = pp_source_key p,
                              pv_replace_key = True\<rparr>) # values)
      else if pp_source_key p = [] then Inl NeedsSourceKey
      else
        (case prompt_text_by_source_key st (pp_source_key p) of
           Inl err \<Rightarrow> Inl err
         | Inr text \<Rightarrow>
             Inr ((pp_fragment p, \<lparr>pv_text = text, pv_key = pp_source_key p,
                                   pv_replace_key = True\<rparr>) # values)))"

definition import_policy ::
  "protected_store \<Rightarrow> string list \<Rightarrow> protected_error + protected_store" where
  "import_policy st initial =
     (if apps st \<noteq> [] then Inr st
      else
        (case policy st (Some initial) of
           Inl err \<Rightarrow> Inl err
         | Inr as \<Rightarrow> if as = [] then Inl PolicyRequired else Inr (st\<lparr>apps := as\<rparr>)))"

definition import_prompt_fragments ::
  "(string \<Rightarrow> string) \<Rightarrow> block list \<Rightarrow> protected_prompt list \<Rightarrow> string list \<Rightarrow> protected_store \<Rightarrow>
     protected_error + protected_store" where
  "import_prompt_fragments hash bs imports initial st =
     (let owners = remdups (blank_prompts bs) in
      if length owners \<noteq> length imports then Inl MetadataMismatch
      else
        (case import_policy st initial of
           Inl err \<Rightarrow> Inl err
         | Inr st' \<Rightarrow>
             (case each (import_one st' owners) imports [] of
                Inl err \<Rightarrow> Inl err
              | Inr values \<Rightarrow> Inr (replace_prompt_payloads hash st' values))))"

section \<open>The walk over a page\<close>

text \<open>A walk that refuses nothing rewrites every fragment of a page with one function.\<close>

definition map_element :: "(prompt_fragment \<Rightarrow> prompt_fragment) \<Rightarrow> element \<Rightarrow> element" where
  "map_element g e =
     (case el_content e of
        Some (PromptList gs fs) \<Rightarrow> e\<lparr>el_content := Some (PromptList gs (map g fs))\<rparr>
      | _ \<Rightarrow> e)"

definition map_block :: "(prompt_fragment \<Rightarrow> prompt_fragment) \<Rightarrow> block \<Rightarrow> block" where
  "map_block g b = b\<lparr>blk_elements := map (map_element g) (blk_elements b)\<rparr>"

definition page_prompts :: "block list \<Rightarrow> prompt_fragment list" where
  "page_prompts bs = concat (map prompts_of (page_elements bs))"

lemma page_prompts_simps [simp]:
  "page_prompts [] = []"
  "page_prompts (b # bs) = concat (map prompts_of (blk_elements b)) @ page_prompts bs"
  by (simp_all add: page_prompts_def)

lemma prompts_of_map_element [simp]: "prompts_of (map_element g e) = map g (prompts_of e)"
  by (auto simp: prompts_of_def map_element_def split: option.splits content.splits)

lemma page_prompts_map_block [simp]:
  "page_prompts (map (map_block g) bs) = map g (page_prompts bs)"
  by (induction bs) (simp_all add: map_block_def map_concat comp_def)

lemma map_element_comp: "map_element g (map_element h e) = map_element (g \<circ> h) e"
  by (auto simp: map_element_def split: option.splits content.splits)

lemma map_block_comp: "map_block g (map_block h b) = map_block (g \<circ> h) b"
  by (simp add: map_block_def map_element_comp)

lemma map_element_same: "(\<And>f. f \<in> set (prompts_of e) \<Longrightarrow> g f = f) \<Longrightarrow> map_element g e = e"
  by (auto simp: map_element_def prompts_of_def map_idI split: option.splits content.splits)

lemma map_block_same:
  "(\<And>f. f \<in> set (page_prompts bs) \<Longrightarrow> g f = f) \<Longrightarrow> map (map_block g) bs = bs"
proof (induction bs)
  case Nil
  then show ?case by simp
next
  case (Cons b bs)
  have "map (map_element g) (blk_elements b) = blk_elements b"
    by (rule map_idI) (rule map_element_same, use Cons.prems in auto)
  then show ?case using Cons by (simp add: map_block_def)
qed

lemma fold_concat_map: "fold (\<lambda>x. fold h (k x)) xs s = fold h (concat (map k xs)) s"
  by (induction xs arbitrary: s) simp_all

lemma page_prompts_element:
  "\<lbrakk>f \<in> set (prompts_of e); e \<in> set (blk_elements b); b \<in> set bs\<rbrakk> \<Longrightarrow> f \<in> set (page_prompts bs)"
  by (auto simp: page_prompts_def page_elements_def)

locale prompt_walk =
  fixes body :: "prompt_fragment \<Rightarrow> 's \<Rightarrow> 'e + prompt_fragment \<times> 's"
    and g :: "prompt_fragment \<Rightarrow> prompt_fragment"
    and h :: "prompt_fragment \<Rightarrow> 's \<Rightarrow> 's"
  assumes body: "body f s = Inr (f', s') \<Longrightarrow> f' = g f \<and> s' = h f s"
begin

lemma on_element:
  "on_element body e s = Inr (e', s') \<Longrightarrow>
     e' = map_element g e \<and> s' = fold h (prompts_of e) s"
  by (auto simp: on_element_def map_element_def prompts_of_def
      split: option.splits content.splits sum.splits dest!: collect_from_pure [OF _ body])

lemma on_block:
  assumes "on_block body b s = Inr (b', s')"
  shows "b' = map_block g b \<and> s' = fold h (concat (map prompts_of (blk_elements b))) s"
proof -
  obtain es where es: "collect (\<lambda>i. on_element body) (blk_elements b) s = Inr (es, s')"
    and b': "b' = b\<lparr>blk_elements := es\<rparr>"
    using assms by (auto simp: on_block_def split: sum.splits)
  from collect_from_pure [OF es on_element] b' show ?thesis
    by (simp add: map_block_def fold_concat_map)
qed

lemma on_prompts:
  assumes "on_prompts body bs s = Inr (bs', s')"
  shows "bs' = map (map_block g) bs \<and> s' = fold h (page_prompts bs) s"
proof -
  have "bs' = map (map_block g) bs \<and>
      s' = fold (\<lambda>b. fold h (concat (map prompts_of (blk_elements b)))) bs s"
    using assms unfolding on_prompts_def by (rule collect_from_pure) (rule on_block)
  moreover have "fold (\<lambda>b. fold h (concat (map prompts_of (blk_elements b)))) bs s =
      fold h (page_prompts bs) s"
    unfolding page_prompts_def page_elements_def
    by (induction bs arbitrary: s) simp_all
  ultimately show ?thesis by simp
qed

text \<open>A walk refuses only with what its body says of a fragment of the page.\<close>

lemma accepted:
  assumes "\<And>f s. f \<in> set (page_prompts bs) \<Longrightarrow> \<exists>r. body f s = Inr r"
  shows "on_prompts body bs s = Inr (map (map_block g) bs, fold h (page_prompts bs) s)"
proof -
  have "\<exists>r. on_prompts body bs s = Inr r"
    unfolding on_prompts_def
  proof (rule collect_from_total)
    fix j b t assume b: "b \<in> set bs"
    have "\<exists>r. collect (\<lambda>i. on_element body) (blk_elements b) t = Inr r"
    proof (rule collect_from_total)
      fix j e t assume e: "e \<in> set (blk_elements b)"
      have "\<exists>r. collect (\<lambda>i. body) (prompts_of e) t = Inr r"
        by (rule collect_from_total) (rule assms, rule page_prompts_element [OF _ e b])
      then show "\<exists>r. on_element body e t = Inr r"
        by (auto simp: on_element_def prompts_of_def split: option.splits content.splits)
    qed
    then show "\<exists>r. on_block body b t = Inr r" by (auto simp: on_block_def)
  qed
  then obtain r where "on_prompts body bs s = Inr r" ..
  then show ?thesis using on_prompts by (cases r) simp
qed

end

section \<open>Sealing and restoring as walks\<close>

definition blank_text :: "prompt_fragment \<Rightarrow> prompt_fragment" where
  "blank_text f = (if frag_protected f then f\<lparr>frag_text := []\<rparr> else f)"

definition note_sealed ::
  "prompt_fragment \<Rightarrow> (uuid \<times> prompt_value) list \<Rightarrow> (uuid \<times> prompt_value) list" where
  "note_sealed f sealed =
     (if frag_protected f
      then (frag_id f, \<lparr>pv_text = frag_text f, pv_key = [], pv_replace_key = False\<rparr>) # sealed
      else sealed)"

definition stored_text :: "protected_store \<Rightarrow> uuid \<Rightarrow> string" where
  "stored_text st i = (case map_of (payloads st) i of None \<Rightarrow> [] | Some row \<Rightarrow> row_text row)"

definition with_text :: "protected_store \<Rightarrow> prompt_fragment \<Rightarrow> prompt_fragment" where
  "with_text st f =
     (if frag_protected f then f\<lparr>frag_text := stored_text st (frag_id f)\<rparr> else f)"

interpretation seal: prompt_walk seal_fragment blank_text note_sealed
  by unfold_locales (auto simp: seal_fragment_def blank_text_def note_sealed_def split: if_splits)

interpretation restore: prompt_walk "restore_fragment st" "with_text st" "\<lambda>f u. u" for st
  by unfold_locales
    (auto simp: restore_fragment_def with_text_def stored_text_def split: if_splits option.splits)

lemma restore_iff:
  "restore_prompt_fragments st bs = Inr bs' \<longleftrightarrow>
     bs' = map (map_block (with_text st)) bs \<and>
     (\<forall>f \<in> set (page_prompts bs). frag_protected f \<longrightarrow> map_of (payloads st) (frag_id f) \<noteq> None)"
proof (cases "\<forall>f \<in> set (page_prompts bs). frag_protected f \<longrightarrow> map_of (payloads st) (frag_id f) \<noteq> None")
  case True
  have "on_prompts (restore_fragment st) bs () =
      Inr (map (map_block (with_text st)) bs, fold (\<lambda>f u. u) (page_prompts bs) ())"
    by (rule restore.accepted) (use True in \<open>auto simp: restore_fragment_def split: option.splits\<close>)
  with True show ?thesis by (auto simp: restore_prompt_fragments_def)
next
  case False
  have "\<not> (\<exists>r. on_prompts (restore_fragment st) bs () = Inr r)"
  proof
    assume "\<exists>r. on_prompts (restore_fragment st) bs () = Inr r"
    then obtain bs' u where run: "on_prompts (restore_fragment st) bs () = Inr (bs', u)" by auto
    have elements: "\<And>b j t b' t'. on_block (restore_fragment st) b t = Inr (b', t') \<Longrightarrow>
        \<forall>e \<in> set (blk_elements b). \<exists>t r. on_element (restore_fragment st) e t = Inr r"
      by (auto simp: on_block_def split: sum.splits dest!: collect_from_accepted)
    have "\<forall>b \<in> set bs. \<exists>t r. on_block (restore_fragment st) b t = Inr r"
      using run unfolding on_prompts_def by (auto dest!: collect_from_accepted)
    with elements have "\<forall>b \<in> set bs. \<forall>e \<in> set (blk_elements b).
        \<exists>t r. on_element (restore_fragment st) e t = Inr r" by fastforce
    moreover have "\<forall>f \<in> set (prompts_of e). \<exists>t r. restore_fragment st f t = Inr r"
      if "on_element (restore_fragment st) e t = Inr r" for e t r
      using that by (auto simp: on_element_def prompts_of_def
          split: option.splits content.splits sum.splits dest!: collect_from_accepted)
    ultimately have "\<forall>f \<in> set (page_prompts bs). \<exists>t r. restore_fragment st f t = Inr r"
      by (fastforce simp: page_prompts_def page_elements_def)
    with False show False
      by (auto simp: restore_fragment_def split: if_splits option.splits)
  qed
  then show ?thesis
    using False by (auto simp: restore_prompt_fragments_def split: sum.splits)
qed

lemma sealed_values:
  "fold note_sealed fs [] = rev (map (\<lambda>f. (frag_id f,
     \<lparr>pv_text = frag_text f, pv_key = [], pv_replace_key = False\<rparr>)) (filter frag_protected fs))"
proof -
  have "fold note_sealed fs acc = rev (map (\<lambda>f. (frag_id f,
     \<lparr>pv_text = frag_text f, pv_key = [], pv_replace_key = False\<rparr>)) (filter frag_protected fs)) @ acc"
    for acc
    by (induction fs arbitrary: acc) (simp_all add: note_sealed_def)
  from this [of "[]"] show ?thesis by simp
qed

lemma replaced_texts:
  "map_option row_text (map_of (payloads (replace_prompt_payloads hash st values)) i) =
   map_option pv_text (map_of values i)"
proof -
  have "map_option row_text (map_of (map (put_row hash old) vs) i) = map_option pv_text (map_of vs i)"
    for old vs
    by (induction vs) (auto simp: put_row_def)
  from this [of "payloads st" "AList.clearjunk values"] show ?thesis
    by (simp add: replace_prompt_payloads_def map_of_clearjunk)
qed

text \<open>What a successful sync is made of.\<close>

lemma sync_cases:
  assumes "sync_prompt_fragments hash bs requested st = Inr (bs', st')"
  obtains "bs' = map (map_block blank_text) bs" "\<not> has_prompt_fragments bs"
      "payloads st' = []" "apps st' = []"
    | as where "bs' = map (map_block blank_text) bs" "has_prompt_fragments bs"
      "policy st requested = Inr as" "as \<noteq> []" "apps st' = as"
      "\<And>i. map_option row_text (map_of (payloads st') i) =
        map_option pv_text (map_of (fold note_sealed (page_prompts bs) []) i)"
proof -
  obtain sealed where walk: "on_prompts seal_fragment bs [] = Inr (bs', sealed)"
    using assms by (auto simp: sync_prompt_fragments_def Let_def split: sum.splits if_splits)
  note facts = seal.on_prompts [OF walk]
  have has: "has_prompt_fragments bs \<longleftrightarrow> sealed \<noteq> []"
    using facts by (auto simp: sealed_values has_prompt_fragments_def page_prompts_def
        page_elements_def list_ex_iff filter_empty_conv)
  show ?thesis
  proof (cases "sealed = []")
    case True
    with assms walk facts has that(1) show ?thesis
      by (auto simp: sync_prompt_fragments_def)
  next
    case False
    with assms walk obtain as where as: "policy st requested = Inr as" "as \<noteq> []"
      "st' = replace_prompt_payloads hash (if requested \<noteq> None then st\<lparr>apps := as\<rparr> else st) sealed"
      by (auto simp: sync_prompt_fragments_def Let_def split: sum.splits if_splits)
    have "apps st' = as"
      using as(1,3) by (auto simp: replace_prompt_payloads_def policy_def split: option.splits)
    with that(2) facts has False as show ?thesis by (simp add: replaced_texts)
  qed
qed

section \<open>What sealing promises\<close>

lemma policy_requested:
  assumes "each_from i check_app as seen = Inr as'" and "distinct seen"
  shows "as' = seen @ as \<and> distinct as' \<and> (\<forall>a \<in> set as. app_targets ''preset'' a \<noteq> [])"
  using assms
proof (induction as arbitrary: i seen)
  case Nil
  then show ?case by simp
next
  case (Cons a as)
  from Cons.prems(1) obtain seen' where one: "check_app i a seen = Inr seen'"
    and rest: "each_from (Suc i) check_app as seen' = Inr as'"
    by (auto split: sum.splits)
  from one have "seen' = seen @ [a]" "a \<notin> set seen" "app_targets ''preset'' a \<noteq> []"
    by (auto simp: check_app_def split: if_splits)
  with Cons.IH [OF rest] Cons.prems(2) show ?case by auto
qed

lemma map_of_sealed:
  assumes "f \<in> set fs" and "frag_protected f"
  obtains f' where "f' \<in> set fs" "frag_protected f'" "frag_id f' = frag_id f"
    "map_of (fold note_sealed fs []) (frag_id f) =
       Some \<lparr>pv_text = frag_text f', pv_key = [], pv_replace_key = False\<rparr>"
proof -
  let ?vs = "fold note_sealed fs []"
  have "map_of ?vs (frag_id f) \<noteq> None"
    using assms by (simp add: map_of_eq_None_iff sealed_values) force
  then obtain v where v: "map_of ?vs (frag_id f) = Some v" by blast
  from map_of_SomeD [OF this] obtain f' where "f' \<in> set fs" "frag_protected f'"
    "frag_id f = frag_id f'" "v = \<lparr>pv_text = frag_text f', pv_key = [], pv_replace_key = False\<rparr>"
    by (auto simp: sealed_values)
  with v show ?thesis by (intro that [of f']) simp_all
qed

text \<open>What a store holds after a sync.\<close>

lemma sync_store:
  assumes "sync_prompt_fragments hash bs requested st = Inr (bs', st')"
  shows "(payloads st' = [] \<longleftrightarrow> \<not> has_prompt_fragments bs) \<and>
    (apps st' = [] \<longleftrightarrow> \<not> has_prompt_fragments bs) \<and>
    dom (map_of (payloads st')) = frag_id ` {f \<in> set (page_prompts bs). frag_protected f}"
  using assms
proof (rule sync_cases)
  assume none: "\<not> has_prompt_fragments bs" "payloads st' = []" "apps st' = []"
  then have "\<forall>f \<in> set (page_prompts bs). \<not> frag_protected f"
    by (auto simp: has_prompt_fragments_def page_prompts_def page_elements_def list_ex_iff)
  with none show ?thesis by auto
next
  fix as
  assume some: "has_prompt_fragments bs" "as \<noteq> []" "apps st' = as"
    "\<And>i. map_option row_text (map_of (payloads st') i) =
        map_option pv_text (map_of (fold note_sealed (page_prompts bs) []) i)"
  have "map_of (payloads st') i = None \<longleftrightarrow> map_of (fold note_sealed (page_prompts bs) []) i = None" for i
    using some(4) [of i] by (metis option.map_disc_iff)
  then have dom: "dom (map_of (payloads st')) = dom (map_of (fold note_sealed (page_prompts bs) []))"
    by (auto simp: dom_def)
  have ids: "dom (map_of (payloads st')) = frag_id ` {f \<in> set (page_prompts bs). frag_protected f}"
    unfolding dom by (auto simp: dom_map_of_conv_image_fst sealed_values image_image)
  moreover have "payloads st' \<noteq> []"
  proof
    assume "payloads st' = []"
    with ids have "{f \<in> set (page_prompts bs). frag_protected f} = {}" by simp
    with some(1) show False
      by (auto simp: has_prompt_fragments_def page_prompts_def page_elements_def list_ex_iff)
  qed
  ultimately show ?thesis using some(1-3) by simp
qed

text \<open>
  C7. After a save no sealed text is on the page: \<^verbatim>\<open>SyncPromptFragments\<close> leaves the page as it
  was but for the texts of its protected fragments, which are empty.
\<close>

theorem sync_hides_texts:
  assumes "sync_prompt_fragments hash bs requested st = Inr (bs', st')"
  shows "bs' = map (map_block blank_text) bs \<and>
    list_all (\<lambda>f. frag_protected f \<longrightarrow> frag_text f = []) (page_prompts bs')"
  using assms
  by (rule sync_cases) (auto simp: list_all_iff blank_text_def)

text \<open>
  After a save the store has a policy exactly when it has texts, as the database demands
  at commit, and it has both exactly when the page has a protected fragment. It holds the
  text of every protected fragment of the page and nothing else.
\<close>

theorem sync_keeps_policy:
  assumes "sync_prompt_fragments hash bs requested st = Inr (bs', st')"
  shows "(payloads st' = [] \<longleftrightarrow> \<not> has_prompt_fragments bs) \<and>
    (apps st' = [] \<longleftrightarrow> \<not> has_prompt_fragments bs) \<and>
    dom (map_of (payloads st')) = frag_id ` {f \<in> set (page_prompts bs). frag_protected f}"
  using assms by (rule sync_store)

text \<open>No two protected fragments of the page share an identifier and differ in their text.\<close>

definition texts_consistent :: "block list \<Rightarrow> bool" where
  "texts_consistent bs \<longleftrightarrow>
     list_all (\<lambda>f. list_all (\<lambda>f'. frag_protected f \<and> frag_protected f' \<and> frag_id f = frag_id f' \<longrightarrow>
       frag_text f = frag_text f') (page_prompts bs)) (page_prompts bs)"

lemma sealed_round_trip:
  assumes "sync_prompt_fragments hash bs requested st = Inr (bs', st')"
  shows "(\<exists>bs''. restore_prompt_fragments st' bs' = Inr bs'') \<and>
    (restore_prompt_fragments st' bs' = Inr bs \<longleftrightarrow> texts_consistent bs)"
  using assms
proof (rule sync_cases)
  assume none: "bs' = map (map_block blank_text) bs" "\<not> has_prompt_fragments bs"
  then have plain: "\<forall>f \<in> set (page_prompts bs). \<not> frag_protected f"
    by (auto simp: has_prompt_fragments_def page_prompts_def page_elements_def list_ex_iff)
  then have "bs' = bs" unfolding none(1) by (intro map_block_same) (simp add: blank_text_def)
  moreover have "map (map_block (with_text st')) bs = bs"
    by (rule map_block_same) (use plain in \<open>simp add: with_text_def\<close>)
  ultimately show ?thesis using plain by (simp add: restore_iff texts_consistent_def list_all_iff)
next
  fix as
  assume some: "bs' = map (map_block blank_text) bs"
    "\<And>i. map_option row_text (map_of (payloads st') i) =
        map_option pv_text (map_of (fold note_sealed (page_prompts bs) []) i)"
  let ?ps = "page_prompts bs"
  have kept: "\<exists>f' \<in> set ?ps. frag_protected f' \<and> frag_id f' = frag_id f \<and>
      map_of (payloads st') (frag_id f) \<noteq> None \<and> stored_text st' (frag_id f) = frag_text f'"
    if "f \<in> set ?ps" "frag_protected f" for f
  proof -
    from map_of_sealed [OF that] obtain f' where f': "f' \<in> set ?ps" "frag_protected f'"
      "frag_id f' = frag_id f"
      "map_of (fold note_sealed ?ps []) (frag_id f) =
         Some \<lparr>pv_text = frag_text f', pv_key = [], pv_replace_key = False\<rparr>" .
    with some(2) [of "frag_id f"] show ?thesis
      by (intro bexI [of _ f']) (auto simp: stored_text_def)
  qed
  have found: "restore_prompt_fragments st' bs' = Inr bs'' \<longleftrightarrow>
      bs'' = map (map_block (with_text st' \<circ> blank_text)) bs" for bs''
  proof -
    have "map_of (payloads st') (frag_id (blank_text f)) \<noteq> None"
      if "f \<in> set ?ps" "frag_protected (blank_text f)" for f
      using kept [of f] that by (auto simp: blank_text_def split: if_splits)
    then show ?thesis by (simp add: restore_iff some(1) map_block_comp comp_def)
  qed
  have "map (map_block (with_text st' \<circ> blank_text)) bs = bs \<longleftrightarrow> texts_consistent bs"
  proof
    assume same: "map (map_block (with_text st' \<circ> blank_text)) bs = bs"
    have "map (with_text st' \<circ> blank_text) ?ps = ?ps"
      using arg_cong [OF same, of page_prompts] by simp
    then have fixed: "(with_text st' \<circ> blank_text) f = f" if "f \<in> set ?ps" for f
      using that by (simp add: list_eq_iff_nth_eq in_set_conv_nth) metis
    have "frag_text f = stored_text st' (frag_id f)" if "f \<in> set ?ps" "frag_protected f" for f
      using arg_cong [OF fixed [OF that(1)], of frag_text] that(2)
      by (simp add: with_text_def blank_text_def)
    then show "texts_consistent bs" by (simp add: texts_consistent_def list_all_iff)
  next
    assume consistent: "texts_consistent bs"
    have "(with_text st' \<circ> blank_text) f = f" if "f \<in> set ?ps" for f
    proof (cases "frag_protected f")
      case True
      from kept [OF that True] obtain f' where "f' \<in> set ?ps" "frag_protected f'"
        "frag_id f' = frag_id f" "stored_text st' (frag_id f) = frag_text f'" by blast
      with consistent that True have "stored_text st' (frag_id f) = frag_text f"
        unfolding texts_consistent_def list_all_iff by metis
      with True show ?thesis by (simp add: with_text_def blank_text_def)
    qed (simp add: with_text_def blank_text_def)
    then show "map (map_block (with_text st' \<circ> blank_text)) bs = bs" by (rule map_block_same)
  qed
  moreover have "bs = map (map_block (with_text st' \<circ> blank_text)) bs \<longleftrightarrow>
      map (map_block (with_text st' \<circ> blank_text)) bs = bs" by (rule eq_commute)
  ultimately show ?thesis using found by blast
qed

text \<open>
  C3. Sealing and restoring is a round trip, for the pages it can be one for: restoring a page
  from the store its save left gives back the page that was saved exactly when no two of its
  protected fragments share an identifier and differ in their text. It always finds a text
  for every fragment.
\<close>

theorem seal_restore:
  assumes "sync_prompt_fragments hash bs requested st = Inr (bs', st')"
  shows "(\<exists>bs''. restore_prompt_fragments st' bs' = Inr bs'') \<and>
    (restore_prompt_fragments st' bs' = Inr bs \<longleftrightarrow> texts_consistent bs)"
  using assms by (rule sealed_round_trip)

section \<open>What an import promises\<close>

lemma import_run:
  assumes "each_from i (import_one st owners) brought vals = Inr vals'"
  shows "\<exists>new. vals' = new @ vals \<and> map fst new = rev (map pp_fragment brought) \<and>
    pp_fragment ` set brought \<subseteq> set owners \<and>
    (\<forall>p \<in> set brought. \<not> pp_reuse p \<longrightarrow> (\<exists>v. (pp_fragment p, v) \<in> set new \<and> pv_text v = pp_text p))"
  using assms
proof (induction brought arbitrary: i vals)
  case Nil
  then show ?case by simp
next
  case (Cons p brought)
  then obtain mid where one: "import_one st owners i p vals = Inr mid"
    and rest: "each_from (Suc i) (import_one st owners) brought mid = Inr vals'"
    by (auto split: sum.splits)
  from one obtain v where v: "mid = (pp_fragment p, v) # vals" "pp_fragment p \<in> set owners"
    "\<not> pp_reuse p \<longrightarrow> pv_text v = pp_text p"
    by (auto simp: import_one_def split: if_splits sum.splits)
  from Cons.IH [OF rest] obtain new where new: "vals' = new @ mid"
    "map fst new = rev (map pp_fragment brought)" "pp_fragment ` set brought \<subseteq> set owners"
    "\<forall>p \<in> set brought. \<not> pp_reuse p \<longrightarrow> (\<exists>v. (pp_fragment p, v) \<in> set new \<and> pv_text v = pp_text p)"
    by blast
  show ?case
    by (rule exI [of _ "new @ [(pp_fragment p, v)]"]) (use v new in auto)
qed

lemma import_policy_apps:
  "import_policy st initial = Inr st' \<Longrightarrow> apps st' \<noteq> [] \<and> payloads st' = payloads st"
  by (auto simp: import_policy_def split: if_splits sum.splits)

text \<open>
  An import whose prompts name each fragment once leaves a store that fits the imported page:
  it has a policy, it has a text for every sealed fragment of the page and for nothing else,
  and a text the file brought is the text its fragment gets back.
\<close>

theorem import_fits:
  assumes "import_prompt_fragments hash bs brought initial st = Inr st'"
    and "distinct (map pp_fragment brought)"
  shows "apps st' \<noteq> [] \<and>
    dom (map_of (payloads st')) = set (blank_prompts bs) \<and>
    list_all (\<lambda>p. \<not> pp_reuse p \<longrightarrow> stored_text st' (pp_fragment p) = pp_text p) brought"
proof -
  let ?owners = "remdups (blank_prompts bs)"
  from assms(1) obtain st1 vals where
    count: "length ?owners = length brought" and
    pol: "import_policy st initial = Inr st1" and
    run: "each (import_one st1 ?owners) brought [] = Inr vals" and
    st': "st' = replace_prompt_payloads hash st1 vals"
    by (auto simp: import_prompt_fragments_def Let_def split: if_splits sum.splits)
  from import_run [OF run] have facts: "map fst vals = rev (map pp_fragment brought)"
    "pp_fragment ` set brought \<subseteq> set ?owners"
    "\<forall>p \<in> set brought. \<not> pp_reuse p \<longrightarrow> (\<exists>v. (pp_fragment p, v) \<in> set vals \<and> pv_text v = pp_text p)"
    by auto
  have keys: "distinct (map fst vals)" using facts(1) assms(2) by simp
  have "card (pp_fragment ` set brought) = card (set ?owners)"
    using distinct_card [OF assms(2)] distinct_card [of ?owners] count by simp
  then have all: "pp_fragment ` set brought = set ?owners"
    using facts(2) by (intro card_subset_eq) simp_all
  have "map_of (payloads st') i = None \<longleftrightarrow> map_of vals i = None" for i
    using replaced_texts [of hash st1 vals i] st' by (metis option.map_disc_iff)
  then have "dom (map_of (payloads st')) = dom (map_of vals)" by (auto simp: dom_def)
  also have "\<dots> = fst ` set vals" by (rule dom_map_of_conv_image_fst)
  also have "\<dots> = set (blank_prompts bs)"
    using arg_cong [OF facts(1), of set] all by simp
  finally have dom: "dom (map_of (payloads st')) = set (blank_prompts bs)" .
  have "stored_text st' (pp_fragment p) = pp_text p" if p: "p \<in> set brought" "\<not> pp_reuse p" for p
  proof -
    from facts(3) p obtain v where "(pp_fragment p, v) \<in> set vals" "pv_text v = pp_text p" by blast
    then have "map_of vals (pp_fragment p) = Some v" using keys by simp
    then show ?thesis
      using replaced_texts [of hash st1 vals "pp_fragment p"] st' \<open>pv_text v = pp_text p\<close>
      by (auto simp: stored_text_def)
  qed
  with dom import_policy_apps [OF pol] st' show ?thesis
    by (simp add: list_all_iff replace_prompt_payloads_def)
qed

section \<open>Two fragments with one identifier\<close>

definition twin :: "uuid \<Rightarrow> string \<Rightarrow> element" where
  "twin i t =
     \<lparr>el_id = i, el_type = TypePromptList,
      el_role = (if i = 1 then RolePromptFragments else NoRole), el_slot = SlotMain,
      el_options = no_options,
      el_content = Some (PromptList []
        [\<lparr>frag_id = 9, frag_name = [], frag_group_id = None, frag_role = PromptSystem,
          frag_text = t, frag_protected = True, frag_marker = [], frag_enabled = True,
          frag_placement = NoPlacement, frag_depth = None\<rparr>])\<rparr>"

definition twin_page :: "block list" where
  "twin_page =
     [\<lparr>blk_id = 11, blk_definition = PresetCore, blk_title = None, blk_position = 0,
       blk_hidden = False, blk_layout = Single, blk_width = Full, blk_elements = [twin 1 ''a'']\<rparr>,
      \<lparr>blk_id = 12, blk_definition = CustomBlock, blk_title = None, blk_position = 1,
       blk_hidden = False, blk_layout = Single, blk_width = Full, blk_elements = [twin 2 ''b'']\<rparr>]"

text \<open>
  C8. Sealing does not always keep what it seals. Items are checked for identifiers of their own
  within one element only, and the store keys texts by the fragment across the page: two
  prompt lists on one page may hold protected fragments with one identifier. Such a page
  passes both checks of a save, is sealed, and is restored with one of the two texts lost.
\<close>

theorem twin_texts_lost:
  "list_all (\<lambda>b. validate_structure \<lparr>item_bytes = \<lambda>_. Inr 100, content_bytes = \<lambda>_. Inr 100\<rparr> b = Inr ())
     twin_page \<and>
   validate_builder_constraints ''preset'' twin_page twin_page = Inr () \<and>
   (\<exists>bs' st'. sync_prompt_fragments hash twin_page (Some [app_lumiverse]) st = Inr (bs', st') \<and>
     restore_prompt_fragments st' bs' = Inr (twin_page[0 := (twin_page ! 0)\<lparr>blk_elements := [twin 1 ''b'']\<rparr>]))"
proof (intro conjI)
  show "list_all (\<lambda>b. validate_structure \<lparr>item_bytes = \<lambda>_. Inr 100, content_bytes = \<lambda>_. Inr 100\<rparr> b = Inr ())
     twin_page"
    by (simp add: structure_well_structured well_structured_def twin_page_def twin_def
        within_limits_def held_items_def max_collection_items_def item_within_def max_item_bytes_def
        max_payload_bytes_def element_sound_def element_item_ids_def options_fit_def takes_display_def)
  show "validate_builder_constraints ''preset'' twin_page twin_page = Inr ()"
    by (simp add: builder_constraints_allowed page_allowed_def twin_page_def twin_def
        arrangement_ok_def repeatable_def definition_of_def catalog_def catalog_defs role_fits_def
        role_allows_def singular_def role_cardinality_def pinned_element_present_def)
  show "\<exists>bs' st'. sync_prompt_fragments hash twin_page (Some [app_lumiverse]) st = Inr (bs', st') \<and>
     restore_prompt_fragments st' bs' = Inr (twin_page[0 := (twin_page ! 0)\<lparr>blk_elements := [twin 1 ''b'']\<rparr>])"
    by (simp add: sync_prompt_fragments_def on_prompts_def on_block_def on_element_def
        seal_fragment_def policy_def check_app_def app_targets_def Let_def twin_page_def twin_def
        replace_prompt_payloads_def put_row_def restore_prompt_fragments_def restore_fragment_def)
qed

section \<open>Witnesses\<close>

definition sealed_page :: "block list" where
  "sealed_page = [hd twin_page]"

definition empty_store :: protected_store where
  "empty_store = \<lparr>payloads = [], apps = []\<rparr>"

lemma sealed_page_sync:
  "\<exists>bs' st'. sync_prompt_fragments (\<lambda>s. s) sealed_page (Some [app_lumiverse]) empty_store = Inr (bs', st') \<and>
     map_of (payloads st') 9 = Some \<lparr>row_text = ''a'', row_key = None, row_digest = ''a''\<rparr>"
  by (simp add: sync_prompt_fragments_def on_prompts_def on_block_def on_element_def
      seal_fragment_def policy_def check_app_def app_targets_def Let_def twin_page_def twin_def
      replace_prompt_payloads_def put_row_def sealed_page_def empty_store_def)

lemma sealed_page_prompts:
  "page_prompts sealed_page =
     [\<lparr>frag_id = 9, frag_name = [], frag_group_id = None, frag_role = PromptSystem,
       frag_text = ''a'', frag_protected = True, frag_marker = [], frag_enabled = True,
       frag_placement = NoPlacement, frag_depth = None\<rparr>]"
  by (simp add: sealed_page_def twin_page_def twin_def prompts_of_def)

theorem sync_hides_texts_witness:
  "\<exists>bs' st'. sync_prompt_fragments (\<lambda>s. s) sealed_page (Some [app_lumiverse]) empty_store = Inr (bs', st') \<and>
     list_all (\<lambda>f. frag_text f = []) (page_prompts bs')"
proof -
  from sealed_page_sync obtain bs' st' where
    run: "sync_prompt_fragments (\<lambda>s. s) sealed_page (Some [app_lumiverse]) empty_store = Inr (bs', st')"
    by blast
  from sync_hides_texts [OF run] have "list_all (\<lambda>f. frag_text f = []) (page_prompts bs')"
    by (simp add: sealed_page_prompts blank_text_def)
  with run show ?thesis by blast
qed

theorem sync_keeps_policy_witness:
  "\<exists>bs' st'. sync_prompt_fragments (\<lambda>s. s) sealed_page (Some [app_lumiverse]) empty_store = Inr (bs', st') \<and>
     apps st' \<noteq> [] \<and> dom (map_of (payloads st')) = {9}"
proof -
  from sealed_page_sync obtain bs' st' where
    run: "sync_prompt_fragments (\<lambda>s. s) sealed_page (Some [app_lumiverse]) empty_store = Inr (bs', st')"
    by blast
  have protected: "{f \<in> set (page_prompts sealed_page). frag_protected f} = set (page_prompts sealed_page)"
    by (auto simp: sealed_page_prompts)
  have has: "has_prompt_fragments sealed_page"
    by (simp add: has_prompt_fragments_def sealed_page_def twin_page_def twin_def prompts_of_def)
  from sync_keeps_policy [OF run] have "apps st' \<noteq> []" "dom (map_of (payloads st')) = {9}"
    unfolding protected by (simp_all only: has) (simp_all add: sealed_page_prompts)
  with run \<open>dom (map_of (payloads st')) = {9}\<close> show ?thesis by blast
qed

theorem seal_restore_witness:
  "\<exists>bs' st'. sync_prompt_fragments (\<lambda>s. s) sealed_page (Some [app_lumiverse]) empty_store = Inr (bs', st') \<and>
     restore_prompt_fragments st' bs' = Inr sealed_page"
proof -
  from sealed_page_sync obtain bs' st' where
    run: "sync_prompt_fragments (\<lambda>s. s) sealed_page (Some [app_lumiverse]) empty_store = Inr (bs', st')"
    by blast
  have "texts_consistent sealed_page" by (simp add: texts_consistent_def sealed_page_prompts)
  with seal_restore [OF run] run show ?thesis by blast
qed

theorem import_fits_witness:
  "\<exists>st'. import_prompt_fragments (\<lambda>s. s) (map (map_block blank_text) sealed_page)
       [\<lparr>pp_fragment = 9, pp_text = ''a'', pp_source_key = ''k'', pp_reuse = False\<rparr>]
       [app_lumiverse] empty_store = Inr st' \<and>
     stored_text st' 9 = ''a''"
proof -
  have prompts: "blank_prompts (map (map_block blank_text) sealed_page) = [9]"
    unfolding blank_prompts_def page_prompts_def [symmetric] page_prompts_map_block
    by (simp add: sealed_page_prompts blank_text_def)
  then obtain st' where run: "import_prompt_fragments (\<lambda>s. s) (map (map_block blank_text) sealed_page)
       [\<lparr>pp_fragment = 9, pp_text = ''a'', pp_source_key = ''k'', pp_reuse = False\<rparr>]
       [app_lumiverse] empty_store = Inr st'"
    by (auto simp: import_prompt_fragments_def import_policy_def policy_def check_app_def
        app_targets_def import_one_def empty_store_def)
  from import_fits [OF run] run show ?thesis by auto
qed

end
