(* ===== verification/PageStore.thy ===== *)
theory PageStore
  imports PlacedPages Measures Protected
begin

text \<open>
  What the database holds of one asset and what every edit of its page shares: the reads, the
  guard that takes the row lock (\<^verbatim>\<open>lockEditableAsset\<close>, \<^verbatim>\<open>asset/blocks.go\<close>), the fingerprint of the
  downloadable content and the counter it moves (\<^verbatim>\<open>asset/generation.go\<close>), the preserved data
  that loses its owner (\<^verbatim>\<open>asset/preserved.go\<close>), the projections an edit rewrites
  (\<^verbatim>\<open>asset/projection.go\<close>, \<^verbatim>\<open>asset/facet.go\<close>), and the transaction around it all.

  The rows of \<^verbatim>\<open>asset_blocks\<close> are a list in no particular order, as the table is; the elements
  column holds the elements themselves. The rows of \<^verbatim>\<open>asset_preserved_data\<close> and \<^verbatim>\<open>asset_media\<close>
  are lists in the order the queries ask for.
\<close>

section \<open>The tables\<close>

datatype header_field = HeaderName | HeaderBlurb | HeaderAssetVersion | HeaderCreditedAuthor
  | HeaderNickname

fun header_field_wire :: "header_field \<Rightarrow> string" where
  "header_field_wire HeaderName = ''name''"
| "header_field_wire HeaderBlurb = ''blurb''"
| "header_field_wire HeaderAssetVersion = ''asset_version''"
| "header_field_wire HeaderCreditedAuthor = ''credited_author''"
| "header_field_wire HeaderNickname = ''nickname''"

datatype preserved_owner = OwnerAsset | OwnerElement | OwnerItem

fun preserved_owner_wire :: "preserved_owner \<Rightarrow> string" where
  "preserved_owner_wire OwnerAsset = ''asset''"
| "preserved_owner_wire OwnerElement = ''element''"
| "preserved_owner_wire OwnerItem = ''item''"

record preserved_row =
  prs_owner_kind :: preserved_owner
  prs_owner :: uuid
  prs_namespace :: string
  prs_payload :: string

record media_row =
  med_id :: uuid
  med_blob :: uuid
  med_current :: bool

record target =
  tgt_format :: string
  tgt_details :: string

record page_db =
  ast_owner :: uuid
  ast_kind :: string
  ast_origin :: string
  ast_header :: "header_field \<Rightarrow> string"
  ast_cover :: "uuid option"
  ast_withheld :: bool
  ast_deleted :: bool
  ast_generation :: nat
  db_blocks :: "block list"
  db_protected :: protected_store
  db_preserved :: "preserved_row list"
  db_media :: "media_row list"
  db_export :: "target list"
  db_facets :: "(facet_key \<times> nat) list"

text \<open>
  What the service is built with: the registry's exported header fields and offered targets,
  the JSON of a content, the byte lengths of \<^verbatim>\<open>json.Marshal\<close> and SHA-256 in hexadecimal.
\<close>

record environment =
  env_header_fields :: "string \<Rightarrow> header_field list"
  env_offered :: "string \<Rightarrow> string \<Rightarrow> element list \<Rightarrow> target list"
  env_content_json :: "content \<Rightarrow> string + string"
  env_encoder :: encoder
  env_sha256 :: "string \<Rightarrow> string"

datatype page_error =
    NotFound
  | AssetFrozen
  | InvalidStructure structure_error
  | InvalidPage builder_error
  | InvalidAdd add_error
  | AppWithoutTarget string
  | InvalidSeal protected_error
  | SealUnreadable protected_error
  | Unprintable string
  | IncludeEveryBlock
  | NotOnPage
  | IncludeOnce
  | AlwaysShown string
  | RequiredBlock string
  | PinnedCannotMove string
  | NothingToMove
  | NoRoomForContent definition_id
  | ConstraintViolated
  | Panicked

section \<open>Reads\<close>

text \<open>\<^verbatim>\<open>readBlocks\<close>: the rows in page order; \<^verbatim>\<open>lockEditableAsset\<close>: the kind, for an owner who may edit.\<close>

definition read_blocks :: "page_db \<Rightarrow> block list" where
  "read_blocks db = sort_key blk_position (db_blocks db)"

definition lock_editable_asset :: "uuid \<Rightarrow> page_db \<Rightarrow> page_error + string" where
  "lock_editable_asset owner db =
     (if ast_owner db \<noteq> owner \<or> ast_deleted db then Inl NotFound
      else if ast_withheld db then Inl AssetFrozen
      else Inr (ast_kind db))"

section \<open>The fingerprint of the downloadable content\<close>

definition digest_line :: "string list \<Rightarrow> string" where
  "digest_line parts = join [CHR 0x00] parts @ [CHR 0x0A]"

definition unprotected :: "content \<Rightarrow> content" where
  "unprotected c =
     (case c of
        PromptList gs fs \<Rightarrow> PromptList gs (map (\<lambda>f. f\<lparr>frag_protected := False\<rparr>) fs)
      | _ \<Rightarrow> c)"

text \<open>The line of one element; one with nothing written has none.\<close>

definition fingerprint_element ::
  "environment \<Rightarrow> nat \<Rightarrow> element \<Rightarrow> string \<Rightarrow> page_error + string" where
  "fingerprint_element env i e digest =
     (case el_content e of
        None \<Rightarrow> Inr digest
      | Some c \<Rightarrow>
          if content_empty c then Inr digest
          else
            (case env_content_json env (unprotected c) of
               Inl message \<Rightarrow> Inl (Unprintable message)
             | Inr body \<Rightarrow>
                 Inr (digest @ digest_line [''element'', uuid_text (el_id e),
                                           role_wire (el_role e), body])))"

definition fingerprint_preserved :: "page_db \<Rightarrow> string" where
  "fingerprint_preserved db =
     concat (map (\<lambda>p. digest_line [''preserved'', preserved_owner_wire (prs_owner_kind p),
                        uuid_text (prs_owner p), prs_namespace p, prs_payload p])
               (db_preserved db))"

definition pictures_of :: "element \<Rightarrow> uuid list" where
  "pictures_of e =
     (case el_content e of Some (ImageSet is) \<Rightarrow> map image_media_id is | _ \<Rightarrow> [])"

definition fingerprint_pictures :: "page_db \<Rightarrow> element list \<Rightarrow> string" where
  "fingerprint_pictures db es =
     (let wanted = (case ast_cover db of None \<Rightarrow> [] | Some c \<Rightarrow> [c]) @ concat (map pictures_of es)
      in concat (map (\<lambda>m. digest_line [''picture'', uuid_text (med_id m), uuid_text (med_blob m),
                            (if med_current m then ''true'' else ''false'')])
                   (filter (\<lambda>m. med_id m \<in> set wanted) (db_media db))))"

definition fingerprint_header :: "environment \<Rightarrow> page_db \<Rightarrow> string" where
  "fingerprint_header env db =
     digest_line [''asset'', ast_kind db, ast_origin db] @
     concat (map (\<lambda>f. digest_line [''header'', header_field_wire f, ast_header db f])
               (env_header_fields env (ast_kind db)))"

definition content_fingerprint :: "environment \<Rightarrow> page_db \<Rightarrow> page_error + string" where
  "content_fingerprint env db =
     (if ast_deleted db then Inl NotFound
      else
        and_then (explain SealUnreadable
                    (restore_prompt_fragments (db_protected db) (read_blocks db)))
          (\<lambda>blocks.
             (let es = sort_key el_id (page_elements blocks) in
              and_then (each (fingerprint_element env) es (fingerprint_header env db))
                (\<lambda>digest.
                   Inr (env_sha256 env (digest @ fingerprint_preserved db @
                                        fingerprint_pictures db es))))))"

text \<open>\<^verbatim>\<open>moveContentGeneration\<close>\<close>

definition move_content_generation ::
  "environment \<Rightarrow> string \<Rightarrow> page_db \<Rightarrow> page_error + page_db" where
  "move_content_generation env before db =
     and_then (content_fingerprint env db)
       (\<lambda>after. Inr (if after = before then db
                     else db\<lparr>ast_generation := Suc (ast_generation db)\<rparr>))"

section \<open>What an edit rewrites\<close>

definition owners :: "block list \<Rightarrow> uuid list" where
  "owners bs = concat (map (\<lambda>e. el_id e # element_item_ids e) (page_elements bs))"

definition drop_unowned_preserved_data :: "block list \<Rightarrow> page_db \<Rightarrow> page_db" where
  "drop_unowned_preserved_data bs db =
     db\<lparr>db_preserved :=
          filter (\<lambda>p. prs_owner_kind p = OwnerAsset \<or> prs_owner p \<in> set (owners bs))
            (db_preserved db)\<rparr>"

definition shown_elements :: "block list \<Rightarrow> element list" where
  "shown_elements bs = page_elements (filter (\<lambda>b. \<not> blk_hidden b) bs)"

definition write_export_projection :: "environment \<Rightarrow> page_db \<Rightarrow> page_db" where
  "write_export_projection env db =
     db\<lparr>db_export := env_offered env (ast_kind db) (ast_origin db) (page_elements (read_blocks db))\<rparr>"

definition write_facet_projection :: "page_db \<Rightarrow> page_db" where
  "write_facet_projection db =
     db\<lparr>db_facets := measure_facets (ast_kind db) (shown_elements (read_blocks db))\<rparr>"

definition write_projections :: "environment \<Rightarrow> page_db \<Rightarrow> page_db" where
  "write_projections env db = write_facet_projection (write_export_projection env db)"

section \<open>The transaction\<close>

text \<open>
  The constraints of the tables. Those on positions and on sealed content are deferred to the
  commit; a statement that breaks another fails at once, which fails the transaction too.
\<close>

definition constraints_hold :: "page_db \<Rightarrow> bool" where
  "constraints_hold db \<longleftrightarrow>
     distinct (map blk_id (db_blocks db)) \<and>
     distinct (map blk_position (db_blocks db)) \<and>
     list_all (\<lambda>b. layout_slots (blk_layout b) \<noteq> [] \<and> columns (blk_width b) \<noteq> 0) (db_blocks db) \<and>
     (payloads (db_protected db) = [] \<longleftrightarrow> apps (db_protected db) = [])"

definition transact ::
  "(page_db \<Rightarrow> page_error + page_db \<times> 'r) \<Rightarrow> page_db \<Rightarrow> page_db \<times> (page_error + 'r)" where
  "transact body db =
     (case body db of
        Inl e \<Rightarrow> (db, Inl e)
      | Inr (db', r) \<Rightarrow>
          if constraints_hold db' then (db', Inr r) else (db, Inl ConstraintViolated))"

end
