(* ===== verification/PageEdits.thy ===== *)
theory PageEdits
  imports PageStore
begin

text \<open>
  The edits of a page (\<^verbatim>\<open>asset/blocks.go\<close>): \<^verbatim>\<open>SaveBlock\<close>, \<^verbatim>\<open>AddBlock\<close>, \<^verbatim>\<open>ArrangeBlocks\<close>,
  \<^verbatim>\<open>RemoveBlock\<close> and \<^verbatim>\<open>MoveBlockContent\<close>, and \<^verbatim>\<open>DeletePreservedNamespace\<close>
  (\<^verbatim>\<open>asset/preserved.go\<close>). Each is one transaction: the checks in the code's order, then the
  statements, then the deferred constraints.

  In \<^verbatim>\<open>MoveBlockContent\<close> the pointers \<^verbatim>\<open>source\<close> and \<^verbatim>\<open>destination\<close> point into the page it read, so
  the moved elements are in the page it calls \<^verbatim>\<open>before\<close> by the time it is checked, in the
  destination and in the source.
\<close>

section \<open>SaveBlock\<close>

record block_update =
  upd_title :: "string option"
  upd_layout :: layout
  upd_width :: width
  upd_elements :: "element list"
  upd_apps :: "string list option"

definition updated :: "block_update \<Rightarrow> block \<Rightarrow> block" where
  "updated u b =
     b\<lparr>blk_title := upd_title u, blk_layout := upd_layout u, blk_width := upd_width u,
       blk_elements := upd_elements u\<rparr>"

fun update_first :: "uuid \<Rightarrow> block_update \<Rightarrow> block list \<Rightarrow> block list" where
  "update_first i u [] = []"
| "update_first i u (b # bs) =
     (if blk_id b = i then updated u b # bs else b # update_first i u bs)"

definition block_with :: "uuid \<Rightarrow> block list \<Rightarrow> block option" where
  "block_with i bs = find (\<lambda>b. blk_id b = i) bs"

definition offers_target :: "target list \<Rightarrow> string \<Rightarrow> bool" where
  "offers_target offered wanted \<longleftrightarrow> list_ex (\<lambda>t. tgt_format t = wanted) offered"

definition validate_protected_apps ::
  "environment \<Rightarrow> page_db \<Rightarrow> string \<Rightarrow> block list \<Rightarrow> string list option \<Rightarrow> page_error + unit" where
  "validate_protected_apps env db kind bs requested =
     (case requested of
        None \<Rightarrow> Inr ()
      | Some as \<Rightarrow>
          if \<not> has_prompt_fragments bs then Inr ()
          else
            (let offered = env_offered env kind (ast_origin db) (page_elements bs) in
             each (\<lambda>i app u. ensure (list_ex (offers_target offered) (app_targets kind app))
                               (AppWithoutTarget app)) as ()))"

definition set_rows :: "uuid \<Rightarrow> (block \<Rightarrow> block) \<Rightarrow> page_db \<Rightarrow> page_db" where
  "set_rows i f db = db\<lparr>db_blocks := map (\<lambda>b. if blk_id b = i then f b else b) (db_blocks db)\<rparr>"

text \<open>What an edit that can change the content does after its rows are written.\<close>

definition settle ::
  "environment \<Rightarrow> string \<Rightarrow> block list \<Rightarrow> page_db \<Rightarrow> page_error + page_db" where
  "settle env fingerprint bs db =
     move_content_generation env fingerprint
       (write_projections env (drop_unowned_preserved_data bs db))"

definition save_block_tx ::
  "environment \<Rightarrow> uuid \<Rightarrow> uuid \<Rightarrow> block_update \<Rightarrow> page_db \<Rightarrow> page_error + page_db \<times> block list" where
  "save_block_tx env owner i u db =
     and_then (lock_editable_asset owner db) (\<lambda>kind.
     and_then (content_fingerprint env db) (\<lambda>fingerprint.
     and_then (explain SealUnreadable
                 (restore_prompt_fragments (db_protected db) (read_blocks db))) (\<lambda>before.
     and_then (or_refuse NotFound (map_option (updated u) (block_with i before))) (\<lambda>saved.
     let blocks = update_first i u before in
     and_then (explain InvalidStructure (validate_structure (env_encoder env) saved)) (\<lambda>_.
     and_then (explain InvalidPage (validate_builder_constraints kind before blocks)) (\<lambda>_.
     and_then (validate_protected_apps env db kind blocks (upd_apps u)) (\<lambda>_.
     and_then (explain InvalidSeal
                 (sync_prompt_fragments (env_sha256 env) blocks (upd_apps u) (db_protected db)))
       (\<lambda>(sealed, store).
     and_then (or_refuse NotFound (block_with i sealed)) (\<lambda>row.
     and_then (ensure (length (filter (\<lambda>b. blk_id b = i) (db_blocks db)) = 1) NotFound) (\<lambda>_.
     and_then (settle env fingerprint sealed
                 (set_rows i (updated (u\<lparr>upd_elements := blk_elements row\<rparr>))
                   (db\<lparr>db_protected := store\<rparr>)))
       (\<lambda>db'. Inr (db', sealed))))))))))))"

text \<open>The answer is read after the commit, outside the transaction.\<close>

definition save_block ::
  "environment \<Rightarrow> uuid \<Rightarrow> uuid \<Rightarrow> block_update \<Rightarrow> page_db \<Rightarrow> page_db \<times> (page_error + block)" where
  "save_block env owner i u db =
     (case transact (save_block_tx env owner i u) db of
        (db', Inl e) \<Rightarrow> (db', Inl e)
      | (db', Inr sealed) \<Rightarrow>
          (db', and_then (explain SealUnreadable (restore_prompt_fragments (db_protected db') sealed))
                  (\<lambda>bs. or_refuse NotFound (block_with i bs))))"

section \<open>AddBlock\<close>

definition insert_block :: "environment \<Rightarrow> block \<Rightarrow> page_db \<Rightarrow> page_error + page_db" where
  "insert_block env b db =
     and_then (explain InvalidStructure (validate_structure (env_encoder env) b))
       (\<lambda>_. Inr (db\<lparr>db_blocks := db_blocks db @ [b]\<rparr>))"

definition add_block_tx ::
  "environment \<Rightarrow> uuid \<Rightarrow> definition_id \<Rightarrow> elem_type \<Rightarrow> uuid_source \<Rightarrow> page_db \<Rightarrow>
     page_error + page_db \<times> block" where
  "add_block_tx env owner d t src db =
     and_then (lock_editable_asset owner db) (\<lambda>kind.
     and_then (content_fingerprint env db) (\<lambda>fingerprint.
     let page = read_blocks db in
     and_then (explain InvalidAdd (new_block kind d t page src)) (\<lambda>(added, src').
     and_then (explain InvalidStructure (validate_structure (env_encoder env) added)) (\<lambda>_.
     and_then (explain InvalidPage
                 (validate_builder_constraints kind (page @ [added]) (page @ [added]))) (\<lambda>_.
     and_then (insert_block env added db) (\<lambda>db1.
     and_then (move_content_generation env fingerprint (write_projections env db1))
       (\<lambda>db'. Inr (db', added))))))))"

definition add_block ::
  "environment \<Rightarrow> uuid \<Rightarrow> definition_id \<Rightarrow> elem_type \<Rightarrow> uuid_source \<Rightarrow> page_db \<Rightarrow>
     page_db \<times> (page_error + block)" where
  "add_block env owner d t src db = transact (add_block_tx env owner d t src) db"

section \<open>ArrangeBlocks\<close>

record block_arrangement =
  arr_id :: uuid
  arr_hidden :: bool
  arr_width :: width

definition arrange_one ::
  "string \<Rightarrow> block list \<Rightarrow> nat \<Rightarrow> block_arrangement \<Rightarrow> uuid set \<Rightarrow> page_error + block \<times> uuid set" where
  "arrange_one kind bs position c seen =
     (case map_of (rev (map (\<lambda>b. (blk_id b, b)) bs)) (arr_id c) of
        None \<Rightarrow> Inl NotOnPage
      | Some b \<Rightarrow>
          if arr_id c \<in> seen then Inl IncludeOnce
          else
            (case definition_of (blk_definition b) kind of
               Some d \<Rightarrow>
                 if arr_hidden c \<and> def_required d \<and> \<not> def_hideable d
                 then Inl (AlwaysShown (def_title d))
                 else Inr (b\<lparr>blk_position := position, blk_hidden := arr_hidden c,
                             blk_width := arr_width c\<rparr>, insert (arr_id c) seen)
             | None \<Rightarrow>
                 Inr (b\<lparr>blk_position := position, blk_hidden := arr_hidden c,
                        blk_width := arr_width c\<rparr>, insert (arr_id c) seen)))"

definition arrange_row :: "block \<Rightarrow> page_db \<Rightarrow> page_db" where
  "arrange_row h db =
     set_rows (blk_id h)
       (\<lambda>b. b\<lparr>blk_position := blk_position h, blk_hidden := blk_hidden h,
              blk_width := blk_width h\<rparr>) db"

definition arrange_blocks_tx ::
  "uuid \<Rightarrow> block_arrangement list \<Rightarrow> page_db \<Rightarrow> page_error + page_db \<times> block list" where
  "arrange_blocks_tx owner choices db =
     and_then (lock_editable_asset owner db) (\<lambda>kind.
     let blocks = read_blocks db in
     and_then (ensure (length choices = length blocks) IncludeEveryBlock) (\<lambda>_.
     and_then (collect (arrange_one kind blocks) choices {}) (\<lambda>(after, seen).
     and_then (explain InvalidPage (validate_builder_constraints kind blocks after)) (\<lambda>_.
     Inr (write_facet_projection (fold arrange_row after db), after)))))"

definition arrange_blocks ::
  "uuid \<Rightarrow> block_arrangement list \<Rightarrow> page_db \<Rightarrow> page_db \<times> (page_error + block list)" where
  "arrange_blocks owner choices db = transact (arrange_blocks_tx owner choices) db"

section \<open>RemoveBlock\<close>

definition delete_block_and_close_positions ::
  "uuid \<Rightarrow> block list \<Rightarrow> page_db \<Rightarrow> page_db" where
  "delete_block_and_close_positions i remaining db =
     fold (\<lambda>(position, h). set_rows (blk_id h) (\<lambda>b. b\<lparr>blk_position := position\<rparr>))
       (enumerate 0 remaining)
       (db\<lparr>db_blocks := filter (\<lambda>b. blk_id b \<noteq> i) (db_blocks db)\<rparr>)"

definition is_required :: "string \<Rightarrow> block \<Rightarrow> bool" where
  "is_required kind b \<longleftrightarrow>
     (case definition_of (blk_definition b) kind of None \<Rightarrow> False | Some d \<Rightarrow> def_required d)"

definition title_of :: "string \<Rightarrow> block \<Rightarrow> string" where
  "title_of kind b =
     (case definition_of (blk_definition b) kind of None \<Rightarrow> [] | Some d \<Rightarrow> def_title d)"

definition not_required :: "string \<Rightarrow> block \<Rightarrow> page_error + unit" where
  "not_required kind b = ensure (\<not> is_required kind b) (RequiredBlock (title_of kind b))"

text \<open>The room for what remains is that of one block less, which an empty page does not have.\<close>

definition remove_block_tx ::
  "environment \<Rightarrow> uuid \<Rightarrow> uuid \<Rightarrow> page_db \<Rightarrow> page_error + page_db \<times> unit" where
  "remove_block_tx env owner i db =
     and_then (lock_editable_asset owner db) (\<lambda>kind.
     and_then (content_fingerprint env db) (\<lambda>fingerprint.
     and_then (explain SealUnreadable
                 (restore_prompt_fragments (db_protected db) (read_blocks db))) (\<lambda>blocks.
     and_then (ensure (blocks \<noteq> []) Panicked) (\<lambda>_.
     let remaining = filter (\<lambda>b. blk_id b \<noteq> i) blocks in
     and_then (each (\<lambda>j b u. if blk_id b \<noteq> i then Inr () else not_required kind b) blocks ()) (\<lambda>_.
     and_then (ensure (block_with i blocks \<noteq> None) NotFound) (\<lambda>_.
     and_then (explain InvalidPage (validate_builder_constraints kind blocks remaining)) (\<lambda>_.
     and_then (explain InvalidSeal
                 (sync_prompt_fragments (env_sha256 env) remaining None (db_protected db)))
       (\<lambda>(sealed, store).
     and_then (settle env fingerprint sealed
                 (delete_block_and_close_positions i sealed (db\<lparr>db_protected := store\<rparr>)))
       (\<lambda>db'. Inr (db', ()))))))))))"

definition remove_block ::
  "environment \<Rightarrow> uuid \<Rightarrow> uuid \<Rightarrow> page_db \<Rightarrow> page_db \<times> (page_error + unit)" where
  "remove_block env owner i db = transact (remove_block_tx env owner i) db"

section \<open>MoveBlockContent\<close>

definition free_slots :: "block \<Rightarrow> slot list" where
  "free_slots b =
     filter (\<lambda>s. s \<notin> set (map el_slot (blk_elements b))) (layout_slots (blk_layout b))"

definition moved_elements :: "block \<Rightarrow> block \<Rightarrow> element list" where
  "moved_elements source destination =
     map (\<lambda>(e, s). e\<lparr>el_slot := s\<rparr>) (zip (blk_elements source) (free_slots destination))"

text \<open>The page once the elements are appended to the block \<^verbatim>\<open>destination\<close> points at.\<close>

definition with_appended :: "uuid \<Rightarrow> element list \<Rightarrow> block list \<Rightarrow> block list" where
  "with_appended i es bs =
     map (\<lambda>b. if blk_id b = i then b\<lparr>blk_elements := blk_elements b @ es\<rparr> else b) bs"

definition renumbered :: "block list \<Rightarrow> block list" where
  "renumbered bs = map (\<lambda>(n, b). b\<lparr>blk_position := n\<rparr>) (enumerate 0 bs)"

definition move_block_content_tx ::
  "environment \<Rightarrow> uuid \<Rightarrow> uuid \<Rightarrow> uuid \<Rightarrow> page_db \<Rightarrow> page_error + page_db \<times> block list" where
  "move_block_content_tx env owner i j db =
     and_then (lock_editable_asset owner db) (\<lambda>kind.
     and_then (content_fingerprint env db) (\<lambda>fingerprint.
     and_then (explain SealUnreadable
                 (restore_prompt_fragments (db_protected db) (read_blocks db))) (\<lambda>blocks.
     and_then (or_refuse NotFound (block_with i blocks)) (\<lambda>source.
     and_then (or_refuse NotFound (if j = i then None else block_with j blocks)) (\<lambda>destination.
     and_then (not_required kind source) (\<lambda>_.
     and_then (each (\<lambda>k e u. ensure (\<not> block_pinned source (el_role e) kind)
                               (PinnedCannotMove (role_label (el_role e))))
                 (blk_elements source) ()) (\<lambda>_.
     and_then (ensure (blk_elements source \<noteq> []) NothingToMove) (\<lambda>_.
     and_then (ensure (length (blk_elements source) \<le> length (free_slots destination))
                 (NoRoomForContent (blk_definition destination))) (\<lambda>_.
     let moved = moved_elements source destination;
         before = with_appended j moved blocks;
         after = renumbered (filter (\<lambda>b. blk_id b \<noteq> i) before) in
     and_then (explain InvalidStructure
                 (validate_structure (env_encoder env)
                   (destination\<lparr>blk_elements := blk_elements destination @ moved\<rparr>))) (\<lambda>_.
     and_then (explain InvalidPage (validate_builder_constraints kind before after)) (\<lambda>_.
     and_then (explain InvalidSeal
                 (sync_prompt_fragments (env_sha256 env) after None (db_protected db)))
       (\<lambda>(sealed, store).
     and_then (or_refuse NotFound (block_with j sealed)) (\<lambda>row.
     and_then (settle env fingerprint sealed
                 (delete_block_and_close_positions i sealed
                   (set_rows j (\<lambda>b. b\<lparr>blk_elements := blk_elements row\<rparr>)
                     (db\<lparr>db_protected := store\<rparr>))))
       (\<lambda>db'. Inr (db', sealed)))))))))))))))"

definition move_block_content ::
  "environment \<Rightarrow> uuid \<Rightarrow> uuid \<Rightarrow> uuid \<Rightarrow> page_db \<Rightarrow> page_db \<times> (page_error + block list)" where
  "move_block_content env owner i j db = transact (move_block_content_tx env owner i j) db"

section \<open>DeletePreservedNamespace\<close>

definition delete_preserved_namespace_tx ::
  "environment \<Rightarrow> uuid \<Rightarrow> string \<Rightarrow> page_db \<Rightarrow> page_error + page_db \<times> unit" where
  "delete_preserved_namespace_tx env owner namespace db =
     and_then (lock_editable_asset owner db) (\<lambda>kind.
     and_then (content_fingerprint env db) (\<lambda>fingerprint.
     and_then (ensure (list_ex (\<lambda>p. prs_namespace p = namespace) (db_preserved db)) NotFound) (\<lambda>_.
     and_then (move_content_generation env fingerprint
                 (db\<lparr>db_preserved :=
                       filter (\<lambda>p. prs_namespace p \<noteq> namespace) (db_preserved db)\<rparr>))
       (\<lambda>db'. Inr (db', ())))))"

definition delete_preserved_namespace ::
  "environment \<Rightarrow> uuid \<Rightarrow> string \<Rightarrow> page_db \<Rightarrow> page_db \<times> (page_error + unit)" where
  "delete_preserved_namespace env owner namespace db =
     transact (delete_preserved_namespace_tx env owner namespace) db"

end
