(* ===== verification/PageFacts.thy ===== *)
theory PageFacts
  imports PageEdits
begin

text \<open>
  What the edits of a page keep. \<open>page_ok\<close> is what a page always is, \<open>db_ok\<close> what the tables of
  an asset always hold; \<open>guarded_edit\<close> is the contract every edit meets, proved of each of them
  and used for all of them at once.
\<close>

section \<open>Reading rows back in page order\<close>

lemma sort_key_map_same:
  assumes "\<And>x. k (f x) = k x"
  shows "sort_key k (map f xs) = map f (sort_key k xs)"
proof (induction xs)
  case Nil
  then show ?case by simp
next
  case (Cons x xs)
  have "insort_key k (f x) (map f ys) = map f (insort_key k x ys)" for ys
    by (induction ys) (simp_all add: assms)
  with Cons show ?case by simp
qed

lemma sort_key_unique:
  assumes "set rows = set page" and "distinct (map k rows)"
    and "sorted (map k page)" and "distinct (map k page)"
  shows "sort_key k rows = page"
proof (rule map_sorted_distinct_set_unique [of k])
  show "inj_on k (set (sort_key k rows) \<union> set page)"
    using assms(1,4) by (simp add: distinct_map)
  show "distinct (map k (sort_key k rows))"
    using assms(2) by (simp add: distinct_map)
  show "set (sort_key k rows) = set page" using assms(1) by simp
qed (use assms in simp_all)

lemma read_blocks_unique:
  assumes "set (db_blocks db) = set page" and "length (db_blocks db) = length page"
    and "map blk_position page = [0..<length page]"
  shows "read_blocks db = page"
proof -
  have page: "distinct (map blk_position page)" using assms(3) by simp
  then have "card (set page) = length page" by (simp add: distinct_map distinct_card)
  then have "distinct (db_blocks db)"
    using assms(1,2) by (intro card_distinct) simp
  then have "distinct (map blk_position (db_blocks db))"
    using page assms(1) by (simp add: distinct_map)
  then show ?thesis
    unfolding read_blocks_def using assms page by (intro sort_key_unique) simp_all
qed

lemma set_read_blocks [simp]: "set (read_blocks db) = set (db_blocks db)"
  by (simp add: read_blocks_def)

lemma length_read_blocks [simp]: "length (read_blocks db) = length (db_blocks db)"
  by (simp add: read_blocks_def)

lemma distinct_read_blocks:
  "distinct (map f (read_blocks db)) \<longleftrightarrow> distinct (map f (db_blocks db))"
proof -
  have "mset (map f (read_blocks db)) = mset (map f (db_blocks db))"
    by (simp add: read_blocks_def)
  then show ?thesis by (rule mset_eq_imp_distinct_iff)
qed

section \<open>What a page always is\<close>

text \<open>
  Every entry the kind requires has its block, with an element in it for each one it pins.
\<close>

definition core_kept :: "string \<Rightarrow> block list \<Rightarrow> bool" where
  "core_kept kind bs \<longleftrightarrow>
     (case catalog kind of
        None \<Rightarrow> False
      | Some ds \<Rightarrow>
          list_all (\<lambda>d. def_required d \<longrightarrow>
            list_ex (\<lambda>b. blk_definition b = def_id d \<and>
              list_all (\<lambda>p. de_pinned p \<longrightarrow>
                list_ex (\<lambda>e. el_role e = de_role p \<and> el_type e = de_type p) (blk_elements b))
                (def_elements d)) bs) ds)"

definition page_ok :: "string \<Rightarrow> block list \<Rightarrow> bool" where
  "page_ok kind bs \<longleftrightarrow>
     distinct (map blk_id bs) \<and> map blk_position bs = [0..<length bs] \<and>
     page_allowed kind bs bs \<and> core_kept kind bs"

text \<open>The public rows hold no sealed text, and the store has a text for each that was taken out.\<close>

definition sealed_ok :: "protected_store \<Rightarrow> block list \<Rightarrow> bool" where
  "sealed_ok st bs \<longleftrightarrow>
     list_all (\<lambda>f. frag_protected f \<longrightarrow> frag_text f = []) (page_prompts bs) \<and>
     dom (map_of (payloads st)) = frag_id ` {f \<in> set (page_prompts bs). frag_protected f} \<and>
     (payloads st = [] \<longleftrightarrow> apps st = [])"

definition db_ok :: "page_db \<Rightarrow> bool" where
  "db_ok db \<longleftrightarrow>
     page_ok (ast_kind db) (read_blocks db) \<and> sealed_ok (db_protected db) (read_blocks db)"

section \<open>Rewriting the texts of a page\<close>

text \<open>Only texts differ between a page as it is stored and as its owner sees it.\<close>

definition same_shape :: "block \<Rightarrow> block \<Rightarrow> bool" where
  "same_shape b c \<longleftrightarrow>
     blk_id b = blk_id c \<and> blk_definition b = blk_definition c \<and> blk_layout b = blk_layout c \<and>
     blk_width b = blk_width c \<and> blk_position b = blk_position c \<and>
     map el_id (blk_elements b) = map el_id (blk_elements c) \<and>
     map el_role (blk_elements b) = map el_role (blk_elements c) \<and>
     map el_type (blk_elements b) = map el_type (blk_elements c)"

abbreviation retext :: "(prompt_fragment \<Rightarrow> prompt_fragment) \<Rightarrow> block list \<Rightarrow> block list" where
  "retext g bs \<equiv> map (map_block g) bs"

lemma map_element_fields [simp]:
  "el_id (map_element g e) = el_id e" "el_role (map_element g e) = el_role e"
  "el_type (map_element g e) = el_type e" "el_slot (map_element g e) = el_slot e"
  "el_options (map_element g e) = el_options e"
  by (auto simp: map_element_def split: option.splits content.splits)

lemma map_block_fields [simp]:
  "blk_id (map_block g b) = blk_id b" "blk_definition (map_block g b) = blk_definition b"
  "blk_layout (map_block g b) = blk_layout b" "blk_width (map_block g b) = blk_width b"
  "blk_position (map_block g b) = blk_position b" "blk_hidden (map_block g b) = blk_hidden b"
  "blk_title (map_block g b) = blk_title b"
  "blk_elements (map_block g b) = map (map_element g) (blk_elements b)"
  by (simp_all add: map_block_def)

lemma page_elements_retext: "page_elements (retext g bs) = map (map_element g) (page_elements bs)"
  by (induction bs) simp_all

lemma arrangement_ok_retext [simp]: "arrangement_ok kind (map_block g b) = arrangement_ok kind b"
  by (simp add: arrangement_ok_def split: option.split)

lemma pinned_present_retext [simp]:
  "pinned_element_present (retext g bs) i e = pinned_element_present bs i e"
  "pinned_element_present bs i (map_element g e) = pinned_element_present bs i e"
  by (simp_all add: pinned_element_present_def list_ex_iff)

lemma block_pinned_retext [simp]: "block_pinned (map_block g b) r kind = block_pinned b r kind"
  by (simp add: block_pinned_def)

lemma page_allowed_retext [simp]:
  "page_allowed kind (retext g bs) (retext h cs) = page_allowed kind bs cs"
  by (simp add: page_allowed_def page_elements_retext list_all_iff comp_def image_image)

lemma core_kept_retext [simp]: "core_kept kind (retext g bs) = core_kept kind bs"
  by (simp add: core_kept_def list_all_iff list_ex_iff split: option.splits)

lemma page_ok_retext [simp]: "page_ok kind (retext g bs) = page_ok kind bs"
  by (simp add: page_ok_def comp_def)

lemma page_allowed_self: "page_allowed kind bs cs \<Longrightarrow> page_allowed kind cs cs"
  by (simp add: page_allowed_def list_all_iff pinned_present_self)

lemma page_allowed_refl_iff:
  "page_allowed kind bs bs \<longleftrightarrow>
     list_all (arrangement_ok kind) bs \<and>
     distinct (filter (\<lambda>i. \<not> repeatable kind i) (map blk_definition bs)) \<and>
     list_all (\<lambda>e. role_fits (el_role e) (el_type e)) (page_elements bs) \<and>
     distinct (filter singular (map el_role (page_elements bs))) \<and>
     distinct (map el_id (page_elements bs))"
  by (auto simp: page_allowed_def list_all_iff pinned_present_self)

section \<open>Sealed pages\<close>

lemma sealed_ok_blank:
  assumes "sealed_ok st bs"
  shows "retext blank_text bs = bs"
  using assms by (intro map_block_same) (auto simp: sealed_ok_def list_all_iff blank_text_def)

lemma sealed_ok_restores:
  assumes "sealed_ok st bs"
  shows "restore_prompt_fragments st bs = Inr (retext (with_text st) bs)"
proof -
  have "map_of (payloads st) (frag_id f) \<noteq> None"
    if "f \<in> set (page_prompts bs)" "frag_protected f" for f
  proof -
    have "frag_id f \<in> dom (map_of (payloads st))" using assms that by (auto simp: sealed_ok_def)
    then show ?thesis by blast
  qed
  then show ?thesis by (simp add: restore_iff)
qed

lemma sealed_ok_sync:
  assumes "sync_prompt_fragments hash bs requested st = Inr (bs', st')"
  shows "sealed_ok st' bs' \<and> bs' = retext blank_text bs"
proof -
  have bs': "bs' = retext blank_text bs" using assms by (rule sync_cases) simp_all
  have id: "frag_id (blank_text f) = frag_id f" "frag_protected (blank_text f) = frag_protected f" for f
    by (simp_all add: blank_text_def)
  have "frag_id ` {f \<in> set (page_prompts bs'). frag_protected f} =
      frag_id ` {f \<in> set (page_prompts bs). frag_protected f}"
  proof -
    have "{f \<in> set (page_prompts bs'). frag_protected f} =
        blank_text ` {f \<in> set (page_prompts bs). frag_protected f}"
      by (auto simp: bs' id)
    then show ?thesis by (simp add: image_image id)
  qed
  with sync_store [OF assms] show ?thesis
    by (auto simp: sealed_ok_def bs' list_all_iff blank_text_def)
qed

lemma sealed_ok_same_prompts:
  "\<lbrakk>sealed_ok st bs; set (page_prompts cs) = set (page_prompts bs)\<rbrakk> \<Longrightarrow> sealed_ok st cs"
  by (simp add: sealed_ok_def list_all_iff)

text \<open>What every reader of a sound page sees, and what its owner sees.\<close>

definition owner_page :: "page_db \<Rightarrow> block list" where
  "owner_page db = retext (with_text (db_protected db)) (read_blocks db)"

lemma db_ok_restores:
  "db_ok db \<Longrightarrow> restore_prompt_fragments (db_protected db) (read_blocks db) = Inr (owner_page db)"
  by (simp add: db_ok_def owner_page_def sealed_ok_restores)

lemma blank_with_text [simp]: "blank_text (with_text st f) = blank_text f"
  by (simp add: blank_text_def with_text_def)

lemma blank_with_text_element [simp]:
  "map_element blank_text (map_element (with_text st) e) = map_element blank_text e"
  by (simp add: map_element_comp comp_def)

lemma db_ok_blank:
  assumes "db_ok db"
  shows "retext blank_text (owner_page db) = read_blocks db"
proof -
  have "retext blank_text (owner_page db) = retext blank_text (read_blocks db)"
    by (simp add: owner_page_def map_block_comp comp_def)
  then show ?thesis
    using assms sealed_ok_blank [of "db_protected db" "read_blocks db"] by (simp add: db_ok_def)
qed

lemma map_fixed: "map f xs = xs \<Longrightarrow> x \<in> set xs \<Longrightarrow> f x = x"
  by (induction xs) auto

lemma db_ok_block_blank: "db_ok db \<Longrightarrow> b \<in> set (db_blocks db) \<Longrightarrow> map_block blank_text b = b"
  using map_fixed [OF sealed_ok_blank, of "db_protected db" "read_blocks db" b]
  by (simp add: db_ok_def)

section \<open>Reading an edit's own statements\<close>

lemma lock_Inr:
  "lock_editable_asset owner db = Inr kind \<longleftrightarrow>
     ast_owner db = owner \<and> \<not> ast_deleted db \<and> \<not> ast_withheld db \<and> kind = ast_kind db"
  by (auto simp: lock_editable_asset_def)

lemma fingerprint_generation [simp]:
  "content_fingerprint env (db\<lparr>ast_generation := n\<rparr>) = content_fingerprint env db"
  by (simp add: content_fingerprint_def read_blocks_def fingerprint_header_def
      fingerprint_preserved_def fingerprint_pictures_def)

lemma move_generation:
  assumes "move_content_generation env before db = Inr db'"
  shows "\<exists>n. db' = db\<lparr>ast_generation := n\<rparr> \<and>
    n = ast_generation db + (if content_fingerprint env db' = Inr before then 0 else 1) \<and>
    (\<exists>after. content_fingerprint env db' = Inr after)"
  using assms by (auto simp: move_content_generation_def and_then_Inr split: if_splits)

text \<open>What of an asset no edit of its page touches.\<close>

definition same_asset :: "page_db \<Rightarrow> page_db \<Rightarrow> bool" where
  "same_asset db db' \<longleftrightarrow>
     ast_owner db' = ast_owner db \<and> ast_kind db' = ast_kind db \<and> ast_origin db' = ast_origin db \<and>
     ast_header db' = ast_header db \<and> ast_cover db' = ast_cover db \<and>
     ast_withheld db' = ast_withheld db \<and> ast_deleted db' = ast_deleted db \<and>
     db_media db' = db_media db"

definition owned_rows :: "block list \<Rightarrow> preserved_row list \<Rightarrow> preserved_row list" where
  "owned_rows bs rows = filter (\<lambda>p. prs_owner_kind p = OwnerAsset \<or> prs_owner p \<in> set (owners bs)) rows"

definition counts_fingerprint :: "environment \<Rightarrow> page_db \<Rightarrow> page_db \<Rightarrow> bool" where
  "counts_fingerprint env db db' \<longleftrightarrow>
     ast_generation db' =
       ast_generation db + (if content_fingerprint env db' = content_fingerprint env db then 0 else 1)"

lemma same_asset_simps [simp]:
  "same_asset db db"
  "same_asset db0 (db\<lparr>db_blocks := bs\<rparr>) = same_asset db0 db"
  "same_asset db0 (db\<lparr>db_protected := st\<rparr>) = same_asset db0 db"
  "same_asset db0 (db\<lparr>db_preserved := ps\<rparr>) = same_asset db0 db"
  by (simp_all add: same_asset_def)

lemma write_projections_fields [simp]:
  "db_blocks (write_projections env db) = db_blocks db"
  "db_protected (write_projections env db) = db_protected db"
  "db_preserved (write_projections env db) = db_preserved db"
  "ast_generation (write_projections env db) = ast_generation db"
  "same_asset db0 (write_projections env db) = same_asset db0 db"
  "db_blocks (write_facet_projection db) = db_blocks db"
  "db_protected (write_facet_projection db) = db_protected db"
  "db_preserved (write_facet_projection db) = db_preserved db"
  "ast_generation (write_facet_projection db) = ast_generation db"
  "same_asset db0 (write_facet_projection db) = same_asset db0 db"
  by (simp_all add: write_projections_def write_facet_projection_def write_export_projection_def
      same_asset_def)

lemma move_facts:
  assumes "move_content_generation env fingerprint db1 = Inr db'"
    and "content_fingerprint env db = Inr fingerprint"
    and "ast_generation db1 = ast_generation db" and "same_asset db db1"
  shows "db_blocks db' = db_blocks db1 \<and> db_protected db' = db_protected db1 \<and> same_asset db db' \<and>
    db_preserved db' = db_preserved db1 \<and> counts_fingerprint env db db'"
proof -
  from move_generation [OF assms(1)] obtain n where
    db': "db' = db1\<lparr>ast_generation := n\<rparr>" and
    n: "n = ast_generation db1 + (if content_fingerprint env db' = Inr fingerprint then 0 else 1)"
    by blast
  have "ast_generation db' = n" by (simp add: db')
  with n have "counts_fingerprint env db db'"
    by (simp only: counts_fingerprint_def assms(2,3))
  moreover have "db_blocks db' = db_blocks db1 \<and> db_protected db' = db_protected db1 \<and>
      same_asset db db' \<and> db_preserved db' = db_preserved db1"
    using assms(4) unfolding db' by (simp add: same_asset_def)
  ultimately show ?thesis by blast
qed

lemma settle_facts:
  assumes "settle env fingerprint bs db1 = Inr db'" and "content_fingerprint env db = Inr fingerprint"
    and "ast_generation db1 = ast_generation db" and "same_asset db db1"
  shows "db_blocks db' = db_blocks db1 \<and> db_protected db' = db_protected db1 \<and> same_asset db db' \<and>
    db_preserved db' = owned_rows bs (db_preserved db1) \<and> counts_fingerprint env db db'"
  using move_facts [OF assms(1) [unfolded settle_def] assms(2)] assms(3,4)
  by (simp add: drop_unowned_preserved_data_def owned_rows_def)

lemma read_blocks_congr: "db_blocks db = db_blocks db' \<Longrightarrow> read_blocks db = read_blocks db'"
  by (simp add: read_blocks_def)

lemma set_rows_read:
  assumes "\<And>b. blk_position (f b) = blk_position b"
  shows "read_blocks (set_rows i f db) = map (\<lambda>b. if blk_id b = i then f b else b) (read_blocks db)"
  using assms by (simp add: read_blocks_def set_rows_def sort_key_map_same)

lemma set_rows_fields [simp]:
  "db_protected (set_rows i f db) = db_protected db" "db_preserved (set_rows i f db) = db_preserved db"
  "ast_generation (set_rows i f db) = ast_generation db" "ast_kind (set_rows i f db) = ast_kind db"
  "same_asset db0 (set_rows i f db) = same_asset db0 db"
  by (simp_all add: set_rows_def same_asset_def)

lemma read_blocks_protected [simp]: "read_blocks (db\<lparr>db_protected := st\<rparr>) = read_blocks db"
  by (simp add: read_blocks_def)

lemma update_first_map:
  "distinct (map blk_id bs) \<Longrightarrow>
     update_first i u bs = map (\<lambda>b. if blk_id b = i then updated u b else b) bs"
proof (induction bs)
  case Nil
  then show ?case by simp
next
  case (Cons b bs)
  have "map (\<lambda>b. if blk_id b = i then updated u b else b) bs = bs" if "blk_id b = i"
    by (rule map_idI) (use Cons.prems that in \<open>auto simp: image_iff\<close>)
  with Cons show ?case by simp
qed

lemma updated_fields [simp]:
  "blk_id (updated u b) = blk_id b" "blk_definition (updated u b) = blk_definition b"
  "blk_position (updated u b) = blk_position b" "blk_hidden (updated u b) = blk_hidden b"
  "blk_elements (updated u b) = upd_elements u" "blk_layout (updated u b) = upd_layout u"
  "blk_width (updated u b) = upd_width u" "blk_title (updated u b) = upd_title u"
  by (simp_all add: updated_def)

lemma block_with_Some: "block_with i bs = Some b \<Longrightarrow> b \<in> set bs \<and> blk_id b = i"
  by (auto simp: block_with_def find_Some_iff)

lemma block_with_unique:
  "\<lbrakk>distinct (map blk_id bs); b \<in> set bs\<rbrakk> \<Longrightarrow> block_with (blk_id b) bs = Some b"
  unfolding block_with_def by (rule find_unique)

lemma block_with_map:
  assumes "\<And>b. blk_id (f b) = blk_id b"
  shows "block_with i (map f bs) = map_option f (block_with i bs)"
  using assms by (induction bs) (auto simp: block_with_def)

text \<open>The digest of a sound asset is there once its contents can be written as JSON.\<close>

definition printable :: "environment \<Rightarrow> bool" where
  "printable env \<longleftrightarrow> (\<forall>c. \<exists>body. env_content_json env c = Inr body)"

lemma fingerprint_total:
  assumes "printable env" and "restore_prompt_fragments (db_protected db) (read_blocks db) = Inr bs"
    and "\<not> ast_deleted db"
  shows "\<exists>fp. content_fingerprint env db = Inr fp"
proof -
  have "\<exists>d. each_from n (fingerprint_element env) es digest = Inr d" for n es digest
  proof (induction es arbitrary: n digest)
    case (Cons e es)
    have "\<exists>d. fingerprint_element env n e digest = Inr d"
      using assms(1)
      by (auto simp: fingerprint_element_def printable_def split: option.split) (metis sum.simps(6))
    with Cons show ?case by auto
  qed simp
  from this [of 0] show ?thesis
    using assms(2,3) by (auto simp: content_fingerprint_def Let_def and_then_def split: sum.split) (metis sum.distinct(1))
qed

lemma settle_total:
  assumes "printable env" and "sealed_ok (db_protected db) (read_blocks db)" and "\<not> ast_deleted db"
  shows "\<exists>db'. settle env fp bs db = Inr db'"
proof -
  let ?db = "write_projections env (drop_unowned_preserved_data bs db)"
  have "read_blocks ?db = read_blocks db" "db_protected ?db = db_protected db"
    "ast_deleted ?db = ast_deleted db"
    by (simp_all add: read_blocks_def drop_unowned_preserved_data_def write_projections_def
        write_facet_projection_def write_export_projection_def)
  then obtain after where "content_fingerprint env ?db = Inr after"
    using fingerprint_total [OF assms(1), of ?db] sealed_ok_restores [OF assms(2)] assms(3) by auto
  then show ?thesis by (simp add: settle_def move_content_generation_def)
qed

section \<open>What each edit does to the page\<close>

text \<open>\<^verbatim>\<open>SaveBlock\<close>: the owner's page with one block rewritten, sealed.\<close>

definition saved_page :: "uuid \<Rightarrow> block_update \<Rightarrow> page_db \<Rightarrow> block list" where
  "saved_page i u db =
     map (\<lambda>b. if blk_id b = i then updated u b else b) (owner_page db)"

lemma owner_page_ids [simp]: "map blk_id (owner_page db) = map blk_id (read_blocks db)"
  by (simp add: owner_page_def comp_def)

lemma saved_page_elements:
  "\<lbrakk>c \<in> set (saved_page i u db); blk_id c = i\<rbrakk> \<Longrightarrow> blk_elements c = upd_elements u"
proof -
  assume c: "c \<in> set (saved_page i u db)" "blk_id c = i"
  from c(1) obtain b where b: "c = (if blk_id b = i then updated u b else b)"
    unfolding saved_page_def set_map by (rule imageE)
  show ?thesis
  proof (cases "blk_id b = i")
    case False
    then show ?thesis using b c(2) by simp
  qed (simp add: b)
qed

text \<open>The rows after the update, read as a page, are the sealed page.\<close>

lemma saved_rows_read:
  assumes "db_ok db"
  shows "read_blocks (set_rows i (updated (u\<lparr>upd_elements := map (map_element blank_text) (upd_elements u)\<rparr>))
      db) = retext blank_text (saved_page i u db)"
proof -
  have "read_blocks (set_rows i (updated (u\<lparr>upd_elements := map (map_element blank_text) (upd_elements u)\<rparr>)) db) =
      map (map_block blank_text \<circ> (\<lambda>b. if blk_id b = i then updated u b else b) \<circ>
        map_block (with_text (db_protected db))) (read_blocks db)"
    unfolding set_rows_read [OF updated_fields(3)]
  proof (rule map_cong [OF refl])
    fix c assume "c \<in> set (read_blocks db)"
    then have "map_block blank_text c = c"
      using db_ok_block_blank [OF assms] by simp
    then show "(if blk_id c = i then updated (u\<lparr>upd_elements := map (map_element blank_text) (upd_elements u)\<rparr>) c
        else c) =
      (map_block blank_text \<circ> (\<lambda>b. if blk_id b = i then updated u b else b) \<circ>
        map_block (with_text (db_protected db))) c"
      by (simp add: updated_def map_block_def comp_def)
  qed
  then show ?thesis by (simp add: saved_page_def owner_page_def)
qed

lemma sealed_row_elements:
  assumes "block_with i (retext blank_text (saved_page i u db)) = Some row"
  shows "blk_elements row = map (map_element blank_text) (upd_elements u)"
proof -
  from block_with_Some [OF assms] obtain c where
    c: "c \<in> set (saved_page i u db)" "row = map_block blank_text c" "blk_id c = i"
    by (metis (no_types, lifting) imageE set_map map_block_fields(1))
  then show ?thesis using saved_page_elements [OF c(1,3)] by simp
qed

lemma save_block_page:
  assumes "db_ok db" and "save_block_tx env owner i u db = Inr (db', sealed)"
  shows "sealed = retext blank_text (saved_page i u db) \<and> read_blocks db' = sealed \<and>
    sealed_ok (db_protected db') sealed \<and>
    page_allowed (ast_kind db) (owner_page db) (saved_page i u db) \<and>
    (\<exists>b. block_with i (owner_page db) = Some b \<and> well_structured (env_encoder env) (updated u b)) \<and>
    same_asset db db' \<and> db_preserved db' = owned_rows sealed (db_preserved db) \<and>
    counts_fingerprint env db db' \<and> lock_editable_asset owner db = Inr (ast_kind db) \<and>
    (\<exists>store. sync_prompt_fragments (env_sha256 env) (saved_page i u db) (upd_apps u) (db_protected db) =
       Inr (sealed, store) \<and> db_protected db' = store)"
proof -
  have ids: "distinct (map blk_id (owner_page db))"
    using assms(1) by (simp add: db_ok_def page_ok_def)
  have blocks: "update_first i u (owner_page db) = saved_page i u db"
    using update_first_map [OF ids] by (simp add: saved_page_def)
  note restores = db_ok_restores [OF assms(1)]
  from assms(2) obtain fp b store row where
    lock: "lock_editable_asset owner db = Inr (ast_kind db)" and
    fp: "content_fingerprint env db = Inr fp" and
    b: "block_with i (owner_page db) = Some b" and
    shape: "validate_structure (env_encoder env) (updated u b) = Inr ()" and
    allowed: "validate_builder_constraints (ast_kind db) (owner_page db) (saved_page i u db) = Inr ()" and
    sync: "sync_prompt_fragments (env_sha256 env) (saved_page i u db) (upd_apps u) (db_protected db) =
      Inr (sealed, store)" and
    row: "block_with i sealed = Some row" and
    settled: "settle env fp sealed (set_rows i (updated (u\<lparr>upd_elements := blk_elements row\<rparr>))
      (db\<lparr>db_protected := store\<rparr>)) = Inr db'"
    by (auto simp: save_block_tx_def and_then_Inr restores blocks Let_def lock_Inr)
  have "same_asset db (db\<lparr>db_protected := store\<rparr>)" by (simp add: same_asset_def)
  with settle_facts [OF settled fp] have
    facts: "db_blocks db' = db_blocks (set_rows i (updated (u\<lparr>upd_elements := blk_elements row\<rparr>))
        (db\<lparr>db_protected := store\<rparr>))"
      "db_protected db' = store" "same_asset db db'"
      "db_preserved db' = owned_rows sealed (db_preserved db)" "counts_fingerprint env db db'"
    by simp_all
  from sealed_ok_sync [OF sync] have
    sealed: "sealed_ok store sealed" "sealed = retext blank_text (saved_page i u db)" by blast+
  have "blk_elements row = map (map_element blank_text) (upd_elements u)"
    using row unfolding sealed(2) by (rule sealed_row_elements)
  then have "read_blocks db' = sealed"
    using read_blocks_congr [OF facts(1)] saved_rows_read [OF assms(1), of i u]
    by (simp add: set_rows_read sealed(2))
  with sealed facts sync lock allowed b shape show ?thesis
    by (simp add: builder_constraints_allowed structure_well_structured)
qed

text \<open>\<^verbatim>\<open>AddBlock\<close>: the page with the new block at its foot.\<close>

lemma new_block_facts:
  assumes "new_block kind d t page src = Inr (b, src')"
  shows "blk_definition b = d \<and> blk_position b = length page \<and> \<not> blk_hidden b \<and>
    concat (map prompts_of (blk_elements b)) = [] \<and>
    (\<exists>x. definition_of d kind = Some x \<and> \<not> def_required x)"
proof -
  from assms obtain x and chosen :: start and l es src1 where
    x: "definition_of d kind = Some x" "\<not> def_required x" and
    es: "collect (start_one l) (start_elements chosen) src = Inr (es, src1)" and
    b: "blk_definition b = d" "blk_position b = length page" "\<not> blk_hidden b" "blk_elements b = es"
    by (auto simp: new_block_def split: option.splits sum.splits if_splits)
  have "list_all (\<lambda>e. prompts_of e = []) es"
  proof (rule collect_from_all [OF es])
    fix j p s e s' assume "start_one l j p s = Inr (e, s')"
    then show "prompts_of e = []"
      by (auto simp: start_one_def prompts_of_def type_empty_def schemas_def
          split: option.splits if_splits)
  qed
  then have "concat (map prompts_of es) = []" by (simp add: list_all_iff)
  with x b show ?thesis by simp
qed

lemma add_block_page:
  assumes "db_ok db" and "add_block_tx env owner d t src db = Inr (db', added)"
  shows "read_blocks db' = read_blocks db @ [added] \<and>
    page_prompts (read_blocks db') = page_prompts (read_blocks db) \<and>
    page_allowed (ast_kind db) (read_blocks db') (read_blocks db') \<and>
    blk_position added = length (read_blocks db) \<and> db_blocks db' = db_blocks db @ [added] \<and>
    db_protected db' = db_protected db \<and> same_asset db db' \<and> db_preserved db' = db_preserved db \<and>
    counts_fingerprint env db db' \<and> lock_editable_asset owner db = Inr (ast_kind db) \<and>
    (\<exists>src'. new_block (ast_kind db) d t (read_blocks db) src = Inr (added, src')) \<and>
    well_structured (env_encoder env) added"
proof -
  from assms(2) obtain fp src' where
    lock: "lock_editable_asset owner db = Inr (ast_kind db)" and
    fp: "content_fingerprint env db = Inr fp" and
    new: "new_block (ast_kind db) d t (read_blocks db) src = Inr (added, src')" and
    shape: "validate_structure (env_encoder env) added = Inr ()" and
    allowed: "validate_builder_constraints (ast_kind db) (read_blocks db @ [added])
      (read_blocks db @ [added]) = Inr ()" and
    moved: "move_content_generation env fp (write_projections env
      (db\<lparr>db_blocks := db_blocks db @ [added]\<rparr>)) = Inr db'"
    by (auto simp: add_block_tx_def and_then_Inr Let_def lock_Inr insert_block_def)
  have rows: "db_blocks db' = db_blocks db @ [added]" and fields: "db_protected db' = db_protected db"
    "same_asset db db'" "db_preserved db' = db_preserved db" "counts_fingerprint env db db'"
    using move_facts [OF moved fp] by simp_all
  note facts = new_block_facts [OF new]
  have positions: "map blk_position (read_blocks db) = [0..<length (read_blocks db)]"
    using assms(1) by (simp add: db_ok_def page_ok_def)
  have "read_blocks db' = read_blocks db @ [added]"
  proof (rule read_blocks_unique)
    show "set (db_blocks db') = set (read_blocks db @ [added])" by (simp add: rows)
    show "length (db_blocks db') = length (read_blocks db @ [added])" by (simp add: rows)
    show "map blk_position (read_blocks db @ [added]) = [0..<length (read_blocks db @ [added])]"
      using positions facts by simp
  qed
  moreover have "page_prompts (read_blocks db @ [added]) = page_prompts (read_blocks db)"
    using facts by (simp add: page_prompts_def)
  ultimately show ?thesis
    using rows fields facts lock allowed shape new
    by (simp add: builder_constraints_allowed structure_well_structured)
qed

text \<open>Several rows updated, each by its identifier.\<close>

lemma fold_set_rows:
  assumes "distinct (map fst ups)" and "\<And>i f b. (i, f) \<in> set ups \<Longrightarrow> blk_id (f b) = blk_id b"
  shows "db_blocks (fold (\<lambda>(i, f). set_rows i f) ups db) =
    map (\<lambda>b. case map_of ups (blk_id b) of None \<Rightarrow> b | Some f \<Rightarrow> f b) (db_blocks db)"
  using assms
proof (induction ups arbitrary: db)
  case Nil
  then show ?case by (simp add: map_idI)
next
  case (Cons u ups)
  obtain i f where u: "u = (i, f)" by (cases u)
  have new: "map_of ups i = None"
    using Cons.prems(1) u by (simp add: map_of_eq_None_iff)
  have id: "blk_id (f b) = blk_id b" for b using Cons.prems(2) [of i f b] u by simp
  have "db_blocks (fold (\<lambda>(i, f). set_rows i f) ups (set_rows i f db)) =
      map (\<lambda>b. case map_of ups (blk_id b) of None \<Rightarrow> b | Some f \<Rightarrow> f b)
        (db_blocks (set_rows i f db))"
    by (rule Cons.IH) (use Cons.prems in auto)
  moreover have "db_blocks (set_rows i f db) = map (\<lambda>b. if blk_id b = i then f b else b) (db_blocks db)"
    by (simp add: set_rows_def)
  ultimately show ?case
    using new id by (simp add: u)
qed

lemma fold_set_rows_fields:
  "db_protected (fold (\<lambda>(i, f). set_rows i f) ups db) = db_protected db \<and>
   db_preserved (fold (\<lambda>(i, f). set_rows i f) ups db) = db_preserved db \<and>
   ast_generation (fold (\<lambda>(i, f). set_rows i f) ups db) = ast_generation db \<and>
   same_asset db0 (fold (\<lambda>(i, f). set_rows i f) ups db) = same_asset db0 db"
  by (induction ups arbitrary: db) (simp_all add: case_prod_unfold)

text \<open>\<^verbatim>\<open>ArrangeBlocks\<close>: the blocks of the page in the order asked for.\<close>

definition arranged :: "block \<Rightarrow> block \<Rightarrow> bool" where
  "arranged b h \<longleftrightarrow>
     h = b\<lparr>blk_position := blk_position h, blk_hidden := blk_hidden h, blk_width := blk_width h\<rparr>"

lemma arrange_one_facts:
  assumes "arrange_one kind bs n c seen = Inr (h, seen')"
  shows "arr_id c \<notin> seen \<and> seen' = insert (arr_id c) seen \<and> blk_id h = arr_id c \<and>
    blk_position h = n \<and> blk_hidden h = arr_hidden c \<and> blk_width h = arr_width c \<and>
    (\<exists>b \<in> set bs. arranged b h) \<and>
    (\<forall>d. definition_of (blk_definition h) kind = Some d \<longrightarrow> blk_hidden h \<longrightarrow>
       \<not> def_required d \<or> def_hideable d)"
proof -
  from assms obtain b where b: "map_of (rev (map (\<lambda>b. (blk_id b, b)) bs)) (arr_id c) = Some b"
    by (auto simp: arrange_one_def split: option.splits)
  from map_of_SomeD [OF b] have "b \<in> set bs" "blk_id b = arr_id c" by auto
  with assms b show ?thesis
    by (auto simp: arrange_one_def arranged_def split: option.splits if_splits)
qed

lemma arrange_run:
  assumes "collect_from i (arrange_one kind bs) cs seen = Inr (after, seen')"
  shows "map blk_position after = [i..<i + length after] \<and> map blk_id after = map arr_id cs \<and>
    distinct (map arr_id cs) \<and> arr_id ` set cs \<inter> seen = {} \<and>
    (\<forall>h \<in> set after. (\<exists>b \<in> set bs. arranged b h) \<and>
       (\<forall>d. definition_of (blk_definition h) kind = Some d \<longrightarrow> blk_hidden h \<longrightarrow>
         \<not> def_required d \<or> def_hideable d))"
  using assms
proof (induction cs arbitrary: i seen after)
  case Nil
  then show ?case by simp
next
  case (Cons c cs)
  then obtain h seen1 rest where one: "arrange_one kind bs i c seen = Inr (h, seen1)"
    and tail: "collect_from (Suc i) (arrange_one kind bs) cs seen1 = Inr (rest, seen')"
    and after: "after = h # rest"
    by (auto split: sum.splits prod.splits)
  from arrange_one_facts [OF one] Cons.IH [OF tail] show ?case
    by (auto simp: after upt_conv_Cons simp del: upt_Suc)
qed

lemma arranged_fields:
  "arranged b h \<Longrightarrow> blk_id h = blk_id b \<and> blk_definition h = blk_definition b \<and>
     blk_layout h = blk_layout b \<and> blk_title h = blk_title b \<and> blk_elements h = blk_elements b"
  unfolding arranged_def by (metis block.select_convs block.surjective block.update_convs)

text \<open>
  Rows updated to the fields of a page with the same identifiers are that page, in any order.
\<close>

lemma fold_rows_page:
  assumes ids: "distinct (map blk_id page)" and rows: "set (db_blocks db) = set old"
    and len: "length (db_blocks db) = length page"
    and old: "distinct (map blk_id old)" "blk_id ` set page \<subseteq> blk_id ` set old"
    and step: "\<And>h b. \<lbrakk>h \<in> set page; b \<in> set old; blk_id b = blk_id h\<rbrakk> \<Longrightarrow> f h b = h"
    and keeps: "\<And>h b. blk_id (f h b) = blk_id b"
    and positions: "map blk_position page = [0..<length page]"
    and lens: "length old = length page"
  shows "read_blocks (fold (\<lambda>(i, f). set_rows i f) (map (\<lambda>h. (blk_id h, f h)) page) db) = page"
proof (rule read_blocks_unique)
  let ?ups = "map (\<lambda>h. (blk_id h, f h)) page"
  let ?db = "fold (\<lambda>(i, f). set_rows i f) ?ups db"
  have blocks: "db_blocks ?db =
      map (\<lambda>b. case map_of ?ups (blk_id b) of None \<Rightarrow> b | Some g \<Rightarrow> g b) (db_blocks db)"
    by (rule fold_set_rows) (use ids keeps in \<open>auto simp: comp_def\<close>)
  have look: "map_of ?ups (blk_id h) = Some (f h)" if "h \<in> set page" for h
    by (rule map_of_is_SomeI) (use ids that in \<open>auto simp: comp_def\<close>)
  have "card (blk_id ` set page) = card (blk_id ` set old)"
    using distinct_card [OF ids] distinct_card [OF old(1)] lens by simp
  then have same: "blk_id ` set page = blk_id ` set old"
    using old(2) by (intro card_subset_eq) simp_all
  show "set (db_blocks ?db) = set page"
  proof
    show "set (db_blocks ?db) \<subseteq> set page"
    proof
      fix c assume "c \<in> set (db_blocks ?db)"
      then obtain b where b: "b \<in> set old"
        "c = (case map_of ?ups (blk_id b) of None \<Rightarrow> b | Some g \<Rightarrow> g b)"
        unfolding blocks set_map rows by (rule imageE)
      have "blk_id b \<in> blk_id ` set page" using b(1) same by blast
      then obtain h where h: "h \<in> set page" "blk_id b = blk_id h" by (rule imageE)
      then show "c \<in> set page" using b look [OF h(1)] step [OF h(1) b(1) h(2)] by simp
    qed
    show "set page \<subseteq> set (db_blocks ?db)"
    proof
      fix h assume h: "h \<in> set page"
      then have "blk_id h \<in> blk_id ` set old" using same by blast
      then obtain b where b: "b \<in> set old" "blk_id b = blk_id h" by (metis imageE)
      have "(case map_of ?ups (blk_id b) of None \<Rightarrow> b | Some g \<Rightarrow> g b) = h"
        using look [OF h] step [OF h b] by (simp add: b(2))
      then show "h \<in> set (db_blocks ?db)"
        unfolding blocks set_map rows using b(1) by (metis (no_types, lifting) imageI)
    qed
  qed
  show "length (db_blocks ?db) = length page" by (simp add: blocks len)
qed (rule positions)

lemma arrange_rows_fold:
  "fold arrange_row hs db =
   fold (\<lambda>(i, f). set_rows i f)
     (map (\<lambda>h. (blk_id h, \<lambda>b. b\<lparr>blk_position := blk_position h, blk_hidden := blk_hidden h,
       blk_width := blk_width h\<rparr>)) hs) db"
  by (induction hs arbitrary: db) (simp_all add: arrange_row_def)

lemma arrange_blocks_page:
  assumes "db_ok db" and "arrange_blocks_tx owner choices db = Inr (db', after)"
  shows "read_blocks db' = after \<and> map blk_id after = map arr_id choices \<and>
    distinct (map blk_id after) \<and> set (map blk_id after) = set (map blk_id (read_blocks db)) \<and>
    (\<forall>h \<in> set after. (\<exists>b \<in> set (read_blocks db). arranged b h) \<and>
       (\<forall>d. definition_of (blk_definition h) (ast_kind db) = Some d \<longrightarrow> blk_hidden h \<longrightarrow>
         \<not> def_required d \<or> def_hideable d)) \<and>
    map blk_position after = [0..<length after] \<and>
    page_allowed (ast_kind db) (read_blocks db) after \<and>
    db_protected db' = db_protected db \<and> same_asset db db' \<and> db_preserved db' = db_preserved db \<and>
    ast_generation db' = ast_generation db \<and> lock_editable_asset owner db = Inr (ast_kind db)"
proof -
  from assms(2) obtain seen where
    lock: "lock_editable_asset owner db = Inr (ast_kind db)" and
    len: "length choices = length (read_blocks db)" and
    run: "collect (arrange_one (ast_kind db) (read_blocks db)) choices {} = Inr (after, seen)" and
    allowed: "validate_builder_constraints (ast_kind db) (read_blocks db) after = Inr ()" and
    db': "db' = write_facet_projection (fold arrange_row after db)"
    by (auto simp: arrange_blocks_tx_def and_then_Inr Let_def lock_Inr)
  note facts = arrange_run [OF run]
  have lens: "length after = length (read_blocks db)"
    using collect_from_length [OF run] len by simp
  have ids: "distinct (map blk_id after)" using facts by simp
  have old: "distinct (map blk_id (read_blocks db))"
    using assms(1) by (simp add: db_ok_def page_ok_def)
  have sub: "blk_id ` set after \<subseteq> blk_id ` set (read_blocks db)"
  proof
    fix x assume "x \<in> blk_id ` set after"
    then obtain h where h: "h \<in> set after" "x = blk_id h" by blast
    with facts obtain b where "b \<in> set (read_blocks db)" "arranged b h" by blast
    then show "x \<in> blk_id ` set (read_blocks db)"
      using arranged_fields [of b h] h(2) by (metis imageI)
  qed
  have "card (blk_id ` set after) = card (blk_id ` set (read_blocks db))"
    using distinct_card [OF ids] distinct_card [OF old] lens by simp
  then have same: "blk_id ` set after = blk_id ` set (read_blocks db)"
    using sub by (intro card_subset_eq) simp_all
  have "read_blocks (fold arrange_row after db) = after"
    unfolding arrange_rows_fold
  proof (rule fold_rows_page [where old = "read_blocks db"])
    show "map blk_position after = [0..<length after]" using facts by simp
    fix h b assume h: "h \<in> set after" "b \<in> set (read_blocks db)" "blk_id b = blk_id h"
    then obtain c where c: "c \<in> set (read_blocks db)" "arranged c h" using facts by blast
    then have "b = c"
      using arranged_fields [OF c(2)] h(2,3) old by (metis distinct_map inj_onD)
    then show "b\<lparr>blk_position := blk_position h, blk_hidden := blk_hidden h,
        blk_width := blk_width h\<rparr> = h"
      using c(2) by (simp add: arranged_def)
  qed (use ids old sub lens in simp_all)
  then have "read_blocks db' = after"
    using read_blocks_congr [of db' "fold arrange_row after db"] by (simp add: db')
  moreover have "db_protected db' = db_protected db \<and> same_asset db db' \<and>
      db_preserved db' = db_preserved db \<and> ast_generation db' = ast_generation db"
    using fold_set_rows_fields [of _ db db] by (simp add: db' arrange_rows_fold)
  moreover have "arr_id ` set choices = blk_id ` set (db_blocks db)"
    using same arg_cong [OF conjunct1 [OF conjunct2 [OF facts]], of set] by simp
  ultimately show ?thesis
    using facts ids lock allowed by (simp add: builder_constraints_allowed)
qed

end
