(* ===== verification/PageRemovals.thy ===== *)
theory PageRemovals
  imports PageFacts
begin

text \<open>
  What \<^verbatim>\<open>RemoveBlock\<close>, \<^verbatim>\<open>MoveBlockContent\<close> and \<^verbatim>\<open>DeletePreservedNamespace\<close> do to a page: the rows
  that are left are numbered anew in the order they had.
\<close>

section \<open>Closing the positions\<close>

lemma renumbered_fields [simp]:
  "length (renumbered bs) = length bs"
  "map blk_id (renumbered bs) = map blk_id bs"
  "map blk_definition (renumbered bs) = map blk_definition bs"
  "map blk_elements (renumbered bs) = map blk_elements bs"
  "map blk_position (renumbered bs) = [0..<length bs]"
proof -
  show "length (renumbered bs) = length bs" by (simp add: renumbered_def)
  then show "map blk_id (renumbered bs) = map blk_id bs"
    "map blk_definition (renumbered bs) = map blk_definition bs"
    "map blk_elements (renumbered bs) = map blk_elements bs"
    "map blk_position (renumbered bs) = [0..<length bs]"
    by (auto intro!: nth_equalityI simp: renumbered_def nth_enumerate_eq)
qed

lemma set_renumbered:
  "set (renumbered bs) = (\<lambda>(n, b). b\<lparr>blk_position := n\<rparr>) ` set (enumerate 0 bs)"
  by (simp add: renumbered_def)

lemma renumbered_from: "h \<in> set (renumbered bs) \<Longrightarrow> \<exists>b \<in> set bs. \<exists>n. h = b\<lparr>blk_position := n\<rparr>"
  by (auto simp: set_renumbered in_set_enumerate_eq)

lemma renumbered_retext: "renumbered (retext g bs) = retext g (renumbered bs)"
  by (rule nth_equalityI) (simp_all add: renumbered_def nth_enumerate_eq map_block_def)

lemma page_elements_renumbered [simp]: "page_elements (renumbered bs) = page_elements bs"
  by (simp add: page_elements_def)

lemma page_prompts_renumbered [simp]: "page_prompts (renumbered bs) = page_prompts bs"
  by (simp add: page_prompts_def)

text \<open>The statements of \<^verbatim>\<open>deleteBlockAndClosePositions\<close>, over blocks with the rows' identifiers.\<close>

lemma close_positions_fold:
  "map blk_id hs = map blk_id page \<Longrightarrow>
   fold (\<lambda>(n, h). set_rows (blk_id h) (\<lambda>b. b\<lparr>blk_position := n\<rparr>)) (enumerate 0 hs) db =
   fold (\<lambda>(i, f). set_rows i f)
     (map (\<lambda>h. (blk_id h, \<lambda>b. b\<lparr>blk_position := blk_position h\<rparr>)) (renumbered page)) db"
proof -
  assume ids: "map blk_id hs = map blk_id page"
  have "map (\<lambda>(n, h). (blk_id h, \<lambda>b. b\<lparr>blk_position := n\<rparr>)) (enumerate 0 hs) =
      map (\<lambda>h. (blk_id h, \<lambda>b. b\<lparr>blk_position := blk_position h\<rparr>)) (renumbered page)"
  proof (rule nth_equalityI)
    have len: "length hs = length page" using arg_cong [OF ids, of length] by simp
    then show "length (map (\<lambda>(n, h). (blk_id h, \<lambda>b. b\<lparr>blk_position := n\<rparr>)) (enumerate 0 hs)) =
        length (map (\<lambda>h. (blk_id h, \<lambda>b. b\<lparr>blk_position := blk_position h\<rparr>)) (renumbered page))"
      by simp
    fix n assume n: "n < length (map (\<lambda>(n, h). (blk_id h, \<lambda>b. b\<lparr>blk_position := n\<rparr>)) (enumerate 0 hs))"
    then have "blk_id (hs ! n) = blk_id (page ! n)"
      using arg_cong [OF ids, of "\<lambda>xs. xs ! n"] len by simp
    then show "map (\<lambda>(n, h). (blk_id h, \<lambda>b. b\<lparr>blk_position := n\<rparr>)) (enumerate 0 hs) ! n =
        map (\<lambda>h. (blk_id h, \<lambda>b. b\<lparr>blk_position := blk_position h\<rparr>)) (renumbered page) ! n"
      using n len by (simp add: renumbered_def nth_enumerate_eq)
  qed
  note same = arg_cong [OF this, of "\<lambda>ups. fold (\<lambda>(i, f). set_rows i f) ups db"]
  have "fold (\<lambda>(i, f). set_rows i f)
      (map (\<lambda>(n, h). (blk_id h, \<lambda>b. b\<lparr>blk_position := n\<rparr>)) ps) db =
    fold (\<lambda>(n, h). set_rows (blk_id h) (\<lambda>b. b\<lparr>blk_position := n\<rparr>)) ps db" for ps db
    by (induction ps arbitrary: db) auto
  from this [of "enumerate 0 hs" db] same show ?thesis by (simp only:)
qed

lemma close_positions_read:
  assumes "distinct (map blk_id page)" and "set (db_blocks db) = set page"
    and "length (db_blocks db) = length page" and "map blk_id hs = map blk_id page"
  shows "read_blocks (fold (\<lambda>(n, h). set_rows (blk_id h) (\<lambda>b. b\<lparr>blk_position := n\<rparr>))
    (enumerate 0 hs) db) = renumbered page"
  unfolding close_positions_fold [OF assms(4)]
proof (rule fold_rows_page [where old = page])
  have "set (map blk_id (renumbered page)) = set (map blk_id page)" by simp
  then show "blk_id ` set (renumbered page) \<subseteq> blk_id ` set page" unfolding set_map by simp
  fix h b assume h: "h \<in> set (renumbered page)" "b \<in> set page" "blk_id b = blk_id h"
  from renumbered_from [OF h(1)] obtain c n where c: "c \<in> set page" "h = c\<lparr>blk_position := n\<rparr>"
    by blast
  then have "c = b" using h(2,3) assms(1) by (simp add: distinct_map inj_on_def)
  with c show "b\<lparr>blk_position := blk_position h\<rparr> = h" by simp
qed (use assms in simp_all)

lemma distinct_filter_ids: "distinct (map blk_id bs) \<Longrightarrow> distinct (map blk_id (filter P bs))"
  by (simp add: distinct_map_filter)

text \<open>The rows after the delete, read as a page, keep their order and lose a block.\<close>

lemma delete_block_read:
  assumes "distinct (map blk_id (read_blocks db))"
    and "map blk_id hs = map blk_id (filter (\<lambda>b. blk_id b \<noteq> i) (read_blocks db))"
  shows "read_blocks (delete_block_and_close_positions i hs db) =
    renumbered (filter (\<lambda>b. blk_id b \<noteq> i) (read_blocks db))"
  unfolding delete_block_and_close_positions_def
proof (rule close_positions_read)
  let ?db = "db\<lparr>db_blocks := filter (\<lambda>b. blk_id b \<noteq> i) (db_blocks db)\<rparr>"
  show "distinct (map blk_id (filter (\<lambda>b. blk_id b \<noteq> i) (read_blocks db)))"
    using assms(1) by (rule distinct_filter_ids)
  show "set (db_blocks ?db) = set (filter (\<lambda>b. blk_id b \<noteq> i) (read_blocks db))" by simp
  have "size (filter_mset (\<lambda>b. blk_id b \<noteq> i) (mset (db_blocks db))) =
      size (filter_mset (\<lambda>b. blk_id b \<noteq> i) (mset (read_blocks db)))"
    by (simp add: read_blocks_def)
  then show "length (db_blocks ?db) = length (filter (\<lambda>b. blk_id b \<noteq> i) (read_blocks db))"
    by (simp flip: mset_filter)
qed (rule assms(2))

lemma delete_block_fields:
  "db_protected (delete_block_and_close_positions i hs db) = db_protected db \<and>
   db_preserved (delete_block_and_close_positions i hs db) = db_preserved db \<and>
   ast_generation (delete_block_and_close_positions i hs db) = ast_generation db \<and>
   same_asset db0 (delete_block_and_close_positions i hs db) = same_asset db0 db"
  unfolding delete_block_and_close_positions_def close_positions_fold [OF refl]
  using fold_set_rows_fields by simp

section \<open>RemoveBlock\<close>

definition removed_page :: "uuid \<Rightarrow> page_db \<Rightarrow> block list" where
  "removed_page i db = filter (\<lambda>b. blk_id b \<noteq> i) (owner_page db)"

lemma filter_retext:
  "filter (\<lambda>b. blk_id b \<noteq> i) (retext g bs) = retext g (filter (\<lambda>b. blk_id b \<noteq> i) bs)"
  by (simp add: filter_map comp_def)

lemma remove_block_page:
  assumes "db_ok db" and "remove_block_tx env owner i db = Inr (db', r)"
  shows "read_blocks db' = renumbered (filter (\<lambda>b. blk_id b \<noteq> i) (read_blocks db)) \<and>
    sealed_ok (db_protected db') (read_blocks db') \<and>
    page_allowed (ast_kind db) (owner_page db) (removed_page i db) \<and>
    (\<exists>b. block_with i (read_blocks db) = Some b \<and> \<not> is_required (ast_kind db) b) \<and>
    same_asset db db' \<and> db_preserved db' = owned_rows (read_blocks db') (db_preserved db) \<and>
    counts_fingerprint env db db' \<and> lock_editable_asset owner db = Inr (ast_kind db)"
proof -
  note restores = db_ok_restores [OF assms(1)]
  let ?left = "filter (\<lambda>b. blk_id b \<noteq> i) (read_blocks db)"
  from assms(2) obtain fp u sealed store where
    lock: "lock_editable_asset owner db = Inr (ast_kind db)" and
    fp: "content_fingerprint env db = Inr fp" and
    free: "each (\<lambda>j b u. if blk_id b \<noteq> i then Inr () else not_required (ast_kind db) b)
      (owner_page db) () = Inr u" and
    found: "block_with i (owner_page db) \<noteq> None" and
    allowed: "validate_builder_constraints (ast_kind db) (owner_page db) (removed_page i db) = Inr ()" and
    sync: "sync_prompt_fragments (env_sha256 env) (removed_page i db) None (db_protected db) =
      Inr (sealed, store)" and
    settled: "settle env fp sealed (delete_block_and_close_positions i sealed
      (db\<lparr>db_protected := store\<rparr>)) = Inr db'"
    by (auto simp: remove_block_tx_def and_then_Inr restores Let_def lock_Inr removed_page_def)
  have "retext blank_text ?left = ?left"
    by (rule map_idI) (auto intro: db_ok_block_blank [OF assms(1)])
  then have sealed: "sealed = ?left"
    using sealed_ok_sync [OF sync]
    by (simp add: removed_page_def owner_page_def filter_retext map_block_comp comp_def)
  have store: "sealed_ok store sealed" using sealed_ok_sync [OF sync] ..
  have facts: "db_blocks db' = db_blocks (delete_block_and_close_positions i sealed
        (db\<lparr>db_protected := store\<rparr>))"
      "db_protected db' = store" "same_asset db db'"
      "db_preserved db' = owned_rows sealed (db_preserved db)" "counts_fingerprint env db db'"
    using settle_facts [OF settled fp] delete_block_fields [of i sealed "db\<lparr>db_protected := store\<rparr>"]
    by simp_all
  have ids: "distinct (map blk_id (read_blocks db))"
    using assms(1) by (simp add: db_ok_def page_ok_def)
  have read: "read_blocks db' = renumbered ?left"
    using read_blocks_congr [OF facts(1)] delete_block_read [of "db\<lparr>db_protected := store\<rparr>" sealed i] ids
    by (simp add: sealed)
  have fixed: "block_with i (owner_page db) =
      map_option (map_block (with_text (db_protected db))) (block_with i (read_blocks db))"
    unfolding owner_page_def by (rule block_with_map) simp
  then obtain b where b: "block_with i (read_blocks db) = Some b"
    using found by (cases "block_with i (read_blocks db)") auto
  have "list_all (\<lambda>b. blk_id b = i \<longrightarrow> \<not> is_required (ast_kind db) b) (owner_page db)"
    using free by (subst (asm) each_from_checks) (auto simp: not_required_def)
  then have "\<not> is_required (ast_kind db) b"
    using block_with_Some [OF b] by (auto simp: list_all_iff owner_page_def is_required_def)
  moreover have "sealed_ok (db_protected db') (read_blocks db')"
    using facts(2) sealed_ok_same_prompts [OF store, of "read_blocks db'"] by (simp add: read sealed)
  moreover have "owned_rows sealed = owned_rows (read_blocks db')"
    by (rule ext) (simp add: owned_rows_def owners_def read sealed)
  ultimately show ?thesis
    using read facts lock allowed b by (simp add: builder_constraints_allowed)
qed

section \<open>MoveBlockContent\<close>

definition moved_page :: "uuid \<Rightarrow> uuid \<Rightarrow> element list \<Rightarrow> block list \<Rightarrow> block list" where
  "moved_page i j es bs = renumbered (filter (\<lambda>b. blk_id b \<noteq> i) (with_appended j es bs))"

lemma with_appended_ids [simp]: "map blk_id (with_appended j es bs) = map blk_id bs"
  by (simp add: with_appended_def)

lemma with_appended_retext:
  "retext g (with_appended j es bs) = with_appended j (map (map_element g) es) (retext g bs)"
  by (simp add: with_appended_def map_block_def)

lemma moved_page_retext:
  "retext g (moved_page i j es bs) = moved_page i j (map (map_element g) es) (retext g bs)"
  by (simp add: moved_page_def flip: renumbered_retext filter_retext with_appended_retext)

lemma moved_row:
  assumes "distinct (map blk_id bs)" and "block_with j (moved_page i j es bs) = Some row"
    and "b \<in> set bs" and "blk_id b = j"
  shows "blk_elements row = blk_elements b @ es"
proof -
  from block_with_Some [OF assms(2)] have row: "row \<in> set (moved_page i j es bs)" "blk_id row = j"
    by blast+
  then obtain c n where c: "c \<in> set (with_appended j es bs)" "row = c\<lparr>blk_position := n\<rparr>"
    using renumbered_from unfolding moved_page_def by fastforce
  from c(1) obtain d where d: "d \<in> set bs"
    "c = (if blk_id d = j then d\<lparr>blk_elements := blk_elements d @ es\<rparr> else d)"
    unfolding with_appended_def set_map by (rule imageE)
  have "blk_id d = j" using row(2) c(2) d(2) by (simp split: if_splits)
  then have "d = b" using assms(1,3,4) d(1) by (metis distinct_map inj_onD)
  then show ?thesis using c(2) d(2) \<open>blk_id d = j\<close> by simp
qed

text \<open>The rows after the move, read as a page, are the sealed page.\<close>

lemma moved_rows_read:
  assumes "db_ok db" and "after = retext blank_text (moved_page i j moved (owner_page db))"
    and "block_with j after = Some row"
  shows "read_blocks (delete_block_and_close_positions i after
    (set_rows j (\<lambda>b. b\<lparr>blk_elements := blk_elements row\<rparr>) (db\<lparr>db_protected := store\<rparr>))) = after"
proof -
  let ?blank = "map (map_element blank_text) moved"
  have stored: "after = moved_page i j ?blank (read_blocks db)"
    by (simp add: assms(2) moved_page_retext db_ok_blank [OF assms(1)])
  have ids: "distinct (map blk_id (read_blocks db))"
    using assms(1) by (simp add: db_ok_def page_ok_def)
  let ?db = "set_rows j (\<lambda>b. b\<lparr>blk_elements := blk_elements row\<rparr>) (db\<lparr>db_protected := store\<rparr>)"
  have written: "read_blocks ?db = with_appended j ?blank (read_blocks db)"
    unfolding with_appended_def
    using moved_row [OF ids assms(3) [unfolded stored]] by (subst set_rows_read) auto
  have same: "map blk_id after = map blk_id (filter (\<lambda>b. blk_id b \<noteq> i) (read_blocks ?db))"
    by (simp add: stored written moved_page_def)
  show ?thesis
    using delete_block_read [OF _ same] ids by (simp add: written stored moved_page_def)
qed

lemma move_block_content_page:
  assumes "db_ok db" and "move_block_content_tx env owner i j db = Inr (db', after)"
  shows "\<exists>source destination.
    block_with i (owner_page db) = Some source \<and> block_with j (owner_page db) = Some destination \<and>
    i \<noteq> j \<and> \<not> is_required (ast_kind db) source \<and>
    length (blk_elements source) \<le> length (free_slots destination) \<and>
    list_all (\<lambda>e. \<not> block_pinned source (el_role e) (ast_kind db)) (blk_elements source) \<and>
    (let moved = moved_elements source destination;
         page = moved_page i j moved (owner_page db)
     in after = retext blank_text page \<and>
        page_allowed (ast_kind db) (with_appended j moved (owner_page db)) page) \<and>
    read_blocks db' = after \<and> sealed_ok (db_protected db') after \<and>
    same_asset db db' \<and> db_preserved db' = owned_rows after (db_preserved db) \<and>
    counts_fingerprint env db db' \<and> lock_editable_asset owner db = Inr (ast_kind db)"
proof -
  note restores = db_ok_restores [OF assms(1)]
  from assms(2) obtain fp source destination store row where
    lock: "lock_editable_asset owner db = Inr (ast_kind db)" and
    fp: "content_fingerprint env db = Inr fp" and
    source: "block_with i (owner_page db) = Some source" and
    destination: "block_with j (owner_page db) = Some destination" and ij: "j \<noteq> i" and
    free: "not_required (ast_kind db) source = Inr ()" and
    loose: "each (\<lambda>k e u. ensure (\<not> block_pinned source (el_role e) (ast_kind db))
      (PinnedCannotMove (role_label (el_role e)))) (blk_elements source) () = Inr ()" and
    room: "length (blk_elements source) \<le> length (free_slots destination)" and
    allowed: "validate_builder_constraints (ast_kind db)
      (with_appended j (moved_elements source destination) (owner_page db))
      (moved_page i j (moved_elements source destination) (owner_page db)) = Inr ()" and
    sync: "sync_prompt_fragments (env_sha256 env)
      (moved_page i j (moved_elements source destination) (owner_page db)) None (db_protected db) =
      Inr (after, store)" and
    row: "block_with j after = Some row" and
    settled: "settle env fp after (delete_block_and_close_positions i after
      (set_rows j (\<lambda>b. b\<lparr>blk_elements := blk_elements row\<rparr>) (db\<lparr>db_protected := store\<rparr>))) = Inr db'"
    by (auto simp: move_block_content_tx_def and_then_Inr restores Let_def lock_Inr moved_page_def
        split: if_splits)
  let ?moved = "moved_elements source destination"
  have after: "after = retext blank_text (moved_page i j ?moved (owner_page db))"
    using sealed_ok_sync [OF sync] ..
  have store: "sealed_ok store after" using sealed_ok_sync [OF sync] ..
  let ?db = "set_rows j (\<lambda>b. b\<lparr>blk_elements := blk_elements row\<rparr>) (db\<lparr>db_protected := store\<rparr>)"
  have facts: "db_blocks db' = db_blocks (delete_block_and_close_positions i after ?db)"
      "db_protected db' = store" "same_asset db db'"
      "db_preserved db' = owned_rows after (db_preserved db)" "counts_fingerprint env db db'"
    using settle_facts [OF settled fp] delete_block_fields [of i after ?db] by simp_all
  have "read_blocks db' = after"
    using read_blocks_congr [OF facts(1)] moved_rows_read [OF assms(1) after row] by simp
  moreover have "list_all (\<lambda>e. \<not> block_pinned source (el_role e) (ast_kind db)) (blk_elements source)"
    using loose by (subst (asm) each_from_checks) auto
  ultimately show ?thesis
    using source destination ij room facts lock after store allowed free
    by (auto simp: builder_constraints_allowed Let_def not_required_def)
qed

end
