(* ===== verification/PageContracts.thy ===== *)
theory PageContracts
  imports PageRemovals
begin

text \<open>
  The contract every edit of a page meets, proved of the six of them and used for all at once:
  \<open>guarded_edit\<close> is what one transaction promises, \<open>edited\<close> the step relation of the whole service
  on one asset.
\<close>

section \<open>What a required block keeps\<close>

lemma catalog_pinned_found:
  "catalog kind = Some ds \<Longrightarrow>
     list_all (\<lambda>d. list_all (\<lambda>p. de_pinned p \<longrightarrow> (case defined_for d (de_role p) of
        None \<Rightarrow> False | Some q \<Rightarrow> de_pinned q)) (def_elements d)) ds"
  by (erule catalog_cases) (simp_all add: catalog_defs defined_for_def)

lemma block_pinned_entry:
  assumes "catalog kind = Some ds" and "d \<in> set ds" and "p \<in> set (def_elements d)" and "de_pinned p"
    and "blk_definition b = def_id d"
  shows "block_pinned b (de_role p) kind"
  using catalog_pinned_found [OF assms(1)] definition_of_entry [OF assms(1,2)] assms(2-5)
  by (auto simp: block_pinned_def list_all_iff split: option.splits)

text \<open>A page whose required blocks and pinned elements are still there has kept its core.\<close>

definition pinned_kept :: "string \<Rightarrow> block list \<Rightarrow> block list \<Rightarrow> bool" where
  "pinned_kept kind bs cs \<longleftrightarrow>
     list_all (\<lambda>b. list_all (\<lambda>e. block_pinned b (el_role e) kind \<longrightarrow>
       pinned_element_present cs (blk_id b) e) (blk_elements b)) bs"

lemma page_allowed_pinned: "page_allowed kind bs cs \<Longrightarrow> pinned_kept kind bs cs"
  by (simp add: page_allowed_def pinned_kept_def)

lemma core_kept_follows:
  assumes core: "core_kept kind bs" and pinned: "pinned_kept kind bs cs"
    and ids: "distinct (map blk_id cs)"
    and kept: "\<And>b. \<lbrakk>b \<in> set bs; is_required kind b\<rbrakk> \<Longrightarrow>
      \<exists>c \<in> set cs. blk_id c = blk_id b \<and> blk_definition c = blk_definition b"
  shows "core_kept kind cs"
proof -
  from core obtain ds where ds: "catalog kind = Some ds" by (auto simp: core_kept_def split: option.splits)
  have "list_ex (\<lambda>c. blk_definition c = def_id d \<and>
      list_all (\<lambda>p. de_pinned p \<longrightarrow>
        list_ex (\<lambda>e. el_role e = de_role p \<and> el_type e = de_type p) (blk_elements c))
        (def_elements d)) cs" if d: "d \<in> set ds" "def_required d" for d
  proof -
    from core ds d obtain b where b: "b \<in> set bs" "blk_definition b = def_id d" and
      full: "\<And>p. \<lbrakk>p \<in> set (def_elements d); de_pinned p\<rbrakk> \<Longrightarrow>
        \<exists>e \<in> set (blk_elements b). el_role e = de_role p \<and> el_type e = de_type p"
      by (auto simp: core_kept_def list_all_iff list_ex_iff)
    have "is_required kind b"
      using definition_of_entry [OF ds d(1)] b(2) d(2) by (simp add: is_required_def)
    with kept b obtain c where c: "c \<in> set cs" "blk_id c = blk_id b" "blk_definition c = def_id d"
      by metis
    have "\<exists>e \<in> set (blk_elements c). el_role e = de_role p \<and> el_type e = de_type p"
      if p: "p \<in> set (def_elements d)" "de_pinned p" for p
    proof -
      from full [OF p] obtain e where e: "e \<in> set (blk_elements b)" "el_role e = de_role p"
        "el_type e = de_type p" by blast
      have "block_pinned b (el_role e) kind"
        using block_pinned_entry [OF ds d(1) p b(2)] e(2) by simp
      then have "pinned_element_present cs (blk_id b) e"
        using pinned b(1) e(1) by (simp add: pinned_kept_def list_all_iff)
      then obtain c' x where x: "c' \<in> set cs" "blk_id c' = blk_id b" "x \<in> set (blk_elements c')"
        "el_role x = el_role e" "el_type x = el_type e"
        by (auto simp: pinned_element_present_def list_ex_iff)
      have "c' = c" using x(1,2) c(1,2) ids by (metis distinct_map inj_onD)
      with x e show ?thesis by auto
    qed
    with c show ?thesis by (auto simp: list_ex_iff list_all_iff)
  qed
  with ds show ?thesis by (simp add: core_kept_def list_all_iff)
qed

lemma same_id_block:
  assumes "b \<in> set bs" and "set (map blk_id cs) = set (map blk_id bs)"
    and "distinct (map blk_id bs)"
    and "\<And>c. c \<in> set cs \<Longrightarrow> \<exists>a \<in> set bs. blk_id c = blk_id a \<and> blk_definition c = blk_definition a"
  shows "\<exists>c \<in> set cs. blk_id c = blk_id b \<and> blk_definition c = blk_definition b"
proof -
  have "blk_id b \<in> set (map blk_id cs)" using assms(1,2) by simp
  then obtain c where c: "c \<in> set cs" "blk_id c = blk_id b" by (metis imageE set_map)
  with assms(4) obtain a where a: "a \<in> set bs" "blk_id c = blk_id a"
    "blk_definition c = blk_definition a" by blast
  then have "a = b" using c(2) assms(1,3) by (metis distinct_map inj_onD)
  with a c show ?thesis by auto
qed

section \<open>A sound asset stays sound\<close>

lemma page_allowed_position:
  "page_allowed kind bs (renumbered cs) = page_allowed kind bs cs"
  "page_allowed kind (renumbered cs) bs = page_allowed kind cs bs"
proof -
  have look: "list_all (\<lambda>b. P (blk_id b) (blk_definition b) (blk_layout b) (blk_width b) (blk_elements b))
      (renumbered cs) \<longleftrightarrow>
    list_all (\<lambda>b. P (blk_id b) (blk_definition b) (blk_layout b) (blk_width b) (blk_elements b)) cs" for P
    by (induction cs rule: rev_induct) (simp_all add: renumbered_def enumerate_append_eq)
  have ok: "list_all (arrangement_ok kind) (renumbered cs) = list_all (arrangement_ok kind) cs"
    unfolding arrangement_ok_def
    by (rule look [of "\<lambda>i d l w es. case definition_of d kind of None \<Rightarrow> False | Some x \<Rightarrow>
      l \<in> set (def_layouts x) \<and> columns w \<noteq> 0 \<and> columns (minimum_width l) \<le> columns w"])
  have present: "pinned_element_present (renumbered cs) i e = pinned_element_present cs i e" for i e
    using look [of "\<lambda>j d l w es. \<not> (j = i \<and> list_ex (\<lambda>c. el_id c = el_id e \<and> el_role c = el_role e \<and>
      el_type c = el_type e) es)"]
    by (auto simp: pinned_element_present_def list_ex_iff list_all_iff)
  show "page_allowed kind bs (renumbered cs) = page_allowed kind bs cs"
    by (simp add: page_allowed_def ok present)
  have "list_all (\<lambda>b. list_all (\<lambda>e. block_pinned b (el_role e) kind \<longrightarrow>
      pinned_element_present bs (blk_id b) e) (blk_elements b)) (renumbered cs) \<longleftrightarrow>
    list_all (\<lambda>b. list_all (\<lambda>e. block_pinned b (el_role e) kind \<longrightarrow>
      pinned_element_present bs (blk_id b) e) (blk_elements b)) cs"
    unfolding block_pinned_def
    by (rule look [of "\<lambda>i d l w es. list_all (\<lambda>e. (case definition_of d kind of None \<Rightarrow> False
      | Some x \<Rightarrow> case defined_for x (el_role e) of None \<Rightarrow> False | Some p \<Rightarrow> de_pinned p) \<longrightarrow>
      pinned_element_present bs i e) es"])
  then show "page_allowed kind (renumbered cs) bs = page_allowed kind cs bs"
    by (simp add: page_allowed_def)
qed

lemma renumbered_to: "b \<in> set bs \<Longrightarrow> \<exists>n. b\<lparr>blk_position := n\<rparr> \<in> set (renumbered bs)"
  by (induction bs rule: rev_induct) (auto simp: renumbered_def enumerate_append_eq)

lemma core_kept_renumbered: "core_kept kind bs \<Longrightarrow> core_kept kind (renumbered bs)"
proof -
  have "list_ex P (renumbered bs)" if "list_ex P bs" and "\<And>b n. P (b\<lparr>blk_position := n\<rparr>) = P b" for P
    using that renumbered_to by (fastforce simp: list_ex_iff)
  then show "core_kept kind bs \<Longrightarrow> core_kept kind (renumbered bs)"
    by (auto simp: core_kept_def list_all_iff split: option.splits)
qed

lemma arrangement_row:
  "arrangement_ok kind b \<Longrightarrow> layout_slots (blk_layout b) \<noteq> [] \<and> columns (blk_width b) \<noteq> 0"
  by (auto simp: arrangement_ok_def entry_ok_def list_all_iff split: option.splits
      dest: definition_of_ok)

lemma db_ok_constraints:
  assumes "db_ok db"
  shows "constraints_hold db"
proof -
  from assms have ok: "page_ok (ast_kind db) (read_blocks db)"
    and sealed: "payloads (db_protected db) = [] \<longleftrightarrow> apps (db_protected db) = []"
    by (simp_all add: db_ok_def sealed_ok_def)
  from ok have "distinct (map blk_position (read_blocks db))" by (simp add: page_ok_def)
  moreover have "layout_slots (blk_layout b) \<noteq> [] \<and> columns (blk_width b) \<noteq> 0"
    if "b \<in> set (read_blocks db)" for b
    using ok that by (intro arrangement_row [of "ast_kind db"])
      (simp add: page_ok_def page_allowed_def list_all_iff)
  ultimately show ?thesis
    using ok sealed
    by (simp add: constraints_hold_def page_ok_def list_all_iff flip: distinct_read_blocks)
qed

lemma save_block_keeps:
  assumes "db_ok db" and "save_block_tx env owner i u db = Inr (db', sealed)"
  shows "db_ok db'"
proof -
  note facts = save_block_page [OF assms]
  from assms(1) have before: "page_ok (ast_kind db) (owner_page db)"
    by (simp add: db_ok_def owner_page_def)
  have ids: "map blk_id (saved_page i u db) = map blk_id (owner_page db)"
    and positions: "map blk_position (saved_page i u db) = map blk_position (owner_page db)"
    unfolding saved_page_def map_map by (rule map_cong [OF refl]; simp)+
  have allowed: "page_allowed (ast_kind db) (owner_page db) (saved_page i u db)"
    using facts by blast
  have "core_kept (ast_kind db) (saved_page i u db)"
  proof (rule core_kept_follows [where bs = "owner_page db"])
    show "pinned_kept (ast_kind db) (owner_page db) (saved_page i u db)"
      using allowed by (rule page_allowed_pinned)
    fix b assume b: "b \<in> set (owner_page db)"
    have "(if blk_id b = i then updated u b else b) \<in> set (saved_page i u db)"
      unfolding saved_page_def using b by simp
    then show "\<exists>c \<in> set (saved_page i u db). blk_id c = blk_id b \<and> blk_definition c = blk_definition b"
      by (rule bexI [rotated]) simp
  qed (use before ids in \<open>simp_all add: page_ok_def\<close>)
  then have "page_ok (ast_kind db) (saved_page i u db)"
    using before page_allowed_self [OF allowed]
    by (simp add: page_ok_def ids positions) (simp add: saved_page_def)
  moreover have "read_blocks db' = retext blank_text (saved_page i u db)"
    "sealed_ok (db_protected db') (read_blocks db')" "same_asset db db'"
    using facts by metis+
  ultimately show ?thesis by (simp add: db_ok_def same_asset_def)
qed

lemma add_block_keeps:
  assumes "db_ok db" and "add_block_tx env owner d t src db = Inr (db', added)"
    and "constraints_hold db'"
  shows "db_ok db'"
proof -
  note facts = add_block_page [OF assms(1,2)]
  from assms(1) have before: "page_ok (ast_kind db) (read_blocks db)"
    and sealed: "sealed_ok (db_protected db) (read_blocks db)" by (simp_all add: db_ok_def)
  have read: "read_blocks db' = read_blocks db @ [added]" using facts by blast
  have "distinct (map blk_id (read_blocks db'))"
    using assms(3) by (simp add: constraints_hold_def distinct_read_blocks)
  moreover have "core_kept (ast_kind db) (read_blocks db')"
    using before by (auto simp: read page_ok_def core_kept_def list_all_iff split: option.splits)
  ultimately have "page_ok (ast_kind db) (read_blocks db')"
    using facts before by (simp add: page_ok_def read)
  moreover have "sealed_ok (db_protected db') (read_blocks db')"
    using facts sealed_ok_same_prompts [OF sealed, of "read_blocks db'"] by metis
  ultimately show ?thesis using facts by (simp add: db_ok_def same_asset_def)
qed

text \<open>An arrangement holds the elements of the page it arranges.\<close>

lemma arranged_elements:
  assumes "set (map blk_id after) = set (map blk_id bs)" and "distinct (map blk_id after)"
    and "distinct (map blk_id bs)" and "\<And>h. h \<in> set after \<Longrightarrow> \<exists>b \<in> set bs. arranged b h"
  shows "mset (page_elements after) = mset (page_elements bs)"
proof -
  let ?look = "\<lambda>i. case block_with i bs of None \<Rightarrow> [] | Some b \<Rightarrow> blk_elements b"
  have bs: "map blk_elements bs = map ?look (map blk_id bs)"
    unfolding map_map by (rule map_cong [OF refl]) (simp add: block_with_unique [OF assms(3)])
  have after: "map blk_elements after = map ?look (map blk_id after)"
    unfolding map_map
  proof (rule map_cong [OF refl])
    fix h assume "h \<in> set after"
    with assms(4) obtain b where b: "b \<in> set bs" "arranged b h" by blast
    then show "blk_elements h = (?look \<circ> blk_id) h"
      using arranged_fields [OF b(2)] block_with_unique [OF assms(3) b(1)] by simp
  qed
  have "mset (map blk_id after) = mset (map blk_id bs)"
    using assms(1-3) set_eq_iff_mset_eq_distinct by blast
  then have "mset (map blk_elements after) = mset (map blk_elements bs)"
    unfolding bs after mset_map [of ?look] by (rule arg_cong)
  then have "image_mset mset (mset (map blk_elements after)) =
      image_mset mset (mset (map blk_elements bs))" by (rule arg_cong)
  then show ?thesis
    by (simp add: page_elements_def mset_concat multiset.map_comp flip: sum_mset_sum_list)
qed

lemma page_prompts_cong:
  assumes "mset (page_elements cs) = mset (page_elements bs)"
  shows "set (page_prompts cs) = set (page_prompts bs)"
  using mset_eq_setD [OF assms] by (simp add: page_prompts_def)

lemma arrange_blocks_keeps:
  assumes "db_ok db" and "arrange_blocks_tx owner choices db = Inr (db', after)"
  shows "db_ok db' \<and> mset (page_elements (read_blocks db')) = mset (page_elements (read_blocks db))"
proof -
  from arrange_blocks_page [OF assms] have read: "read_blocks db' = after" and
    ids: "set (map blk_id after) = set (map blk_id (read_blocks db))" "distinct (map blk_id after)" and
    from_page: "\<And>h. h \<in> set after \<Longrightarrow> \<exists>b \<in> set (read_blocks db). arranged b h" and
    positions: "map blk_position after = [0..<length after]" and
    allowed: "page_allowed (ast_kind db) (read_blocks db) after" and
    same: "db_protected db' = db_protected db" "same_asset db db'" by blast+
  from assms(1) have before: "page_ok (ast_kind db) (read_blocks db)"
    and sealed: "sealed_ok (db_protected db) (read_blocks db)" by (simp_all add: db_ok_def)
  have old: "distinct (map blk_id (read_blocks db))" using before by (simp add: page_ok_def)
  have "core_kept (ast_kind db) after"
  proof (rule core_kept_follows [where bs = "read_blocks db"])
    show "pinned_kept (ast_kind db) (read_blocks db) after"
      using allowed by (rule page_allowed_pinned)
    fix b assume "b \<in> set (read_blocks db)"
    then show "\<exists>c \<in> set after. blk_id c = blk_id b \<and> blk_definition c = blk_definition b"
    proof (rule same_id_block [OF _ ids(1) old])
      fix c assume "c \<in> set after"
      with from_page obtain a where "a \<in> set (read_blocks db)" "arranged a c" by blast
      then show "\<exists>a \<in> set (read_blocks db). blk_id c = blk_id a \<and> blk_definition c = blk_definition a"
        using arranged_fields by blast
    qed
  qed (use before ids in \<open>simp_all add: page_ok_def\<close>)
  then have "page_ok (ast_kind db) after"
    using positions ids(2) page_allowed_self [OF allowed] by (simp add: page_ok_def)
  moreover have elements: "mset (page_elements after) = mset (page_elements (read_blocks db))"
    using from_page by (rule arranged_elements [OF ids old])
  moreover have "sealed_ok (db_protected db) after"
    using sealed_ok_same_prompts [OF sealed page_prompts_cong [OF elements]] .
  ultimately show ?thesis using same read by (simp add: db_ok_def same_asset_def)
qed

lemma remove_block_keeps:
  assumes "db_ok db" and "remove_block_tx env owner i db = Inr (db', r)"
  shows "db_ok db'"
proof -
  from remove_block_page [OF assms] obtain b where
    read: "read_blocks db' = renumbered (filter (\<lambda>b. blk_id b \<noteq> i) (read_blocks db))" and
    sealed: "sealed_ok (db_protected db') (read_blocks db')" and same: "same_asset db db'" and
    allowed: "page_allowed (ast_kind db) (owner_page db) (removed_page i db)" and
    b: "block_with i (read_blocks db) = Some b" "\<not> is_required (ast_kind db) b" by blast
  let ?left = "filter (\<lambda>b. blk_id b \<noteq> i) (read_blocks db)"
  from assms(1) have before: "page_ok (ast_kind db) (read_blocks db)" by (simp add: db_ok_def)
  then have ids: "distinct (map blk_id (read_blocks db))" by (simp add: page_ok_def)
  have left: "page_allowed (ast_kind db) (read_blocks db) ?left"
    using allowed by (simp add: removed_page_def owner_page_def filter_retext)
  have "core_kept (ast_kind db) ?left"
  proof (rule core_kept_follows [where bs = "read_blocks db"])
    show "pinned_kept (ast_kind db) (read_blocks db) ?left" using left by (rule page_allowed_pinned)
    fix c assume c: "c \<in> set (read_blocks db)" "is_required (ast_kind db) c"
    have "blk_id c \<noteq> i"
      using block_with_unique [OF ids c(1)] b c(2) by auto
    then have "c \<in> set ?left" using c(1) by simp
    then show "\<exists>d \<in> set ?left. blk_id d = blk_id c \<and> blk_definition d = blk_definition c" by blast
  qed (use before distinct_filter_ids [OF ids] in \<open>simp_all add: page_ok_def\<close>)
  then have "core_kept (ast_kind db) (renumbered ?left)" by (rule core_kept_renumbered)
  then have "page_ok (ast_kind db) (renumbered ?left)"
    using page_allowed_self [OF left] distinct_filter_ids [OF ids]
    by (simp add: page_ok_def page_allowed_position)
  with sealed same read show ?thesis by (simp add: db_ok_def same_asset_def)
qed

lemma page_elements_appended:
  assumes "distinct (map blk_id bs)" and "block_with j bs = Some d"
  shows "mset (page_elements (with_appended j es bs)) = mset (page_elements bs) + mset es"
  using assms
proof (induction bs)
  case Nil
  then show ?case by (simp add: block_with_def)
next
  case (Cons b bs)
  show ?case
  proof (cases "blk_id b = j")
    case True
    then have "with_appended j es bs = bs"
      using Cons.prems(1) unfolding with_appended_def by (intro map_idI) (auto simp: image_iff)
    moreover have "with_appended j es (b # bs) =
        b\<lparr>blk_elements := blk_elements b @ es\<rparr> # with_appended j es bs"
      using True by (simp add: with_appended_def)
    ultimately show ?thesis by simp
  next
    case False
    then have "with_appended j es (b # bs) = b # with_appended j es bs"
      by (simp add: with_appended_def)
    with Cons False show ?thesis by (simp add: block_with_def)
  qed
qed

lemma page_elements_without:
  assumes "distinct (map blk_id bs)" and "block_with i bs = Some d"
  shows "mset (page_elements bs) =
    mset (page_elements (filter (\<lambda>b. blk_id b \<noteq> i) bs)) + mset (blk_elements d)"
  using assms
proof (induction bs)
  case Nil
  then show ?case by (simp add: block_with_def)
next
  case (Cons b bs)
  show ?case
  proof (cases "blk_id b = i")
    case True
    then have "filter (\<lambda>b. blk_id b \<noteq> i) bs = bs"
      using Cons.prems(1) by (intro filter_True) (auto simp: image_iff)
    with True Cons.prems(2) show ?thesis by (simp add: block_with_def)
  next
    case False
    with Cons show ?thesis by (simp add: block_with_def)
  qed
qed

lemma block_with_appended:
  "j \<noteq> i \<Longrightarrow> block_with i (with_appended j es bs) = block_with i bs"
  by (induction bs) (auto simp: block_with_def with_appended_def)

text \<open>
  What is on a page once the content of a block has moved: everything that was there, the moved
  elements in the slots they were given.
\<close>

lemma moved_page_elements:
  assumes "distinct (map blk_id bs)" and "i \<noteq> j"
    and "block_with i bs = Some source" and "block_with j bs = Some destination"
  shows "mset (page_elements (moved_page i j es bs)) + mset (blk_elements source) =
    mset (page_elements bs) + mset es"
proof -
  have "mset (page_elements (with_appended j es bs)) =
      mset (page_elements (filter (\<lambda>b. blk_id b \<noteq> i) (with_appended j es bs))) +
      mset (blk_elements source)"
    by (rule page_elements_without) (use assms in \<open>simp_all add: block_with_appended\<close>)
  then show ?thesis
    using page_elements_appended [OF assms(1,4)] by (simp add: moved_page_def)
qed

lemma core_kept_appended:
  assumes "core_kept kind bs"
  shows "core_kept kind (with_appended j es bs)"
proof -
  have grown: "list_ex P (with_appended j es bs)"
    if "list_ex P bs" and grows: "\<And>b. P b \<Longrightarrow> P (b\<lparr>blk_elements := blk_elements b @ es\<rparr>)" for P
  proof -
    from that(1) obtain b where b: "b \<in> set bs" "P b" by (auto simp: list_ex_iff)
    then have "(if blk_id b = j then b\<lparr>blk_elements := blk_elements b @ es\<rparr> else b)
        \<in> set (with_appended j es bs)"
      unfolding with_appended_def set_map by (intro imageI)
    moreover have "P (if blk_id b = j then b\<lparr>blk_elements := blk_elements b @ es\<rparr> else b)"
      using b(2) grows by simp
    ultimately show ?thesis unfolding list_ex_iff by (rule bexI [rotated])
  qed
  show ?thesis
    using assms
    by (auto simp: core_kept_def list_all_iff split: option.splits intro!: grown)
qed

lemma move_block_content_keeps:
  assumes "db_ok db" and "move_block_content_tx env owner i j db = Inr (db', after)"
  shows "db_ok db'"
proof -
  from move_block_content_page [OF assms] obtain source destination where
    source: "block_with i (owner_page db) = Some source" "\<not> is_required (ast_kind db) source" and
    ij: "i \<noteq> j" and
    moved: "let moved = moved_elements source destination;
         page = moved_page i j moved (owner_page db)
     in after = retext blank_text page \<and>
        page_allowed (ast_kind db) (with_appended j moved (owner_page db)) page" and
    read: "read_blocks db' = after" and sealed: "sealed_ok (db_protected db') after" and
    same: "same_asset db db'" by blast
  let ?before = "with_appended j (moved_elements source destination) (owner_page db)"
  let ?left = "filter (\<lambda>b. blk_id b \<noteq> i) ?before"
  from moved have after: "after = retext blank_text (renumbered ?left)" and
    left: "page_allowed (ast_kind db) ?before ?left"
    by (simp_all add: Let_def moved_page_def page_allowed_position)
  from assms(1) have before: "page_ok (ast_kind db) (owner_page db)"
    by (simp add: db_ok_def owner_page_def)
  then have ids: "distinct (map blk_id ?before)" by (simp add: page_ok_def)
  have "core_kept (ast_kind db) ?left"
  proof (rule core_kept_follows [where bs = ?before])
    show "core_kept (ast_kind db) ?before"
      using before by (intro core_kept_appended) (simp add: page_ok_def)
    show "pinned_kept (ast_kind db) ?before ?left" using left by (rule page_allowed_pinned)
    show "distinct (map blk_id ?left)" using ids by (rule distinct_filter_ids)
    fix c assume c: "c \<in> set ?before" "is_required (ast_kind db) c"
    have "block_with i ?before = Some source" using source(1) ij by (simp add: block_with_appended)
    then have "blk_id c \<noteq> i" using block_with_unique [OF ids c(1)] source(2) c(2) by auto
    then have "c \<in> set ?left" using c(1) by simp
    then show "\<exists>d \<in> set ?left. blk_id d = blk_id c \<and> blk_definition d = blk_definition c" by blast
  qed
  then have "core_kept (ast_kind db) (renumbered ?left)" by (rule core_kept_renumbered)
  then have "page_ok (ast_kind db) (renumbered ?left)"
    using page_allowed_self [OF left] distinct_filter_ids [OF ids]
    by (simp add: page_ok_def page_allowed_position)
  with sealed same show ?thesis by (simp add: db_ok_def same_asset_def read after)
qed

lemma delete_preserved_namespace_page:
  assumes "delete_preserved_namespace_tx env owner namespace db = Inr (db', r)"
  shows "db_blocks db' = db_blocks db \<and> db_protected db' = db_protected db \<and> same_asset db db' \<and>
    db_preserved db' = filter (\<lambda>p. prs_namespace p \<noteq> namespace) (db_preserved db) \<and>
    counts_fingerprint env db db' \<and> lock_editable_asset owner db = Inr (ast_kind db) \<and>
    list_ex (\<lambda>p. prs_namespace p = namespace) (db_preserved db)"
proof -
  from assms obtain fp where
    lock: "lock_editable_asset owner db = Inr (ast_kind db)" and
    fp: "content_fingerprint env db = Inr fp" and
    some: "list_ex (\<lambda>p. prs_namespace p = namespace) (db_preserved db)" and
    moved: "move_content_generation env fp
      (db\<lparr>db_preserved := filter (\<lambda>p. prs_namespace p \<noteq> namespace) (db_preserved db)\<rparr>) = Inr db'"
    by (auto simp: delete_preserved_namespace_tx_def and_then_Inr lock_Inr)
  then show ?thesis using move_facts [OF moved fp] by simp
qed

lemma delete_preserved_namespace_keeps:
  "\<lbrakk>db_ok db; delete_preserved_namespace_tx env owner namespace db = Inr (db', r)\<rbrakk> \<Longrightarrow> db_ok db'"
  using delete_preserved_namespace_page [of env owner namespace db db' r]
    read_blocks_congr [of db' db]
  by (simp add: db_ok_def same_asset_def)

section \<open>An arrangement is no new file\<close>

text \<open>
  The digest orders the elements by identifier, so only which elements a page holds counts.
\<close>

lemma sort_key_perm:
  assumes "mset xs = mset ys" and "distinct (map k ys)"
  shows "sort_key k xs = sort_key k ys"
proof (rule sort_key_unique)
  show "set xs = set (sort_key k ys)" using mset_eq_setD [OF assms(1)] by simp
  have "mset (map k xs) = mset (map k ys)" using assms(1) by simp
  then show "distinct (map k xs)" using assms(2) by (metis mset_eq_imp_distinct_iff)
  have "mset (map k (sort_key k ys)) = mset (map k ys)" by simp
  then show "distinct (map k (sort_key k ys))" using assms(2) by (metis mset_eq_imp_distinct_iff)
qed simp

lemma fingerprint_same_elements:
  assumes "db_ok db" and "db_ok db'" and "same_asset db db'" and "db_protected db' = db_protected db"
    and "db_preserved db' = db_preserved db"
    and "mset (page_elements (read_blocks db')) = mset (page_elements (read_blocks db))"
  shows "content_fingerprint env db' = content_fingerprint env db"
proof -
  let ?text = "map_element (with_text (db_protected db))"
  have "distinct (map el_id (page_elements (read_blocks db)))"
    using assms(1) by (simp add: db_ok_def page_ok_def page_allowed_def)
  then have sorted: "sort_key el_id (page_elements (owner_page db')) = sort_key el_id (page_elements (owner_page db))"
    using sort_key_perm [OF assms(6), of el_id] assms(4)
    by (simp add: owner_page_def page_elements_retext sort_key_map_same)
  have "set (page_elements (owner_page db')) = set (page_elements (owner_page db))"
    using arg_cong [OF sorted, of set] by simp
  with sorted show ?thesis
    using assms(3-5) db_ok_restores [OF assms(1)] db_ok_restores [OF assms(2)]
    by (simp add: content_fingerprint_def same_asset_def fingerprint_header_def
        fingerprint_preserved_def fingerprint_pictures_def Let_def)
qed

lemma arrange_blocks_counts:
  assumes "db_ok db" and "arrange_blocks_tx owner choices db = Inr (db', after)"
  shows "content_fingerprint env db' = content_fingerprint env db \<and> counts_fingerprint env db db'"
proof -
  note page = arrange_blocks_page [OF assms] and keeps = arrange_blocks_keeps [OF assms]
  have "content_fingerprint env db' = content_fingerprint env db"
    using page keeps by (intro fingerprint_same_elements [OF assms(1)]) simp_all
  with page show ?thesis by (simp add: counts_fingerprint_def)
qed

section \<open>The contract of an edit\<close>

text \<open>
  What one transaction promises: the guard refuses before anything is read, a commit leaves the
  asset sound, nothing but the page changes, and the counter moves exactly when the file would.
\<close>

locale guarded_edit =
  fixes env :: environment and owner :: uuid and tx :: "page_db \<Rightarrow> page_error + page_db \<times> 'r"
  assumes refuses: "lock_editable_asset owner db = Inl e \<Longrightarrow> tx db = Inl e"
    and keeps: "\<lbrakk>db_ok db; tx db = Inr (db', r); constraints_hold db'\<rbrakk> \<Longrightarrow> db_ok db'"
    and counts: "\<lbrakk>db_ok db; tx db = Inr (db', r)\<rbrakk> \<Longrightarrow> counts_fingerprint env db db'"
    and asset: "\<lbrakk>db_ok db; tx db = Inr (db', r)\<rbrakk> \<Longrightarrow> same_asset db db'"
begin

lemma refused: "lock_editable_asset owner db = Inl e \<Longrightarrow> transact tx db = (db, Inl e)"
  by (simp add: transact_def refuses)

lemma outcome:
  assumes "transact tx db = (db', r)"
  shows "db' = db \<or> (\<exists>x. tx db = Inr (db', x) \<and> constraints_hold db')"
  using assms by (auto simp: transact_def split: sum.splits if_splits)

lemma step:
  assumes "db_ok db" and "transact tx db = (db', r)"
  shows "db_ok db' \<and> same_asset db db' \<and> counts_fingerprint env db db'"
  using outcome [OF assms(2)] keeps [OF assms(1)] counts [OF assms(1)] asset [OF assms(1)] assms(1)
  by (auto simp: counts_fingerprint_def)

lemma frozen:
  "\<lbrakk>ast_withheld db \<or> ast_deleted db; transact tx db = (db', r)\<rbrakk> \<Longrightarrow> db' = db"
  using refused by (cases "lock_editable_asset owner db") (auto simp: lock_Inr)

end

text \<open>An edit whose commit the deferred constraints never refuse.\<close>

locale committed_edit = guarded_edit +
  assumes sound: "\<lbrakk>db_ok db; tx db = Inr (db', r)\<rbrakk> \<Longrightarrow> db_ok db'"
begin

lemma commits:
  "db_ok db \<Longrightarrow>
     transact tx db = (case tx db of Inl e \<Rightarrow> (db, Inl e) | Inr (db', r) \<Rightarrow> (db', Inr r))"
  using sound [THEN db_ok_constraints]
  by (auto simp: transact_def split: sum.splits)

end

text \<open>An edit that can take elements off the page: what they had kept from a file goes with them.\<close>

locale tidy_edit = committed_edit +
  assumes tidies: "\<lbrakk>db_ok db; tx db = Inr (db', r)\<rbrakk> \<Longrightarrow>
    db_preserved db' = owned_rows (read_blocks db') (db_preserved db)"
begin

lemma owned:
  assumes "db_ok db" and "transact tx db = (db', Inr r)" and "p \<in> set (db_preserved db')"
  shows "p \<in> set (db_preserved db) \<and>
    (prs_owner_kind p = OwnerAsset \<or> prs_owner p \<in> set (owners (read_blocks db')))"
  using commits [OF assms(1)] tidies [OF assms(1)] assms(2,3)
  by (auto simp: owned_rows_def split: sum.splits)

end

lemma committed_editI:
  assumes "\<And>db e. lock_editable_asset owner db = Inl e \<Longrightarrow> tx db = Inl e"
    and "\<And>db db' r. \<lbrakk>db_ok db; tx db = Inr (db', r)\<rbrakk> \<Longrightarrow>
      db_ok db' \<and> counts_fingerprint env db db' \<and> same_asset db db'"
  shows "committed_edit env owner tx"
  by unfold_locales (use assms in blast)+

interpretation save: tidy_edit env owner "save_block_tx env owner i u" for env owner i u
proof (rule tidy_edit.intro, rule committed_editI)
  show "lock_editable_asset owner db = Inl e \<Longrightarrow> save_block_tx env owner i u db = Inl e" for db e
    by (simp add: save_block_tx_def)
  show "\<lbrakk>db_ok db; save_block_tx env owner i u db = Inr (db', r)\<rbrakk> \<Longrightarrow>
      db_ok db' \<and> counts_fingerprint env db db' \<and> same_asset db db'" for db db' r
    using save_block_keeps save_block_page by metis
  show "tidy_edit_axioms (save_block_tx env owner i u)"
    by unfold_locales (use save_block_page in metis)
qed

interpretation add: guarded_edit env owner "add_block_tx env owner d t src" for env owner d t src
proof unfold_locales
  show "lock_editable_asset owner db = Inl e \<Longrightarrow> add_block_tx env owner d t src db = Inl e" for db e
    by (simp add: add_block_tx_def)
qed (use add_block_keeps add_block_page in metis)+

interpretation arrange: committed_edit env owner "arrange_blocks_tx owner choices" for env owner choices
proof (rule committed_editI)
  show "lock_editable_asset owner db = Inl e \<Longrightarrow> arrange_blocks_tx owner choices db = Inl e" for db e
    by (simp add: arrange_blocks_tx_def)
  show "\<lbrakk>db_ok db; arrange_blocks_tx owner choices db = Inr (db', r)\<rbrakk> \<Longrightarrow>
      db_ok db' \<and> counts_fingerprint env db db' \<and> same_asset db db'" for db db' r
    using arrange_blocks_keeps arrange_blocks_counts arrange_blocks_page by metis
qed

interpretation remove: tidy_edit env owner "remove_block_tx env owner i" for env owner i
proof (rule tidy_edit.intro, rule committed_editI)
  show "lock_editable_asset owner db = Inl e \<Longrightarrow> remove_block_tx env owner i db = Inl e" for db e
    by (simp add: remove_block_tx_def)
  show "\<lbrakk>db_ok db; remove_block_tx env owner i db = Inr (db', r)\<rbrakk> \<Longrightarrow>
      db_ok db' \<and> counts_fingerprint env db db' \<and> same_asset db db'" for db db' r
    using remove_block_keeps remove_block_page by metis
  show "tidy_edit_axioms (remove_block_tx env owner i)"
    by unfold_locales (use remove_block_page in metis)
qed

interpretation move: tidy_edit env owner "move_block_content_tx env owner i j" for env owner i j
proof (rule tidy_edit.intro, rule committed_editI)
  show "lock_editable_asset owner db = Inl e \<Longrightarrow> move_block_content_tx env owner i j db = Inl e" for db e
    by (simp add: move_block_content_tx_def)
  show "\<lbrakk>db_ok db; move_block_content_tx env owner i j db = Inr (db', r)\<rbrakk> \<Longrightarrow>
      db_ok db' \<and> counts_fingerprint env db db' \<and> same_asset db db'" for db db' r
    using move_block_content_keeps move_block_content_page by metis
  show "tidy_edit_axioms (move_block_content_tx env owner i j)"
    by unfold_locales (use move_block_content_page in metis)
qed

interpretation delete_namespace: committed_edit env owner "delete_preserved_namespace_tx env owner n"
  for env owner n
proof (rule committed_editI)
  show "lock_editable_asset owner db = Inl e \<Longrightarrow> delete_preserved_namespace_tx env owner n db = Inl e" for db e
    by (simp add: delete_preserved_namespace_tx_def)
  show "\<lbrakk>db_ok db; delete_preserved_namespace_tx env owner n db = Inr (db', r)\<rbrakk> \<Longrightarrow>
      db_ok db' \<and> counts_fingerprint env db db' \<and> same_asset db db'" for db db' r
    using delete_preserved_namespace_keeps delete_preserved_namespace_page by metis
qed

end
