(* ===== verification/PageRuns.thy ===== *)
theory PageRuns
  imports PageContracts
begin

text \<open>
  The edits of an asset as a step relation, and what any sequence of them keeps. An edit that is
  refused is a step too: it leaves the asset as it was.
\<close>

section \<open>Sequences of edits\<close>

inductive edited :: "environment \<Rightarrow> page_db \<Rightarrow> page_db \<Rightarrow> bool" for env where
  saved: "save_block env owner i u db = (db', r) \<Longrightarrow> edited env db db'"
| added: "add_block env owner d t src db = (db', r) \<Longrightarrow> edited env db db'"
| arranged: "arrange_blocks owner choices db = (db', r) \<Longrightarrow> edited env db db'"
| removed: "remove_block env owner i db = (db', r) \<Longrightarrow> edited env db db'"
| moved: "move_block_content env owner i j db = (db', r) \<Longrightarrow> edited env db db'"
| dropped: "delete_preserved_namespace env owner n db = (db', r) \<Longrightarrow> edited env db db'"

inductive edits :: "environment \<Rightarrow> page_db \<Rightarrow> page_db \<Rightarrow> bool" for env where
  none: "edits env db db"
| more: "\<lbrakk>edits env db db1; edited env db1 db2\<rbrakk> \<Longrightarrow> edits env db db2"

lemma save_block_transact:
  "save_block env owner i u db = (db', r) \<Longrightarrow>
     \<exists>r'. transact (save_block_tx env owner i u) db = (db', r')"
  by (auto simp: save_block_def split: prod.splits sum.splits)

text \<open>A law of every transaction is a law of every step.\<close>

lemma edited_law:
  assumes "edited env db db'"
    and "\<And>owner i u r. transact (save_block_tx env owner i u) db = (db', r) \<Longrightarrow> P"
    and "\<And>owner d t src r. transact (add_block_tx env owner d t src) db = (db', r) \<Longrightarrow> P"
    and "\<And>owner choices r. transact (arrange_blocks_tx owner choices) db = (db', r) \<Longrightarrow> P"
    and "\<And>owner i r. transact (remove_block_tx env owner i) db = (db', r) \<Longrightarrow> P"
    and "\<And>owner i j r. transact (move_block_content_tx env owner i j) db = (db', r) \<Longrightarrow> P"
    and "\<And>owner n r. transact (delete_preserved_namespace_tx env owner n) db = (db', r) \<Longrightarrow> P"
  shows P
  using assms(1)
proof cases
  case (saved owner i u r)
  then show P using save_block_transact assms(2) by blast
qed (use assms(3-) in \<open>simp_all only: add_block_def arrange_blocks_def remove_block_def
  move_block_content_def delete_preserved_namespace_def\<close>)

lemma edited_step:
  assumes "edited env db db'" and "db_ok db"
  shows "db_ok db' \<and> same_asset db db' \<and> counts_fingerprint env db db'"
  by (rule edited_law [OF assms(1)])
    (rule save.step [OF assms(2)] add.step [OF assms(2)] arrange.step [OF assms(2)]
      remove.step [OF assms(2)] move.step [OF assms(2)] delete_namespace.step [OF assms(2)]; assumption)+

lemma edited_frozen:
  assumes "edited env db db'" and "ast_withheld db \<or> ast_deleted db"
  shows "db' = db"
  by (rule edited_law [OF assms(1)])
    (rule save.frozen [OF assms(2)] add.frozen [OF assms(2)] arrange.frozen [OF assms(2)]
      remove.frozen [OF assms(2)] move.frozen [OF assms(2)] delete_namespace.frozen [OF assms(2)];
      assumption)+

section \<open>What every sequence of edits keeps\<close>

lemma edits_laws:
  assumes "edits env db db'" and "db_ok db"
  shows "db_ok db' \<and> same_asset db db' \<and> ast_generation db \<le> ast_generation db' \<and>
    (ast_generation db' = ast_generation db \<longrightarrow>
       content_fingerprint env db' = content_fingerprint env db)"
  using assms
proof induction
  case none
  then show ?case by simp
next
  case (more db db1 db2)
  note before = more.IH [OF more.prems]
  have step: "db_ok db2" "same_asset db1 db2" "counts_fingerprint env db1 db2"
    using edited_step [OF more.hyps(2)] before by blast+
  have "same_asset db db2" using before step(2) by (simp add: same_asset_def)
  moreover have "ast_generation db1 \<le> ast_generation db2 \<and>
      (ast_generation db2 = ast_generation db1 \<longrightarrow>
        content_fingerprint env db2 = content_fingerprint env db1)"
    using step(3) by (simp add: counts_fingerprint_def split: if_splits)
  ultimately show ?case using before step(1) by auto
qed

text \<open>
  C10. No sequence of edits breaks an asset. Whatever is saved, added, arranged, removed, moved or
  deleted, in any order and with any answer, the page keeps what every page promises (rows numbered
  from zero without a gap, identifiers of their own, the kind's required blocks with their
  pinned elements, the catalog's layouts and roles), no sealed text is on it and each is in the
  store, and what is not the page stays: its owner, kind, header, cover and media.
\<close>

theorem edits_keep_sound:
  assumes "edits env db db'" and "db_ok db"
  shows "db_ok db' \<and> same_asset db db'"
  using edits_laws [OF assms] by blast

text \<open>
  C11. The counter an application polls tells every change of the file: it never goes back, and as
  long as it has not moved the digest of the downloadable content is what it was, whatever was
  edited in between.
\<close>

theorem edits_mark_changes:
  assumes "edits env db db'" and "db_ok db"
  shows "ast_generation db \<le> ast_generation db' \<and>
    (ast_generation db' = ast_generation db \<longrightarrow>
       content_fingerprint env db' = content_fingerprint env db)"
  using edits_laws [OF assms] by blast

text \<open>
  A withheld or deleted asset is frozen: no sequence of edits changes anything of it.
\<close>

theorem edits_frozen:
  assumes "edits env db db'" and "ast_withheld db \<or> ast_deleted db"
  shows "db' = db"
  using assms
proof induction
  case (more db db1 db2)
  then show ?case using edited_frozen by blast
qed simp

section \<open>Preserved data\<close>

definition rows_owned :: "page_db \<Rightarrow> bool" where
  "rows_owned db \<longleftrightarrow>
     list_all (\<lambda>p. prs_owner_kind p = OwnerAsset \<or> prs_owner p \<in> set (owners (read_blocks db)))
       (db_preserved db)"

lemma set_owners: "set (owners bs) = (\<Union>e \<in> set (page_elements bs). insert (el_id e) (set (element_item_ids e)))"
  by (auto simp: owners_def)

lemma edited_rows_owned:
  assumes "edited env db db'" and "db_ok db" and "rows_owned db"
  shows "rows_owned db'"
proof (rule edited_law [OF assms(1)])
  fix owner i u r assume "transact (save_block_tx env owner i u) db = (db', r)"
  then show ?thesis
    using save.owned [OF assms(2)] save.outcome assms(3)
    by (cases r) (auto simp: rows_owned_def list_all_iff transact_def split: sum.splits if_splits)
next
  fix owner i r assume "transact (remove_block_tx env owner i) db = (db', r)"
  then show ?thesis
    using remove.owned [OF assms(2)] assms(3)
    by (cases r) (auto simp: rows_owned_def list_all_iff transact_def split: sum.splits if_splits)
next
  fix owner i j r assume "transact (move_block_content_tx env owner i j) db = (db', r)"
  then show ?thesis
    using move.owned [OF assms(2)] assms(3)
    by (cases r) (auto simp: rows_owned_def list_all_iff transact_def split: sum.splits if_splits)
next
  fix owner d t src r assume run: "transact (add_block_tx env owner d t src) db = (db', r)"
  from add.outcome [OF run] show ?thesis
  proof
    assume "\<exists>x. add_block_tx env owner d t src db = Inr (db', x) \<and> constraints_hold db'"
    then obtain b where "add_block_tx env owner d t src db = Inr (db', b)" by blast
    from add_block_page [OF assms(2) this]
    have "db_preserved db' = db_preserved db" "read_blocks db' = read_blocks db @ [b]" by blast+
    then show ?thesis using assms(3) by (auto simp: rows_owned_def owners_def list_all_iff)
  qed (use assms(3) in simp)
next
  fix owner choices r assume run: "transact (arrange_blocks_tx owner choices) db = (db', r)"
  from arrange.outcome [OF run] show ?thesis
  proof
    assume "\<exists>x. arrange_blocks_tx owner choices db = Inr (db', x) \<and> constraints_hold db'"
    then obtain after where tx: "arrange_blocks_tx owner choices db = Inr (db', after)" by blast
    have "set (page_elements (read_blocks db')) = set (page_elements (read_blocks db))"
      using arrange_blocks_keeps [OF assms(2) tx] mset_eq_setD by blast
    moreover have "db_preserved db' = db_preserved db" using arrange_blocks_page [OF assms(2) tx] by blast
    ultimately show ?thesis using assms(3) by (simp add: rows_owned_def set_owners)
  qed (use assms(3) in simp)
next
  fix owner n r assume run: "transact (delete_preserved_namespace_tx env owner n) db = (db', r)"
  from delete_namespace.outcome [OF run] show ?thesis
  proof
    assume "\<exists>x. delete_preserved_namespace_tx env owner n db = Inr (db', x) \<and> constraints_hold db'"
    then obtain x where "delete_preserved_namespace_tx env owner n db = Inr (db', x)" by blast
    from delete_preserved_namespace_page [OF this]
    have "db_preserved db' = filter (\<lambda>p. prs_namespace p \<noteq> n) (db_preserved db)"
      "read_blocks db' = read_blocks db" by (simp_all add: read_blocks_def)
    then show ?thesis using assms(3) by (simp add: rows_owned_def list_all_iff)
  qed (use assms(3) in simp)
qed

text \<open>
  What an asset kept from the file it came in never outlives its owner: no sequence of edits
  leaves a preserved row whose element or item has left the page.
\<close>

theorem edits_keep_rows_owned:
  assumes "edits env db db'" and "db_ok db" and "rows_owned db"
  shows "rows_owned db'"
  using assms
proof induction
  case (more db db1 db2)
  have "db_ok db1" using edits_laws [OF more.hyps(1) more.prems(1)] by blast
  with more show ?case using edited_rows_owned by blast
qed simp

section \<open>What single edits do\<close>

text \<open>An element wherever it stands.\<close>

definition unplaced :: "element \<Rightarrow> element" where
  "unplaced e = e\<lparr>el_slot := NoSlot\<rparr>"

lemma unplaced_moved:
  "length (blk_elements source) \<le> length (free_slots destination) \<Longrightarrow>
     map unplaced (moved_elements source destination) = map unplaced (blk_elements source)"
  by (rule nth_equalityI) (simp_all add: moved_elements_def unplaced_def)

lemma unplaced_map_element: "unplaced (map_element g e) = map_element g (unplaced e)"
  by (simp add: unplaced_def map_element_def split: option.split content.split)

lemma unplaced_retext:
  assumes "mset (map unplaced (page_elements cs)) = mset (map unplaced (page_elements bs))"
  shows "mset (map unplaced (page_elements (retext g cs))) =
    mset (map unplaced (page_elements (retext g bs)))"
proof -
  have "mset (map unplaced (page_elements (retext g xs))) =
      image_mset (map_element g) (mset (map unplaced (page_elements xs)))" for xs
    by (simp add: page_elements_retext multiset.map_comp comp_def unplaced_map_element)
  with assms show ?thesis by simp
qed

lemma ids_filter: "map blk_id (filter (\<lambda>b. blk_id b \<noteq> i) bs) = filter (\<lambda>k. k \<noteq> i) (map blk_id bs)"
  by (simp add: filter_map comp_def)

text \<open>
  C13. \<^verbatim>\<open>MoveBlockContent\<close> loses nothing: the page holds the elements it held, each as it was but
  for the slot it stands in, and every block but the emptied one, in the order they had.
\<close>

theorem move_loses_nothing:
  assumes "db_ok db" and "move_block_content env owner i j db = (db', Inr after)"
  shows "mset (map unplaced (page_elements (read_blocks db'))) =
      mset (map unplaced (page_elements (read_blocks db))) \<and>
    map blk_id (read_blocks db') = filter (\<lambda>k. k \<noteq> i) (map blk_id (read_blocks db))"
proof -
  have "move_block_content_tx env owner i j db = Inr (db', after)"
    using assms(2) by (auto simp: move_block_content_def transact_def split: sum.splits if_splits)
  from move_block_content_page [OF assms(1) this] obtain source destination where
    source: "block_with i (owner_page db) = Some source" and
    destination: "block_with j (owner_page db) = Some destination" and ij: "i \<noteq> j" and
    room: "length (blk_elements source) \<le> length (free_slots destination)" and
    moved: "let moved = moved_elements source destination;
         page = moved_page i j moved (owner_page db)
     in after = retext blank_text page \<and>
        page_allowed (ast_kind db) (with_appended j moved (owner_page db)) page" and
    read: "read_blocks db' = after" by blast
  let ?page = "moved_page i j (moved_elements source destination) (owner_page db)"
  have ids: "distinct (map blk_id (owner_page db))"
    using assms(1) by (simp add: db_ok_def page_ok_def)
  from moved have after: "after = retext blank_text ?page" by (simp add: Let_def)
  have "image_mset unplaced (mset (page_elements ?page) + mset (blk_elements source)) =
      image_mset unplaced (mset (page_elements (owner_page db)) + mset (moved_elements source destination))"
    by (rule arg_cong, rule moved_page_elements [OF ids ij source destination])
  moreover have "image_mset unplaced (mset (moved_elements source destination)) =
      image_mset unplaced (mset (blk_elements source))"
    using unplaced_moved [OF room] by (metis mset_map)
  ultimately have "mset (map unplaced (page_elements ?page)) =
      mset (map unplaced (page_elements (owner_page db)))" by simp
  from unplaced_retext [OF this, of blank_text] have
    "mset (map unplaced (page_elements after)) = mset (map unplaced (page_elements (read_blocks db)))"
    by (simp only: after db_ok_blank [OF assms(1)])
  moreover have "map blk_id after = filter (\<lambda>k. k \<noteq> i) (map blk_id (read_blocks db))"
  proof -
    have "map blk_id after = map blk_id (filter (\<lambda>b. blk_id b \<noteq> i)
        (with_appended j (moved_elements source destination) (owner_page db)))"
      by (simp add: after moved_page_def comp_def)
    also have "\<dots> = filter (\<lambda>k. k \<noteq> i) (map blk_id
        (with_appended j (moved_elements source destination) (owner_page db)))"
      by (rule ids_filter)
    finally show ?thesis by simp
  qed
  ultimately show ?thesis by (simp add: read)
qed

lemma arrange_run_asked:
  assumes "collect_from i (arrange_one kind bs) cs seen = Inr (after, seen')"
  shows "map (\<lambda>h. (blk_id h, blk_hidden h, blk_width h)) after =
    map (\<lambda>c. (arr_id c, arr_hidden c, arr_width c)) cs"
  using assms
proof (induction cs arbitrary: i seen after)
  case (Cons c cs)
  then obtain h seen1 rest where one: "arrange_one kind bs i c seen = Inr (h, seen1)"
    and tail: "collect_from (Suc i) (arrange_one kind bs) cs seen1 = Inr (rest, seen')"
    and after: "after = h # rest"
    by (auto split: sum.splits prod.splits)
  from arrange_one_facts [OF one] Cons.IH [OF tail] show ?case by (simp add: after)
qed simp

text \<open>
  \<^verbatim>\<open>ArrangeBlocks\<close> changes the presentation of a page and not what a download carries: the
  page has the order, the hiding and the widths that were asked for, it holds the elements it
  held, and neither the digest of the downloadable content nor the counter moves.
\<close>

theorem arrange_is_presentation:
  assumes "db_ok db" and "arrange_blocks owner choices db = (db', Inr after)"
  shows "map (\<lambda>h. (blk_id h, blk_hidden h, blk_width h)) (read_blocks db') =
      map (\<lambda>c. (arr_id c, arr_hidden c, arr_width c)) choices \<and>
    mset (page_elements (read_blocks db')) = mset (page_elements (read_blocks db)) \<and>
    content_fingerprint env db' = content_fingerprint env db \<and>
    ast_generation db' = ast_generation db"
proof -
  have tx: "arrange_blocks_tx owner choices db = Inr (db', after)"
    using assms(2) by (auto simp: arrange_blocks_def transact_def split: sum.splits if_splits)
  then obtain seen where run: "collect (arrange_one (ast_kind db) (read_blocks db)) choices {} = Inr (after, seen)"
    by (auto simp: arrange_blocks_tx_def and_then_Inr Let_def lock_Inr)
  have "read_blocks db' = after" "ast_generation db' = ast_generation db"
    using arrange_blocks_page [OF assms(1) tx] by blast+
  then show ?thesis
    using arrange_run_asked [OF run] arrange_blocks_keeps [OF assms(1) tx]
      arrange_blocks_counts [OF assms(1) tx] by blast
qed

lemma save_block_tx_run:
  assumes "save_block env owner i u db = (db', Inr b)"
  shows "\<exists>sealed bs. save_block_tx env owner i u db = Inr (db', sealed) \<and>
    restore_prompt_fragments (db_protected db') sealed = Inr bs \<and> block_with i bs = Some b"
  using assms
  by (auto simp: save_block_def transact_def and_then_Inr split: sum.splits prod.splits if_splits)

lemma saved_page_others:
  "filter (\<lambda>b. blk_id b \<noteq> i) (saved_page i u db) = filter (\<lambda>b. blk_id b \<noteq> i) (owner_page db)"
proof -
  have "filter (\<lambda>b. blk_id b \<noteq> i) (map (\<lambda>b. if blk_id b = i then updated u b else b) bs) =
      filter (\<lambda>b. blk_id b \<noteq> i) bs" for bs
    by (induction bs) auto
  then show ?thesis by (simp only: saved_page_def)
qed

lemma save_block_reads:
  assumes "db_ok db" and "save_block env owner i u db = (db', Inr b)"
  shows "filter (\<lambda>b. blk_id b \<noteq> i) (read_blocks db') = filter (\<lambda>b. blk_id b \<noteq> i) (read_blocks db) \<and>
    block_with i (owner_page db') = Some b \<and>
    (owner_page db' = saved_page i u db \<longleftrightarrow> texts_consistent (saved_page i u db))"
proof -
  from save_block_tx_run [OF assms(2)] obtain sealed bs where
    tx: "save_block_tx env owner i u db = Inr (db', sealed)" and
    answer: "restore_prompt_fragments (db_protected db') sealed = Inr bs" "block_with i bs = Some b"
    by blast
  from save_block_page [OF assms(1) tx] obtain store where
    sealed: "sealed = retext blank_text (saved_page i u db)" "read_blocks db' = sealed" and
    sync: "sync_prompt_fragments (env_sha256 env) (saved_page i u db) (upd_apps u) (db_protected db) =
       Inr (sealed, store)" "db_protected db' = store" by blast
  have restored: "restore_prompt_fragments store sealed = Inr (owner_page db')"
    using db_ok_restores [OF save_block_keeps [OF assms(1) tx]] by (simp only: sealed(2) sync(2))
  have "owner_page db' = saved_page i u db \<longleftrightarrow> texts_consistent (saved_page i u db)"
    using sealed_round_trip [OF sync(1)] by (simp only: restored sum.inject)
  moreover have "block_with i (owner_page db') = Some b"
    using answer restored by (simp only: sync(2) sum.inject)
  moreover have "filter (\<lambda>b. blk_id b \<noteq> i) (read_blocks db') = filter (\<lambda>b. blk_id b \<noteq> i) (read_blocks db)"
    using filter_retext [of i blank_text "owner_page db"]
    by (simp only: sealed filter_retext saved_page_others db_ok_blank [OF assms(1)])
  ultimately show ?thesis by blast
qed

text \<open>
  C12. \<^verbatim>\<open>SaveBlock\<close> rewrites one row and leaves every other as it was, and what it answers is what
  the owner reads next. The owner reads the page that was saved, sealed texts and all, exactly
  when no two sealed fragments of it share an identifier and differ in their text.
\<close>

theorem save_reads_back:
  assumes "db_ok db" and "save_block env owner i u db = (db', Inr b)"
  shows "filter (\<lambda>b. blk_id b \<noteq> i) (read_blocks db') = filter (\<lambda>b. blk_id b \<noteq> i) (read_blocks db) \<and>
    block_with i (owner_page db') = Some b \<and>
    (owner_page db' = saved_page i u db \<longleftrightarrow> texts_consistent (saved_page i u db))"
  using assms by (rule save_block_reads)

text \<open>The update the block sheet sends when nothing was changed in it.\<close>

definition unchanged :: "block \<Rightarrow> block_update" where
  "unchanged b =
     \<lparr>upd_title = blk_title b, upd_layout = blk_layout b, upd_width = blk_width b,
      upd_elements = blk_elements b, upd_apps = None\<rparr>"

text \<open>
  C14. The answer of \<^verbatim>\<open>ArrangeBlocks\<close> is the page as it is stored, its sealed texts taken out, where
  \<^verbatim>\<open>SaveBlock\<close> answers with them put back. The builder keeps either answer as its page: a block
  saved from an arranged page, with nothing changed in it, has every sealed text of the block
  overwritten with nothing.
\<close>

theorem arranged_answer_erases:
  assumes "db_ok db" and "arrange_blocks owner choices db = (db1, Inr after)" and "b \<in> set after"
    and "save_block env owner (blk_id b) (unchanged b) db1 = (db2, Inr c)"
    and "texts_consistent (saved_page (blk_id b) (unchanged b) db1)"
  shows "block_with (blk_id b) (owner_page db2) = Some c \<and> blk_elements c = blk_elements b \<and>
    list_all (\<lambda>f. frag_protected f \<longrightarrow> frag_text f = []) (concat (map prompts_of (blk_elements c)))"
proof -
  have tx: "arrange_blocks_tx owner choices db = Inr (db1, after)"
    using assms(2) by (auto simp: arrange_blocks_def transact_def split: sum.splits if_splits)
  have sound: "db_ok db1" using arrange_blocks_keeps [OF assms(1) tx] by blast
  have read: "read_blocks db1 = after" using arrange_blocks_page [OF assms(1) tx] by blast
  note saved = save_block_reads [OF sound assms(4)]
  have c: "block_with (blk_id b) (owner_page db2) = Some c" and
    page: "owner_page db2 = saved_page (blk_id b) (unchanged b) db1" using saved assms(5) by blast+
  have "c \<in> set (saved_page (blk_id b) (unchanged b) db1)" "blk_id c = blk_id b"
    using block_with_Some [OF c] page by simp_all
  then have elements: "blk_elements c = blk_elements b"
    using saved_page_elements [of c "blk_id b" "unchanged b" db1] by (simp add: unchanged_def)
  have "frag_text f = []" if f: "f \<in> set (concat (map prompts_of (blk_elements b)))" "frag_protected f" for f
  proof -
    from f(1) obtain e where "e \<in> set (blk_elements b)" "f \<in> set (prompts_of e)" by auto
    then have "f \<in> set (page_prompts (read_blocks db1))"
      using page_prompts_element assms(3) by (simp add: read)
    then show ?thesis using sound f(2) by (simp add: db_ok_def sealed_ok_def list_all_iff)
  qed
  then show ?thesis using c elements by (simp add: list_all_iff)
qed

section \<open>A save that passes its checks\<close>

lemma id_once:
  "\<lbrakk>distinct (map blk_id bs); i \<in> set (map blk_id bs)\<rbrakk> \<Longrightarrow> length (filter (\<lambda>b. blk_id b = i) bs) = 1"
  by (induction bs) (auto simp: filter_empty_conv image_iff)

lemma save_block_accepted:
  assumes "printable env" and "db_ok db" and "lock_editable_asset owner db = Inr kind"
    and "block_with i (owner_page db) = Some b" and "well_structured (env_encoder env) (updated u b)"
    and "page_allowed kind (owner_page db) (saved_page i u db)"
    and "validate_protected_apps env db kind (saved_page i u db) (upd_apps u) = Inr ()"
    and "sync_prompt_fragments (env_sha256 env) (saved_page i u db) (upd_apps u) (db_protected db) =
      Inr (sealed, store)"
  shows "\<exists>db' c. save_block env owner i u db = (db', Inr c)"
proof -
  have kind: "kind = ast_kind db" and live: "\<not> ast_deleted db" using assms(3) by (simp_all add: lock_Inr)
  have ids: "distinct (map blk_id (owner_page db))"
    using assms(2) by (simp add: db_ok_def page_ok_def)
  note restores = db_ok_restores [OF assms(2)]
  from fingerprint_total [OF assms(1) restores live] obtain fp where fp: "content_fingerprint env db = Inr fp"
    by blast
  have sealed: "sealed_ok store sealed" "sealed = retext blank_text (saved_page i u db)"
    using sealed_ok_sync [OF assms(8)] by blast+
  have b: "b \<in> set (owner_page db)" "blk_id b = i" using block_with_Some [OF assms(4)] by blast+
  have sealed_ids: "map blk_id sealed = map blk_id (owner_page db)"
    unfolding sealed(2) saved_page_def map_map by (rule map_cong [OF refl]) simp
  have "i \<in> set (map blk_id sealed)" unfolding sealed_ids using imageI [OF b(1), of blk_id] by (simp only: set_map b(2))
  then obtain row where row: "block_with i sealed = Some row"
    using block_with_unique [of sealed] ids unfolding sealed_ids [symmetric] by auto
  have "distinct (map blk_id (db_blocks db))" using ids by (simp add: distinct_read_blocks)
  moreover have "set (map blk_id (db_blocks db)) = set (map blk_id (owner_page db))" by simp
  then have "i \<in> set (map blk_id (db_blocks db))"
    using imageI [OF b(1), of blk_id] by (simp only: set_map b(2))
  ultimately have once: "length (filter (\<lambda>b. blk_id b = i) (db_blocks db)) = 1" by (rule id_once)
  have row_elements: "blk_elements row = map (map_element blank_text) (upd_elements u)"
    using row unfolding sealed(2) by (rule sealed_row_elements)
  let ?db = "set_rows i (updated (u\<lparr>upd_elements := blk_elements row\<rparr>)) (db\<lparr>db_protected := store\<rparr>)"
  have "read_blocks ?db = sealed"
    using saved_rows_read [OF assms(2), of i u]
    by (simp add: row_elements sealed(2) set_rows_read)
  then obtain db' where settled: "settle env fp sealed ?db = Inr db'"
    using settle_total [OF assms(1), of ?db] sealed(1) live by (auto simp: set_rows_def)
  have checks: "validate_structure (env_encoder env) (updated u b) = Inr ()"
    "validate_builder_constraints (ast_kind db) (owner_page db) (saved_page i u db) = Inr ()"
    using assms(5,6) by (simp_all add: kind structure_well_structured builder_constraints_allowed)
  have tx: "save_block_tx env owner i u db = Inr (db', sealed)"
    using assms(3,4,7,8) checks fp restores row once ids settled
    by (simp add: save_block_tx_def Let_def kind update_first_map flip: saved_page_def)
  have sound: "db_ok db'" using save_block_keeps [OF assms(2) tx] .
  from save_block_page [OF assms(2) tx] have page: "db_protected db' = store"
    using assms(8) by auto
  have "block_with i (retext (with_text store) sealed) = Some (map_block (with_text store) row)"
    using row by (simp add: block_with_map)
  then show ?thesis
    using save.commits [OF assms(2), of env owner i u] tx page sealed_ok_restores [OF sealed(1)]
    by (simp add: save_block_def)
qed

text \<open>
  Nothing refuses a save after its checks. Once the caller may edit, the block is on the page,
  it is well structured, the page it makes is allowed, its apps have targets and its prompts can
  be sealed, the save is committed and answered: the row it updates is there once, the digest
  can be taken again, the deferred constraints hold and every sealed text can be read back.
\<close>

theorem save_accepted:
  assumes "printable env" and "db_ok db" and "lock_editable_asset owner db = Inr kind"
    and "block_with i (owner_page db) = Some b" and "well_structured (env_encoder env) (updated u b)"
    and "page_allowed kind (owner_page db) (saved_page i u db)"
    and "validate_protected_apps env db kind (saved_page i u db) (upd_apps u) = Inr ()"
    and "sync_prompt_fragments (env_sha256 env) (saved_page i u db) (upd_apps u) (db_protected db) =
      Inr (sealed, store)"
  shows "\<exists>db' c. save_block env owner i u db = (db', Inr c)"
  using assms by (rule save_block_accepted)

section \<open>A move that passes its checks\<close>

lemma delete_block_alive [simp]:
  "ast_deleted (delete_block_and_close_positions i hs db) = ast_deleted db"
  using delete_block_fields [of i hs db db] by (simp add: same_asset_def)

lemma set_rows_alive [simp]: "ast_deleted (set_rows i f db) = ast_deleted db"
  by (simp add: set_rows_def)

lemma move_accepted:
  assumes "printable env" and "db_ok db" and "lock_editable_asset owner db = Inr kind"
    and "block_with i (owner_page db) = Some source" and "block_with j (owner_page db) = Some destination"
    and "i \<noteq> j" and "\<not> is_required kind source"
    and "list_all (\<lambda>e. \<not> block_pinned source (el_role e) kind) (blk_elements source)"
    and "blk_elements source \<noteq> []"
    and "length (blk_elements source) \<le> length (free_slots destination)"
    and "moved = moved_elements source destination"
    and "well_structured (env_encoder env)
      (destination\<lparr>blk_elements := blk_elements destination @ moved\<rparr>)"
    and "page_allowed kind (with_appended j moved (owner_page db)) (moved_page i j moved (owner_page db))"
    and "sync_prompt_fragments (env_sha256 env) (moved_page i j moved (owner_page db)) None
      (db_protected db) = Inr (sealed, store)"
  shows "\<exists>db' after. move_block_content env owner i j db = (db', Inr after)"
proof -
  have kind: "kind = ast_kind db" and live: "\<not> ast_deleted db" using assms(3) by (simp_all add: lock_Inr)
  note restores = db_ok_restores [OF assms(2)]
  from fingerprint_total [OF assms(1) restores live] obtain fp where fp: "content_fingerprint env db = Inr fp"
    by blast
  have sealed: "sealed_ok store sealed" "sealed = retext blank_text (moved_page i j moved (owner_page db))"
    using sealed_ok_sync [OF assms(14)] by blast+
  have ids: "distinct (map blk_id (owner_page db))"
    using assms(2) by (simp add: db_ok_def page_ok_def)
  have sealed_ids: "map blk_id sealed = filter (\<lambda>k. k \<noteq> i) (map blk_id (owner_page db))"
  proof -
    have "map blk_id sealed = map blk_id (filter (\<lambda>b. blk_id b \<noteq> i) (with_appended j moved (owner_page db)))"
      by (simp add: sealed(2) moved_page_def comp_def)
    also have "\<dots> = filter (\<lambda>k. k \<noteq> i) (map blk_id (with_appended j moved (owner_page db)))"
      by (rule ids_filter)
    finally show ?thesis by (simp only: with_appended_ids)
  qed
  have "j \<in> blk_id ` set (owner_page db)" using block_with_Some [OF assms(5)] by blast
  then have "j \<in> set (map blk_id sealed)" using assms(6) by (simp only: sealed_ids set_filter set_map) simp
  moreover have "distinct (map blk_id sealed)" unfolding sealed_ids using ids by (rule distinct_filter)
  ultimately obtain row where row: "block_with j sealed = Some row"
    using block_with_unique [of sealed] by auto
  let ?db = "delete_block_and_close_positions i sealed
    (set_rows j (\<lambda>b. b\<lparr>blk_elements := blk_elements row\<rparr>) (db\<lparr>db_protected := store\<rparr>))"
  have "read_blocks ?db = sealed" by (rule moved_rows_read [OF assms(2) sealed(2) row])
  moreover have "db_protected ?db = store" using delete_block_fields [of i sealed] by simp
  ultimately obtain db' where settled: "settle env fp sealed ?db = Inr db'"
    using settle_total [OF assms(1), of ?db] sealed(1) live by auto
  have checks: "validate_structure (env_encoder env)
      (destination\<lparr>blk_elements := blk_elements destination @ moved\<rparr>) = Inr ()"
    "validate_builder_constraints kind (with_appended j moved (owner_page db))
      (moved_page i j moved (owner_page db)) = Inr ()"
    using assms(12,13) by (simp_all add: structure_well_structured builder_constraints_allowed)
  have loose: "each (\<lambda>k e u. ensure (\<not> block_pinned source (el_role e) kind)
      (PinnedCannotMove (role_label (el_role e)))) (blk_elements source) () = Inr ()"
    using assms(8) by (subst each_from_checks) auto
  have "move_block_content_tx env owner i j db = Inr (db', sealed)"
    using assms(3-7,9,10,14) checks loose fp restores row settled
    by (simp add: move_block_content_tx_def Let_def not_required_def flip: moved_page_def assms(11))
  then show ?thesis
    using move.commits [OF assms(2), of env owner i j] by (simp add: move_block_content_def)
qed

section \<open>A placed page\<close>

lemma laid_out_core:
  assumes "catalog kind = Some ds" and "laid_out 0 ds bs"
  shows "core_kept kind bs"
proof -
  have "list_ex (\<lambda>b. blk_definition b = def_id d \<and>
      list_all (\<lambda>p. de_pinned p \<longrightarrow>
        list_ex (\<lambda>e. el_role e = de_role p \<and> el_type e = de_type p) (blk_elements b))
        (def_elements d)) bs" if d: "d \<in> set ds" "def_required d" for d
  proof -
    from laid_out_required [OF assms(2) d] obtain b where b: "b \<in> set bs" "blk_definition b = def_id d"
      by blast
    from laid_out_block [OF assms(2) b(1)] obtain d' n where d': "d' \<in> set ds" "laid_from d' n b"
      by blast
    then have "def_id d' = def_id d" using b(2) by (simp add: laid_from_def)
    then have "d' = d" using catalog_ids_distinct [OF assms(1)] d(1) d'(1) by (metis distinct_map inj_onD)
    then have "seats (def_elements d) (blk_elements b)" using d'(2) by (simp add: laid_from_def)
    then have "list_all (\<lambda>p. de_pinned p \<longrightarrow>
        list_ex (\<lambda>e. el_role e = de_role p \<and> el_type e = de_type p) (blk_elements b)) (def_elements d)"
      using seats_pinned by (fastforce simp: list_all_iff list_ex_iff fills_def)
    with b show ?thesis by (auto simp: list_ex_iff)
  qed
  then show ?thesis using assms(1) by (simp add: core_kept_def list_all_iff)
qed

text \<open>
  A page \<^verbatim>\<open>Place\<close> made is where the edits start: stored as the rows of an asset of its kind, with
  nothing sealed on it, it is sound, so everything the edits keep holds of every asset that was
  placed and edited since.
\<close>

theorem placed_page_sound:
  assumes "place kind tagged src = Inr (blocks, src')"
    and "fresh_draws 40 (el_id ` set tagged) src" and "own_ids tagged"
    and "list_all (\<lambda>f. \<not> frag_protected f) (page_prompts blocks)"
    and "ast_kind db = kind" and "set (db_blocks db) = set blocks"
    and "length (db_blocks db) = length blocks" and "db_protected db = empty_store"
  shows "db_ok db \<and> read_blocks db = blocks"
proof -
  from placed_page_facts [OF assms(1-3)] obtain ds where
    ds: "catalog kind = Some ds" and laid: "laid_out 0 ds blocks" and
    ids: "distinct (page_ids blocks)" and allowed: "page_allowed kind blocks blocks" by blast
  have positions: "map blk_position blocks = [0..<length blocks]"
    using laid_out_positions [OF laid] by simp
  then have read: "read_blocks db = blocks" using assms(6,7) by (rule read_blocks_unique [rotated 2])
  have "distinct (page_ids bs) \<Longrightarrow> distinct (map blk_id bs) \<and> blk_id ` set bs \<subseteq> set (page_ids bs)" for bs
    by (induction bs) auto
  then have "distinct (map blk_id blocks)" using ids by blast
  then have "page_ok kind blocks"
    using allowed positions laid_out_core [OF ds laid] by (simp add: page_ok_def)
  moreover have "sealed_ok empty_store blocks"
    using assms(4) by (auto simp: sealed_ok_def empty_store_def list_all_iff)
  ultimately show ?thesis using assms(5,8) by (simp add: db_ok_def read)
qed

end
