(* ===== verification/PageSamples.thy ===== *)
theory PageSamples
  imports PageRuns
begin

text \<open>
  A preset with a sealed prompt, and the theorems of \<^verbatim>\<open>PageRuns\<close> at work on it: an arrangement, a
  save, a move, a placed page, and a sealed text lost between two edits.
\<close>

section \<open>A sample asset\<close>

definition sample_env :: environment where
  "sample_env =
     \<lparr>env_header_fields = \<lambda>_. [HeaderName], env_offered = \<lambda>_ _ _. [\<lparr>tgt_format = ''preset_lumiverse'', tgt_details = []\<rparr>],
      env_content_json = \<lambda>_. Inr ''{}'', env_encoder = \<lparr>item_bytes = \<lambda>_. Inr 100, content_bytes = \<lambda>_. Inr 100\<rparr>,
      env_sha256 = \<lambda>s. s\<rparr>"

definition sample_note :: block where
  "sample_note =
     \<lparr>blk_id = 12, blk_definition = CustomBlock, blk_title = None, blk_position = 1,
      blk_hidden = False, blk_layout = MainAside, blk_width = Full,
      blk_elements = [\<lparr>el_id = 21, el_type = TypeLinkList, el_role = NoRole, el_slot = SlotMain,
        el_options = no_options, el_content = Some (LinkList [])\<rparr>]\<rparr>"

definition sample_asset :: page_db where
  "sample_asset =
     \<lparr>ast_owner = 7, ast_kind = ''preset'', ast_origin = [], ast_header = \<lambda>_. ''sample'', ast_cover = None,
      ast_withheld = False, ast_deleted = False, ast_generation = 3,
      db_blocks = [sample_note, (hd twin_page)\<lparr>blk_elements := [twin 1 []]\<rparr>],
      db_protected = \<lparr>payloads = [(9, \<lparr>row_text = ''a'', row_key = None, row_digest = ''a''\<rparr>)], apps = [app_lumiverse]\<rparr>,
      db_preserved = [\<lparr>prs_owner_kind = OwnerElement, prs_owner = 1, prs_namespace = ''lumiverse'', prs_payload = ''{}''\<rparr>],
      db_media = [], db_export = [], db_facets = []\<rparr>"

lemmas sample_defs = sample_asset_def sample_note_def twin_page_def twin_def

lemma sample_read: "read_blocks sample_asset = [(hd twin_page)\<lparr>blk_elements := [twin 1 []]\<rparr>, sample_note]"
  by (simp add: read_blocks_def sample_defs)

lemmas page_checks = page_allowed_def arrangement_ok_def repeatable_def definition_of_def catalog_def
  catalog_defs role_fits_def role_allows_def singular_def role_cardinality_def
  pinned_element_present_def block_pinned_def defined_for_def

lemma sample_page_ok: "page_ok ''preset'' [(hd twin_page)\<lparr>blk_elements := [twin 1 []]\<rparr>, sample_note]"
  unfolding page_ok_def page_allowed_refl_iff
  by (intro conjI) (simp_all add: sample_note_def twin_page_def twin_def page_checks core_kept_def)

lemma sample_sound: "db_ok sample_asset"
proof -
  obtain f where f: "prompts_of (twin 1 []) = [f]" "frag_protected f" "frag_text f = []" "frag_id f = 9"
    by (simp add: twin_def prompts_of_def)
  have prompts: "page_prompts (read_blocks sample_asset) = [f]"
    unfolding sample_read by (simp add: sample_note_def twin_page_def prompts_of_def [of "_\<lparr>el_id := _\<rparr>"] f)
      (simp add: prompts_of_def)
  have store: "payloads (db_protected sample_asset) = [(9, \<lparr>row_text = ''a'', row_key = None, row_digest = ''a''\<rparr>)]"
    "apps (db_protected sample_asset) = [app_lumiverse]" "ast_kind sample_asset = ''preset''"
    by (simp_all add: sample_asset_def)
  have "{g. g = f \<and> frag_protected g} = {f}" using f by auto
  then have "sealed_ok (db_protected sample_asset) (read_blocks sample_asset)"
    by (simp add: sealed_ok_def prompts store f)
  then show ?thesis using sample_page_ok by (simp add: db_ok_def store sample_read)
qed

definition sample_choices :: "block_arrangement list" where
  "sample_choices = [\<lparr>arr_id = 12, arr_hidden = True, arr_width = Full\<rparr>,
     \<lparr>arr_id = 11, arr_hidden = False, arr_width = Full\<rparr>]"

definition sample_arranged :: "block list" where
  "sample_arranged = [sample_note\<lparr>blk_position := 0, blk_hidden := True\<rparr>,
     (hd twin_page)\<lparr>blk_position := 1, blk_elements := [twin 1 []]\<rparr>]"

lemma sample_arranged_tx:
  "\<exists>db'. arrange_blocks_tx 7 sample_choices sample_asset = Inr (db', sample_arranged)"
proof -
  have lock: "lock_editable_asset 7 sample_asset = Inr ''preset''"
    by (simp add: lock_editable_asset_def sample_asset_def)
  have run: "collect (arrange_one ''preset'' (read_blocks sample_asset)) sample_choices {} =
      Inr (sample_arranged, {12, 11})"
    by (auto simp: sample_read sample_choices_def sample_arranged_def arrange_one_def sample_note_def
        twin_page_def definition_of_def catalog_def catalog_defs)
  have "page_allowed ''preset'' (read_blocks sample_asset) sample_arranged"
    unfolding sample_read sample_arranged_def
    by (simp add: sample_note_def twin_page_def twin_def page_checks)
  then have "validate_builder_constraints ''preset'' (read_blocks sample_asset) sample_arranged = Inr ()"
    by (simp add: builder_constraints_allowed)
  moreover have "length sample_choices = length (read_blocks sample_asset)"
    by (simp add: sample_choices_def sample_asset_def)
  ultimately show ?thesis
    using lock run by (simp add: arrange_blocks_tx_def Let_def)
qed

lemma sample_arrange: "\<exists>db'. arrange_blocks 7 sample_choices sample_asset = (db', Inr sample_arranged)"
  using sample_arranged_tx arrange.commits [OF sample_sound, of 7 sample_choices]
  by (auto simp: arrange_blocks_def)

lemma sample_edits: "\<exists>db'. edits sample_env sample_asset db' \<and> db' \<noteq> sample_asset"
proof -
  from sample_arrange obtain db' where run: "arrange_blocks 7 sample_choices sample_asset = (db', Inr sample_arranged)"
    by blast
  then have tx: "arrange_blocks_tx 7 sample_choices sample_asset = Inr (db', sample_arranged)"
    by (auto simp: arrange_blocks_def transact_def split: sum.splits if_splits)
  have "edits sample_env sample_asset db'"
    using run by (rule edits.more [OF edits.none edited.arranged])
  moreover have "read_blocks db' \<noteq> read_blocks sample_asset"
    using arrange_blocks_page [OF sample_sound tx, THEN conjunct1]
    by (simp add: sample_read sample_arranged_def sample_note_def twin_page_def)
  ultimately show ?thesis by metis
qed

theorem edits_keep_sound_witness:
  "\<exists>db'. edits sample_env sample_asset db' \<and> db' \<noteq> sample_asset \<and> db_ok db'"
  using sample_edits edits_keep_sound [OF _ sample_sound] by metis

theorem edits_mark_changes_witness:
  "\<exists>db'. edits sample_env sample_asset db' \<and> db' \<noteq> sample_asset \<and> 3 \<le> ast_generation db'"
proof -
  have "ast_generation sample_asset = 3" by (simp add: sample_asset_def)
  then show ?thesis using sample_edits edits_mark_changes [OF _ sample_sound] by metis
qed

theorem edits_frozen_witness:
  "fst (arrange_blocks 7 sample_choices (sample_asset\<lparr>ast_withheld := True\<rparr>)) =
     sample_asset\<lparr>ast_withheld := True\<rparr>"
proof (rule edits_frozen)
  show "edits sample_env (sample_asset\<lparr>ast_withheld := True\<rparr>)
      (fst (arrange_blocks 7 sample_choices (sample_asset\<lparr>ast_withheld := True\<rparr>)))"
    by (rule edits.more [OF edits.none edited.arranged]) (rule surjective_pairing)
qed simp

theorem edits_keep_rows_owned_witness:
  "\<exists>db'. edits sample_env sample_asset db' \<and> db' \<noteq> sample_asset \<and> rows_owned db'"
proof -
  have "rows_owned sample_asset"
    by (simp add: rows_owned_def sample_read sample_note_def twin_page_def owners_def twin_def)
      (simp add: sample_asset_def)
  then show ?thesis using sample_edits edits_keep_rows_owned [OF _ sample_sound] by metis
qed

theorem arrange_is_presentation_witness:
  "\<exists>db'. arrange_blocks 7 sample_choices sample_asset = (db', Inr sample_arranged) \<and>
     map blk_id (read_blocks db') = [12, 11] \<and> ast_generation db' = 3"
proof -
  from sample_arrange obtain db' where run: "arrange_blocks 7 sample_choices sample_asset = (db', Inr sample_arranged)"
    by blast
  note facts = arrange_is_presentation [OF sample_sound run]
  have "map fst (map (\<lambda>h. (blk_id h, blk_hidden h, blk_width h)) (read_blocks db')) = [12, 11]"
    using facts by (simp add: sample_choices_def)
  moreover have "ast_generation db' = 3" using facts by (simp add: sample_asset_def)
  ultimately show ?thesis using run by (simp add: comp_def)
qed

definition sample_update :: block_update where
  "sample_update =
     \<lparr>upd_title = Some ''Prompts'', upd_layout = Single, upd_width = Full,
      upd_elements = [twin 1 ''b''], upd_apps = None\<rparr>"

lemma sample_note_text: "map_block g sample_note = sample_note"
  by (simp add: sample_note_def map_block_def map_element_def)

lemma twin_text:
  "map_element (with_text st) (twin i t) = twin i (stored_text st 9)"
  "map_element blank_text (twin i t) = twin i []"
  by (simp_all add: twin_def map_element_def with_text_def blank_text_def)

lemma sample_owner_page: "owner_page sample_asset = [hd twin_page, sample_note]"
proof -
  have "stored_text (db_protected sample_asset) 9 = ''a''"
    by (simp add: sample_asset_def stored_text_def)
  then show ?thesis
    unfolding owner_page_def sample_read
    by (simp add: sample_note_text) (simp add: map_block_def twin_text twin_page_def)
qed

lemma sample_saved_page:
  "saved_page 11 sample_update sample_asset = [updated sample_update (hd twin_page), sample_note]"
  unfolding saved_page_def sample_owner_page by (simp add: twin_page_def sample_note_def)

lemma sample_env_printable: "printable sample_env"
  by (simp add: printable_def sample_env_def)

lemma sample_lock: "lock_editable_asset 7 sample_asset = Inr ''preset''"
  by (simp add: lock_editable_asset_def sample_asset_def)

lemma twin_sound:
  "blk_layout b = Single \<Longrightarrow> blk_elements b = [twin 1 t] \<Longrightarrow> well_structured (env_encoder sample_env) b"
  by (simp add: well_structured_def twin_def sample_env_def within_limits_def held_items_def
      max_collection_items_def item_within_def max_item_bytes_def max_payload_bytes_def
      element_sound_def element_item_ids_def options_fit_def takes_display_def)

lemma sample_sync:
  assumes "apps st \<noteq> []" and "blk_elements b = [twin 1 t]" and "c \<in> {[b, sample_note], [sample_note\<lparr>blk_position := 0, blk_hidden := True\<rparr>, b]}"
  shows "\<exists>sealed store. sync_prompt_fragments h c None st = Inr (sealed, store)"
  using assms
  by (auto simp: sync_prompt_fragments_def on_prompts_def on_block_def on_element_def
      seal_fragment_def policy_def Let_def twin_def sample_note_def)

lemma sample_save_sync:
  "\<exists>sealed store. sync_prompt_fragments h (saved_page 11 sample_update sample_asset) None
     (db_protected sample_asset) = Inr (sealed, store)"
  unfolding sample_saved_page
  by (rule sample_sync [where t = "''b''" and b = "updated sample_update (hd twin_page)"])
    (simp_all add: sample_asset_def sample_update_def)

lemma sample_update_apps: "upd_apps sample_update = None"
  by (simp add: sample_update_def)

lemma sample_save_checks:
  "block_with 11 (owner_page sample_asset) = Some (hd twin_page)"
  "well_structured (env_encoder sample_env) (updated sample_update (hd twin_page))"
  "page_allowed ''preset'' (owner_page sample_asset) (saved_page 11 sample_update sample_asset)"
  "validate_protected_apps sample_env sample_asset ''preset''
     (saved_page 11 sample_update sample_asset) (upd_apps sample_update) = Inr ()"
proof -
  show "block_with 11 (owner_page sample_asset) = Some (hd twin_page)"
    by (simp add: sample_owner_page block_with_def twin_page_def)
  show "well_structured (env_encoder sample_env) (updated sample_update (hd twin_page))"
    by (rule twin_sound) (simp_all add: sample_update_def)
  show "page_allowed ''preset'' (owner_page sample_asset) (saved_page 11 sample_update sample_asset)"
    unfolding sample_owner_page sample_saved_page
    by (simp add: sample_note_def twin_page_def twin_def page_checks sample_update_def)
  show "validate_protected_apps sample_env sample_asset ''preset''
      (saved_page 11 sample_update sample_asset) (upd_apps sample_update) = Inr ()"
    by (simp add: validate_protected_apps_def sample_update_apps)
qed

lemma sample_save: "\<exists>db' c. save_block sample_env 7 11 sample_update sample_asset = (db', Inr c)"
  using sample_save_sync [of "env_sha256 sample_env"]
    save_block_accepted [OF sample_env_printable sample_sound sample_lock sample_save_checks]
  by (auto simp: sample_update_apps)

theorem save_accepted_witness:
  "\<exists>db' c. save_block sample_env 7 11 sample_update sample_asset = (db', Inr c)"
  using sample_save_sync [of "env_sha256 sample_env"]
    save_accepted [OF sample_env_printable sample_sound sample_lock sample_save_checks]
  by (auto simp: sample_update_apps)

theorem save_reads_back_witness:
  "\<exists>db' c. save_block sample_env 7 11 sample_update sample_asset = (db', Inr c) \<and>
     owner_page db' = [updated sample_update (hd twin_page), sample_note]"
proof -
  from sample_save obtain db' c where run: "save_block sample_env 7 11 sample_update sample_asset = (db', Inr c)"
    by blast
  have "page_prompts [updated sample_update (hd twin_page), sample_note] = prompts_of (twin 1 ''b'')"
    by (simp add: sample_update_def sample_note_def) (simp add: prompts_of_def)
  then have "texts_consistent (saved_page 11 sample_update sample_asset)"
    unfolding sample_saved_page texts_consistent_def by (simp add: prompts_of_def twin_def)
  then show ?thesis
    using save_reads_back [OF sample_sound run] run by (simp add: sample_saved_page)
qed

text \<open>The same asset with a third block, whose content can move into the second.\<close>

definition sample_spare :: block where
  "sample_spare = sample_note\<lparr>blk_id := 13, blk_position := 2, blk_layout := Single,
     blk_elements := [hd (blk_elements sample_note)\<lparr>el_id := 22\<rparr>]\<rparr>"

definition sample_wide :: page_db where
  "sample_wide = sample_asset\<lparr>db_blocks := sample_spare # db_blocks sample_asset\<rparr>"

lemma sample_wide_read:
  "read_blocks sample_wide = [(hd twin_page)\<lparr>blk_elements := [twin 1 []]\<rparr>, sample_note, sample_spare]"
  by (simp add: read_blocks_def sample_wide_def sample_spare_def sample_defs)

lemma sample_wide_sound: "db_ok sample_wide"
proof -
  have kind: "ast_kind sample_wide = ''preset''" "db_protected sample_wide = db_protected sample_asset"
    by (simp_all add: sample_wide_def sample_asset_def)
  have "page_ok ''preset'' (read_blocks sample_wide)"
    unfolding page_ok_def page_allowed_refl_iff sample_wide_read
    by (intro conjI) (simp_all add: sample_spare_def sample_note_def twin_page_def twin_def page_checks core_kept_def)
  moreover have "page_prompts (read_blocks sample_wide) = page_prompts (read_blocks sample_asset)"
    unfolding sample_wide_read sample_read by (simp add: sample_spare_def sample_note_def) (simp add: prompts_of_def)
  then have "sealed_ok (db_protected sample_asset) (read_blocks sample_wide)"
    using sample_sound by (simp add: db_ok_def sealed_ok_def)
  ultimately show ?thesis by (simp add: db_ok_def kind)
qed

lemma sample_wide_owner: "owner_page sample_wide = [hd twin_page, sample_note, sample_spare]"
proof -
  have "map_block g sample_spare = sample_spare" for g
    by (simp add: sample_spare_def sample_note_def map_block_def map_element_def)
  moreover have "db_protected sample_wide = db_protected sample_asset" by (simp add: sample_wide_def)
  moreover have "map_block (with_text (db_protected sample_asset)) ((hd twin_page)\<lparr>blk_elements := [twin 1 []]\<rparr>) = hd twin_page"
    using sample_owner_page unfolding owner_page_def sample_read by simp
  ultimately show ?thesis unfolding owner_page_def sample_wide_read by (simp add: sample_note_text)
qed

definition sample_moved :: element where
  "sample_moved = (hd (blk_elements sample_spare))\<lparr>el_slot := SlotAside\<rparr>"

lemma sample_moved_page:
  "moved_page 13 12 [sample_moved] (owner_page sample_wide) =
     [hd twin_page, sample_note\<lparr>blk_elements := blk_elements sample_note @ [sample_moved]\<rparr>]"
  unfolding sample_wide_owner moved_page_def with_appended_def
  by (simp add: twin_page_def sample_note_def sample_spare_def renumbered_def)

lemma sample_move: "\<exists>db' after. move_block_content sample_env 7 13 12 sample_wide = (db', Inr after)"
proof -
  have sync: "\<exists>sealed store. sync_prompt_fragments (env_sha256 sample_env)
      (moved_page 13 12 [sample_moved] (owner_page sample_wide)) None (db_protected sample_wide) = Inr (sealed, store)"
    unfolding sample_moved_page
    by (simp add: sync_prompt_fragments_def on_prompts_def on_block_def on_element_def twin_page_def
        seal_fragment_def policy_def Let_def twin_def sample_note_def sample_moved_def sample_spare_def
        sample_wide_def sample_asset_def)
  have lock: "lock_editable_asset 7 sample_wide = Inr ''preset''"
    by (simp add: lock_editable_asset_def sample_wide_def sample_asset_def)
  have blocks: "block_with 13 (owner_page sample_wide) = Some sample_spare"
    "block_with 12 (owner_page sample_wide) = Some sample_note"
    by (simp_all add: sample_wide_owner block_with_def twin_page_def sample_note_def sample_spare_def)
  have moved: "[sample_moved] = moved_elements sample_spare sample_note"
    by (simp add: moved_elements_def free_slots_def sample_spare_def sample_note_def sample_moved_def)
  show ?thesis
  proof (rule exE [OF sync], erule exE,
      rule move_accepted [OF sample_env_printable sample_wide_sound lock blocks _ _ _ _ _ moved])
    show "\<not> is_required ''preset'' sample_spare"
      by (simp add: is_required_def sample_spare_def sample_note_def page_checks)
    show "list_all (\<lambda>e. \<not> block_pinned sample_spare (el_role e) ''preset'') (blk_elements sample_spare)"
      by (simp add: sample_spare_def sample_note_def page_checks)
    show "length (blk_elements sample_spare) \<le> length (free_slots sample_note)"
      by (simp add: free_slots_def sample_spare_def sample_note_def)
    show "page_allowed ''preset'' (with_appended 12 [sample_moved] (owner_page sample_wide))
        (moved_page 13 12 [sample_moved] (owner_page sample_wide))"
      unfolding sample_moved_page unfolding sample_wide_owner with_appended_def
      by (simp add: sample_moved_def sample_spare_def sample_note_def twin_page_def twin_def page_checks)
    show "well_structured (env_encoder sample_env)
        (sample_note\<lparr>blk_elements := blk_elements sample_note @ [sample_moved]\<rparr>)"
      by (simp add: well_structured_def sample_moved_def sample_spare_def sample_note_def sample_env_def
          within_limits_def held_items_def max_collection_items_def item_within_def max_item_bytes_def
          max_payload_bytes_def element_sound_def element_item_ids_def options_fit_def takes_display_def)
  qed (simp_all add: sample_spare_def)
qed

theorem move_loses_nothing_witness:
  "\<exists>db' after. move_block_content sample_env 7 13 12 sample_wide = (db', Inr after) \<and>
     map blk_id (read_blocks db') = [11, 12] \<and> length (page_elements (read_blocks db')) = 3"
proof -
  from sample_move obtain db' after where
    run: "move_block_content sample_env 7 13 12 sample_wide = (db', Inr after)" by blast
  note facts = move_loses_nothing [OF sample_wide_sound run]
  have "length (map unplaced (page_elements (read_blocks db'))) =
      length (map unplaced (page_elements (read_blocks sample_wide)))"
    using facts by (metis mset_eq_length)
  moreover have "length (page_elements (read_blocks sample_wide)) = 3"
    unfolding sample_wide_read by (simp add: sample_spare_def sample_note_def)
  moreover have "map blk_id (read_blocks sample_wide) = [11, 12, 13]"
    unfolding sample_wide_read by (simp add: sample_spare_def sample_note_def twin_page_def)
  ultimately show ?thesis using run facts by simp
qed

lemma sample_placed_counting:
  "place ''lorebook'' [sample_book] counting =
     Inr ([\<lparr>blk_id = counting 0, blk_definition = LorebookCore, blk_title = None, blk_position = 0,
            blk_hidden = False, blk_layout = Single, blk_width = Full,
            blk_elements = [sample_book\<lparr>el_slot := SlotMain\<rparr>]\<rparr>], after_draw counting)"
  by (simp add: place_def catalog_def catalog_defs place_one_def fill_def fill_one_def
      take_element_def matches_def sample_book_def item_id_def drawn_def
      List.map_filter_simps layout_for_def seated_def)

theorem placed_page_sound_witness:
  "\<exists>bs src'. place ''lorebook'' [sample_book] counting = Inr (bs, src') \<and>
     db_ok (sample_asset\<lparr>ast_kind := ''lorebook'', db_blocks := bs, db_protected := empty_store\<rparr>)"
proof (intro exI conjI)
  let ?bs = "[\<lparr>blk_id = counting 0, blk_definition = LorebookCore, blk_title = None, blk_position = 0,
            blk_hidden = False, blk_layout = Single, blk_width = Full,
            blk_elements = [sample_book\<lparr>el_slot := SlotMain\<rparr>]\<rparr>]"
  have "fresh_draws 40 (el_id ` set [sample_book]) counting"
    by (rule counting_fresh) (auto simp: sample_book_def)
  moreover have "own_ids [sample_book]" by (simp add: own_ids_def)
  moreover have "list_all (\<lambda>f. \<not> frag_protected f) (page_prompts ?bs)"
    by (simp add: prompts_of_def sample_book_def)
  ultimately show "db_ok (sample_asset\<lparr>ast_kind := ''lorebook'', db_blocks := ?bs, db_protected := empty_store\<rparr>)"
    using placed_page_sound [OF sample_placed_counting, of "sample_asset\<lparr>ast_kind := ''lorebook'',
      db_blocks := ?bs, db_protected := empty_store\<rparr>"] by simp
qed (rule sample_placed_counting)

text \<open>A sealed text is lost when the arranged page's answer is saved as it is.\<close>

definition sample_core :: block where
  "sample_core = (hd twin_page)\<lparr>blk_position := 1, blk_elements := [twin 1 []]\<rparr>"

lemma sample_after:
  assumes "arrange_blocks 7 sample_choices sample_asset = (db1, Inr sample_arranged)"
  shows "db_ok db1" "read_blocks db1 = sample_arranged" "db_protected db1 = db_protected sample_asset"
    "lock_editable_asset 7 db1 = Inr ''preset''"
proof -
  have tx: "arrange_blocks_tx 7 sample_choices sample_asset = Inr (db1, sample_arranged)"
    using assms by (auto simp: arrange_blocks_def transact_def split: sum.splits if_splits)
  show "db_ok db1" using arrange_blocks_keeps [OF sample_sound tx] ..
  from arrange_blocks_page [OF sample_sound tx] have
    facts: "read_blocks db1 = sample_arranged" "db_protected db1 = db_protected sample_asset"
      "same_asset sample_asset db1" by blast+
  then show "read_blocks db1 = sample_arranged" "db_protected db1 = db_protected sample_asset" by simp_all
  from facts(3) show "lock_editable_asset 7 db1 = Inr ''preset''"
    by (simp add: lock_editable_asset_def same_asset_def sample_asset_def)
qed

lemma sample_after_pages:
  assumes "read_blocks db1 = sample_arranged" and "db_protected db1 = db_protected sample_asset"
  shows "owner_page db1 = [sample_note\<lparr>blk_position := 0, blk_hidden := True\<rparr>, sample_core\<lparr>blk_elements := [twin 1 ''a'']\<rparr>]"
    "saved_page 11 (unchanged sample_core) db1 =
      [sample_note\<lparr>blk_position := 0, blk_hidden := True\<rparr>, sample_core]"
proof -
  have "stored_text (db_protected sample_asset) 9 = ''a''"
    by (simp add: sample_asset_def stored_text_def)
  then show page: "owner_page db1 =
      [sample_note\<lparr>blk_position := 0, blk_hidden := True\<rparr>, sample_core\<lparr>blk_elements := [twin 1 ''a'']\<rparr>]"
    unfolding owner_page_def assms sample_arranged_def
    by (simp add: sample_core_def map_block_def twin_text sample_note_def)
      (simp add: map_element_def)
  show "saved_page 11 (unchanged sample_core) db1 =
      [sample_note\<lparr>blk_position := 0, blk_hidden := True\<rparr>, sample_core]"
    unfolding saved_page_def page
    by (simp add: sample_core_def sample_note_def twin_page_def updated_def unchanged_def)
qed

theorem arranged_answer_erases_witness:
  "\<exists>db1 db2 c. arrange_blocks 7 sample_choices sample_asset = (db1, Inr sample_arranged) \<and>
     save_block sample_env 7 11 (unchanged sample_core) db1 = (db2, Inr c) \<and>
     owner_page sample_asset = [hd twin_page, sample_note] \<and> blk_elements (hd twin_page) = [twin 1 ''a''] \<and>
     block_with 11 (owner_page db2) = Some c \<and> blk_elements c = [twin 1 []]"
proof -
  from sample_arrange obtain db1 where run: "arrange_blocks 7 sample_choices sample_asset = (db1, Inr sample_arranged)"
    by blast
  note after = sample_after [OF run]
  note pages = sample_after_pages [OF after(2,3)]
  have "\<exists>sealed store. sync_prompt_fragments (env_sha256 sample_env) (saved_page 11 (unchanged sample_core) db1)
      (upd_apps (unchanged sample_core)) (db_protected db1) = Inr (sealed, store)"
    unfolding pages(2) after(3)
    by (simp only: unchanged_def block_update.simps)
      (rule sample_sync [where t = "[]" and b = sample_core], simp_all add: sample_asset_def sample_core_def)
  then obtain sealed store where sync: "sync_prompt_fragments (env_sha256 sample_env)
      (saved_page 11 (unchanged sample_core) db1) (upd_apps (unchanged sample_core)) (db_protected db1) =
      Inr (sealed, store)" by blast
  have "block_with 11 (owner_page db1) = Some (sample_core\<lparr>blk_elements := [twin 1 ''a'']\<rparr>)"
    by (simp add: pages(1) block_with_def sample_core_def sample_note_def twin_page_def)
  moreover have "well_structured (env_encoder sample_env)
      (updated (unchanged sample_core) (sample_core\<lparr>blk_elements := [twin 1 ''a'']\<rparr>))"
    by (rule twin_sound) (simp_all add: unchanged_def sample_core_def twin_page_def)
  moreover have "page_allowed ''preset'' (owner_page db1) (saved_page 11 (unchanged sample_core) db1)"
    unfolding pages by (simp add: sample_core_def sample_note_def twin_page_def twin_def page_checks)
  moreover have "validate_protected_apps sample_env db1 ''preset'' (saved_page 11 (unchanged sample_core) db1)
      (upd_apps (unchanged sample_core)) = Inr ()"
    by (simp add: validate_protected_apps_def unchanged_def)
  ultimately obtain db2 c where save: "save_block sample_env 7 11 (unchanged sample_core) db1 = (db2, Inr c)"
    using save_block_accepted [OF sample_env_printable after(1,4) _ _ _ _ sync] by blast
  have "page_prompts [sample_note\<lparr>blk_position := 0, blk_hidden := True\<rparr>, sample_core] = prompts_of (twin 1 [])"
    by (simp add: sample_core_def sample_note_def) (simp add: prompts_of_def)
  then have "texts_consistent (saved_page 11 (unchanged sample_core) db1)"
    unfolding pages texts_consistent_def by (simp add: prompts_of_def twin_def)
  moreover have "sample_core \<in> set sample_arranged" by (simp add: sample_arranged_def sample_core_def)
  moreover have id: "blk_id sample_core = 11" by (simp add: sample_core_def twin_page_def)
  ultimately have "block_with 11 (owner_page db2) = Some c \<and> blk_elements c = blk_elements sample_core"
    using arranged_answer_erases [OF sample_sound run _ save [folded id]] by (simp add: id)
  then show ?thesis
    using run save sample_owner_page by (simp add: sample_core_def) (simp add: twin_page_def)
qed

end
