(* ===== verification/LinkText.thy ===== *)
theory LinkText
  imports Prelude
begin

text \<open>
  What the linking code uses of Go's text packages: UTF-8 as \<^verbatim>\<open>range\<close> over a string reads it,
  \<^verbatim>\<open>strings.TrimSpace\<close> and \<^verbatim>\<open>strings.ToUpper\<close>, and \<^verbatim>\<open>base64.RawURLEncoding\<close>. The tables of Unicode
  beyond ASCII (which runes print, which are spaces, what a rune's upper case is) are parameters.
\<close>

section \<open>Runes\<close>

definition byte :: "char \<Rightarrow> nat" where
  "byte c = of_char c"

definition between :: "nat \<Rightarrow> nat \<Rightarrow> char \<Rightarrow> bool" where
  "between lo hi c \<longleftrightarrow> lo \<le> byte c \<and> byte c \<le> hi"

definition rune_error :: nat where
  "rune_error = 0xFFFD"

text \<open>
  One rune from the front of a string and the number of bytes it takes, as \<^verbatim>\<open>utf8.DecodeRune\<close>:
  a byte that starts no well-formed sequence is an error rune of one byte.
\<close>

definition two_bytes :: "char \<Rightarrow> char \<Rightarrow> nat" where
  "two_bytes a b = (byte a - 0xC0) * 64 + (byte b - 0x80)"

definition three_bytes :: "char \<Rightarrow> char \<Rightarrow> char \<Rightarrow> nat" where
  "three_bytes a b c = (byte a - 0xE0) * 4096 + (byte b - 0x80) * 64 + (byte c - 0x80)"

definition four_bytes :: "char \<Rightarrow> char \<Rightarrow> char \<Rightarrow> char \<Rightarrow> nat" where
  "four_bytes a b c d =
     (byte a - 0xF0) * 262144 + (byte b - 0x80) * 4096 + (byte c - 0x80) * 64 + (byte d - 0x80)"

definition second_of_three :: "char \<Rightarrow> char \<Rightarrow> bool" where
  "second_of_three a b \<longleftrightarrow>
     (if byte a = 0xE0 then between 0xA0 0xBF b
      else if byte a = 0xED then between 0x80 0x9F b
      else between 0x80 0xBF b)"

definition second_of_four :: "char \<Rightarrow> char \<Rightarrow> bool" where
  "second_of_four a b \<longleftrightarrow>
     (if byte a = 0xF0 then between 0x90 0xBF b
      else if byte a = 0xF4 then between 0x80 0x8F b
      else between 0x80 0xBF b)"

definition decode_rune :: "char \<Rightarrow> string \<Rightarrow> nat \<times> nat" where
  "decode_rune a rest =
     (if byte a < 0x80 then (byte a, 1)
      else if between 0xC2 0xDF a then
        (case rest of
           b # _ \<Rightarrow> if between 0x80 0xBF b then (two_bytes a b, 2) else (rune_error, 1)
         | _ \<Rightarrow> (rune_error, 1))
      else if between 0xE0 0xEF a then
        (case rest of
           b # c # _ \<Rightarrow>
             if second_of_three a b \<and> between 0x80 0xBF c then (three_bytes a b c, 3)
             else (rune_error, 1)
         | _ \<Rightarrow> (rune_error, 1))
      else if between 0xF0 0xF4 a then
        (case rest of
           b # c # d # _ \<Rightarrow>
             if second_of_four a b \<and> between 0x80 0xBF c \<and> between 0x80 0xBF d
             then (four_bytes a b c d, 4) else (rune_error, 1)
         | _ \<Rightarrow> (rune_error, 1))
      else (rune_error, 1))"

text \<open>The runes of a string, each with the bytes it came from.\<close>

fun runes_from :: "nat \<Rightarrow> string \<Rightarrow> (nat \<times> string) list" where
  "runes_from skip [] = []"
| "runes_from (Suc skip) (c # cs) = runes_from skip cs"
| "runes_from 0 (c # cs) =
     (let (r, w) = decode_rune c cs in (r, take w (c # cs)) # runes_from (w - 1) cs)"

definition runes :: "string \<Rightarrow> (nat \<times> string) list" where
  "runes s = runes_from 0 s"

definition ascii :: "string \<Rightarrow> bool" where
  "ascii s \<longleftrightarrow> list_all (\<lambda>c. byte c < 0x80) s"

lemma runes_ascii: "ascii s \<Longrightarrow> runes s = map (\<lambda>c. (byte c, [c])) s"
  by (induction s) (simp_all add: runes_def ascii_def decode_rune_def)

section \<open>Unicode\<close>

record unicode =
  uni_print :: "nat \<Rightarrow> bool"
  uni_space :: "nat \<Rightarrow> bool"
  uni_upper :: "nat \<Rightarrow> nat"

definition is_print :: "unicode \<Rightarrow> nat \<Rightarrow> bool" where
  "is_print uni r \<longleftrightarrow> (if r < 0x80 then 0x20 \<le> r \<and> r < 0x7F else uni_print uni r)"

definition is_space :: "unicode \<Rightarrow> nat \<Rightarrow> bool" where
  "is_space uni r \<longleftrightarrow>
     (if r < 0x80 then (9 \<le> r \<and> r \<le> 13) \<or> r = 0x20 else uni_space uni r)"

definition to_upper :: "unicode \<Rightarrow> nat \<Rightarrow> nat" where
  "to_upper uni r =
     (if r < 0x80 then (if 97 \<le> r \<and> r \<le> 122 then r - 32 else r) else uni_upper uni r)"

definition trim_space :: "unicode \<Rightarrow> string \<Rightarrow> string" where
  "trim_space uni s =
     (let drop_spaces = dropWhile (\<lambda>(r, bs). is_space uni r)
      in concat (map snd (rev (drop_spaces (rev (drop_spaces (runes s)))))))"

section \<open>base64.RawURLEncoding\<close>

definition base64_alphabet :: string where
  "base64_alphabet = ''ABCDEFGHIJKLMNOPQRSTUVWXYZabcdefghijklmnopqrstuvwxyz0123456789-_''"

definition letter :: "nat \<Rightarrow> char" where
  "letter n = base64_alphabet ! n"

definition sextet :: "char \<Rightarrow> nat option" where
  "sextet c = List.find (\<lambda>n. letter n = c) [0..<64]"

fun base64_sextets :: "string \<Rightarrow> nat list" where
  "base64_sextets (a # b # c # rest) =
     [byte a div 4, byte a mod 4 * 16 + byte b div 16, byte b mod 16 * 4 + byte c div 64,
      byte c mod 64] @ base64_sextets rest"
| "base64_sextets [a, b] = [byte a div 4, byte a mod 4 * 16 + byte b div 16, byte b mod 16 * 4]"
| "base64_sextets [a] = [byte a div 4, byte a mod 4 * 16]"
| "base64_sextets [] = []"

definition base64_encode :: "string \<Rightarrow> string" where
  "base64_encode bs = map letter (base64_sextets bs)"

text \<open>
  Decoding skips carriage returns and line feeds, refuses any other byte outside the alphabet
  and a last group of one letter, and ignores the spare bits of the last letter.
\<close>

fun base64_bytes :: "nat list \<Rightarrow> string option" where
  "base64_bytes (w # x # y # z # rest) =
     map_option (\<lambda>bs. char_of (w * 4 + x div 16) # char_of (x mod 16 * 16 + y div 4)
                       # char_of (y mod 4 * 64 + z) # bs)
       (base64_bytes rest)"
| "base64_bytes [w, x, y] = Some [char_of (w * 4 + x div 16), char_of (x mod 16 * 16 + y div 4)]"
| "base64_bytes [w, x] = Some [char_of (w * 4 + x div 16)]"
| "base64_bytes [w] = None"
| "base64_bytes [] = Some []"

definition base64_decode :: "string \<Rightarrow> string option" where
  "base64_decode s =
     (let ss = map sextet (filter (\<lambda>c. c \<noteq> CHR 0x0A \<and> c \<noteq> CHR 0x0D) s)
      in if None \<in> set ss then None else base64_bytes (map the ss))"

lemma byte_less [simp]: "byte c < 256"
  unfolding byte_def by (metis mod_less_divisor of_char_mod_256 zero_less_numeral)

lemma char_of_byte [simp]: "char_of (byte c) = c"
  by (simp add: byte_def)

lemma letters: "distinct base64_alphabet" "length base64_alphabet = 64"
  by (simp_all add: base64_alphabet_def)

lemma sextet_letter: "n < 64 \<Longrightarrow> sextet (letter n) = Some n"
  using letters by (auto simp: sextet_def letter_def find_Some_iff nth_eq_iff_index_eq intro!: exI [of _ n])

lemma letter_kept: "n < 64 \<Longrightarrow> letter n \<noteq> CHR 0x0A \<and> letter n \<noteq> CHR 0x0D"
proof -
  have "list_all (\<lambda>c. c \<noteq> CHR 0x0A \<and> c \<noteq> CHR 0x0D) base64_alphabet"
    by (simp add: base64_alphabet_def)
  then show "n < 64 \<Longrightarrow> ?thesis" using letters by (simp add: letter_def list_all_length)
qed

lemma base64_sextets_small: "n \<in> set (base64_sextets bs) \<Longrightarrow> n < 64"
proof (induction bs rule: base64_sextets.induct)
  case (1 a b c rest)
  have "byte a div 4 < 64" "byte b div 16 < 16" "byte c div 64 < 4"
    using byte_less [of a] byte_less [of b] byte_less [of c] by linarith+
  then show ?case using 1 by auto
next
  case (2 a b)
  have "byte a div 4 < 64" "byte b div 16 < 16" using byte_less [of a] byte_less [of b] by linarith+
  then show ?case using 2 by auto
next
  case (3 a)
  have "byte a div 4 < 64" using byte_less [of a] by linarith
  then show ?case using 3 by auto
qed simp

text \<open>Two digits in base \<open>k\<close>, taken apart again.\<close>

lemma two_digits: "n < k \<Longrightarrow> (m * k + n) div k = m \<and> (m * k + n) mod k = (n :: nat)"
  by simp

lemma byte_parts:
  "byte a div 4 * 4 + byte a mod 4 = byte a" "byte b div 16 * 16 + byte b mod 16 = byte b"
  "byte c div 64 * 64 + byte c mod 64 = byte c" "byte b div 16 < 16" "byte c div 64 < 4"
  using byte_less [of b] byte_less [of c] by (simp_all only: div_mult_mod_eq)

lemma base64_bytes_sextets: "base64_bytes (base64_sextets bs) = Some bs"
proof (induction bs rule: base64_sextets.induct)
  case (1 a b c rest)
  note ab = two_digits [OF byte_parts(4) [of b], of "byte a mod 4"]
  note bc = two_digits [OF byte_parts(5) [of c], of "byte b mod 16"]
  show ?case by (simp add: 1 ab bc byte_parts)
next
  case (2 a b)
  note ab = two_digits [OF byte_parts(4) [of b], of "byte a mod 4"]
  show ?case by (simp add: ab byte_parts)
next
  case (3 a)
  show ?case by (simp add: byte_parts)
qed simp

lemma base64_decode_encode [simp]: "base64_decode (base64_encode bs) = Some bs"
proof -
  have small: "list_all (\<lambda>n. n < 64) (base64_sextets bs)"
    using base64_sextets_small by (simp add: list_all_iff)
  then have kept: "filter (\<lambda>c. c \<noteq> CHR 0x0A \<and> c \<noteq> CHR 0x0D) (base64_encode bs) = base64_encode bs"
    by (auto simp: base64_encode_def filter_id_conv list_all_iff letter_kept)
  have "map sextet (base64_encode bs) = map Some (base64_sextets bs)"
    using small by (simp add: base64_encode_def sextet_letter list_all_iff)
  then have "None \<notin> set (map sextet (base64_encode bs))"
    "map the (map sextet (base64_encode bs)) = base64_sextets bs"
    by (auto simp: comp_def)
  then show ?thesis
    by (simp only: base64_decode_def kept Let_def if_False base64_bytes_sextets)
qed

lemma length_base64: "length (base64_encode bs) = (4 * length bs + 2) div 3"
proof -
  have "length (base64_sextets bs) = (4 * length bs + 2) div 3"
    by (induction bs rule: base64_sextets.induct) simp_all
  then show ?thesis by (simp add: base64_encode_def)
qed

lemma base64_letters: "c \<in> set (base64_encode bs) \<Longrightarrow> c \<in> set base64_alphabet"
  using base64_sextets_small letters by (auto simp: base64_encode_def letter_def)

end
