(* ===== verification/LinkCodes.thy ===== *)
theory LinkCodes
  imports LinkText
begin

text \<open>
  \<^verbatim>\<open>linking/linking.go\<close>: what an application declares and asks for, the codes and tokens the
  service makes, and how each is checked when it comes back.

  Random bytes come from a source of the bytes to come. The URL parser of \<^verbatim>\<open>net/url\<close>, SHA-256 and
  the HMAC under the service's key are parameters.
\<close>

section \<open>Declarations and scopes\<close>

definition scope_receive_assets :: string where
  "scope_receive_assets = ''asset:receive''"

definition scope_sync_library :: string where
  "scope_sync_library = ''library:sync''"

definition scope_order :: "string list" where
  "scope_order = [scope_receive_assets, scope_sync_library]"

datatype link_error =
    InvalidName
  | InvalidDeclaration
  | InvalidScopes
  | InvalidRedirect
  | InvalidPKCE
  | LinkRequestNotFound
  | LinkExpired
  | AccessDenied
  | PollTooSoon int
  | TooManyCodes
  | TooManyRequests int
  | InstanceNotFound
  | InstanceCredential
  | RefreshReuse
  | InstanceMissingScope
  | NoCodeLeft
  | StatementFailed

text \<open>A Go slice may be nil, which \<^verbatim>\<open>validateDeclaration\<close> tells from an empty one.\<close>

record app_declaration =
  dec_application :: string
  dec_instance :: string
  dec_version :: string
  dec_protocol :: int
  dec_capabilities :: "string list option"
  dec_targets :: "string list option"

record start_input =
  inp_declaration :: app_declaration
  inp_scopes :: "string list"

record authorization_input =
  aut_start :: start_input
  aut_redirect :: string
  aut_state :: string
  aut_challenge :: string
  aut_method :: string

record request_uri =
  uri_scheme :: string
  uri_opaque :: string
  uri_user :: bool
  uri_query :: string
  uri_fragment :: string
  uri_path :: string
  uri_host :: string
  uri_port :: string

record link_env =
  lke_unicode :: unicode
  lke_parse :: "string \<Rightarrow> request_uri option"
  lke_sha256 :: "string \<Rightarrow> string"
  lke_hmac :: "string \<Rightarrow> string"
  lke_site :: string

definition max_name_length :: nat where "max_name_length = 64"
definition max_version_length :: nat where "max_version_length = 64"
definition max_identifier_length :: nat where "max_identifier_length = 64"
definition max_declaration_items :: nat where "max_declaration_items = 32"
definition max_redirect_length :: nat where "max_redirect_length = 512"
definition protocol_version :: int where "protocol_version = 1"

definition validate_text :: "unicode \<Rightarrow> string \<Rightarrow> nat \<Rightarrow> link_error + string" where
  "validate_text uni raw limit =
     (let v = trim_space uni raw in
      if v = [] \<or> limit < length (runes v) then Inl InvalidDeclaration
      else if list_all (\<lambda>(r, bs). is_print uni r) (runes v) then Inr v
      else Inl InvalidDeclaration)"

definition lower :: "char \<Rightarrow> bool" where
  "lower c \<longleftrightarrow> between 97 122 c"

definition digit_char :: "char \<Rightarrow> bool" where
  "digit_char c \<longleftrightarrow> between 48 57 c"

text \<open>\<^verbatim>\<open>capabilityPattern\<close> and \<^verbatim>\<open>targetPattern\<close>: no class holds a colon, so the first one divides.\<close>

definition capability_pattern :: "string \<Rightarrow> bool" where
  "capability_pattern s \<longleftrightarrow>
     (let space = takeWhile (\<lambda>c. c \<noteq> CHR '':'') s; rest = dropWhile (\<lambda>c. c \<noteq> CHR '':'') s in
      space \<noteq> [] \<and> lower (hd space) \<and>
      list_all (\<lambda>c. lower c \<or> digit_char c \<or> c \<in> set ''.-'') (tl space) \<and>
      (case rest of
         colon # first # others \<Rightarrow>
           lower first \<and> list_all (\<lambda>c. lower c \<or> digit_char c \<or> c \<in> set ''._-'') others
       | _ \<Rightarrow> False))"

definition target_pattern :: "string \<Rightarrow> bool" where
  "target_pattern s \<longleftrightarrow>
     (case s of
        [] \<Rightarrow> False
      | c # cs \<Rightarrow> (lower c \<or> digit_char c) \<and>
          list_all (\<lambda>c. lower c \<or> digit_char c \<or> c \<in> set ''._-'') cs)"

definition pkce_pattern :: "string \<Rightarrow> bool" where
  "pkce_pattern s \<longleftrightarrow>
     s \<noteq> [] \<and> list_all (\<lambda>c. between 65 90 c \<or> lower c \<or> digit_char c \<or> c \<in> set ''._~-'') s"

definition canonical_one ::
  "(string \<Rightarrow> bool) \<Rightarrow> nat \<Rightarrow> string \<Rightarrow> string set \<Rightarrow> link_error + string \<times> string set" where
  "canonical_one pattern i v seen =
     (if max_identifier_length < length v \<or> \<not> pattern v then Inl InvalidDeclaration
      else if v \<in> seen then Inl InvalidDeclaration
      else Inr (v, insert v seen))"

definition canonical_identifiers ::
  "string list \<Rightarrow> (string \<Rightarrow> bool) \<Rightarrow> link_error + string list" where
  "canonical_identifiers vs pattern =
     (if max_declaration_items < length vs then Inl InvalidDeclaration
      else and_then (collect (canonical_one pattern) vs {}) (\<lambda>(result, seen). Inr result))"

definition validate_declaration :: "unicode \<Rightarrow> app_declaration \<Rightarrow> link_error + app_declaration" where
  "validate_declaration uni d =
     and_then (explain (\<lambda>_. InvalidName) (validate_text uni (dec_application d) max_name_length))
       (\<lambda>application.
     and_then (explain (\<lambda>_. InvalidName) (validate_text uni (dec_instance d) max_name_length))
       (\<lambda>inst.
     let version = trim_space uni (dec_version d) in
     and_then (if version \<noteq> []
               then explain (\<lambda>_. InvalidDeclaration) (validate_text uni version max_version_length)
               else Inr []) (\<lambda>_.
     if dec_protocol d \<noteq> protocol_version then Inl InvalidDeclaration
     else
       and_then (or_refuse InvalidDeclaration (dec_capabilities d)) (\<lambda>given_capabilities.
       and_then (or_refuse InvalidDeclaration (dec_targets d)) (\<lambda>given_targets.
       and_then (canonical_identifiers given_capabilities capability_pattern) (\<lambda>capabilities.
       and_then (canonical_identifiers given_targets target_pattern) (\<lambda>targets.
       Inr \<lparr>dec_application = application, dec_instance = inst, dec_version = version,
            dec_protocol = protocol_version, dec_capabilities = Some capabilities,
            dec_targets = Some targets\<rparr>)))))))"

text \<open>\<^verbatim>\<open>canonicalScopes\<close>: the requested scopes in the fixed order, each asked for once.\<close>

definition grant_scope ::
  "string list \<Rightarrow> nat \<Rightarrow> string \<Rightarrow> string list \<Rightarrow> link_error + string list" where
  "grant_scope requested i known granted =
     (let asked = length (filter (\<lambda>s. s = known) requested) in
      if 1 < asked then Inl InvalidScopes
      else if asked = 1 then Inr (granted @ [known]) else Inr granted)"

definition canonical_scopes :: "string list \<Rightarrow> link_error + string list" where
  "canonical_scopes requested =
     (if requested = [] then Inl InvalidScopes
      else
        and_then (each (grant_scope requested) scope_order [])
          (\<lambda>granted. if length granted \<noteq> length requested then Inl InvalidScopes else Inr granted))"

definition validate_start :: "unicode \<Rightarrow> start_input \<Rightarrow> link_error + start_input" where
  "validate_start uni input =
     and_then (validate_declaration uni (inp_declaration input)) (\<lambda>d.
     and_then (canonical_scopes (inp_scopes input)) (\<lambda>scopes.
     Inr \<lparr>inp_declaration = d, inp_scopes = scopes\<rparr>))"

section \<open>Random codes\<close>

type_synonym byte_source = "nat \<Rightarrow> char"

definition next_bytes :: "nat \<Rightarrow> byte_source \<Rightarrow> string" where
  "next_bytes n src = map src [0..<n]"

definition after_bytes :: "nat \<Rightarrow> byte_source \<Rightarrow> byte_source" where
  "after_bytes n src = (\<lambda>k. src (n + k))"

definition code_alphabet :: string where
  "code_alphabet = ''BCDFGHJKLMNPQRSTVWXZ23456789''"

definition code_length :: nat where "code_length = 8"
definition code_group_size :: nat where "code_group_size = 4"
definition secret_bytes :: nat where "secret_bytes = 32"
definition opaque_code_length :: nat where "opaque_code_length = 43"
definition max_user_code_input :: nat where "max_user_code_input = 16"

definition credential_length :: nat where
  "credential_length = 3 + 1 + code_length + 1 + opaque_code_length"

definition code_limit :: nat where
  "code_limit = 256 div length code_alphabet * length code_alphabet"

definition code_letter :: "char \<Rightarrow> char" where
  "code_letter v = code_alphabet ! (byte v mod length code_alphabet)"

text \<open>
  \<^verbatim>\<open>newCode\<close>: buffers of \<open>n\<close> bytes are read until \<open>n\<close> letters are there; a byte past the last
  whole multiple of the alphabet is thrown away. The loop need not end for every source.
\<close>

fun take_letters :: "nat \<Rightarrow> string \<Rightarrow> string \<Rightarrow> string" where
  "take_letters n code [] = code"
| "take_letters n code (v # vs) =
     (if byte v < code_limit \<and> length code < n then take_letters n (code @ [code_letter v]) vs
      else take_letters n code vs)"

partial_function (option) fill_code ::
  "nat \<Rightarrow> string \<Rightarrow> byte_source \<Rightarrow> (string \<times> byte_source) option" where
  "fill_code n code src =
     (if length code < n
      then fill_code n (take_letters n code (next_bytes n src)) (after_bytes n src)
      else Some (code, src))"

definition new_code :: "nat \<Rightarrow> byte_source \<Rightarrow> (string \<times> byte_source) option" where
  "new_code n src = fill_code n [] src"

definition format_user_code :: "string \<Rightarrow> string" where
  "format_user_code code = take code_group_size code @ ''-'' @ drop code_group_size code"

definition code_rune :: "nat \<Rightarrow> bool" where
  "code_rune r \<longleftrightarrow> r < 0x80 \<and> char_of r \<in> set code_alphabet"

definition keep_letter :: "nat \<Rightarrow> nat \<Rightarrow> string \<Rightarrow> unit + string" where
  "keep_letter i r code =
     (if code_rune r then Inr (code @ [char_of r])
      else if r \<noteq> byte (CHR ''-'') \<and> r \<noteq> byte (CHR '' '') then Inl ()
      else Inr code)"

definition normalize_user_code :: "unicode \<Rightarrow> string \<Rightarrow> string option" where
  "normalize_user_code uni raw =
     (if max_user_code_input < length raw then None
      else
        (case each keep_letter (map (\<lambda>(r, bs). to_upper uni r) (runes raw)) [] of
           Inl u \<Rightarrow> None
         | Inr code \<Rightarrow> if length code \<noteq> code_length then None else Some code))"

section \<open>Opaque codes and tokens\<close>

definition new_opaque_code :: "link_env \<Rightarrow> byte_source \<Rightarrow> (string \<times> string) \<times> byte_source" where
  "new_opaque_code env src =
     (let code = base64_encode (next_bytes secret_bytes src)
      in ((code, lke_sha256 env code), after_bytes secret_bytes src))"

definition decodes_to_secret :: "string \<Rightarrow> bool" where
  "decodes_to_secret s \<longleftrightarrow>
     (case base64_decode s of None \<Rightarrow> False | Some raw \<Rightarrow> length raw = secret_bytes)"

definition opaque_code_hash :: "link_env \<Rightarrow> string \<Rightarrow> string option" where
  "opaque_code_hash env code =
     (if length code \<noteq> opaque_code_length \<or> \<not> decodes_to_secret code then None
      else Some (lke_sha256 env code))"

definition access_token_kind :: string where "access_token_kind = ''ia1''"
definition refresh_token_kind :: string where "refresh_token_kind = ''ir1''"

record credential =
  crd_token :: string
  crd_prefix :: string
  crd_hash :: string

definition new_credential ::
  "link_env \<Rightarrow> string \<Rightarrow> byte_source \<Rightarrow> (credential \<times> byte_source) option" where
  "new_credential env kind src =
     (case new_code code_length src of
        None \<Rightarrow> None
      | Some (prefix, src') \<Rightarrow>
          (let token = kind @ ''.'' @ prefix @ ''.'' @ base64_encode (next_bytes secret_bytes src')
           in Some (\<lparr>crd_token = token, crd_prefix = prefix, crd_hash = lke_sha256 env token\<rparr>,
                    after_bytes secret_bytes src')))"

text \<open>\<^verbatim>\<open>strings.Split\<close> at a byte.\<close>

fun split_at :: "char \<Rightarrow> string \<Rightarrow> string list" where
  "split_at sep [] = [[]]"
| "split_at sep (c # cs) =
     (if c = sep then [] # split_at sep cs
      else (case split_at sep cs of [] \<Rightarrow> [[c]] | p # ps \<Rightarrow> (c # p) # ps))"

definition credential_hash :: "link_env \<Rightarrow> string \<Rightarrow> string \<Rightarrow> string option" where
  "credential_hash env token kind =
     (if length token \<noteq> credential_length then None
      else
        (case split_at (CHR ''.'') token of
           [k, prefix, secret] \<Rightarrow>
             if k \<noteq> kind \<or> length prefix \<noteq> code_length then None
             else if \<not> list_all (\<lambda>(r, bs). code_rune r) (runes prefix) then None
             else if \<not> decodes_to_secret secret then None
             else Some (lke_sha256 env token)
         | _ \<Rightarrow> None))"

section \<open>Browser authorization\<close>

text \<open>\<^verbatim>\<open>strconv.Atoi\<close> on the digits the URL parser leaves in a port.\<close>

definition atoi :: "string \<Rightarrow> int option" where
  "atoi s =
     (if s = [] \<or> \<not> list_all digit_char s then None
      else
        (let n = foldl (\<lambda>n c. n * 10 + (int (byte c) - 48)) 0 s
         in if n < 2 ^ 63 then Some n else None))"

definition valid_loopback_redirect :: "link_env \<Rightarrow> string \<Rightarrow> bool" where
  "valid_loopback_redirect env raw \<longleftrightarrow>
     length raw \<le> max_redirect_length \<and>
     (case lke_parse env raw of
        None \<Rightarrow> False
      | Some u \<Rightarrow>
          uri_scheme u = ''http'' \<and> uri_opaque u = [] \<and> \<not> uri_user u \<and> uri_query u = [] \<and>
          uri_fragment u = [] \<and> uri_path u \<noteq> [] \<and>
          uri_host u \<in> {''127.0.0.1'', ''::1''} \<and>
          (case atoi (uri_port u) of None \<Rightarrow> False | Some port \<Rightarrow> 0 < port \<and> port \<le> 65535))"

definition valid_challenge :: "string \<Rightarrow> bool" where
  "valid_challenge v \<longleftrightarrow>
     length v = 43 \<and> pkce_pattern v \<and>
     (case base64_decode v of None \<Rightarrow> False | Some raw \<Rightarrow> length raw = 32)"

definition challenge_matches :: "link_env \<Rightarrow> string \<Rightarrow> string \<Rightarrow> bool" where
  "challenge_matches env verifier challenge \<longleftrightarrow>
     43 \<le> length verifier \<and> length verifier \<le> 128 \<and> pkce_pattern verifier \<and>
     base64_encode (lke_sha256 env verifier) = challenge"

definition validate_authorization ::
  "link_env \<Rightarrow> authorization_input \<Rightarrow> link_error + authorization_input" where
  "validate_authorization env input =
     and_then (validate_start (lke_unicode env) (aut_start input)) (\<lambda>start.
     if \<not> valid_loopback_redirect env (aut_redirect input) then Inl InvalidRedirect
     else if length (aut_state input) < 32 \<or> 128 < length (aut_state input) \<or>
         \<not> pkce_pattern (aut_state input) then Inl InvalidPKCE
     else if aut_method input \<noteq> ''S256'' \<or> \<not> valid_challenge (aut_challenge input)
       then Inl InvalidPKCE
     else Inr (input\<lparr>aut_start := start, aut_method := ''S256''\<rparr>))"

text \<open>\<^verbatim>\<open>redirectWith\<close>: the parts of the destination; writing the query is left to \<^verbatim>\<open>net/url\<close>.\<close>

record destination =
  dst_redirect :: string
  dst_query :: "(string \<times> string) list"

definition redirect_with ::
  "link_env \<Rightarrow> string \<Rightarrow> string \<Rightarrow> string \<Rightarrow> string \<Rightarrow> link_error + destination" where
  "redirect_with env raw key answer state =
     (if \<not> valid_loopback_redirect env raw then Inl InvalidRedirect
      else Inr \<lparr>dst_redirect = raw, dst_query = [(key, answer), (''state'', state)]\<rparr>)"

end
