(* ===== verification/LinkStore.thy ===== *)
theory LinkStore
  imports LinkCodes
begin

text \<open>
  The tables of the linking service and its statements (\<^verbatim>\<open>db/queries.sql.go\<close>): link requests of
  devices, browser authorizations, the linked instances with their tokens, and the counters that
  limit a source. Rows are lists in no particular order. A column that is null is held as what
  the code reads it as: no version is the empty string, no protocol is zero.

  Times are microseconds. A statement's \<^verbatim>\<open>now()\<close> is the clock of the database, \<^verbatim>\<open>time.Now()\<close> that of
  the application; an operation is given one reading of each.
\<close>

section \<open>Tables\<close>

record clocks =
  clk_app :: int
  clk_db :: int

definition seconds :: "int \<Rightarrow> int" where
  "seconds n = n * 1000000"

record device_request =
  dev_code :: string
  dev_user_code :: string
  dev_declaration :: app_declaration
  dev_scopes :: "string list"
  dev_token :: "string option"
  dev_reviewed :: "uuid option"
  dev_approved :: "(uuid \<times> int) option"
  dev_denied :: "(uuid \<times> int) option"
  dev_redeemed :: "int option"
  dev_polled :: "int option"
  dev_interval :: int
  dev_expires :: int

record link_authorization =
  lau_request :: string
  lau_code :: "string option"
  lau_redirect :: string
  lau_state :: string
  lau_challenge :: string
  lau_declaration :: app_declaration
  lau_scopes :: "string list"
  lau_reviewed :: "uuid option"
  lau_approved :: "(uuid \<times> int) option"
  lau_denied :: "(uuid \<times> int) option"
  lau_redeemed :: "int option"
  lau_expires :: int

record linked_instance =
  ins_id :: uuid
  ins_user :: uuid
  ins_declaration :: app_declaration
  ins_refresh :: "string option"
  ins_prefix :: string
  ins_scopes :: "string list"
  ins_linked :: int
  ins_seen :: "int option"
  ins_revoked :: "int option"

record access_row =
  acc_hash :: string
  acc_instance :: uuid
  acc_expires :: int

record history_row =
  his_hash :: string
  his_instance :: uuid
  his_until :: int

record rate_row =
  rte_key :: string
  rte_action :: string
  rte_attempts :: int
  rte_start :: int

text \<open>
  The queue of deliveries and the mirror of what an instance installed are written by \<^verbatim>\<open>delivery\<close>;
  a revocation deletes what they hold for the instance.
\<close>

datatype delivery_state = Queued | Released | Failed
datatype delivery_reason = Withdrawn | Unsupported | Abandoned

record delivery_row =
  dlv_id :: uuid
  dlv_instance :: uuid
  dlv_asset :: uuid
  dlv_state :: delivery_state
  dlv_attempts :: int
  dlv_queued :: int
  dlv_lease :: "int option"
  dlv_target :: "string option"
  dlv_settled :: "(int \<times> delivery_reason) option"
  dlv_expires :: int

record library_row =
  lib_instance :: uuid
  lib_asset :: uuid
  lib_generation :: int
  lib_reported :: int

record link_db =
  lnk_devices :: "device_request list"
  lnk_authorizations :: "link_authorization list"
  lnk_instances :: "linked_instance list"
  lnk_access :: "access_row list"
  lnk_history :: "history_row list"
  lnk_rates :: "rate_row list"
  lnk_deliveries :: "delivery_row list"
  lnk_library :: "library_row list"

datatype outcome = Stored link_db | Duplicate | Rejected

definition update_where :: "('r \<Rightarrow> bool) \<Rightarrow> ('r \<Rightarrow> 'r) \<Rightarrow> 'r list \<Rightarrow> 'r list" where
  "update_where p f rs = map (\<lambda>r. if p r then f r else r) rs"

text \<open>\<^verbatim>\<open>DeleteExpired...\<close>: the oldest expired rows, at most \<open>batch\<close> of them.\<close>

definition delete_expired :: "('r \<Rightarrow> int) \<Rightarrow> nat \<Rightarrow> int \<Rightarrow> 'r list \<Rightarrow> 'r list" where
  "delete_expired expires batch now rs =
     (let expired = take batch (sort_key expires (filter (\<lambda>r. expires r \<le> now) rs))
      in filter (\<lambda>r. r \<notin> set expired) rs)"

definition cleanup_batch :: nat where
  "cleanup_batch = 100"

section \<open>Device requests\<close>

definition insert_device_request :: "clocks \<Rightarrow> device_request \<Rightarrow> link_db \<Rightarrow> outcome" where
  "insert_device_request clk d db =
     (if dev_expires d \<le> clk_db clk then Rejected
      else if list_ex (\<lambda>r. dev_code r = dev_code d \<or> dev_user_code r = dev_user_code d)
                (lnk_devices db) then Duplicate
      else Stored (db\<lparr>lnk_devices := lnk_devices db @ [d]\<rparr>))"

definition delete_expired_devices :: "clocks \<Rightarrow> link_db \<Rightarrow> link_db" where
  "delete_expired_devices clk db =
     db\<lparr>lnk_devices := delete_expired dev_expires cleanup_batch (clk_db clk) (lnk_devices db)\<rparr>"

text \<open>The guard the reviews and decisions share: undecided, not expired, nobody else's review.\<close>

definition device_open :: "clocks \<Rightarrow> uuid \<Rightarrow> string \<Rightarrow> device_request \<Rightarrow> bool" where
  "device_open clk user code d \<longleftrightarrow>
     dev_user_code d = code \<and> (dev_reviewed d = None \<or> dev_reviewed d = Some user) \<and>
     clk_db clk < dev_expires d \<and> dev_approved d = None \<and> dev_denied d = None \<and>
     dev_redeemed d = None"

definition review_device :: "clocks \<Rightarrow> uuid \<Rightarrow> string \<Rightarrow> link_db \<Rightarrow> device_request option" where
  "review_device clk user code db = find (device_open clk user code) (lnk_devices db)"

text \<open>
  The index on \<^verbatim>\<open>review_token_hash\<close> is left out: the token is the keyed hash of a user and a code, which
  no two rows share, so that it refuses nothing short of a collision.
\<close>

definition approve_device ::
  "clocks \<Rightarrow> uuid \<Rightarrow> string \<Rightarrow> string \<Rightarrow> link_db \<Rightarrow> (link_db \<times> device_request) option" where
  "approve_device clk user token code db =
     (case find (device_open clk user code) (lnk_devices db) of
        None \<Rightarrow> None
      | Some d \<Rightarrow>
          (let approve = (\<lambda>d. d\<lparr>dev_token := Some token, dev_reviewed := Some user,
                                dev_approved := Some (user, clk_db clk)\<rparr>)
           in Some (db\<lparr>lnk_devices := update_where (device_open clk user code) approve (lnk_devices db)\<rparr>,
                    approve d)))"

definition deny_device ::
  "clocks \<Rightarrow> uuid \<Rightarrow> string \<Rightarrow> string \<Rightarrow> link_db \<Rightarrow> link_db \<times> nat" where
  "deny_device clk user token code db =
     (db\<lparr>lnk_devices := update_where (device_open clk user code)
           (\<lambda>d. d\<lparr>dev_token := Some token, dev_reviewed := Some user,
                  dev_denied := Some (user, clk_db clk)\<rparr>) (lnk_devices db)\<rparr>,
      length (filter (device_open clk user code) (lnk_devices db)))"

definition lock_device :: "string \<Rightarrow> link_db \<Rightarrow> device_request option" where
  "lock_device hash db = find (\<lambda>d. dev_code d = hash) (lnk_devices db)"

definition slowed :: "bool \<Rightarrow> int \<Rightarrow> int" where
  "slowed slow_down interval = (if slow_down then min (interval + 5) 60 else interval)"

definition record_poll ::
  "clocks \<Rightarrow> bool \<Rightarrow> string \<Rightarrow> link_db \<Rightarrow> (link_db \<times> int) option" where
  "record_poll clk slow_down hash db =
     (let polled = (\<lambda>d. dev_code d = hash \<and> clk_db clk < dev_expires d \<and> dev_redeemed d = None)
      in case find polled (lnk_devices db) of
           None \<Rightarrow> None
         | Some d \<Rightarrow>
             Some (db\<lparr>lnk_devices := update_where polled
                       (\<lambda>d. d\<lparr>dev_polled := Some (clk_db clk),
                              dev_interval := slowed slow_down (dev_interval d)\<rparr>) (lnk_devices db)\<rparr>,
                   slowed slow_down (dev_interval d)))"

definition redeemable :: "clocks \<Rightarrow> string \<Rightarrow> device_request \<Rightarrow> bool" where
  "redeemable clk hash d \<longleftrightarrow>
     dev_code d = hash \<and> clk_db clk < dev_expires d \<and> dev_approved d \<noteq> None \<and>
     dev_denied d = None \<and> dev_redeemed d = None"

definition redeem_device :: "clocks \<Rightarrow> string \<Rightarrow> link_db \<Rightarrow> link_db \<times> nat" where
  "redeem_device clk hash db =
     (db\<lparr>lnk_devices := update_where (redeemable clk hash)
           (\<lambda>d. d\<lparr>dev_redeemed := Some (clk_db clk)\<rparr>) (lnk_devices db)\<rparr>,
      length (filter (redeemable clk hash) (lnk_devices db)))"

section \<open>Browser authorizations\<close>

text \<open>A redirect with spaces around it breaks a constraint of the table.\<close>

definition padded :: "string \<Rightarrow> bool" where
  "padded s \<longleftrightarrow> s \<noteq> [] \<and> (hd s = CHR '' '' \<or> last s = CHR '' '')"

definition insert_authorization :: "clocks \<Rightarrow> link_authorization \<Rightarrow> link_db \<Rightarrow> outcome" where
  "insert_authorization clk a db =
     (if lau_expires a \<le> clk_db clk \<or> padded (lau_redirect a) then Rejected
      else if list_ex (\<lambda>r. lau_request r = lau_request a) (lnk_authorizations db) then Duplicate
      else Stored (db\<lparr>lnk_authorizations := lnk_authorizations db @ [a]\<rparr>))"

definition delete_expired_authorizations :: "clocks \<Rightarrow> link_db \<Rightarrow> link_db" where
  "delete_expired_authorizations clk db =
     db\<lparr>lnk_authorizations :=
          delete_expired lau_expires cleanup_batch (clk_db clk) (lnk_authorizations db)\<rparr>"

definition authorization_open :: "clocks \<Rightarrow> uuid \<Rightarrow> string \<Rightarrow> link_authorization \<Rightarrow> bool" where
  "authorization_open clk user hash a \<longleftrightarrow>
     lau_request a = hash \<and> (lau_reviewed a = None \<or> lau_reviewed a = Some user) \<and>
     clk_db clk < lau_expires a \<and> lau_approved a = None \<and> lau_denied a = None \<and>
     lau_redeemed a = None"

definition review_authorization ::
  "clocks \<Rightarrow> uuid \<Rightarrow> string \<Rightarrow> link_db \<Rightarrow> link_authorization option" where
  "review_authorization clk user hash db =
     find (authorization_open clk user hash) (lnk_authorizations db)"

text \<open>The code's hash is unique; one that is taken refuses the statement.\<close>

definition approve_authorization_row ::
  "clocks \<Rightarrow> uuid \<Rightarrow> string \<Rightarrow> string \<Rightarrow> link_db \<Rightarrow> link_error + link_db \<times> link_authorization" where
  "approve_authorization_row clk user code hash db =
     (case find (authorization_open clk user hash) (lnk_authorizations db) of
        None \<Rightarrow> Inl LinkRequestNotFound
      | Some a \<Rightarrow>
          if list_ex (\<lambda>r. lau_code r = Some code) (lnk_authorizations db) then Inl StatementFailed
          else Inr (db\<lparr>lnk_authorizations := update_where (authorization_open clk user hash)
                        (\<lambda>a. a\<lparr>lau_reviewed := Some user, lau_code := Some code,
                               lau_approved := Some (user, clk_db clk)\<rparr>) (lnk_authorizations db)\<rparr>, a))"

definition deny_authorization_row ::
  "clocks \<Rightarrow> uuid \<Rightarrow> string \<Rightarrow> link_db \<Rightarrow> (link_db \<times> link_authorization) option" where
  "deny_authorization_row clk user hash db =
     (case find (authorization_open clk user hash) (lnk_authorizations db) of
        None \<Rightarrow> None
      | Some a \<Rightarrow>
          Some (db\<lparr>lnk_authorizations := update_where (authorization_open clk user hash)
                     (\<lambda>a. a\<lparr>lau_reviewed := Some user, lau_denied := Some (user, clk_db clk)\<rparr>)
                     (lnk_authorizations db)\<rparr>, a))"

definition lock_authorization :: "string \<Rightarrow> link_db \<Rightarrow> link_authorization option" where
  "lock_authorization code db = find (\<lambda>a. lau_code a = Some code) (lnk_authorizations db)"

definition authorization_redeemable :: "clocks \<Rightarrow> string \<Rightarrow> link_authorization \<Rightarrow> bool" where
  "authorization_redeemable clk code a \<longleftrightarrow>
     lau_code a = Some code \<and> clk_db clk < lau_expires a \<and> lau_approved a \<noteq> None \<and>
     lau_denied a = None \<and> lau_redeemed a = None"

definition redeem_authorization :: "clocks \<Rightarrow> string \<Rightarrow> link_db \<Rightarrow> link_db \<times> nat" where
  "redeem_authorization clk code db =
     (db\<lparr>lnk_authorizations := update_where (authorization_redeemable clk code)
           (\<lambda>a. a\<lparr>lau_redeemed := Some (clk_db clk)\<rparr>) (lnk_authorizations db)\<rparr>,
      length (filter (authorization_redeemable clk code) (lnk_authorizations db)))"

section \<open>Instances and tokens\<close>

definition insert_instance :: "linked_instance \<Rightarrow> link_db \<Rightarrow> link_db option" where
  "insert_instance i db =
     (if list_ex (\<lambda>r. ins_id r = ins_id i \<or> (ins_refresh r \<noteq> None \<and> ins_refresh r = ins_refresh i))
           (lnk_instances db) then None
      else Some (db\<lparr>lnk_instances := lnk_instances db @ [i]\<rparr>))"

definition live :: "linked_instance \<Rightarrow> bool" where
  "live i \<longleftrightarrow> ins_revoked i = None"

definition insert_access :: "clocks \<Rightarrow> access_row \<Rightarrow> link_db \<Rightarrow> link_db option" where
  "insert_access clk t db =
     (if \<not> list_ex (\<lambda>i. ins_id i = acc_instance t \<and> live i) (lnk_instances db) \<or>
         acc_expires t \<le> clk_db clk \<or>
         list_ex (\<lambda>r. acc_hash r = acc_hash t) (lnk_access db) then None
      else Some (db\<lparr>lnk_access := lnk_access db @ [t]\<rparr>))"

definition delete_expired_access :: "clocks \<Rightarrow> link_db \<Rightarrow> link_db" where
  "delete_expired_access clk db =
     db\<lparr>lnk_access := delete_expired acc_expires cleanup_batch (clk_db clk) (lnk_access db)\<rparr>"

definition delete_expired_history :: "clocks \<Rightarrow> link_db \<Rightarrow> link_db" where
  "delete_expired_history clk db =
     db\<lparr>lnk_history := delete_expired his_until cleanup_batch (clk_db clk) (lnk_history db)\<rparr>"

definition lock_instance :: "string \<Rightarrow> link_db \<Rightarrow> linked_instance option" where
  "lock_instance hash db = find (\<lambda>i. ins_refresh i = Some hash \<and> live i) (lnk_instances db)"

definition instance_for_used :: "clocks \<Rightarrow> string \<Rightarrow> link_db \<Rightarrow> uuid option" where
  "instance_for_used clk hash db =
     map_option his_instance
       (find (\<lambda>h. his_hash h = hash \<and> clk_db clk < his_until h \<and>
                  list_ex (\<lambda>i. ins_id i = his_instance h) (lnk_instances db)) (lnk_history db))"

definition cut_off :: "clocks \<Rightarrow> linked_instance \<Rightarrow> linked_instance" where
  "cut_off clk i =
     i\<lparr>ins_refresh := None, ins_revoked := Some (clk_db clk),
       ins_declaration := (ins_declaration i)\<lparr>dec_version := [], dec_protocol := 0,
         dec_capabilities := Some [], dec_targets := Some []\<rparr>\<rparr>"

text \<open>\<^verbatim>\<open>RevokeLinkedInstance\<close> and \<^verbatim>\<open>RevokeLinkedInstanceByID\<close>, which does not ask whose it is.\<close>

definition revoke_where :: "clocks \<Rightarrow> (linked_instance \<Rightarrow> bool) \<Rightarrow> link_db \<Rightarrow> link_db \<times> bool" where
  "revoke_where clk p db =
     (let hit = (\<lambda>i. p i \<and> live i);
          gone = map ins_id (filter hit (lnk_instances db))
      in (db\<lparr>lnk_instances := update_where hit (cut_off clk) (lnk_instances db),
             lnk_access := filter (\<lambda>t. acc_instance t \<notin> set gone) (lnk_access db),
             lnk_deliveries := filter (\<lambda>d. dlv_instance d \<notin> set gone) (lnk_deliveries db),
             lnk_library := filter (\<lambda>l. lib_instance l \<notin> set gone) (lnk_library db)\<rparr>,
          gone \<noteq> []))"

definition revoke_instance :: "clocks \<Rightarrow> uuid \<Rightarrow> uuid \<Rightarrow> link_db \<Rightarrow> link_db \<times> bool" where
  "revoke_instance clk user i db =
     revoke_where clk (\<lambda>r. ins_id r = i \<and> ins_user r = user) db"

definition revoke_by_id :: "clocks \<Rightarrow> uuid \<Rightarrow> link_db \<Rightarrow> link_db \<times> bool" where
  "revoke_by_id clk i db = revoke_where clk (\<lambda>r. ins_id r = i) db"

text \<open>\<^verbatim>\<open>RotateInstanceRefreshToken\<close>: the old hash goes to the history in the same statement.\<close>

definition rotate_refresh ::
  "clocks \<Rightarrow> string \<Rightarrow> int \<Rightarrow> string \<Rightarrow> string \<Rightarrow> uuid \<Rightarrow> link_db \<Rightarrow> link_db option" where
  "rotate_refresh clk old detectable_until fresh prefix i db =
     (let hit = (\<lambda>r. ins_id r = i \<and> ins_refresh r = Some old \<and> live r)
      in if \<not> list_ex hit (lnk_instances db) \<or>
            list_ex (\<lambda>r. \<not> hit r \<and> ins_refresh r = Some fresh) (lnk_instances db) \<or>
            list_ex (\<lambda>h. his_hash h = old) (lnk_history db) \<or> detectable_until \<le> clk_db clk then None
         else Some (db\<lparr>lnk_instances := update_where hit
                        (\<lambda>r. r\<lparr>ins_refresh := Some fresh, ins_prefix := prefix,
                               ins_seen := Some (clk_db clk)\<rparr>) (lnk_instances db),
                       lnk_history := lnk_history db @
                        [\<lparr>his_hash = old, his_instance = i, his_until = detectable_until\<rparr>]\<rparr>))"

text \<open>\<^verbatim>\<open>TouchLinkedInstanceByAccessToken\<close>\<close>

definition touch_instance ::
  "clocks \<Rightarrow> string \<Rightarrow> link_db \<Rightarrow> (link_db \<times> linked_instance) option" where
  "touch_instance clk hash db =
     (case find (\<lambda>t. acc_hash t = hash \<and> clk_db clk < acc_expires t) (lnk_access db) of
        None \<Rightarrow> None
      | Some t \<Rightarrow>
          (let hit = (\<lambda>i. ins_id i = acc_instance t \<and> live i);
               seen = (\<lambda>i. i\<lparr>ins_seen := Some (clk_db clk)\<rparr>)
           in case find hit (lnk_instances db) of
                None \<Rightarrow> None
              | Some i \<Rightarrow>
                  Some (db\<lparr>lnk_instances := update_where hit seen (lnk_instances db)\<rparr>, seen i)))"

definition update_declaration_row ::
  "app_declaration \<Rightarrow> uuid \<Rightarrow> link_db \<Rightarrow> (link_db \<times> linked_instance) option" where
  "update_declaration_row d i db =
     (let hit = (\<lambda>r. ins_id r = i \<and> live r);
          declare_it = (\<lambda>r. r\<lparr>ins_declaration := (ins_declaration r)\<lparr>dec_version := dec_version d,
             dec_protocol := dec_protocol d, dec_capabilities := dec_capabilities d,
             dec_targets := dec_targets d\<rparr>\<rparr>)
      in case find hit (lnk_instances db) of
           None \<Rightarrow> None
         | Some r \<Rightarrow>
             Some (db\<lparr>lnk_instances := update_where hit declare_it (lnk_instances db)\<rparr>, declare_it r))"

text \<open>The order an account's page and the delivery service read instances in.\<close>

definition last_active :: "linked_instance \<Rightarrow> int" where
  "last_active i = (case ins_seen i of None \<Rightarrow> ins_linked i | Some t \<Rightarrow> t)"

definition by_recency :: "linked_instance list \<Rightarrow> linked_instance list" where
  "by_recency is = sort_key (\<lambda>i. - last_active i) (sort_key (\<lambda>i. - ins_linked i) is)"

definition list_instances :: "uuid \<Rightarrow> link_db \<Rightarrow> linked_instance list" where
  "list_instances user db =
     sort_key (\<lambda>i. if live i then 0 else 1 :: nat)
       (by_recency (filter (\<lambda>i. ins_user i = user) (lnk_instances db)))"

definition live_instances :: "uuid \<Rightarrow> link_db \<Rightarrow> linked_instance list" where
  "live_instances user db =
     by_recency (filter (\<lambda>i. ins_user i = user \<and> live i) (lnk_instances db))"

definition live_instance :: "uuid \<Rightarrow> uuid \<Rightarrow> link_db \<Rightarrow> linked_instance option" where
  "live_instance i user db =
     find (\<lambda>r. ins_id r = i \<and> ins_user r = user \<and> live r) (lnk_instances db)"

section \<open>Rates\<close>

definition max_integer :: int where
  "max_integer = 2147483647"

definition same_rate :: "string \<Rightarrow> string \<Rightarrow> rate_row \<Rightarrow> bool" where
  "same_rate key action r \<longleftrightarrow> rte_key r = key \<and> rte_action r = action"

text \<open>\<^verbatim>\<open>TakeLinkRateLimit\<close>: a new row, one more attempt in its window, or a new window.\<close>

definition count_attempt :: "clocks \<Rightarrow> int \<Rightarrow> rate_row \<Rightarrow> rate_row" where
  "count_attempt clk cutoff r =
     (if cutoff < rte_start r then r\<lparr>rte_attempts := rte_attempts r + 1\<rparr>
      else r\<lparr>rte_attempts := 1, rte_start := clk_db clk\<rparr>)"

definition take_rate_limit ::
  "clocks \<Rightarrow> string \<Rightarrow> string \<Rightarrow> int \<Rightarrow> link_db \<Rightarrow> (link_db \<times> rate_row) option" where
  "take_rate_limit clk key action cutoff db =
     (case find (same_rate key action) (lnk_rates db) of
        None \<Rightarrow>
          (let r = \<lparr>rte_key = key, rte_action = action, rte_attempts = 1, rte_start = clk_db clk\<rparr>
           in Some (db\<lparr>lnk_rates := lnk_rates db @ [r]\<rparr>, r))
      | Some r \<Rightarrow>
          if cutoff < rte_start r \<and> max_integer \<le> rte_attempts r then None
          else Some (db\<lparr>lnk_rates := update_where (same_rate key action) (count_attempt clk cutoff)
                         (lnk_rates db)\<rparr>, count_attempt clk cutoff r))"

definition delete_expired_rates :: "int \<Rightarrow> link_db \<Rightarrow> link_db" where
  "delete_expired_rates cutoff db =
     db\<lparr>lnk_rates := delete_expired rte_start cleanup_batch cutoff (lnk_rates db)\<rparr>"

end
