(* ===== verification/LinkService.thy ===== *)
theory LinkService
  imports LinkStore
begin

text \<open>
  The linking service: \<^verbatim>\<open>linking/service.go\<close>, \<^verbatim>\<open>linking/credentials.go\<close> and
  \<^verbatim>\<open>linking/instances.go\<close>. An operation takes the clocks, what it may draw (bytes, an identifier)
  and the tables, and gives the tables it commits with its answer or its refusal. A transaction
  that is rolled back leaves the tables it began with; a rate that was counted stays counted.
  An operation that draws a code is \<open>None\<close> when the loop that draws it never ends.
\<close>

section \<open>Answers\<close>

type_synonym 'a link_result = "link_db \<times> (link_error + 'a)"

record device_answer =
  dva_device_code :: string
  dva_user_code :: string
  dva_verify_url :: string
  dva_expires :: int
  dva_interval :: int

record authorization_answer =
  aua_url :: string
  aua_expires :: int

record pending_answer =
  pnd_declaration :: app_declaration
  pnd_scopes :: "string list"
  pnd_expires :: int
  pnd_token :: string

record instance_answer =
  ian_id :: uuid
  ian_user :: uuid
  ian_declaration :: app_declaration
  ian_prefix :: string
  ian_scopes :: "string list"
  ian_linked :: int
  ian_seen :: "int option"
  ian_revoked :: "int option"

record token_grant =
  grt_instance :: instance_answer
  grt_access :: string
  grt_access_expires :: int
  grt_refresh :: string

definition answer_of :: "linked_instance \<Rightarrow> instance_answer" where
  "answer_of i =
     \<lparr>ian_id = ins_id i, ian_user = ins_user i, ian_declaration = ins_declaration i,
      ian_prefix = ins_prefix i, ian_scopes = ins_scopes i, ian_linked = ins_linked i,
      ian_seen = ins_seen i, ian_revoked = ins_revoked i\<rparr>"

definition grants :: "instance_answer \<Rightarrow> string \<Rightarrow> bool" where
  "grants i scope \<longleftrightarrow> scope \<in> set (ian_scopes i)"

definition and_run ::
  "'a link_result \<Rightarrow> ('a \<Rightarrow> link_db \<Rightarrow> 'b link_result option) \<Rightarrow> 'b link_result option" where
  "and_run m k =
     (case m of (db, Inl e) \<Rightarrow> Some (db, Inl e) | (db, Inr a) \<Rightarrow> k a db)"

section \<open>Times and limits\<close>

definition request_lifetime :: int where "request_lifetime = seconds (10 * 60)"
definition authorization_lifetime :: int where "authorization_lifetime = seconds (5 * 60)"
definition access_token_lifetime :: int where "access_token_lifetime = seconds (15 * 60)"
definition refresh_idle_lifetime :: int where "refresh_idle_lifetime = seconds (90 * 24 * 3600)"
definition refresh_reuse_window :: int where "refresh_reuse_window = seconds (90 * 24 * 3600)"
definition poll_interval :: int where "poll_interval = 5"
definition code_attempt_limit :: int where "code_attempt_limit = 5"
definition rate_lifetime :: int where "rate_lifetime = seconds (24 * 3600)"
definition an_hour :: int where "an_hour = seconds 3600"

text \<open>\<^verbatim>\<open>Service.digest\<close> and \<^verbatim>\<open>Service.takeRate\<close>\<close>

definition digest :: "link_env \<Rightarrow> string \<Rightarrow> string \<Rightarrow> string" where
  "digest env purpose v = lke_hmac env (purpose @ [CHR 0x00] @ v)"

definition rate_key :: "link_env \<Rightarrow> string \<Rightarrow> string \<Rightarrow> string" where
  "rate_key env action source =
     digest env (''rate:'' @ action) (if source = [] then ''unknown'' else source)"

definition take_rate ::
  "link_env \<Rightarrow> clocks \<Rightarrow> string \<Rightarrow> string \<Rightarrow> int \<Rightarrow> int \<Rightarrow> link_db \<Rightarrow> unit link_result" where
  "take_rate env clk action source limit window db =
     (case take_rate_limit clk (rate_key env action source) action (clk_app clk - window) db of
        None \<Rightarrow> (db, Inl StatementFailed)
      | Some (db', r) \<Rightarrow>
          (db', if limit < rte_attempts r
                then Inl (TooManyRequests (max (seconds 1) (rte_start r + window - clk_app clk)))
                else Inr ()))"

section \<open>Asking for a link\<close>

text \<open>\<^verbatim>\<open>Start\<close> and its loop of at most eight attempts\<close>

definition new_device_request ::
  "link_env \<Rightarrow> clocks \<Rightarrow> start_input \<Rightarrow> string \<Rightarrow> string \<Rightarrow> device_request" where
  "new_device_request env clk inp hash user_code =
     \<lparr>dev_code = hash, dev_user_code = digest env ''user-code'' user_code,
      dev_declaration = inp_declaration inp, dev_scopes = inp_scopes inp, dev_token = None,
      dev_reviewed = None, dev_approved = None, dev_denied = None, dev_redeemed = None,
      dev_polled = None, dev_interval = poll_interval,
      dev_expires = clk_app clk + request_lifetime\<rparr>"

fun allocate_device ::
  "link_env \<Rightarrow> clocks \<Rightarrow> start_input \<Rightarrow> nat \<Rightarrow> byte_source \<Rightarrow> link_db \<Rightarrow>
     device_answer link_result option" where
  "allocate_device env clk inp 0 src db = Some (db, Inl NoCodeLeft)"
| "allocate_device env clk inp (Suc attempts) src db =
     (let ((code, hash), src1) = new_opaque_code env src in
      case new_code code_length src1 of
        None \<Rightarrow> None
      | Some (user_code, src2) \<Rightarrow>
          (case insert_device_request clk (new_device_request env clk inp hash user_code) db of
             Stored db' \<Rightarrow>
               Some (db', Inr \<lparr>dva_device_code = code, dva_user_code = format_user_code user_code,
                               dva_verify_url = lke_site env @ ''/link'',
                               dva_expires = clk_app clk + request_lifetime,
                               dva_interval = seconds poll_interval\<rparr>)
           | Duplicate \<Rightarrow> allocate_device env clk inp attempts src2 db
           | Rejected \<Rightarrow> Some (db, Inl StatementFailed)))"

definition start_device ::
  "link_env \<Rightarrow> clocks \<Rightarrow> byte_source \<Rightarrow> string \<Rightarrow> start_input \<Rightarrow> link_db \<Rightarrow>
     device_answer link_result option" where
  "start_device env clk src source input db =
     (case validate_start (lke_unicode env) input of
        Inl e \<Rightarrow> Some (db, Inl e)
      | Inr inp \<Rightarrow>
          and_run (take_rate env clk ''start'' source 30 an_hour db) (\<lambda>_ db.
            allocate_device env clk inp 8 src
              (delete_expired_rates (clk_app clk - rate_lifetime) (delete_expired_devices clk db))))"

text \<open>\<^verbatim>\<open>url.QueryEscape\<close>\<close>

definition upper_hex :: "nat \<Rightarrow> char" where
  "upper_hex n = (if n < 10 then char_of (48 + n) else char_of (55 + n))"

definition escape_byte :: "char \<Rightarrow> string" where
  "escape_byte c =
     (if between 65 90 c \<or> lower c \<or> digit_char c \<or> c \<in> set ''-_.~'' then [c]
      else if c = CHR '' '' then ''+''
      else [CHR 0x25, upper_hex (byte c div 16), upper_hex (byte c mod 16)])"

definition query_escape :: "string \<Rightarrow> string" where
  "query_escape s = concat (map escape_byte s)"

definition new_authorization ::
  "clocks \<Rightarrow> authorization_input \<Rightarrow> string \<Rightarrow> link_authorization" where
  "new_authorization clk inp hash =
     \<lparr>lau_request = hash, lau_code = None, lau_redirect = aut_redirect inp,
      lau_state = aut_state inp, lau_challenge = aut_challenge inp,
      lau_declaration = inp_declaration (aut_start inp), lau_scopes = inp_scopes (aut_start inp),
      lau_reviewed = None, lau_approved = None, lau_denied = None, lau_redeemed = None,
      lau_expires = clk_app clk + authorization_lifetime\<rparr>"

fun allocate_authorization ::
  "link_env \<Rightarrow> clocks \<Rightarrow> authorization_input \<Rightarrow> nat \<Rightarrow> byte_source \<Rightarrow> link_db \<Rightarrow>
     authorization_answer link_result" where
  "allocate_authorization env clk inp 0 src db = (db, Inl NoCodeLeft)"
| "allocate_authorization env clk inp (Suc attempts) src db =
     (let ((code, hash), src1) = new_opaque_code env src in
      case insert_authorization clk (new_authorization clk inp hash) db of
        Stored db' \<Rightarrow>
          (db', Inr \<lparr>aua_url = lke_site env @ ''/link?request='' @ query_escape code,
                     aua_expires = clk_app clk + authorization_lifetime\<rparr>)
      | Duplicate \<Rightarrow> allocate_authorization env clk inp attempts src1 db
      | Rejected \<Rightarrow> (db, Inl StatementFailed))"

definition start_authorization ::
  "link_env \<Rightarrow> clocks \<Rightarrow> byte_source \<Rightarrow> string \<Rightarrow> authorization_input \<Rightarrow> link_db \<Rightarrow>
     authorization_answer link_result option" where
  "start_authorization env clk src source input db =
     (case validate_authorization env input of
        Inl e \<Rightarrow> Some (db, Inl e)
      | Inr inp \<Rightarrow>
          and_run (take_rate env clk ''start'' source 30 an_hour db) (\<lambda>_ db.
            Some (allocate_authorization env clk inp 8 src
              (delete_expired_rates (clk_app clk - rate_lifetime)
                (delete_expired_authorizations clk db)))))"

section \<open>Deciding about a link\<close>

definition device_approval_proof :: "link_env \<Rightarrow> uuid \<Rightarrow> string \<Rightarrow> string" where
  "device_approval_proof env user code =
     base64_encode (digest env ''device-approval'' (uuid_text user @ [CHR 0x00] @ code))"

definition device_approval_proof_hash ::
  "link_env \<Rightarrow> uuid \<Rightarrow> string \<Rightarrow> string \<Rightarrow> string option" where
  "device_approval_proof_hash env user code proof =
     (case opaque_code_hash env proof of
        None \<Rightarrow> None
      | Some hash \<Rightarrow> if proof \<noteq> device_approval_proof env user code then None else Some hash)"

definition pending_of_device :: "device_request \<Rightarrow> string \<Rightarrow> pending_answer" where
  "pending_of_device d token =
     \<lparr>pnd_declaration = dev_declaration d, pnd_scopes = dev_scopes d,
      pnd_expires = dev_expires d, pnd_token = token\<rparr>"

definition pending ::
  "link_env \<Rightarrow> clocks \<Rightarrow> uuid \<Rightarrow> string \<Rightarrow> link_db \<Rightarrow> pending_answer link_result" where
  "pending env clk user raw db =
     (case take_rate env clk ''user-code'' (uuid_text user) code_attempt_limit an_hour db of
        (db1, Inl e) \<Rightarrow> (db1, Inl TooManyCodes)
      | (db1, Inr u) \<Rightarrow>
          (case normalize_user_code (lke_unicode env) raw of
             None \<Rightarrow> (db1, Inl LinkRequestNotFound)
           | Some code \<Rightarrow>
               (case review_device clk user (digest env ''user-code'' code) db1 of
                  None \<Rightarrow> (db1, Inl LinkRequestNotFound)
                | Some d \<Rightarrow>
                    (db1, Inr (pending_of_device d (device_approval_proof env user code))))))"

definition decided_code :: "link_env \<Rightarrow> uuid \<Rightarrow> string \<Rightarrow> string \<Rightarrow> (string \<times> string) option" where
  "decided_code env user raw token =
     (case normalize_user_code (lke_unicode env) raw of
        None \<Rightarrow> None
      | Some code \<Rightarrow>
          map_option (\<lambda>hash. (digest env ''user-code'' code, hash))
            (device_approval_proof_hash env user code token))"

definition approve ::
  "link_env \<Rightarrow> clocks \<Rightarrow> uuid \<Rightarrow> string \<Rightarrow> string \<Rightarrow> link_db \<Rightarrow> pending_answer link_result" where
  "approve env clk user raw token db =
     (case decided_code env user raw token of
        None \<Rightarrow> (db, Inl LinkRequestNotFound)
      | Some (code, hash) \<Rightarrow>
          (case approve_device clk user hash code db of
             None \<Rightarrow> (db, Inl LinkRequestNotFound)
           | Some (db', d) \<Rightarrow> (db', Inr (pending_of_device d []))))"

definition deny ::
  "link_env \<Rightarrow> clocks \<Rightarrow> uuid \<Rightarrow> string \<Rightarrow> string \<Rightarrow> link_db \<Rightarrow> unit link_result" where
  "deny env clk user raw token db =
     (case decided_code env user raw token of
        None \<Rightarrow> (db, Inl LinkRequestNotFound)
      | Some (code, hash) \<Rightarrow>
          (case deny_device clk user hash code db of
             (db', denied) \<Rightarrow> (db', if denied = 0 then Inl LinkRequestNotFound else Inr ())))"

definition pending_authorization ::
  "link_env \<Rightarrow> clocks \<Rightarrow> uuid \<Rightarrow> string \<Rightarrow> link_db \<Rightarrow> link_error + pending_answer" where
  "pending_authorization env clk user request db =
     and_then (or_refuse LinkRequestNotFound (opaque_code_hash env request)) (\<lambda>hash.
     and_then (or_refuse LinkRequestNotFound (review_authorization clk user hash db)) (\<lambda>a.
     Inr \<lparr>pnd_declaration = lau_declaration a, pnd_scopes = lau_scopes a,
          pnd_expires = lau_expires a, pnd_token = []\<rparr>))"

text \<open>The approval is committed before the redirect is written.\<close>

definition approve_authorization ::
  "link_env \<Rightarrow> clocks \<Rightarrow> byte_source \<Rightarrow> uuid \<Rightarrow> string \<Rightarrow> link_db \<Rightarrow> destination link_result" where
  "approve_authorization env clk src user request db =
     (case opaque_code_hash env request of
        None \<Rightarrow> (db, Inl LinkRequestNotFound)
      | Some hash \<Rightarrow>
          (let ((code, code_hash), src1) = new_opaque_code env src in
           case approve_authorization_row clk user code_hash hash db of
             Inl e \<Rightarrow> (db, Inl e)
           | Inr (db', a) \<Rightarrow> (db', redirect_with env (lau_redirect a) ''code'' code (lau_state a))))"

definition deny_authorization ::
  "link_env \<Rightarrow> clocks \<Rightarrow> uuid \<Rightarrow> string \<Rightarrow> link_db \<Rightarrow> destination link_result" where
  "deny_authorization env clk user request db =
     (case opaque_code_hash env request of
        None \<Rightarrow> (db, Inl LinkRequestNotFound)
      | Some hash \<Rightarrow>
          (case deny_authorization_row clk user hash db of
             None \<Rightarrow> (db, Inl LinkRequestNotFound)
           | Some (db', a) \<Rightarrow>
               (db', redirect_with env (lau_redirect a) ''error'' ''access_denied'' (lau_state a))))"

section \<open>Granting\<close>

text \<open>\<^verbatim>\<open>issueGrant\<close>, inside the transaction of its caller\<close>

definition granted_instance ::
  "clocks \<Rightarrow> uuid \<Rightarrow> uuid \<Rightarrow> app_declaration \<Rightarrow> string list \<Rightarrow> credential \<Rightarrow> linked_instance" where
  "granted_instance clk fresh user d scopes refresh =
     \<lparr>ins_id = fresh, ins_user = user, ins_declaration = d, ins_refresh = Some (crd_hash refresh),
      ins_prefix = crd_prefix refresh, ins_scopes = scopes, ins_linked = clk_db clk,
      ins_seen = None, ins_revoked = None\<rparr>"

definition issue_grant ::
  "link_env \<Rightarrow> clocks \<Rightarrow> byte_source \<Rightarrow> uuid \<Rightarrow> uuid \<Rightarrow> app_declaration \<Rightarrow> string list \<Rightarrow> link_db \<Rightarrow>
     token_grant link_result option" where
  "issue_grant env clk src fresh user d scopes db =
     (case new_credential env access_token_kind src of
        None \<Rightarrow> None
      | Some (access, src1) \<Rightarrow>
     (case new_credential env refresh_token_kind src1 of
        None \<Rightarrow> None
      | Some (refresh, src2) \<Rightarrow>
          (let i = granted_instance clk fresh user d scopes refresh;
               t = \<lparr>acc_hash = crd_hash access, acc_instance = fresh,
                    acc_expires = clk_app clk + access_token_lifetime\<rparr>
           in case insert_instance i db of
                None \<Rightarrow> Some (db, Inl StatementFailed)
              | Some db1 \<Rightarrow>
             (case insert_access clk t db1 of
                None \<Rightarrow> Some (db, Inl StatementFailed)
              | Some db2 \<Rightarrow>
                  Some (delete_expired_access clk db2,
                    Inr \<lparr>grt_instance = answer_of i, grt_access = crd_token access,
                         grt_access_expires = clk_app clk + access_token_lifetime,
                         grt_refresh = crd_token refresh\<rparr>)))))"

definition polled_too_soon :: "clocks \<Rightarrow> device_request \<Rightarrow> bool" where
  "polled_too_soon clk d \<longleftrightarrow>
     (case dev_polled d of None \<Rightarrow> False | Some t \<Rightarrow> clk_app clk - t < seconds (dev_interval d))"

definition poll_request ::
  "link_env \<Rightarrow> clocks \<Rightarrow> byte_source \<Rightarrow> uuid \<Rightarrow> string \<Rightarrow> link_db \<Rightarrow>
     token_grant option link_result option" where
  "poll_request env clk src fresh hash db =
     (case lock_device hash db of
        None \<Rightarrow> Some (db, Inl LinkRequestNotFound)
      | Some d \<Rightarrow>
          if dev_redeemed d \<noteq> None then Some (db, Inl LinkRequestNotFound)
          else if dev_expires d < clk_app clk then Some (db, Inl LinkExpired)
          else if dev_denied d \<noteq> None then Some (db, Inl AccessDenied)
          else
            (case record_poll clk (polled_too_soon clk d) hash db of
               None \<Rightarrow> Some (db, Inl StatementFailed)
             | Some (db1, interval) \<Rightarrow>
                 if polled_too_soon clk d then Some (db1, Inl (PollTooSoon (seconds interval)))
                 else
                   (case dev_approved d of
                      None \<Rightarrow> Some (db1, Inr None)
                    | Some (user, at) \<Rightarrow>
                        (case issue_grant env clk src fresh user (dev_declaration d)
                                (dev_scopes d) db1 of
                           None \<Rightarrow> None
                         | Some (db2, Inl e) \<Rightarrow> Some (db, Inl e)
                         | Some (db2, Inr grant) \<Rightarrow>
                             (case redeem_device clk hash db2 of
                                (db3, redeemed) \<Rightarrow>
                                  if redeemed \<noteq> 1 then Some (db, Inl LinkRequestNotFound)
                                  else Some (db3, Inr (Some grant)))))))"

definition poll ::
  "link_env \<Rightarrow> clocks \<Rightarrow> byte_source \<Rightarrow> uuid \<Rightarrow> string \<Rightarrow> string \<Rightarrow> link_db \<Rightarrow>
     token_grant option link_result option" where
  "poll env clk src fresh source code db =
     and_run (take_rate env clk ''poll'' source 600 (seconds 60) db) (\<lambda>_ db.
       case opaque_code_hash env code of
         None \<Rightarrow> Some (db, Inl LinkRequestNotFound)
       | Some hash \<Rightarrow> poll_request env clk src fresh hash db)"

definition exchange_request ::
  "link_env \<Rightarrow> clocks \<Rightarrow> byte_source \<Rightarrow> uuid \<Rightarrow> string \<Rightarrow> string \<Rightarrow> string \<Rightarrow> link_db \<Rightarrow>
     token_grant link_result option" where
  "exchange_request env clk src fresh hash verifier redirect db =
     (case lock_authorization hash db of
        None \<Rightarrow> Some (db, Inl InvalidPKCE)
      | Some a \<Rightarrow>
          (case lau_approved a of
             None \<Rightarrow> Some (db, Inl InvalidPKCE)
           | Some (user, at) \<Rightarrow>
               if lau_redeemed a \<noteq> None \<or> lau_denied a \<noteq> None \<or> lau_expires a < clk_app clk \<or>
                  lau_redirect a \<noteq> redirect \<or> \<not> challenge_matches env verifier (lau_challenge a)
               then Some (db, Inl InvalidPKCE)
               else
                 (case issue_grant env clk src fresh user (lau_declaration a) (lau_scopes a) db of
                    None \<Rightarrow> None
                  | Some (db1, Inl e) \<Rightarrow> Some (db, Inl e)
                  | Some (db1, Inr grant) \<Rightarrow>
                      (case redeem_authorization clk hash db1 of
                         (db2, redeemed) \<Rightarrow>
                           if redeemed \<noteq> 1 then Some (db, Inl InvalidPKCE)
                           else Some (db2, Inr grant)))))"

definition exchange ::
  "link_env \<Rightarrow> clocks \<Rightarrow> byte_source \<Rightarrow> uuid \<Rightarrow> string \<Rightarrow> string \<Rightarrow> string \<Rightarrow> string \<Rightarrow> link_db \<Rightarrow>
     token_grant link_result option" where
  "exchange env clk src fresh source code verifier redirect db =
     and_run (take_rate env clk ''exchange'' source 60 an_hour db) (\<lambda>_ db.
       case opaque_code_hash env code of
         None \<Rightarrow> Some (db, Inl InvalidPKCE)
       | Some hash \<Rightarrow>
           if \<not> valid_loopback_redirect env redirect then Some (db, Inl InvalidPKCE)
           else exchange_request env clk src fresh hash verifier redirect db)"

section \<open>Tokens\<close>

definition handle_refresh_reuse ::
  "clocks \<Rightarrow> string \<Rightarrow> link_db \<Rightarrow> token_grant link_result" where
  "handle_refresh_reuse clk hash db =
     (case instance_for_used clk hash db of
        None \<Rightarrow> (db, Inl InstanceCredential)
      | Some i \<Rightarrow> (fst (revoke_by_id clk i db), Inl RefreshReuse))"

definition refresh_expired :: "clocks \<Rightarrow> linked_instance \<Rightarrow> bool" where
  "refresh_expired clk i \<longleftrightarrow>
     (case ins_seen i of
        Some t \<Rightarrow> if ins_linked i < t then t else ins_linked i
      | None \<Rightarrow> ins_linked i) + refresh_idle_lifetime < clk_app clk"

definition rotate_refresh_grant ::
  "link_env \<Rightarrow> clocks \<Rightarrow> byte_source \<Rightarrow> linked_instance \<Rightarrow> string \<Rightarrow> link_db \<Rightarrow>
     token_grant link_result option" where
  "rotate_refresh_grant env clk src i old db =
     (case new_credential env access_token_kind src of
        None \<Rightarrow> None
      | Some (access, src1) \<Rightarrow>
     (case new_credential env refresh_token_kind src1 of
        None \<Rightarrow> None
      | Some (refresh, src2) \<Rightarrow>
          (case rotate_refresh clk old (clk_app clk + refresh_reuse_window) (crd_hash refresh)
                  (crd_prefix refresh) (ins_id i) db of
             None \<Rightarrow> Some (db, Inl StatementFailed)
           | Some db1 \<Rightarrow>
               (case insert_access clk \<lparr>acc_hash = crd_hash access, acc_instance = ins_id i,
                       acc_expires = clk_app clk + access_token_lifetime\<rparr> db1 of
                  None \<Rightarrow> Some (db, Inl StatementFailed)
                | Some db2 \<Rightarrow>
                    Some (delete_expired_history clk (delete_expired_access clk db2),
                      Inr \<lparr>grt_instance = answer_of (i\<lparr>ins_prefix := crd_prefix refresh\<rparr>),
                           grt_access = crd_token access,
                           grt_access_expires = clk_app clk + access_token_lifetime,
                           grt_refresh = crd_token refresh\<rparr>)))))"

definition refresh ::
  "link_env \<Rightarrow> clocks \<Rightarrow> byte_source \<Rightarrow> string \<Rightarrow> string \<Rightarrow> link_db \<Rightarrow>
     token_grant link_result option" where
  "refresh env clk src source token db =
     and_run (take_rate env clk ''refresh'' source 600 an_hour db) (\<lambda>_ db.
       case credential_hash env token refresh_token_kind of
         None \<Rightarrow> Some (db, Inl InstanceCredential)
       | Some old \<Rightarrow>
           (case lock_instance old db of
              None \<Rightarrow> Some (handle_refresh_reuse clk old db)
            | Some i \<Rightarrow>
                if refresh_expired clk i
                then Some (fst (revoke_by_id clk (ins_id i) db), Inl InstanceCredential)
                else rotate_refresh_grant env clk src i old db))"

text \<open>\<^verbatim>\<open>Authenticate\<close>: the instance is touched before its scope is looked at.\<close>

definition authenticate ::
  "link_env \<Rightarrow> clocks \<Rightarrow> string \<Rightarrow> string \<Rightarrow> link_db \<Rightarrow> instance_answer link_result" where
  "authenticate env clk token needs db =
     (case credential_hash env token access_token_kind of
        None \<Rightarrow> (db, Inl InstanceCredential)
      | Some hash \<Rightarrow>
          (case touch_instance clk hash db of
             None \<Rightarrow> (db, Inl InstanceCredential)
           | Some (db', i) \<Rightarrow>
               (db', if needs \<noteq> [] \<and> \<not> grants (answer_of i) needs
                     then Inl InstanceMissingScope else Inr (answer_of i))))"

section \<open>An account's instances\<close>

definition list_all_instances :: "uuid \<Rightarrow> link_db \<Rightarrow> instance_answer list" where
  "list_all_instances user db = map answer_of (list_instances user db)"

definition live_ones :: "uuid \<Rightarrow> link_db \<Rightarrow> instance_answer list" where
  "live_ones user db = map answer_of (live_instances user db)"

definition live_by_id :: "uuid \<Rightarrow> uuid \<Rightarrow> link_db \<Rightarrow> link_error + instance_answer" where
  "live_by_id user i db =
     and_then (or_refuse InstanceNotFound (live_instance i user db)) (\<lambda>r. Inr (answer_of r))"

definition revoke :: "clocks \<Rightarrow> uuid \<Rightarrow> uuid \<Rightarrow> link_db \<Rightarrow> unit link_result" where
  "revoke clk user i db =
     (case revoke_instance clk user i db of
        (db', revoked) \<Rightarrow> (db', if revoked then Inr () else Inl InstanceNotFound))"

text \<open>The answer leaves out whose instance it is.\<close>

definition update_declaration ::
  "link_env \<Rightarrow> uuid \<Rightarrow> app_declaration \<Rightarrow> link_db \<Rightarrow> instance_answer link_result" where
  "update_declaration env i d db =
     (case validate_declaration (lke_unicode env) d of
        Inl e \<Rightarrow> (db, Inl e)
      | Inr v \<Rightarrow>
          (case update_declaration_row v i db of
             None \<Rightarrow> (db, Inl InstanceNotFound)
           | Some (db', r) \<Rightarrow>
               (db', Inr ((answer_of r)\<lparr>ian_user := nil_uuid, ian_revoked := None\<rparr>))))"

definition throttle ::
  "link_env \<Rightarrow> clocks \<Rightarrow> string \<Rightarrow> string \<Rightarrow> int \<Rightarrow> int \<Rightarrow> link_db \<Rightarrow> unit link_result" where
  "throttle = take_rate"

end
