(* ===== verification/DeliveryStore.thy ===== *)
theory DeliveryStore
  imports LinkService
begin

text \<open>
  The statements of the delivery queue and of the library mirror (\<^verbatim>\<open>db/queries.sql.go\<close>), over the
  tables of \<^verbatim>\<open>LinkStore\<close>. A statement an index or a check of the table refuses is \<open>None\<close>. The rows
  a claim returns are in the order of the table: the statement promises no other.
\<close>

section \<open>The queue\<close>

definition live_state :: "delivery_row \<Rightarrow> bool" where
  "live_state d \<longleftrightarrow> dlv_state d = Queued \<or> dlv_state d = Released"

definition live_for :: "uuid \<Rightarrow> uuid \<Rightarrow> delivery_row \<Rightarrow> bool" where
  "live_for i a d \<longleftrightarrow> dlv_instance d = i \<and> dlv_asset d = a \<and> live_state d"

text \<open>
  \<^verbatim>\<open>QueueDelivery\<close>: no row comes back where the index of live deliveries has one. The row's
  instance is there, revoked or not; its asset is taken to be, as nothing deletes the row of one.
\<close>

definition queue_delivery ::
  "clocks \<Rightarrow> uuid \<Rightarrow> uuid \<Rightarrow> uuid \<Rightarrow> int \<Rightarrow> link_db \<Rightarrow> (link_db \<times> delivery_row option) option" where
  "queue_delivery clk fresh i a expires db =
     (if expires \<le> clk_db clk then None
      else if list_ex (live_for i a) (lnk_deliveries db) then Some (db, None)
      else if list_ex (\<lambda>d. dlv_id d = fresh) (lnk_deliveries db) then None
      else if \<not> list_ex (\<lambda>r. ins_id r = i) (lnk_instances db) then None
      else
        (let d = \<lparr>dlv_id = fresh, dlv_instance = i, dlv_asset = a, dlv_state = Queued,
                  dlv_attempts = 0, dlv_queued = clk_db clk, dlv_lease = None, dlv_target = None,
                  dlv_settled = None, dlv_expires = expires\<rparr>
         in Some (db\<lparr>lnk_deliveries := lnk_deliveries db @ [d]\<rparr>, Some d)))"

definition live_delivery_for_asset :: "uuid \<Rightarrow> uuid \<Rightarrow> link_db \<Rightarrow> delivery_row option" where
  "live_delivery_for_asset i a db = find (live_for i a) (lnk_deliveries db)"

definition count_live_deliveries :: "uuid \<Rightarrow> link_db \<Rightarrow> nat" where
  "count_live_deliveries i db =
     length (filter (\<lambda>d. dlv_instance d = i \<and> live_state d) (lnk_deliveries db))"

definition settled_row :: "clocks \<Rightarrow> delivery_reason \<Rightarrow> delivery_row \<Rightarrow> delivery_row" where
  "settled_row clk reason d =
     d\<lparr>dlv_state := Failed, dlv_settled := Some (clk_db clk, reason), dlv_lease := None\<rparr>"

definition lease_over :: "clocks \<Rightarrow> delivery_row \<Rightarrow> bool" where
  "lease_over clk d \<longleftrightarrow> (case dlv_lease d of None \<Rightarrow> False | Some t \<Rightarrow> t \<le> clk_db clk)"

definition exhausted :: "clocks \<Rightarrow> uuid \<Rightarrow> int \<Rightarrow> delivery_row \<Rightarrow> bool" where
  "exhausted clk i max_attempts d \<longleftrightarrow>
     dlv_instance d = i \<and> dlv_state d = Released \<and> lease_over clk d \<and> max_attempts \<le> dlv_attempts d"

definition abandon_exhausted :: "clocks \<Rightarrow> uuid \<Rightarrow> int \<Rightarrow> link_db \<Rightarrow> link_db" where
  "abandon_exhausted clk i max_attempts db =
     db\<lparr>lnk_deliveries := update_where (exhausted clk i max_attempts) (settled_row clk Abandoned)
          (lnk_deliveries db)\<rparr>"

definition may_receive :: "uuid \<Rightarrow> link_db \<Rightarrow> bool" where
  "may_receive i db \<longleftrightarrow>
     list_ex (\<lambda>r. ins_id r = i \<and> live r \<and> scope_receive_assets \<in> set (ins_scopes r)) (lnk_instances db)"

definition claimable :: "clocks \<Rightarrow> uuid \<Rightarrow> int \<Rightarrow> link_db \<Rightarrow> delivery_row \<Rightarrow> bool" where
  "claimable clk i max_attempts db d \<longleftrightarrow>
     may_receive i db \<and> dlv_instance d = i \<and> clk_db clk < dlv_expires d \<and>
     dlv_attempts d < max_attempts \<and>
     (dlv_state d = Queued \<or> dlv_state d = Released \<and> lease_over clk d)"

text \<open>\<^verbatim>\<open>ClaimDeliveries\<close>: the longest waiting ones first.\<close>

definition candidates :: "clocks \<Rightarrow> uuid \<Rightarrow> int \<Rightarrow> nat \<Rightarrow> link_db \<Rightarrow> delivery_row list" where
  "candidates clk i max_attempts batch db =
     take batch (sort_key dlv_queued (sort_key dlv_id
       (filter (claimable clk i max_attempts db) (lnk_deliveries db))))"

definition hand_out :: "int \<Rightarrow> delivery_row \<Rightarrow> delivery_row" where
  "hand_out lease d =
     d\<lparr>dlv_state := Released, dlv_attempts := dlv_attempts d + 1, dlv_lease := Some lease\<rparr>"

definition claim_deliveries ::
  "clocks \<Rightarrow> int \<Rightarrow> uuid \<Rightarrow> int \<Rightarrow> nat \<Rightarrow> link_db \<Rightarrow> link_db \<times> delivery_row list" where
  "claim_deliveries clk lease i max_attempts batch db =
     (let taken = dlv_id ` set (candidates clk i max_attempts batch db);
          rows = update_where (\<lambda>d. dlv_id d \<in> taken) (hand_out lease) (lnk_deliveries db)
      in (db\<lparr>lnk_deliveries := rows\<rparr>, filter (\<lambda>d. dlv_id d \<in> taken) rows))"

text \<open>A target is trimmed and has one to 64 characters.\<close>

definition target_fits :: "string \<Rightarrow> bool" where
  "target_fits s \<longleftrightarrow> s \<noteq> [] \<and> \<not> padded s \<and> length (runes s) \<le> 64"

definition set_delivery_target :: "string \<Rightarrow> uuid \<Rightarrow> link_db \<Rightarrow> link_db option" where
  "set_delivery_target target k db =
     (if target \<noteq> [] \<and> \<not> target_fits target \<and> list_ex (\<lambda>d. dlv_id d = k) (lnk_deliveries db) then None
      else
        Some (db\<lparr>lnk_deliveries := update_where (\<lambda>d. dlv_id d = k)
               (\<lambda>d. d\<lparr>dlv_target := if target = [] then None else Some target\<rparr>)
               (lnk_deliveries db)\<rparr>))"

definition fail_delivery :: "clocks \<Rightarrow> delivery_reason \<Rightarrow> uuid \<Rightarrow> link_db \<Rightarrow> link_db" where
  "fail_delivery clk reason k db =
     db\<lparr>lnk_deliveries := update_where (\<lambda>d. dlv_id d = k) (settled_row clk reason) (lnk_deliveries db)\<rparr>"

definition acknowledge_deliveries :: "uuid \<Rightarrow> uuid list \<Rightarrow> link_db \<Rightarrow> link_db" where
  "acknowledge_deliveries i ks db =
     db\<lparr>lnk_deliveries := filter
          (\<lambda>d. \<not> (dlv_instance d = i \<and> dlv_id d \<in> set ks \<and> dlv_state d = Released)) (lnk_deliveries db)\<rparr>"

definition discardable :: "uuid \<Rightarrow> uuid \<Rightarrow> link_db \<Rightarrow> delivery_row \<Rightarrow> bool" where
  "discardable k user db d \<longleftrightarrow>
     dlv_id d = k \<and>
     list_ex (\<lambda>r. ins_id r = dlv_instance d \<and> ins_user r = user) (lnk_instances db)"

definition discard_delivery :: "uuid \<Rightarrow> uuid \<Rightarrow> link_db \<Rightarrow> link_db \<times> nat" where
  "discard_delivery k user db =
     (db\<lparr>lnk_deliveries := filter (\<lambda>d. \<not> discardable k user db d) (lnk_deliveries db)\<rparr>,
      length (filter (discardable k user db) (lnk_deliveries db)))"

definition fetchable :: "clocks \<Rightarrow> uuid \<Rightarrow> link_db \<Rightarrow> delivery_row \<Rightarrow> bool" where
  "fetchable clk k db d \<longleftrightarrow>
     dlv_id d = k \<and> dlv_state d = Released \<and>
     (case dlv_lease d of None \<Rightarrow> False | Some t \<Rightarrow> clk_db clk < t) \<and>
     clk_db clk < dlv_expires d \<and> dlv_target d \<noteq> None \<and> may_receive (dlv_instance d) db"

definition delivery_for_artifact :: "clocks \<Rightarrow> uuid \<Rightarrow> link_db \<Rightarrow> (uuid \<times> string) option" where
  "delivery_for_artifact clk k db =
     (case find (fetchable clk k db) (lnk_deliveries db) of
        None \<Rightarrow> None
      | Some d \<Rightarrow> Some (dlv_asset d, case dlv_target d of None \<Rightarrow> [] | Some t \<Rightarrow> t))"

definition sweep_batch :: nat where
  "sweep_batch = 200"

definition delete_expired_deliveries :: "clocks \<Rightarrow> link_db \<Rightarrow> link_db" where
  "delete_expired_deliveries clk db =
     db\<lparr>lnk_deliveries := delete_expired dlv_expires sweep_batch (clk_db clk) (lnk_deliveries db)\<rparr>"

section \<open>The mirror\<close>

text \<open>Of the assets: whether one may be seen, and how far its content has got.\<close>

record catalog_asset =
  cat_id :: uuid
  cat_kind :: string
  cat_name :: string
  cat_generation :: int
  cat_deleted :: bool
  cat_withheld :: bool
  cat_published :: bool
  cat_original :: bool
  cat_cover :: "uuid option"
  cat_export :: "(string \<times> string) list option"
  cat_apps :: "string list"
  cat_media :: "(uuid \<times> string) list"

definition sendable :: "catalog_asset \<Rightarrow> bool" where
  "sendable a \<longleftrightarrow> \<not> cat_deleted a \<and> \<not> cat_withheld a \<and> cat_published a"

definition sendable_asset :: "catalog_asset list \<Rightarrow> uuid \<Rightarrow> catalog_asset option" where
  "sendable_asset assets k = find (\<lambda>a. cat_id a = k \<and> sendable a) assets"

text \<open>\<^verbatim>\<open>ReportLibraryEntries\<close>: an entry of each reported asset that is published, withheld or
  not; a generation that is not positive breaks a check.\<close>

definition reportable :: "catalog_asset list \<Rightarrow> uuid \<Rightarrow> catalog_asset option" where
  "reportable assets k = find (\<lambda>a. cat_id a = k \<and> \<not> cat_deleted a \<and> cat_published a) assets"

definition put_entry :: "library_row \<Rightarrow> library_row list \<Rightarrow> library_row list" where
  "put_entry e rs =
     (let same = (\<lambda>r. lib_instance r = lib_instance e \<and> lib_asset r = lib_asset e)
      in if list_ex same rs then update_where same (\<lambda>r. e) rs else rs @ [e])"

definition reported_entry :: "clocks \<Rightarrow> uuid \<Rightarrow> catalog_asset \<Rightarrow> int \<Rightarrow> library_row" where
  "reported_entry clk i a generation =
     \<lparr>lib_instance = i, lib_asset = cat_id a,
      lib_generation = (if generation = 0 then cat_generation a else generation),
      lib_reported = clk_db clk\<rparr>"

definition reported_entries ::
  "clocks \<Rightarrow> catalog_asset list \<Rightarrow> uuid \<Rightarrow> (uuid \<times> int) list \<Rightarrow> library_row list" where
  "reported_entries clk assets i reported =
     concat (map (\<lambda>(k, generation).
       case reportable assets k of None \<Rightarrow> [] | Some a \<Rightarrow> [reported_entry clk i a generation]) reported)"

definition report_library_entries ::
  "clocks \<Rightarrow> catalog_asset list \<Rightarrow> uuid \<Rightarrow> (uuid \<times> int) list \<Rightarrow> link_db \<Rightarrow> (link_db \<times> nat) option" where
  "report_library_entries clk assets i reported db =
     (let entries = reported_entries clk assets i reported
      in if list_ex (\<lambda>e. lib_generation e \<le> 0) entries then None
         else Some (db\<lparr>lnk_library := fold put_entry entries (lnk_library db)\<rparr>, length entries))"

definition remove_library_entries :: "uuid \<Rightarrow> uuid list \<Rightarrow> link_db \<Rightarrow> link_db \<times> nat" where
  "remove_library_entries i ks db =
     (let gone = (\<lambda>r. lib_instance r = i \<and> lib_asset r \<in> set ks)
      in (db\<lparr>lnk_library := filter (\<lambda>r. \<not> gone r) (lnk_library db)\<rparr>,
          length (filter gone (lnk_library db))))"

definition prune_library :: "uuid \<Rightarrow> uuid list \<Rightarrow> link_db \<Rightarrow> link_db \<times> nat" where
  "prune_library i ks db =
     (let gone = (\<lambda>r. lib_instance r = i \<and> lib_asset r \<notin> set ks)
      in (db\<lparr>lnk_library := filter (\<lambda>r. \<not> gone r) (lnk_library db)\<rparr>,
          length (filter gone (lnk_library db))))"

text \<open>\<^verbatim>\<open>InstanceLibraryCounts\<close>, a row for each instance with an entry to count.\<close>

definition counted_entry :: "uuid \<Rightarrow> catalog_asset list \<Rightarrow> link_db \<Rightarrow> library_row \<Rightarrow> bool" where
  "counted_entry user assets db r \<longleftrightarrow>
     list_ex (\<lambda>i. ins_id i = lib_instance r \<and> ins_user i = user \<and> live i) (lnk_instances db) \<and>
     sendable_asset assets (lib_asset r) \<noteq> None"

definition behind :: "catalog_asset list \<Rightarrow> library_row \<Rightarrow> bool" where
  "behind assets r \<longleftrightarrow>
     (case sendable_asset assets (lib_asset r) of
        None \<Rightarrow> False
      | Some a \<Rightarrow> lib_generation r < cat_generation a)"

definition instance_library_counts ::
  "uuid \<Rightarrow> catalog_asset list \<Rightarrow> link_db \<Rightarrow> (uuid \<times> nat \<times> nat) list" where
  "instance_library_counts user assets db =
     (let rs = filter (counted_entry user assets db) (lnk_library db)
      in map (\<lambda>i. (i, length (filter (\<lambda>r. lib_instance r = i) rs),
                   length (filter (\<lambda>r. lib_instance r = i \<and> behind assets r) rs)))
           (remdups (map lib_instance rs)))"

end
