(* ===== verification/Delivery.thy ===== *)
theory Delivery
  imports DeliveryStore Protected "HOL-Library.AList"
begin

text \<open>
  The delivery service (\<^verbatim>\<open>delivery\<close>), the signatures of its addresses (\<^verbatim>\<open>signing/signing.go\<close>) and what
  it reads of an asset (\<^verbatim>\<open>asset/deliverable.go\<close>). The assets are a parameter of each operation. An
  operation gives the tables it commits with its answer or refusal, as in \<^verbatim>\<open>LinkService\<close>.
\<close>

section \<open>Signatures\<close>

record delivery_env =
  dle_links :: link_env
  dle_site :: string
  dle_key :: string
  dle_hmac :: "string \<Rightarrow> string \<Rightarrow> string"
  dle_media_version :: nat

definition signature_life :: int where
  "signature_life = seconds (15 * 60)"

definition int_text :: "int \<Rightarrow> string" where
  "int_text n = (if n < 0 then CHR ''-'' # decimal (nat (- n)) else decimal (nat n))"

definition stamp :: "delivery_env \<Rightarrow> string \<Rightarrow> int \<Rightarrow> string" where
  "stamp env path expires = base64_encode (dle_hmac env (dle_key env) (path @ [CHR 0x0A] @ int_text expires))"

definition unix :: "int \<Rightarrow> int" where
  "unix t = t div 1000000"

definition sign :: "delivery_env \<Rightarrow> string \<Rightarrow> int \<Rightarrow> string" where
  "sign env path now =
     (let expires = unix (now + signature_life)
      in path @ ''?expires='' @ query_escape (int_text expires) @
         ''&signature='' @ query_escape (stamp env path expires))"

text \<open>\<^verbatim>\<open>strconv.ParseInt\<close>, base ten, 64 bits\<close>

definition digits_value :: "string \<Rightarrow> int" where
  "digits_value ds = foldl (\<lambda>n c. n * 10 + (int (byte c) - 48)) 0 ds"

definition parse_digits :: "bool \<Rightarrow> string \<Rightarrow> int option" where
  "parse_digits negative ds =
     (if ds = [] \<or> \<not> list_all digit_char ds then None
      else if negative then (if digits_value ds \<le> 2 ^ 63 then Some (- digits_value ds) else None)
      else if digits_value ds < 2 ^ 63 then Some (digits_value ds) else None)"

definition parse_int :: "string \<Rightarrow> int option" where
  "parse_int s =
     (case s of
        [] \<Rightarrow> None
      | c # cs \<Rightarrow>
          if c = CHR ''-'' then parse_digits True cs
          else if c = CHR ''+'' then parse_digits False cs else parse_digits False s)"

text \<open>\<^verbatim>\<open>time.Unix\<close> counts from the year one, in 64 bits.\<close>

definition unix_to_internal :: int where
  "unix_to_internal = 62135596800"

definition unix_time :: "int \<Rightarrow> int" where
  "unix_time n =
     (sint (word_of_int (n + unix_to_internal) :: 64 word) - unix_to_internal) * 1000000"

definition valid_signature :: "delivery_env \<Rightarrow> string \<Rightarrow> string \<Rightarrow> string \<Rightarrow> int \<Rightarrow> bool" where
  "valid_signature env path expires signature now \<longleftrightarrow>
     dle_key env \<noteq> [] \<and>
     (case parse_int expires of
        None \<Rightarrow> False
      | Some deadline \<Rightarrow> \<not> unix_time deadline < now \<and> signature = stamp env path deadline)"

definition signed_url :: "delivery_env \<Rightarrow> string \<Rightarrow> int \<Rightarrow> string" where
  "signed_url env path now = dle_site env @ sign env path now"

section \<open>What is read of an asset\<close>

record picture =
  pic_media :: uuid
  pic_role :: string
  pic_cover :: bool
  pic_url :: string

record deliverable =
  dvb_kind :: string
  dvb_name :: string
  dvb_generation :: int
  dvb_targets :: "(string \<times> string) list"
  dvb_original :: bool
  dvb_pictures :: "picture list"

definition target_allowed :: "string list \<Rightarrow> string \<Rightarrow> string \<Rightarrow> bool" where
  "target_allowed accepting kind target \<longleftrightarrow>
     list_ex (\<lambda>app. list_ex (\<lambda>accepted. target = accepted) (app_targets kind app)) accepting"

definition media_path :: "delivery_env \<Rightarrow> uuid \<Rightarrow> string" where
  "media_path env k = ''/media/'' @ uuid_text k @ ''/detail/'' @ decimal (dle_media_version env)"

definition delivery_pictures :: "delivery_env \<Rightarrow> int \<Rightarrow> catalog_asset \<Rightarrow> picture list" where
  "delivery_pictures env now a =
     map (\<lambda>(k, role). \<lparr>pic_media = k, pic_role = role, pic_cover = (cat_cover a = Some k),
                       pic_url = dle_site env @ sign env (media_path env k) now\<rparr>) (cat_media a)"

definition deliverable_asset ::
  "delivery_env \<Rightarrow> int \<Rightarrow> catalog_asset list \<Rightarrow> uuid \<Rightarrow> deliverable option" where
  "deliverable_asset env now assets k =
     (case sendable_asset assets k of
        None \<Rightarrow> None
      | Some a \<Rightarrow>
          (let offered = (case cat_export a of None \<Rightarrow> [] | Some ts \<Rightarrow> ts);
               free = (cat_apps a = [])
           in Some \<lparr>dvb_kind = cat_kind a, dvb_name = cat_name a, dvb_generation = cat_generation a,
                    dvb_targets = (if free then offered
                      else filter (\<lambda>(format, label). target_allowed (cat_apps a) (cat_kind a) format) offered),
                    dvb_original = (free \<and> cat_original a),
                    dvb_pictures = delivery_pictures env now a\<rparr>))"

section \<open>Choosing a format\<close>

definition raw_download_target :: string where
  "raw_download_target = ''raw''"

definition raw_label :: string where
  "raw_label = ''The creator's own file''"

text \<open>Of two offers of one format the map holds the later.\<close>

fun choose_from ::
  "(string \<times> string) list \<Rightarrow> bool \<Rightarrow> string list \<Rightarrow> (string \<times> string) option" where
  "choose_from offered original [] =
     (if original then Some (raw_download_target, raw_label) else None)"
| "choose_from offered original (wanted # rest) =
     (case map_of (rev offered) wanted of
        Some label \<Rightarrow> Some (wanted, label)
      | None \<Rightarrow>
          if wanted = raw_download_target \<and> original then Some (raw_download_target, raw_label)
          else choose_from offered original rest)"

definition choose_target ::
  "string list option \<Rightarrow> (string \<times> string) list \<Rightarrow> bool \<Rightarrow> (string \<times> string) option" where
  "choose_target accepted offered original =
     choose_from offered original (case accepted of None \<Rightarrow> [] | Some ws \<Rightarrow> ws)"

section \<open>Errors and settings\<close>

datatype delivery_error =
    NoLiveInstance
  | MissingScope
  | AssetNotFound
  | AssetNotSendable
  | NoTarget
  | QueueFull
  | DeliveryNotFound
  | Throttled link_error
  | TooManyCollectors
  | LibraryTooLarge
  | LibraryReport
  | Acknowledgement
  | ArtifactNotFound
  | CollectCancelled
  | DeliveryStatement

type_synonym 'a delivery_result = "link_db \<times> (delivery_error + 'a)"

record settings =
  set_hold_floor :: int
  set_hold_ceiling :: int
  set_concurrent_holds :: nat
  set_lease :: int
  set_retention :: int
  set_batch :: nat
  set_max_attempts :: int
  set_pending :: nat
  set_max_acknowledged :: nat
  set_max_library :: nat

definition default_settings :: settings where
  "default_settings =
     \<lparr>set_hold_floor = seconds 25, set_hold_ceiling = seconds 30, set_concurrent_holds = 512,
      set_lease = signature_life, set_retention = seconds (7 * 24 * 3600), set_batch = 10,
      set_max_attempts = 5, set_pending = 100, set_max_acknowledged = 32, set_max_library = 2000\<rparr>"

definition queue_limit :: int where "queue_limit = 120"
definition collect_limit :: int where "collect_limit = 400"
definition sync_part_limit :: int where "sync_part_limit = 120"
definition sync_whole_limit :: int where "sync_whole_limit = 24"

definition delivery_path :: "uuid \<Rightarrow> string" where
  "delivery_path k = ''/delivery/'' @ uuid_text k @ ''/export''"

definition throttled_run ::
  "delivery_env \<Rightarrow> clocks \<Rightarrow> string \<Rightarrow> string \<Rightarrow> int \<Rightarrow> link_db \<Rightarrow> (link_db \<Rightarrow> 'a delivery_result) \<Rightarrow>
     'a delivery_result" where
  "throttled_run env clk action source limit db k =
     (case throttle (dle_links env) clk action source limit an_hour db of
        (db1, Inl e) \<Rightarrow> (db1, Inl (Throttled e))
      | (db1, Inr u) \<Rightarrow> k db1)"

section \<open>Queueing\<close>

text \<open>
  \<^verbatim>\<open>Queue\<close> is no transaction: each of its statements is committed alone, and other calls come between
  them. A press is one call of it, with the statements it has behind it: its rate is taken, the
  instance is found live and linked with the scope, the asset fits the instance, the live
  deliveries are counted, and the row is inserted or found in the way. The asset is read at once.
  That the hub is told of the row is among the events \<open>await_work\<close> is given.
\<close>

datatype stage =
    Pressed
  | Admitted
  | Linked instance_answer
  | Fitting
  | Counted
  | InTheWay
  | Answered "delivery_error + delivery_row"

record press =
  prs_user :: uuid
  prs_instance :: uuid
  prs_asset :: uuid
  prs_fresh :: uuid
  prs_stage :: stage

definition linked_stage :: "uuid \<Rightarrow> uuid \<Rightarrow> link_db \<Rightarrow> stage" where
  "linked_stage user i db =
     (case live_by_id user i db of
        Inl e \<Rightarrow> Answered (Inl NoLiveInstance)
      | Inr inst \<Rightarrow>
          if \<not> grants inst scope_receive_assets then Answered (Inl MissingScope) else Linked inst)"

definition fitting_stage :: "delivery_env \<Rightarrow> int \<Rightarrow> catalog_asset list \<Rightarrow> instance_answer \<Rightarrow> uuid \<Rightarrow> stage" where
  "fitting_stage env now assets inst a =
     (case deliverable_asset env now assets a of
        None \<Rightarrow> Answered (Inl AssetNotSendable)
      | Some s \<Rightarrow>
          (case choose_target (dec_targets (ian_declaration inst)) (dvb_targets s) (dvb_original s) of
             None \<Rightarrow> Answered (Inl NoTarget)
           | Some chosen \<Rightarrow> Fitting))"

definition counted_stage :: "settings \<Rightarrow> uuid \<Rightarrow> link_db \<Rightarrow> stage" where
  "counted_stage st i db =
     (if set_pending st \<le> count_live_deliveries i db then Answered (Inl QueueFull) else Counted)"

definition store_delivery ::
  "settings \<Rightarrow> clocks \<Rightarrow> uuid \<Rightarrow> uuid \<Rightarrow> uuid \<Rightarrow> link_db \<Rightarrow> link_db \<times> stage" where
  "store_delivery st clk fresh i a db =
     (case queue_delivery clk fresh i a (clk_app clk + set_retention st) db of
        None \<Rightarrow> (db, Answered (Inl DeliveryStatement))
      | Some (db', Some d) \<Rightarrow> (db', Answered (Inr d))
      | Some (db', None) \<Rightarrow> (db', InTheWay))"

text \<open>The next statement of a press, at the clocks and with the assets of its moment.\<close>

definition next_stage ::
  "delivery_env \<Rightarrow> settings \<Rightarrow> clocks \<Rightarrow> catalog_asset list \<Rightarrow> press \<Rightarrow> link_db \<Rightarrow> link_db \<times> stage" where
  "next_stage env st clk assets p db =
     (case prs_stage p of
        Pressed \<Rightarrow>
          (case throttle (dle_links env) clk ''delivery-queue'' (uuid_text (prs_user p)) queue_limit
                  an_hour db of
             (db', Inl e) \<Rightarrow> (db', Answered (Inl (Throttled e)))
           | (db', Inr u) \<Rightarrow> (db', Admitted))
      | Admitted \<Rightarrow> (db, linked_stage (prs_user p) (prs_instance p) db)
      | Linked inst \<Rightarrow> (db, fitting_stage env (clk_app clk) assets inst (prs_asset p))
      | Fitting \<Rightarrow> (db, counted_stage st (prs_instance p) db)
      | Counted \<Rightarrow> store_delivery st clk (prs_fresh p) (prs_instance p) (prs_asset p) db
      | InTheWay \<Rightarrow>
          (db, Answered (or_refuse DeliveryNotFound
                 (live_delivery_for_asset (prs_instance p) (prs_asset p) db)))
      | Answered r \<Rightarrow> (db, Answered r))"

definition press_step ::
  "delivery_env \<Rightarrow> settings \<Rightarrow> clocks \<Rightarrow> catalog_asset list \<Rightarrow> press \<Rightarrow> link_db \<Rightarrow> link_db \<times> press" where
  "press_step env st clk assets p db =
     (case next_stage env st clk assets p db of (db', s) \<Rightarrow> (db', p\<lparr>prs_stage := s\<rparr>))"

definition new_press :: "uuid \<Rightarrow> uuid \<Rightarrow> uuid \<Rightarrow> uuid \<Rightarrow> press" where
  "new_press fresh user i a =
     \<lparr>prs_user = user, prs_instance = i, prs_asset = a, prs_fresh = fresh, prs_stage = Pressed\<rparr>"

text \<open>\<^verbatim>\<open>Queue\<close> with nothing between its statements, of which there are at most six.\<close>

definition press_alone ::
  "delivery_env \<Rightarrow> settings \<Rightarrow> clocks \<Rightarrow> catalog_asset list \<Rightarrow> nat \<Rightarrow> press \<Rightarrow> link_db \<Rightarrow> link_db \<times> press" where
  "press_alone env st clk assets n p db =
     ((\<lambda>(db, p). press_step env st clk assets p db) ^^ n) (db, p)"

definition queue ::
  "delivery_env \<Rightarrow> settings \<Rightarrow> clocks \<Rightarrow> catalog_asset list \<Rightarrow> uuid \<Rightarrow> uuid \<Rightarrow> uuid \<Rightarrow> uuid \<Rightarrow> link_db \<Rightarrow>
     link_db \<times> stage" where
  "queue env st clk assets fresh user i a db =
     (case press_alone env st clk assets 6 (new_press fresh user i a) db of (db', p) \<Rightarrow> (db', prs_stage p))"

definition discard :: "uuid \<Rightarrow> uuid \<Rightarrow> link_db \<Rightarrow> unit delivery_result" where
  "discard user k db =
     (case discard_delivery k user db of
        (db', n) \<Rightarrow> (db', if n = 0 then Inl DeliveryNotFound else Inr ()))"

section \<open>Collecting\<close>

record work_artifact =
  art_kind :: string
  art_url :: string
  art_picture :: "picture option"

record work =
  wrk_id :: uuid
  wrk_asset :: uuid
  wrk_generation :: int
  wrk_kind :: string
  wrk_name :: string
  wrk_format :: string
  wrk_label :: string
  wrk_queued :: int
  wrk_lease :: "int option"
  wrk_artifacts :: "work_artifact list"

definition artifacts :: "delivery_env \<Rightarrow> int \<Rightarrow> uuid \<Rightarrow> deliverable \<Rightarrow> work_artifact list" where
  "artifacts env now k s =
     \<lparr>art_kind = ''export'', art_url = signed_url env (delivery_path k) now, art_picture = None\<rparr> #
     map (\<lambda>p. \<lparr>art_kind = ''picture'', art_url = pic_url p, art_picture = Some p\<rparr>) (dvb_pictures s)"

text \<open>\<^verbatim>\<open>release\<close>: the asset is read again, and one that may no longer be sent is settled.\<close>

definition release_one ::
  "delivery_env \<Rightarrow> clocks \<Rightarrow> catalog_asset list \<Rightarrow> instance_answer \<Rightarrow> nat \<Rightarrow> delivery_row \<Rightarrow>
     link_db \<times> work list \<Rightarrow> delivery_error + link_db \<times> work list" where
  "release_one env clk assets inst n d = (\<lambda>(db, released).
     (case deliverable_asset env (clk_app clk) assets (dlv_asset d) of
        None \<Rightarrow> Inr (fail_delivery clk Withdrawn (dlv_id d) db, released)
      | Some s \<Rightarrow>
     (case choose_target (dec_targets (ian_declaration inst)) (dvb_targets s) (dvb_original s) of
        None \<Rightarrow> Inr (fail_delivery clk Unsupported (dlv_id d) db, released)
      | Some (target, label) \<Rightarrow>
     (case set_delivery_target target (dlv_id d) db of
        None \<Rightarrow> Inl DeliveryStatement
      | Some db' \<Rightarrow>
          Inr (db', released @
            [\<lparr>wrk_id = dlv_id d, wrk_asset = dlv_asset d, wrk_generation = dvb_generation s,
              wrk_kind = dvb_kind s, wrk_name = dvb_name s, wrk_format = target, wrk_label = label,
              wrk_queued = dlv_queued d, wrk_lease = dlv_lease d,
              wrk_artifacts = artifacts env (clk_app clk) (dlv_id d) s\<rparr>])))))"

definition claim ::
  "delivery_env \<Rightarrow> settings \<Rightarrow> clocks \<Rightarrow> catalog_asset list \<Rightarrow> instance_answer \<Rightarrow> link_db \<Rightarrow>
     work list delivery_result" where
  "claim env st clk assets inst db =
     (let db1 = abandon_exhausted clk (ian_id inst) (set_max_attempts st) db;
          (db2, claimed) = claim_deliveries clk (clk_app clk + set_lease st) (ian_id inst)
             (set_max_attempts st) (set_batch st) db1
      in case each (release_one env clk assets inst) claimed (db2, []) of
           Inl e \<Rightarrow> (db, Inl e)
         | Inr (db3, work) \<Rightarrow> (db3, Inr work))"

text \<open>\<^verbatim>\<open>hub\<close>: one waiting request for an instance, known by a number, and the channels of each.\<close>

record hub =
  hub_waiting :: "(uuid \<times> nat) list"
  hub_work :: "nat set"
  hub_superseded :: "nat set"
  hub_next :: nat
  hub_limit :: nat

definition hold :: "uuid \<Rightarrow> hub \<Rightarrow> (hub \<times> nat) option" where
  "hold i h =
     (case map_of (hub_waiting h) i of
        None \<Rightarrow>
          if hub_limit h \<le> length (hub_waiting h) then None
          else Some (h\<lparr>hub_waiting := (i, hub_next h) # hub_waiting h, hub_next := Suc (hub_next h)\<rparr>,
                     hub_next h)
      | Some previous \<Rightarrow>
          Some (h\<lparr>hub_waiting := AList.update i (hub_next h) (hub_waiting h),
                  hub_superseded := insert previous (hub_superseded h),
                  hub_next := Suc (hub_next h)\<rparr>, hub_next h))"

definition release :: "uuid \<Rightarrow> nat \<Rightarrow> hub \<Rightarrow> hub" where
  "release i held h =
     (if map_of (hub_waiting h) i = Some held
      then h\<lparr>hub_waiting := AList.delete i (hub_waiting h)\<rparr> else h)"

definition signal :: "uuid \<Rightarrow> hub \<Rightarrow> hub" where
  "signal i h =
     (case map_of (hub_waiting h) i of
        None \<Rightarrow> h
      | Some held \<Rightarrow> h\<lparr>hub_work := insert held (hub_work h)\<rparr>)"

definition new_hub :: "nat \<Rightarrow> hub" where
  "new_hub limit =
     \<lparr>hub_waiting = [], hub_work = {}, hub_superseded = {}, hub_next = 0, hub_limit = limit\<rparr>"

text \<open>How long a request waits: \<open>draw n\<close> is below \<open>n\<close>, and \<open>left\<close> the time to its deadline.\<close>

definition hold_margin :: int where
  "hold_margin = seconds 2"

definition hold_time :: "settings \<Rightarrow> (int \<Rightarrow> int) \<Rightarrow> int option \<Rightarrow> int" where
  "hold_time st draw left =
     (let spread = set_hold_ceiling st - set_hold_floor st;
          wait = set_hold_floor st + (if 0 < spread then draw spread else 0)
      in case left of
           None \<Rightarrow> wait
         | Some l \<Rightarrow>
             (let allowed = l - hold_margin; clamped = (if allowed < wait then allowed else wait)
              in if clamped < 0 then 0 else clamped))"

text \<open>
  What the loop of \<^verbatim>\<open>Collect\<close> waits for, each with what others have made of the tables, the clocks
  and the assets by then. \<open>None\<close> is a request that still waits.
\<close>

datatype wake = Woken | Rechecked | Superseded | WaitedOut | Cancelled

fun await_work ::
  "delivery_env \<Rightarrow> settings \<Rightarrow> instance_answer \<Rightarrow> clocks \<Rightarrow> catalog_asset list \<Rightarrow> link_db \<Rightarrow>
     (wake \<times> (link_db \<Rightarrow> link_db) \<times> clocks \<times> catalog_asset list) list \<Rightarrow>
     work list delivery_result option" where
  "await_work env st inst clk assets db wakes =
     (case claim env st clk assets inst db of
        (db', Inl e) \<Rightarrow> Some (db', Inl e)
      | (db', Inr work) \<Rightarrow>
          if work \<noteq> [] then Some (db', Inr work)
          else
            (case wakes of
               [] \<Rightarrow> None
             | (wake, others, clk', assets') # rest \<Rightarrow>
                 if wake = Woken \<or> wake = Rechecked
                 then await_work env st inst clk' assets' (others db') rest
                 else if wake = Cancelled then Some (db', Inl CollectCancelled)
                 else Some (db', Inr [])))"

declare await_work.simps [simp del]

text \<open>\<^verbatim>\<open>Collect\<close>, up to the wait: the hub is not held when it refuses.\<close>

definition acknowledge ::
  "delivery_env \<Rightarrow> settings \<Rightarrow> clocks \<Rightarrow> instance_answer \<Rightarrow> uuid list \<Rightarrow> link_db \<Rightarrow> unit delivery_result" where
  "acknowledge env st clk inst ks db =
     (if set_max_acknowledged st < length ks then (db, Inl Acknowledgement)
      else
        throttled_run env clk ''delivery-collect'' (uuid_text (ian_id inst)) collect_limit db (\<lambda>db.
          (if ks = [] then db else acknowledge_deliveries (ian_id inst) ks db, Inr ())))"

definition collect ::
  "delivery_env \<Rightarrow> settings \<Rightarrow> clocks \<Rightarrow> catalog_asset list \<Rightarrow> instance_answer \<Rightarrow> uuid list \<Rightarrow> hub \<Rightarrow>
     (wake \<times> (link_db \<Rightarrow> link_db) \<times> clocks \<times> catalog_asset list) list \<Rightarrow> link_db \<Rightarrow>
     work list delivery_result option" where
  "collect env st clk assets inst ks h wakes db =
     (case acknowledge env st clk inst ks db of
        (db', Inl e) \<Rightarrow> Some (db', Inl e)
      | (db', Inr u) \<Rightarrow>
          (case hold (ian_id inst) h of
             None \<Rightarrow> Some (db', Inl TooManyCollectors)
           | Some (h', held) \<Rightarrow> await_work env st inst clk assets db' wakes))"

definition artifact ::
  "delivery_env \<Rightarrow> clocks \<Rightarrow> uuid \<Rightarrow> string \<Rightarrow> string \<Rightarrow> link_db \<Rightarrow> delivery_error + uuid \<times> string" where
  "artifact env clk k expires signature db =
     (if \<not> valid_signature env (delivery_path k) expires signature (clk_app clk)
      then Inl ArtifactNotFound
      else or_refuse ArtifactNotFound (delivery_for_artifact clk k db))"

section \<open>The mirror\<close>

record library_report =
  rep_snapshot :: bool
  rep_entries :: "(uuid \<times> int option) list"
  rep_removed :: "uuid list"

record library_result =
  res_accepted :: nat
  res_removed :: nat
  res_ignored :: int

definition read_entry ::
  "nat \<Rightarrow> uuid \<times> int option \<Rightarrow> uuid set \<Rightarrow> delivery_error + uuid set" where
  "read_entry n = (\<lambda>(k, generation) seen.
     if (case generation of None \<Rightarrow> False | Some g \<Rightarrow> g < 1) then Inl LibraryReport
     else if k \<in> seen then Inl LibraryReport else Inr (insert k seen))"

definition read_removed :: "uuid set \<Rightarrow> nat \<Rightarrow> uuid \<Rightarrow> unit \<Rightarrow> delivery_error + unit" where
  "read_removed seen n k u = (if k \<in> seen then Inl LibraryReport else Inr ())"

definition read_report ::
  "settings \<Rightarrow> library_report \<Rightarrow> delivery_error + (uuid \<times> int option) list \<times> uuid list" where
  "read_report st rep =
     (if set_max_library st < length (rep_entries rep) \<or> set_max_library st < length (rep_removed rep)
      then Inl LibraryTooLarge
      else if rep_snapshot rep \<and> rep_removed rep \<noteq> [] then Inl LibraryReport
      else
        and_then (each read_entry (rep_entries rep) {}) (\<lambda>seen.
        and_then (each (read_removed seen) (rep_removed rep) ()) (\<lambda>_.
        Inr (rep_entries rep, rep_removed rep))))"

text \<open>\<^verbatim>\<open>int32\<close> of a Go \<^verbatim>\<open>int\<close> keeps the low 32 bits.\<close>

definition int32 :: "int \<Rightarrow> int" where
  "int32 n = sint (word_of_int n :: 32 word)"

definition reported_generation :: "uuid \<times> int option \<Rightarrow> uuid \<times> int" where
  "reported_generation = (\<lambda>(k, generation).
     (k, case generation of None \<Rightarrow> 0 | Some g \<Rightarrow> int32 g))"

definition sync_checked ::
  "clocks \<Rightarrow> catalog_asset list \<Rightarrow> instance_answer \<Rightarrow> library_report \<Rightarrow>
     (uuid \<times> int option) list \<Rightarrow> uuid list \<Rightarrow> link_db \<Rightarrow> library_result delivery_result" where
  "sync_checked clk assets inst rep entries removed db =
     (case report_library_entries clk assets (ian_id inst) (map reported_generation entries) db of
        None \<Rightarrow> (db, Inl DeliveryStatement)
      | Some (db1, accepted) \<Rightarrow>
          (let (db2, dropped) =
             (if rep_snapshot rep then prune_library (ian_id inst) (map fst entries) db1
              else if removed \<noteq> [] then remove_library_entries (ian_id inst) removed db1
              else (db1, 0))
           in (db2, Inr \<lparr>res_accepted = accepted, res_removed = dropped,
                         res_ignored = int (length entries) - int accepted\<rparr>)))"

definition sync ::
  "delivery_env \<Rightarrow> settings \<Rightarrow> clocks \<Rightarrow> catalog_asset list \<Rightarrow> instance_answer \<Rightarrow> library_report \<Rightarrow>
     link_db \<Rightarrow> library_result delivery_result" where
  "sync env st clk assets inst rep db =
     (case read_report st rep of
        Inl e \<Rightarrow> (db, Inl e)
      | Inr (entries, removed) \<Rightarrow>
          throttled_run env clk
            (if rep_snapshot rep then ''library-snapshot'' else ''library-sync'') (uuid_text (ian_id inst))
            (if rep_snapshot rep then sync_whole_limit else sync_part_limit) db
            (sync_checked clk assets inst rep entries removed))"

definition library_counts_by_instance ::
  "uuid \<Rightarrow> catalog_asset list \<Rightarrow> link_db \<Rightarrow> uuid \<Rightarrow> (nat \<times> nat) option" where
  "library_counts_by_instance user assets db = map_of (instance_library_counts user assets db)"

definition sweep :: "clocks \<Rightarrow> link_db \<Rightarrow> link_db" where
  "sweep = delete_expired_deliveries"

section \<open>What an asset's page shows\<close>

record instance_status_answer =
  isa_instance :: uuid
  isa_application :: string
  isa_name :: string
  isa_seen :: "int option"
  isa_can_receive :: bool
  isa_reports_library :: bool
  isa_delivery :: "delivery_row option"
  isa_installed :: "int option"
  isa_update :: bool

text \<open>A live delivery before a failed one, then the one queued last.\<close>

definition shown_delivery :: "uuid \<Rightarrow> uuid \<Rightarrow> link_db \<Rightarrow> delivery_row option" where
  "shown_delivery i a db =
     (case sort_key (\<lambda>d. if dlv_state d \<noteq> Failed then 0 else 1 :: nat) (sort_key (\<lambda>d. - dlv_queued d)
             (filter (\<lambda>d. dlv_instance d = i \<and> dlv_asset d = a) (lnk_deliveries db))) of
        [] \<Rightarrow> None
      | d # ds \<Rightarrow> Some d)"

definition installed_generation :: "uuid \<Rightarrow> uuid \<Rightarrow> link_db \<Rightarrow> int option" where
  "installed_generation i a db =
     map_option lib_generation (find (\<lambda>r. lib_instance r = i \<and> lib_asset r = a) (lnk_library db))"

definition instance_state_of ::
  "deliverable \<Rightarrow> uuid \<Rightarrow> int \<Rightarrow> link_db \<Rightarrow> linked_instance \<Rightarrow> instance_status_answer" where
  "instance_state_of s a generation db i =
     \<lparr>isa_instance = ins_id i, isa_application = dec_application (ins_declaration i),
      isa_name = dec_instance (ins_declaration i), isa_seen = ins_seen i,
      isa_can_receive = (scope_receive_assets \<in> set (ins_scopes i) \<and>
        choose_target (dec_targets (ins_declaration i)) (dvb_targets s) (dvb_original s) \<noteq> None),
      isa_reports_library = (scope_sync_library \<in> set (ins_scopes i)),
      isa_delivery = shown_delivery (ins_id i) a db,
      isa_installed = installed_generation (ins_id i) a db,
      isa_update = (case installed_generation (ins_id i) a db of None \<Rightarrow> False | Some g \<Rightarrow> g < generation)\<rparr>"

definition asset_instances ::
  "delivery_env \<Rightarrow> clocks \<Rightarrow> catalog_asset list \<Rightarrow> uuid \<Rightarrow> uuid \<Rightarrow> link_db \<Rightarrow>
     delivery_error + int \<times> instance_status_answer list" where
  "asset_instances env clk assets user a db =
     and_then (or_refuse AssetNotFound (sendable_asset assets a)) (\<lambda>found.
     and_then (or_refuse AssetNotFound (deliverable_asset env (clk_app clk) assets a)) (\<lambda>s.
     Inr (cat_generation found,
          map (instance_state_of s a (cat_generation found) db) (live_instances user db))))"

end
