(* ===== verification/LinkTables.thy ===== *)
theory LinkTables
  imports LinkStore
begin

text \<open>
  Lemmas about the tables of \<^verbatim>\<open>LinkStore\<close>: how a row is found after an update, an insertion or a
  deletion, and the invariant of the tables, which every statement keeps.
\<close>

section \<open>Rows\<close>

definition the_row :: "('r \<Rightarrow> 'k) \<Rightarrow> 'k \<Rightarrow> 'r list \<Rightarrow> 'r option" where
  "the_row key k rs = find (\<lambda>r. key r = k) rs"

lemma the_row_simps [simp]:
  "the_row key k [] = None"
  "the_row key k (r # rs) = (if key r = k then Some r else the_row key k rs)"
  by (simp_all add: the_row_def)

lemma the_row_None: "the_row key k rs = None \<longleftrightarrow> k \<notin> key ` set rs"
  by (induction rs) auto

lemma the_row_Some: "the_row key k rs = Some r \<Longrightarrow> r \<in> set rs \<and> key r = k"
  by (induction rs) (auto split: if_splits)

lemma the_row_iff:
  "distinct (map key rs) \<Longrightarrow> the_row key k rs = Some r \<longleftrightarrow> r \<in> set rs \<and> key r = k"
  by (induction rs) (auto simp: rev_image_eqI)

lemma the_row_append [simp]:
  "the_row key k (rs @ qs) = (case the_row key k rs of None \<Rightarrow> the_row key k qs | Some r \<Rightarrow> Some r)"
  by (induction rs) auto

lemma the_row_update:
  assumes "\<And>r. key (f r) = key r"
  shows "the_row key k (update_where p f rs) =
           map_option (\<lambda>r. if p r then f r else r) (the_row key k rs)"
  by (induction rs) (auto simp: update_where_def assms)

lemma the_row_filter:
  assumes "distinct (map key rs)"
  shows "the_row key k (filter q rs) =
           (case the_row key k rs of None \<Rightarrow> None | Some r \<Rightarrow> if q r then Some r else None)"
  using assms
proof (induction rs)
  case (Cons r rs)
  have "the_row key k (filter q rs) = None" if "key r = k"
    using Cons.prems that by (auto simp: the_row_None image_iff)
  then show ?case using Cons by auto
qed simp

lemma map_update_where: "(\<And>r. key (f r) = key r) \<Longrightarrow> map key (update_where p f rs) = map key rs"
  by (simp add: update_where_def)

lemma keys_update_where:
  "(\<And>r. key (f r) = key r) \<Longrightarrow> key ` set (update_where p f rs) = key ` set rs"
  using map_update_where [of key f p rs] by (metis set_map)

lemma set_update_where:
  "set (update_where p f rs) = f ` {r \<in> set rs. p r} \<union> {r \<in> set rs. \<not> p r}"
  by (auto simp: update_where_def)

lemma update_where_none: "(\<And>r. r \<in> set rs \<Longrightarrow> \<not> p r) \<Longrightarrow> update_where p f rs = rs"
  by (simp add: update_where_def map_idI)

lemma distinct_filter: "distinct (map key rs) \<Longrightarrow> distinct (map key (filter q rs))"
  by (simp add: distinct_map_filter)

lemma find_one:
  assumes "find p rs = Some r"
  shows "r \<in> set rs \<and> p r"
  using assms by (auto simp: find_Some_iff)

lemma only_row:
  assumes "r \<in> set rs" "p r" "\<And>q. q \<in> set rs \<Longrightarrow> p q \<Longrightarrow> q = r"
  shows "find p rs = Some r"
proof -
  have "\<exists>q. find p rs = Some q" using assms(1,2) by (cases "find p rs") (auto simp: find_None_iff)
  then show ?thesis using assms(3) find_one by metis
qed

lemma one_row:
  assumes "distinct (map key rs)" "r \<in> set rs" "s \<in> set rs" "key r = key s"
  shows "r = s"
  using assms by (auto simp: distinct_map dest: inj_onD)

lemma count_one:
  assumes "distinct (map key rs)" "\<And>r. p r \<Longrightarrow> key r = k" "r \<in> set rs" "p r"
  shows "length (filter p rs) = 1"
  using assms
proof (induction rs)
  case (Cons s rs)
  show ?case
  proof (cases "r = s")
    case True
    have "filter p rs = []"
      using Cons.prems True by (auto simp: filter_empty_conv image_iff)
    then show ?thesis using Cons.prems True by simp
  next
    case False
    then have "r \<in> set rs" using Cons.prems by simp
    moreover have "\<not> p s" using Cons.prems False by (auto simp: image_iff)
    ultimately show ?thesis using Cons by simp
  qed
qed simp

text \<open>The values of a nullable unique column.\<close>

definition known :: "('r \<Rightarrow> 'v option) \<Rightarrow> 'r list \<Rightarrow> 'v list" where
  "known f rs = List.map_filter f rs"

lemma known_simps [simp]:
  "known f [] = []"
  "known f (r # rs) = (case f r of None \<Rightarrow> known f rs | Some v \<Rightarrow> v # known f rs)"
  by (simp_all add: known_def map_filter_simps split: option.splits)

lemma set_known: "v \<in> set (known f rs) \<longleftrightarrow> (\<exists>r \<in> set rs. f r = Some v)"
  by (induction rs) (auto split: option.splits)

lemma known_one:
  "\<lbrakk>distinct (known f rs); r \<in> set rs; q \<in> set rs; f r = Some v; f q = Some v\<rbrakk> \<Longrightarrow> r = q"
  by (induction rs) (auto simp: set_known split: option.splits)

lemma known_append [simp]: "known f (rs @ qs) = known f rs @ known f qs"
  by (induction rs) (auto split: option.splits)

lemma known_filter: "distinct (known f rs) \<Longrightarrow> distinct (known f (filter q rs))"
  by (induction rs) (auto simp: set_known split: option.splits)

lemma known_update_same:
  assumes "\<And>r. r \<in> set rs \<Longrightarrow> p r \<Longrightarrow> f (g r) = f r"
  shows "known f (update_where p g rs) = known f rs"
  using assms by (induction rs) (auto simp: update_where_def split: option.splits)

lemma known_update_gone:
  assumes "distinct (known f rs)" "\<And>r. p r \<Longrightarrow> f (g r) = None"
  shows "distinct (known f (update_where p g rs)) \<and>
         set (known f (update_where p g rs)) \<subseteq> set (known f rs)"
  using assms by (induction rs) (auto simp: update_where_def split: option.splits)

lemma known_update_none: "(\<And>r. r \<in> set rs \<Longrightarrow> \<not> p r) \<Longrightarrow> known f (update_where p g rs) = known f rs"
  by (simp add: update_where_none)

lemma known_update_fresh:
  assumes "distinct (known f rs)" "distinct (map key rs)" "\<And>r. p r \<Longrightarrow> key r = k"
    and "\<And>r. p r \<Longrightarrow> f (g r) = Some v" "\<And>r. r \<in> set rs \<Longrightarrow> \<not> p r \<Longrightarrow> f r \<noteq> Some v"
  shows "distinct (known f (update_where p g rs)) \<and>
         set (known f (update_where p g rs)) \<subseteq> insert v (set (known f rs))"
  using assms
proof (induction rs)
  case (Cons r rs)
  note IH = Cons.IH [OF _ _ Cons.prems(3,4)]
  show ?case
  proof (cases "p r")
    case True
    have none: "\<not> p s" if "s \<in> set rs" for s
      using Cons.prems True that by (auto simp: image_iff)
    have "v \<notin> set (known f rs)"
      using Cons.prems(5) none by (auto simp: set_known)
    then show ?thesis
      using Cons.prems True none
      by (auto simp: update_where_def map_idI split: option.splits)
  next
    case False
    have "distinct (known f rs)" "distinct (map key rs)"
      using Cons.prems by (auto split: option.splits)
    then have tail: "distinct (known f (update_where p g rs)) \<and>
        set (known f (update_where p g rs)) \<subseteq> insert v (set (known f rs))"
      using IH Cons.prems(5) by simp
    have "f r \<noteq> Some v" using Cons.prems(5) False by simp
    then show ?thesis
      using tail False Cons.prems(1) by (auto simp: update_where_def split: option.splits)
  qed
qed (simp add: update_where_def)

text \<open>A cleanup takes rows away, never one that is still valid.\<close>

lemma delete_expired_filter: "\<exists>q. delete_expired expires batch now rs = filter q rs \<and>
    (\<forall>r. now < expires r \<longrightarrow> q r)"
proof -
  have "r \<notin> set (take batch (sort_key expires (filter (\<lambda>r. expires r \<le> now) rs)))"
    if "now < expires r" for r
    using that set_take_subset [of batch "sort_key expires (filter (\<lambda>r. expires r \<le> now) rs)"]
    by auto
  then show ?thesis unfolding delete_expired_def by (metis (no_types, lifting))
qed

lemma delete_expired_keeps:
  "\<lbrakk>r \<in> set rs; now < expires r\<rbrakk> \<Longrightarrow> r \<in> set (delete_expired expires batch now rs)"
  using delete_expired_filter [of expires batch now rs] by auto

lemma delete_expired_subset: "set (delete_expired expires batch now rs) \<subseteq> set rs"
  using delete_expired_filter [of expires batch now rs] by auto

lemma delete_expired_distinct:
  "distinct (map key rs) \<Longrightarrow> distinct (map key (delete_expired expires batch now rs))"
  using delete_expired_filter [of expires batch now rs] by (auto simp: distinct_map_filter)

lemma delete_expired_known:
  "distinct (known f rs) \<Longrightarrow> distinct (known f (delete_expired expires batch now rs))"
  using delete_expired_filter [of expires batch now rs] by (auto simp: known_filter)

lemma the_row_delete_expired:
  assumes "distinct (map key rs)"
  shows "the_row key k (delete_expired expires batch now rs) \<in> {None, the_row key k rs}"
  using delete_expired_filter [of expires batch now rs] the_row_filter [OF assms]
  by (auto split: option.splits)

section \<open>The invariant of the tables\<close>

definition device_sound :: "device_request \<Rightarrow> bool" where
  "device_sound d \<longleftrightarrow>
     (dev_approved d = None \<or> dev_denied d = None) \<and>
     (dev_redeemed d \<noteq> None \<longrightarrow> dev_approved d \<noteq> None) \<and>
     (\<forall>u t. dev_approved d = Some (u, t) \<longrightarrow> dev_reviewed d = Some u \<and> dev_token d \<noteq> None) \<and>
     5 \<le> dev_interval d \<and> dev_interval d \<le> 60"

definition authorization_sound :: "link_authorization \<Rightarrow> bool" where
  "authorization_sound a \<longleftrightarrow>
     (lau_approved a = None \<or> lau_denied a = None) \<and>
     (lau_redeemed a \<noteq> None \<longrightarrow> lau_approved a \<noteq> None) \<and>
     (lau_code a \<noteq> None \<longleftrightarrow> lau_approved a \<noteq> None) \<and>
     (\<forall>u t. lau_approved a = Some (u, t) \<longrightarrow> lau_reviewed a = Some u)"

definition instance_sound :: "linked_instance \<Rightarrow> bool" where
  "instance_sound i \<longleftrightarrow> (ins_refresh i \<noteq> None \<longleftrightarrow> live i)"

definition devices_sound :: "link_db \<Rightarrow> bool" where
  "devices_sound db \<longleftrightarrow>
     distinct (map dev_code (lnk_devices db)) \<and> distinct (map dev_user_code (lnk_devices db)) \<and>
     (\<forall>d \<in> set (lnk_devices db). device_sound d)"

definition authorizations_sound :: "link_db \<Rightarrow> bool" where
  "authorizations_sound db \<longleftrightarrow>
     distinct (map lau_request (lnk_authorizations db)) \<and>
     distinct (known lau_code (lnk_authorizations db)) \<and>
     (\<forall>a \<in> set (lnk_authorizations db). authorization_sound a)"

definition instances_sound :: "link_db \<Rightarrow> bool" where
  "instances_sound db \<longleftrightarrow>
     distinct (map ins_id (lnk_instances db)) \<and> distinct (known ins_refresh (lnk_instances db)) \<and>
     (\<forall>i \<in> set (lnk_instances db). instance_sound i)"

definition tokens_sound :: "link_db \<Rightarrow> bool" where
  "tokens_sound db \<longleftrightarrow>
     distinct (map acc_hash (lnk_access db)) \<and> distinct (map his_hash (lnk_history db)) \<and>
     (\<forall>t \<in> set (lnk_access db).
        \<exists>i \<in> set (lnk_instances db). ins_id i = acc_instance t \<and> live i) \<and>
     (\<forall>h \<in> set (lnk_history db). his_instance h \<in> ins_id ` set (lnk_instances db))"

definition links_sound :: "link_db \<Rightarrow> bool" where
  "links_sound db \<longleftrightarrow>
     devices_sound db \<and> authorizations_sound db \<and> instances_sound db \<and> tokens_sound db"

section \<open>Every statement keeps it\<close>

named_theorems kept_links

lemma frame_links [simp]:
  "devices_sound (db\<lparr>lnk_authorizations := as\<rparr>) = devices_sound db"
  "devices_sound (db\<lparr>lnk_instances := is\<rparr>) = devices_sound db"
  "devices_sound (db\<lparr>lnk_access := ts\<rparr>) = devices_sound db"
  "devices_sound (db\<lparr>lnk_history := hs\<rparr>) = devices_sound db"
  "devices_sound (db\<lparr>lnk_rates := rs\<rparr>) = devices_sound db"
  "devices_sound (db\<lparr>lnk_deliveries := ls\<rparr>) = devices_sound db"
  "devices_sound (db\<lparr>lnk_library := bs\<rparr>) = devices_sound db"
  "authorizations_sound (db\<lparr>lnk_devices := ds\<rparr>) = authorizations_sound db"
  "authorizations_sound (db\<lparr>lnk_instances := is\<rparr>) = authorizations_sound db"
  "authorizations_sound (db\<lparr>lnk_access := ts\<rparr>) = authorizations_sound db"
  "authorizations_sound (db\<lparr>lnk_history := hs\<rparr>) = authorizations_sound db"
  "authorizations_sound (db\<lparr>lnk_rates := rs\<rparr>) = authorizations_sound db"
  "authorizations_sound (db\<lparr>lnk_deliveries := ls\<rparr>) = authorizations_sound db"
  "authorizations_sound (db\<lparr>lnk_library := bs\<rparr>) = authorizations_sound db"
  "instances_sound (db\<lparr>lnk_devices := ds\<rparr>) = instances_sound db"
  "instances_sound (db\<lparr>lnk_authorizations := as\<rparr>) = instances_sound db"
  "instances_sound (db\<lparr>lnk_access := ts\<rparr>) = instances_sound db"
  "instances_sound (db\<lparr>lnk_history := hs\<rparr>) = instances_sound db"
  "instances_sound (db\<lparr>lnk_rates := rs\<rparr>) = instances_sound db"
  "instances_sound (db\<lparr>lnk_deliveries := ls\<rparr>) = instances_sound db"
  "instances_sound (db\<lparr>lnk_library := bs\<rparr>) = instances_sound db"
  "tokens_sound (db\<lparr>lnk_devices := ds\<rparr>) = tokens_sound db"
  "tokens_sound (db\<lparr>lnk_authorizations := as\<rparr>) = tokens_sound db"
  "tokens_sound (db\<lparr>lnk_rates := rs\<rparr>) = tokens_sound db"
  "tokens_sound (db\<lparr>lnk_deliveries := ls\<rparr>) = tokens_sound db"
  "tokens_sound (db\<lparr>lnk_library := bs\<rparr>) = tokens_sound db"
  by (simp_all add: devices_sound_def authorizations_sound_def instances_sound_def tokens_sound_def)

text \<open>The rows of one table, changed under a condition.\<close>

lemma devices_updated:
  assumes "links_sound db" "\<And>d. dev_code (f d) = dev_code d" "\<And>d. dev_user_code (f d) = dev_user_code d"
    and "\<And>d. \<lbrakk>d \<in> set (lnk_devices db); device_sound d; p d\<rbrakk> \<Longrightarrow> device_sound (f d)"
  shows "links_sound (db\<lparr>lnk_devices := update_where p f (lnk_devices db)\<rparr>)"
  using assms
  by (auto simp: links_sound_def devices_sound_def map_update_where set_update_where)

lemma authorizations_updated:
  assumes "links_sound db" "\<And>a. lau_request (f a) = lau_request a"
    and "\<And>a. \<lbrakk>a \<in> set (lnk_authorizations db); authorization_sound a; p a\<rbrakk> \<Longrightarrow> authorization_sound (f a)"
    and "distinct (known lau_code (update_where p f (lnk_authorizations db)))"
  shows "links_sound (db\<lparr>lnk_authorizations := update_where p f (lnk_authorizations db)\<rparr>)"
  using assms
  by (auto simp: links_sound_def authorizations_sound_def map_update_where set_update_where)

lemma instances_updated:
  assumes "links_sound db" "\<And>i. ins_id (f i) = ins_id i"
    and "\<And>i. \<lbrakk>i \<in> set (lnk_instances db); instance_sound i; p i\<rbrakk> \<Longrightarrow> instance_sound (f i)"
    and "\<And>i. p i \<Longrightarrow> live (f i) = live i"
    and "distinct (known ins_refresh (update_where p f (lnk_instances db)))"
  shows "links_sound (db\<lparr>lnk_instances := update_where p f (lnk_instances db)\<rparr>)"
proof -
  let ?is = "update_where p f (lnk_instances db)"
  have kept: "\<exists>j \<in> set ?is. ins_id j = ins_id i \<and> live j = live i" if "i \<in> set (lnk_instances db)" for i
    using that assms(2,4) by (cases "p i") (auto simp: set_update_where)
  have "\<exists>j \<in> set ?is. ins_id j = acc_instance t \<and> live j" if "t \<in> set (lnk_access db)" for t
    using assms(1) that kept unfolding links_sound_def tokens_sound_def by metis
  moreover have "ins_id ` set ?is = ins_id ` set (lnk_instances db)"
    by (rule keys_update_where) (rule assms(2))
  ultimately show ?thesis
    using assms
    by (auto simp: links_sound_def instances_sound_def tokens_sound_def map_update_where set_update_where)
qed

lemma insert_device_kept [kept_links]:
  assumes "links_sound db" "device_sound d" "insert_device_request clk d db = Stored db'"
  shows "links_sound db'"
  using assms
  by (force simp: insert_device_request_def links_sound_def devices_sound_def list_ex_iff
            split: if_splits)

lemma delete_expired_devices_kept [kept_links]:
  "links_sound db \<Longrightarrow> links_sound (delete_expired_devices clk db)"
  using delete_expired_subset
  by (fastforce simp: delete_expired_devices_def links_sound_def devices_sound_def
        delete_expired_distinct)

lemma approve_device_kept [kept_links]:
  assumes "links_sound db" "approve_device clk user token code db = Some (db', d)"
  shows "links_sound db'"
proof -
  have "db' = db\<lparr>lnk_devices := update_where (device_open clk user code)
      (\<lambda>d. d\<lparr>dev_token := Some token, dev_reviewed := Some user,
              dev_approved := Some (user, clk_db clk)\<rparr>) (lnk_devices db)\<rparr>"
    using assms(2) by (auto simp: approve_device_def split: option.splits)
  then show ?thesis
    by (auto intro!: devices_updated assms(1) simp: device_open_def device_sound_def)
qed

lemma deny_device_kept [kept_links]:
  assumes "links_sound db" "deny_device clk user token code db = (db', n)"
  shows "links_sound db'"
proof -
  have "db' = db\<lparr>lnk_devices := update_where (device_open clk user code)
      (\<lambda>d. d\<lparr>dev_token := Some token, dev_reviewed := Some user,
              dev_denied := Some (user, clk_db clk)\<rparr>) (lnk_devices db)\<rparr>"
    using assms(2) by (auto simp: deny_device_def)
  then show ?thesis
    by (auto intro!: devices_updated assms(1) simp: device_open_def device_sound_def)
qed

lemma slowed_bounds: "\<lbrakk>5 \<le> n; n \<le> 60\<rbrakk> \<Longrightarrow> 5 \<le> slowed b n \<and> slowed b n \<le> 60"
  by (simp add: slowed_def)

lemma record_poll_kept [kept_links]:
  assumes "links_sound db" "record_poll clk slow hash db = Some (db', n)"
  shows "links_sound db'"
proof -
  have "db' = db\<lparr>lnk_devices := update_where
      (\<lambda>d. dev_code d = hash \<and> clk_db clk < dev_expires d \<and> dev_redeemed d = None)
      (\<lambda>d. d\<lparr>dev_polled := Some (clk_db clk), dev_interval := slowed slow (dev_interval d)\<rparr>)
      (lnk_devices db)\<rparr>"
    using assms(2) by (auto simp: record_poll_def Let_def split: option.splits)
  then show ?thesis
    using slowed_bounds by (auto intro!: devices_updated assms(1) simp: device_sound_def)
qed

lemma redeem_device_kept [kept_links]:
  assumes "links_sound db" "redeem_device clk hash db = (db', n)"
  shows "links_sound db'"
  using assms(2)
  by (auto simp: redeem_device_def intro!: devices_updated assms(1) simp: redeemable_def device_sound_def)

lemma insert_authorization_kept [kept_links]:
  assumes "links_sound db" "authorization_sound a" "lau_code a = None"
    and "insert_authorization clk a db = Stored db'"
  shows "links_sound db'"
  using assms
  by (force simp: insert_authorization_def links_sound_def authorizations_sound_def list_ex_iff
            split: if_splits)

lemma delete_expired_authorizations_kept [kept_links]:
  "links_sound db \<Longrightarrow> links_sound (delete_expired_authorizations clk db)"
  using delete_expired_subset
  by (fastforce simp: delete_expired_authorizations_def links_sound_def authorizations_sound_def
        delete_expired_distinct delete_expired_known)

lemma approve_authorization_kept [kept_links]:
  assumes "links_sound db" "approve_authorization_row clk user code hash db = Inr (db', a)"
  shows "links_sound db'"
proof -
  let ?f = "\<lambda>a. a\<lparr>lau_reviewed := Some user, lau_code := Some code,
                 lau_approved := Some (user, clk_db clk)\<rparr>"
  have db': "db' = db\<lparr>lnk_authorizations :=
        update_where (authorization_open clk user hash) ?f (lnk_authorizations db)\<rparr>"
    and fresh: "\<And>a. a \<in> set (lnk_authorizations db) \<Longrightarrow> lau_code a \<noteq> Some code"
    using assms(2)
    by (auto simp: approve_authorization_row_def list_ex_iff split: option.splits if_splits)
  have "distinct (known lau_code
          (update_where (authorization_open clk user hash) ?f (lnk_authorizations db)))"
    using known_update_fresh [where f = lau_code and key = lau_request and k = hash and v = code
        and p = "authorization_open clk user hash" and g = ?f and rs = "lnk_authorizations db"]
      assms(1) fresh by (auto simp: links_sound_def authorizations_sound_def authorization_open_def)
  then show ?thesis
    unfolding db'
    by (intro authorizations_updated assms(1))
      (auto simp: authorization_open_def authorization_sound_def)
qed

lemma deny_authorization_kept [kept_links]:
  assumes "links_sound db" "deny_authorization_row clk user hash db = Some (db', a)"
  shows "links_sound db'"
proof -
  have db': "db' = db\<lparr>lnk_authorizations := update_where (authorization_open clk user hash)
      (\<lambda>a. a\<lparr>lau_reviewed := Some user, lau_denied := Some (user, clk_db clk)\<rparr>)
      (lnk_authorizations db)\<rparr>"
    using assms(2) by (auto simp: deny_authorization_row_def split: option.splits)
  show ?thesis
    unfolding db' using assms(1)
    by (intro authorizations_updated assms(1))
      (auto simp: authorization_open_def authorization_sound_def known_update_same
                  links_sound_def authorizations_sound_def)
qed

lemma redeem_authorization_kept [kept_links]:
  assumes "links_sound db" "redeem_authorization clk code db = (db', n)"
  shows "links_sound db'"
proof -
  have db': "db' = db\<lparr>lnk_authorizations := update_where (authorization_redeemable clk code)
      (\<lambda>a. a\<lparr>lau_redeemed := Some (clk_db clk)\<rparr>) (lnk_authorizations db)\<rparr>"
    using assms(2) by (auto simp: redeem_authorization_def)
  show ?thesis
    unfolding db' using assms(1)
    by (intro authorizations_updated assms(1))
      (auto simp: authorization_redeemable_def authorization_sound_def known_update_same
                  links_sound_def authorizations_sound_def)
qed

lemma insert_instance_kept [kept_links]:
  assumes "links_sound db" "instance_sound i" "insert_instance i db = Some db'"
  shows "links_sound db'"
proof -
  have db': "db' = db\<lparr>lnk_instances := lnk_instances db @ [i]\<rparr>"
    and fresh: "\<And>r. r \<in> set (lnk_instances db) \<Longrightarrow>
      ins_id r \<noteq> ins_id i \<and> (ins_refresh r = None \<or> ins_refresh r \<noteq> ins_refresh i)"
    using assms(3) by (auto simp: insert_instance_def list_ex_iff split: if_splits)
  have "instances_sound db'"
    unfolding db' using assms(1,2) fresh
    by (force simp: links_sound_def instances_sound_def set_known split: option.splits)
  moreover have "tokens_sound db'"
    unfolding db' using assms(1) by (auto simp: links_sound_def tokens_sound_def)
  ultimately show ?thesis using assms(1) by (simp add: db' links_sound_def)
qed

lemma insert_access_kept [kept_links]:
  assumes "links_sound db" "insert_access clk t db = Some db'"
  shows "links_sound db'"
proof -
  have db': "db' = db\<lparr>lnk_access := lnk_access db @ [t]\<rparr>"
    and there: "\<exists>i \<in> set (lnk_instances db). ins_id i = acc_instance t \<and> live i"
    and fresh: "acc_hash t \<notin> acc_hash ` set (lnk_access db)"
    using assms(2) by (auto simp: insert_access_def list_ex_iff split: if_splits)
  have "tokens_sound db'"
    using assms(1) there fresh by (simp add: db' links_sound_def tokens_sound_def)
  then show ?thesis using assms(1) by (simp add: db' links_sound_def)
qed

lemma delete_expired_access_kept [kept_links]:
  "links_sound db \<Longrightarrow> links_sound (delete_expired_access clk db)"
  using delete_expired_subset
  by (fastforce simp: delete_expired_access_def links_sound_def tokens_sound_def delete_expired_distinct)

lemma delete_expired_history_kept [kept_links]:
  "links_sound db \<Longrightarrow> links_sound (delete_expired_history clk db)"
  using delete_expired_subset
  by (fastforce simp: delete_expired_history_def links_sound_def tokens_sound_def
        delete_expired_distinct)

lemma revoke_where_kept [kept_links]:
  assumes "links_sound db" "revoke_where clk p db = (db', b)"
  shows "links_sound db'"
proof -
  let ?hit = "\<lambda>i. p i \<and> live i"
  let ?is = "update_where ?hit (cut_off clk) (lnk_instances db)"
  have shape: "lnk_devices db' = lnk_devices db" "lnk_authorizations db' = lnk_authorizations db"
      "lnk_instances db' = ?is" "lnk_history db' = lnk_history db"
    and access: "lnk_access db' = filter (\<lambda>t. acc_instance t \<notin>
        set (map ins_id (filter ?hit (lnk_instances db)))) (lnk_access db)"
    using assms(2) by (auto simp: revoke_where_def Let_def)
  have ids: "map ins_id ?is = map ins_id (lnk_instances db)"
    by (rule map_update_where) (simp add: cut_off_def)
  have "instances_sound db'"
    using assms(1) ids known_update_gone [of ins_refresh "lnk_instances db" ?hit "cut_off clk"]
    by (auto simp: links_sound_def instances_sound_def shape set_update_where instance_sound_def
                   cut_off_def live_def)
  moreover have "\<exists>i \<in> set ?is. ins_id i = acc_instance t \<and> live i" if t: "t \<in> set (lnk_access db')" for t
  proof -
    obtain i where i: "i \<in> set (lnk_instances db)" "ins_id i = acc_instance t" "live i"
      using assms(1) t by (auto simp: links_sound_def tokens_sound_def access)
    have "\<not> p i" using t i by (force simp: access)
    then show ?thesis using i by (auto simp: set_update_where)
  qed
  moreover have "ins_id ` set ?is = ins_id ` set (lnk_instances db)"
    by (rule keys_update_where) (simp add: cut_off_def)
  ultimately show ?thesis
    using assms(1)
    by (auto simp: links_sound_def devices_sound_def authorizations_sound_def tokens_sound_def shape
                   access distinct_map_filter)
qed

lemma rotate_refresh_kept [kept_links]:
  assumes "links_sound db" "rotate_refresh clk old until fresh prefix i db = Some db'"
  shows "links_sound db'"
proof -
  let ?hit = "\<lambda>r. ins_id r = i \<and> ins_refresh r = Some old \<and> live r"
  let ?f = "\<lambda>r. r\<lparr>ins_refresh := Some fresh, ins_prefix := prefix, ins_seen := Some (clk_db clk)\<rparr>"
  let ?db = "db\<lparr>lnk_instances := update_where ?hit ?f (lnk_instances db)\<rparr>"
  have db': "db' = ?db\<lparr>lnk_history := lnk_history ?db @
        [\<lparr>his_hash = old, his_instance = i, his_until = until\<rparr>]\<rparr>"
    and there: "\<exists>r \<in> set (lnk_instances db). ?hit r"
    and fresh: "\<And>r. r \<in> set (lnk_instances db) \<Longrightarrow> \<not> ?hit r \<Longrightarrow> ins_refresh r \<noteq> Some fresh"
    and unused: "\<And>h. h \<in> set (lnk_history db) \<Longrightarrow> his_hash h \<noteq> old"
    using assms(2) by (auto simp: rotate_refresh_def list_ex_iff Let_def split: if_splits)
  have "distinct (known ins_refresh (update_where ?hit ?f (lnk_instances db)))"
    using known_update_fresh [where f = ins_refresh and key = ins_id and k = i and v = fresh
        and p = ?hit and g = ?f and rs = "lnk_instances db"] assms(1) fresh
    by (auto simp: links_sound_def instances_sound_def)
  then have sound: "links_sound ?db"
    by (intro instances_updated assms(1)) (auto simp: instance_sound_def live_def)
  have "i \<in> ins_id ` set (lnk_instances ?db)"
    using there keys_update_where [of ins_id ?f ?hit "lnk_instances db"] by auto
  then show ?thesis
    using sound unused unfolding db'
    by (auto simp: links_sound_def tokens_sound_def)
qed

lemma touch_instance_kept [kept_links]:
  assumes "links_sound db" "touch_instance clk hash db = Some (db', i)"
  shows "links_sound db'"
proof -
  obtain k where db': "db' = db\<lparr>lnk_instances := update_where (\<lambda>i. ins_id i = k \<and> live i)
      (\<lambda>i. i\<lparr>ins_seen := Some (clk_db clk)\<rparr>) (lnk_instances db)\<rparr>"
    using assms(2) by (auto simp: touch_instance_def Let_def split: option.splits)
  show ?thesis
    unfolding db' using assms(1)
    by (intro instances_updated assms(1))
      (auto simp: instance_sound_def live_def known_update_same links_sound_def instances_sound_def)
qed

lemma update_declaration_row_kept [kept_links]:
  assumes "links_sound db" "update_declaration_row d k db = Some (db', i)"
  shows "links_sound db'"
proof -
  have db': "db' = db\<lparr>lnk_instances := update_where (\<lambda>i. ins_id i = k \<and> live i)
      (\<lambda>r. r\<lparr>ins_declaration := (ins_declaration r)\<lparr>dec_version := dec_version d,
             dec_protocol := dec_protocol d, dec_capabilities := dec_capabilities d,
             dec_targets := dec_targets d\<rparr>\<rparr>) (lnk_instances db)\<rparr>"
    using assms(2) by (auto simp: update_declaration_row_def Let_def split: option.splits)
  show ?thesis
    unfolding db' using assms(1)
    by (intro instances_updated assms(1))
      (auto simp: instance_sound_def live_def known_update_same links_sound_def instances_sound_def)
qed

lemma take_rate_limit_same:
  "take_rate_limit clk key action cutoff db = Some (db', r) \<Longrightarrow> \<exists>rs. db' = db\<lparr>lnk_rates := rs\<rparr>"
  by (auto simp: take_rate_limit_def Let_def split: option.splits if_splits)

lemma rates_kept [simp]: "links_sound (db\<lparr>lnk_rates := rs\<rparr>) = links_sound db"
  by (simp add: links_sound_def)

lemma delete_expired_rates_kept [simp]:
  "links_sound (delete_expired_rates cutoff db) = links_sound db"
  by (simp add: delete_expired_rates_def)

end
