(* ===== verification/LinkRuns.thy ===== *)
theory LinkRuns
  imports LinkService LinkTables
begin

text \<open>
  The linking service as a whole: what an operation commits is a sequence of changes of the
  tables, each of which keeps the invariant of \<^verbatim>\<open>LinkTables\<close>. Runs of operations interleave
  without an order, with any clocks.
\<close>

section \<open>Changes\<close>

definition unanswered :: "device_request \<Rightarrow> bool" where
  "unanswered d \<longleftrightarrow>
     dev_approved d = None \<and> dev_denied d = None \<and> dev_redeemed d = None \<and> dev_interval d = 5"

definition unanswered_authorization :: "link_authorization \<Rightarrow> bool" where
  "unanswered_authorization a \<longleftrightarrow>
     lau_code a = None \<and> lau_approved a = None \<and> lau_denied a = None \<and> lau_redeemed a = None"

text \<open>A grant is an instance with its first tokens, and the request redeemed, in one transaction.\<close>

definition issued :: "clocks \<Rightarrow> linked_instance \<Rightarrow> access_row \<Rightarrow> link_db \<Rightarrow> link_db \<Rightarrow> bool" where
  "issued clk i t db db' \<longleftrightarrow>
     ins_refresh i \<noteq> None \<and> live i \<and>
     (\<exists>db1 db2. insert_instance i db = Some db1 \<and> insert_access clk t db1 = Some db2 \<and>
        db' = delete_expired_access clk db2)"

inductive change :: "clocks \<Rightarrow> link_db \<Rightarrow> link_db \<Rightarrow> bool" where
  counted: "change clk db (db\<lparr>lnk_rates := rs\<rparr>)"
| cleaned_devices: "change clk db (delete_expired_devices clk db)"
| cleaned_authorizations: "change clk db (delete_expired_authorizations clk db)"
| cleaned_access: "change clk db (delete_expired_access clk db)"
| cleaned_history: "change clk db (delete_expired_history clk db)"
| asked_device:
    "\<lbrakk>unanswered d; insert_device_request clk d db = Stored db'\<rbrakk> \<Longrightarrow> change clk db db'"
| asked_authorization:
    "\<lbrakk>unanswered_authorization a; insert_authorization clk a db = Stored db'\<rbrakk> \<Longrightarrow>
     change clk db db'"
| approved_device: "approve_device clk u h c db = Some (db', d) \<Longrightarrow> change clk db db'"
| denied_device: "deny_device clk u h c db = (db', n) \<Longrightarrow> change clk db db'"
| approved_authorization: "approve_authorization_row clk u c h db = Inr (db', a) \<Longrightarrow> change clk db db'"
| denied_authorization: "deny_authorization_row clk u h db = Some (db', a) \<Longrightarrow> change clk db db'"
| polled: "record_poll clk slow h db = Some (db', n) \<Longrightarrow> change clk db db'"
| granted_device:
    "\<lbrakk>lock_device h db = Some d; dev_approved d = Some (ins_user i, at); issued clk i t db db1;
      redeem_device clk h db1 = (db', Suc 0)\<rbrakk> \<Longrightarrow> change clk db db'"
| granted_authorization:
    "\<lbrakk>lock_authorization h db = Some a; lau_approved a = Some (ins_user i, at);
      issued clk i t db db1; redeem_authorization clk h db1 = (db', Suc 0)\<rbrakk> \<Longrightarrow> change clk db db'"
| revoked: "revoke_where clk p db = (db', b) \<Longrightarrow> change clk db db'"
| rotated: "rotate_refresh clk old until fresh prefix i db = Some db' \<Longrightarrow> change clk db db'"
| accessed: "insert_access clk t db = Some db' \<Longrightarrow> change clk db db'"
| touched: "touch_instance clk h db = Some (db', i) \<Longrightarrow> change clk db db'"
| redeclared: "update_declaration_row v k db = Some (db', i) \<Longrightarrow> change clk db db'"

lemma issued_kept:
  assumes "links_sound db" "issued clk i t db db'"
  shows "links_sound db'"
proof -
  obtain db1 db2 where step: "insert_instance i db = Some db1" "insert_access clk t db1 = Some db2"
      and db': "db' = delete_expired_access clk db2" and i: "instance_sound i"
    using assms(2) by (auto simp: issued_def instance_sound_def)
  have "links_sound db1" by (rule insert_instance_kept [OF assms(1) i step(1)])
  then have "links_sound db2" using step(2) by (rule insert_access_kept)
  then show ?thesis unfolding db' by (rule delete_expired_access_kept)
qed

lemma change_kept:
  assumes "change clk db db'" "links_sound db"
  shows "links_sound db'"
  using assms
proof (induction rule: change.induct)
  case (asked_device d clk db db')
  then show ?case
    by (intro insert_device_kept [of db d clk db']) (auto simp: unanswered_def device_sound_def)
next
  case (asked_authorization a clk db db')
  then show ?case
    by (intro insert_authorization_kept [of db a clk db'])
      (auto simp: unanswered_authorization_def authorization_sound_def)
next
  case (granted_device h db d i at clk t db1 db')
  then show ?case by (blast intro: issued_kept redeem_device_kept)
next
  case (granted_authorization h db a i at clk t db1 db')
  then show ?case by (blast intro: issued_kept redeem_authorization_kept)
qed (simp | rule kept_links, assumption+)+

abbreviation changes :: "clocks \<Rightarrow> link_db \<Rightarrow> link_db \<Rightarrow> bool" where
  "changes clk \<equiv> (change clk)\<^sup>*\<^sup>*"

lemma changes_kept: "\<lbrakk>changes clk db db'; links_sound db\<rbrakk> \<Longrightarrow> links_sound db'"
  by (induction rule: rtranclp_induct) (auto intro: change_kept)

lemma changes_step: "\<lbrakk>change clk db db1; changes clk db1 db'\<rbrakk> \<Longrightarrow> changes clk db db'"
  by (rule converse_rtranclp_into_rtranclp)

lemma changes_one: "change clk db db' \<Longrightarrow> changes clk db db'"
  by (rule r_into_rtranclp)

section \<open>Operations are sequences of changes\<close>

named_theorems operation_changes

lemma take_rate_counts: "\<exists>rs. fst (take_rate env clk action source limit window db) = db\<lparr>lnk_rates := rs\<rparr>"
proof (cases "take_rate_limit clk (rate_key env action source) action (clk_app clk - window) db")
  case None
  then show ?thesis by (auto simp: take_rate_def intro: exI [of _ "lnk_rates db"])
next
  case (Some p)
  then show ?thesis
    using take_rate_limit_same by (cases p) (fastforce simp: take_rate_def)
qed

lemma take_rate_changes: "take_rate env clk action source limit window db = (db', r) \<Longrightarrow> change clk db db'"
  using take_rate_counts [of env clk action source limit window db] counted [of clk db] by auto

lemma after_rate:
  assumes "and_run (take_rate env clk action source limit window db) k = Some (db', r)"
    and "\<And>db1 r. k () db1 = Some (db', r) \<Longrightarrow> changes clk db1 db'"
  shows "changes clk db db'"
proof (cases "take_rate env clk action source limit window db")
  case (Pair db1 s)
  then have "change clk db db1" by (rule take_rate_changes)
  then show ?thesis
    using assms Pair by (cases s) (auto simp: and_run_def intro: changes_step changes_one)
qed

lemma allocate_device_changes:
  "allocate_device env clk inp n src db = Some (db', r) \<Longrightarrow> changes clk db db'"
proof (induction n arbitrary: src)
  case (Suc n)
  have "change clk db db1" if "insert_device_request clk (new_device_request env clk inp h c) db = Stored db1"
    for h c db1
    using that by (rule asked_device [rotated]) (simp add: unanswered_def new_device_request_def poll_interval_def)
  then show ?case
    using Suc by (auto simp: Let_def split: prod.splits option.splits outcome.splits intro: changes_one)
qed simp

lemma cleaned_rates: "change clk db (delete_expired_rates cutoff db)"
  unfolding delete_expired_rates_def by (rule counted)

lemma allocate_cleaned:
  "allocate_device env clk inp n src (delete_expired_rates cutoff (delete_expired_devices clk db)) =
     Some (db', r) \<Longrightarrow> changes clk db db'"
  by (rule changes_step [OF cleaned_devices], rule changes_step [OF cleaned_rates])
    (rule allocate_device_changes)

lemma start_device_changes [operation_changes]:
  assumes "start_device env clk src source input db = Some (db', r)"
  shows "changes clk db db'"
proof (cases "validate_start (lke_unicode env) input")
  case (Inr inp)
  show ?thesis
    using assms unfolding start_device_def Inr sum.case by (rule after_rate) (rule allocate_cleaned)
qed (use assms in \<open>simp add: start_device_def\<close>)

lemma allocate_authorization_changes:
  "allocate_authorization env clk inp n src db = (db', r) \<Longrightarrow> changes clk db db'"
proof (induction n arbitrary: src)
  case (Suc n)
  have "change clk db db1" if "insert_authorization clk (new_authorization clk inp h) db = Stored db1" for h db1
    using that by (rule asked_authorization [rotated])
      (simp add: unanswered_authorization_def new_authorization_def)
  then show ?case
    using Suc by (auto simp: Let_def split: prod.splits outcome.splits intro: changes_one)
qed simp

lemma allocate_authorization_cleaned:
  "allocate_authorization env clk inp n src
     (delete_expired_rates cutoff (delete_expired_authorizations clk db)) = (db', r) \<Longrightarrow>
   changes clk db db'"
  by (rule changes_step [OF cleaned_authorizations], rule changes_step [OF cleaned_rates])
    (rule allocate_authorization_changes)

lemma start_authorization_changes [operation_changes]:
  assumes "start_authorization env clk src source input db = Some (db', r)"
  shows "changes clk db db'"
proof (cases "validate_authorization env input")
  case (Inr inp)
  show ?thesis
    using assms unfolding start_authorization_def Inr sum.case
    by (rule after_rate) (rule allocate_authorization_cleaned, simp)
qed (use assms in \<open>simp add: start_authorization_def\<close>)

lemma pending_changes [operation_changes]:
  "pending env clk user raw db = (db', r) \<Longrightarrow> changes clk db db'"
  by (auto simp: pending_def split: prod.splits sum.splits option.splits
      intro!: changes_one dest!: take_rate_changes)

lemma approve_changes [operation_changes]:
  "approve env clk user raw token db = (db', r) \<Longrightarrow> changes clk db db'"
  by (auto simp: approve_def split: option.splits intro: approved_device [THEN changes_one])

lemma deny_changes [operation_changes]:
  "deny env clk user raw token db = (db', r) \<Longrightarrow> changes clk db db'"
  by (auto simp: deny_def split: option.splits prod.splits intro: denied_device [THEN changes_one])

lemma approve_authorization_changes [operation_changes]:
  "approve_authorization env clk src user request db = (db', r) \<Longrightarrow> changes clk db db'"
  by (auto simp: approve_authorization_def Let_def split: option.splits prod.splits sum.splits
      intro: approved_authorization [THEN changes_one])

lemma deny_authorization_changes [operation_changes]:
  "deny_authorization env clk user request db = (db', r) \<Longrightarrow> changes clk db db'"
  by (auto simp: deny_authorization_def split: option.splits intro: denied_authorization [THEN changes_one])

lemma issue_grant_issued:
  assumes "issue_grant env clk src fresh user d scopes db = Some (db', Inr g)"
  shows "\<exists>i t. issued clk i t db db' \<and> ins_id i = fresh \<and> ins_user i = user \<and>
           ins_declaration i = d \<and> ins_scopes i = scopes \<and> grt_instance g = answer_of i"
proof -
  obtain access src1 renew src2 db1 db2 where parts:
      "new_credential env access_token_kind src = Some (access, src1)"
      "new_credential env refresh_token_kind src1 = Some (renew, src2)"
    and step: "insert_instance (granted_instance clk fresh user d scopes renew) db = Some db1"
      "insert_access clk \<lparr>acc_hash = crd_hash access, acc_instance = fresh,
         acc_expires = clk_app clk + access_token_lifetime\<rparr> db1 = Some db2"
      "db' = delete_expired_access clk db2"
      "grt_instance g = answer_of (granted_instance clk fresh user d scopes renew)"
    using assms
    by (auto simp: issue_grant_def granted_instance_def Let_def split: option.splits prod.splits)
  have "issued clk (granted_instance clk fresh user d scopes renew) \<lparr>acc_hash = crd_hash access,
      acc_instance = fresh, acc_expires = clk_app clk + access_token_lifetime\<rparr> db db'"
    using step by (auto simp: issued_def granted_instance_def live_def)
  then show ?thesis using step(4) by (auto simp: granted_instance_def)
qed

lemma record_poll_locked:
  assumes "record_poll clk slow hash db = Some (db', n)" "lock_device hash db = Some d"
  shows "\<exists>d'. lock_device hash db' = Some d' \<and> dev_approved d' = dev_approved d"
proof -
  let ?p = "\<lambda>d. dev_code d = hash \<and> clk_db clk < dev_expires d \<and> dev_redeemed d = None"
  let ?f = "\<lambda>d. d\<lparr>dev_polled := Some (clk_db clk), dev_interval := slowed slow (dev_interval d)\<rparr>"
  have "db' = db\<lparr>lnk_devices := update_where ?p ?f (lnk_devices db)\<rparr>"
    using assms(1) by (auto simp: record_poll_def Let_def split: option.splits)
  then have "lock_device hash db' = map_option (\<lambda>d. if ?p d then ?f d else d) (lock_device hash db)"
    using the_row_update [of dev_code ?f hash ?p "lnk_devices db"]
    by (simp add: lock_device_def the_row_def)
  then show ?thesis using assms(2) by simp
qed

lemma poll_request_changes:
  assumes "poll_request env clk src fresh hash db = Some (db', r)"
  shows "changes clk db db'"
proof -
  have moved: "changes clk db db3"
    if hyps: "record_poll clk slow hash db = Some (db1, n)" "lock_device hash db = Some d"
      "dev_approved d = Some (user, at)"
      "issue_grant env clk src fresh user decl scopes db1 = Some (db2, Inr g)"
      "redeem_device clk hash db2 = (db3, Suc 0)" for slow db1 n d user at decl scopes db2 g db3
  proof -
    obtain i t where i: "issued clk i t db1 db2" "ins_user i = user"
      using issue_grant_issued [OF hyps(4)] by blast
    have "\<exists>d'. lock_device hash db1 = Some d' \<and> dev_approved d' = Some (ins_user i, at)"
      using record_poll_locked [OF hyps(1,2)] hyps(3) i(2) by auto
    then have "change clk db1 db3" using granted_device i(1) hyps(5) by blast
    then show ?thesis using polled [OF hyps(1)] by (auto intro: changes_step changes_one)
  qed
  show ?thesis
    using assms unfolding poll_request_def
    by (auto split: option.splits if_splits prod.splits sum.splits
        intro: changes_one polled moved)
qed

lemma poll_changes [operation_changes]:
  "poll env clk src fresh source code db = Some (db', r) \<Longrightarrow> changes clk db db'"
  unfolding poll_def
  by (erule after_rate) (auto split: option.splits intro: poll_request_changes)

lemma exchange_request_changes:
  assumes "exchange_request env clk src fresh hash verifier redirect db = Some (db', r)"
  shows "changes clk db db'"
proof -
  have moved: "change clk db db2"
    if "lock_authorization hash db = Some a" "lau_approved a = Some (user, at)"
      "issue_grant env clk src fresh user decl scopes db = Some (db1, Inr g)"
      "redeem_authorization clk hash db1 = (db2, Suc 0)" for a user at decl scopes db1 g db2
    using issue_grant_issued [OF that(3)] granted_authorization that by blast
  show ?thesis
    using assms unfolding exchange_request_def
    by (auto split: option.splits if_splits prod.splits sum.splits intro: changes_one moved)
qed

lemma exchange_changes [operation_changes]:
  "exchange env clk src fresh source code verifier redirect db = Some (db', r) \<Longrightarrow> changes clk db db'"
  unfolding exchange_def
  by (erule after_rate) (auto split: option.splits if_splits intro: exchange_request_changes)

lemma handle_refresh_reuse_changes:
  "handle_refresh_reuse clk hash db = (db', r) \<Longrightarrow> changes clk db db'"
  by (auto simp: handle_refresh_reuse_def revoke_by_id_def split: option.splits
      intro: changes_one revoked prod.collapse [symmetric])

lemma rotate_refresh_grant_changes:
  assumes "rotate_refresh_grant env clk src i old db = Some (db', r)"
  shows "changes clk db db'"
proof -
  have "changes clk db (delete_expired_history clk (delete_expired_access clk db2))"
    if "rotate_refresh clk old until fresh prefix (ins_id i) db = Some db1"
      "insert_access clk t db1 = Some db2" for until fresh prefix db1 t db2
    by (rule changes_step [OF rotated [OF that(1)]], rule changes_step [OF accessed [OF that(2)]],
        rule changes_step [OF cleaned_access], rule changes_one [OF cleaned_history])
  then show ?thesis
    using assms
    by (auto simp: rotate_refresh_grant_def split: option.splits prod.splits)
qed

lemma refresh_changes [operation_changes]:
  assumes "refresh env clk src source token db = Some (db', r)"
  shows "changes clk db db'"
  using assms unfolding refresh_def
proof (rule after_rate)
  fix db1 r
  assume "(case credential_hash env token refresh_token_kind of
       None \<Rightarrow> Some (db1, Inl InstanceCredential)
     | Some old \<Rightarrow>
         (case lock_instance old db1 of
            None \<Rightarrow> Some (handle_refresh_reuse clk old db1)
          | Some i \<Rightarrow>
              if refresh_expired clk i
              then Some (fst (revoke_by_id clk (ins_id i) db1), Inl InstanceCredential)
              else rotate_refresh_grant env clk src i old db1)) = Some (db', r)"
  then show "changes clk db1 db'"
    by (auto simp: revoke_by_id_def split: option.splits if_splits
        intro: handle_refresh_reuse_changes rotate_refresh_grant_changes changes_one
               revoked prod.collapse [symmetric])
qed

lemma authenticate_changes [operation_changes]:
  "authenticate env clk token needs db = (db', r) \<Longrightarrow> changes clk db db'"
  by (auto simp: authenticate_def split: option.splits if_splits intro: touched [THEN changes_one])

lemma revoke_changes [operation_changes]:
  "revoke clk user i db = (db', r) \<Longrightarrow> changes clk db db'"
  by (auto simp: revoke_def revoke_instance_def split: prod.splits intro: revoked [THEN changes_one])

lemma update_declaration_changes [operation_changes]:
  "update_declaration env i d db = (db', r) \<Longrightarrow> changes clk db db'"
  by (auto simp: update_declaration_def split: sum.splits option.splits
      intro: redeclared [THEN changes_one])

lemma throttle_changes [operation_changes]:
  "throttle env clk action source limit window db = (db', r) \<Longrightarrow> changes clk db db'"
  unfolding throttle_def by (rule changes_one) (rule take_rate_changes)

section \<open>Runs\<close>

text \<open>One call of the service, with what it commits.\<close>

inductive link_step :: "link_env \<Rightarrow> clocks \<Rightarrow> link_db \<Rightarrow> link_db \<Rightarrow> bool" where
  "start_device env clk src source input db = Some (db', r) \<Longrightarrow> link_step env clk db db'"
| "start_authorization env clk src source auth db = Some (db', r) \<Longrightarrow> link_step env clk db db'"
| "pending env clk user raw db = (db', r) \<Longrightarrow> link_step env clk db db'"
| "approve env clk user raw token db = (db', r) \<Longrightarrow> link_step env clk db db'"
| "deny env clk user raw token db = (db', r) \<Longrightarrow> link_step env clk db db'"
| "approve_authorization env clk src user request db = (db', r) \<Longrightarrow> link_step env clk db db'"
| "deny_authorization env clk user request db = (db', r) \<Longrightarrow> link_step env clk db db'"
| "poll env clk src fresh source code db = Some (db', r) \<Longrightarrow> link_step env clk db db'"
| "exchange env clk src fresh source code verifier redirect db = Some (db', r) \<Longrightarrow> link_step env clk db db'"
| "refresh env clk src source token db = Some (db', r) \<Longrightarrow> link_step env clk db db'"
| "authenticate env clk token needs db = (db', r) \<Longrightarrow> link_step env clk db db'"
| "revoke clk user i db = (db', r) \<Longrightarrow> link_step env clk db db'"
| "update_declaration env i d db = (db', r) \<Longrightarrow> link_step env clk db db'"
| "throttle env clk action source limit window db = (db', r) \<Longrightarrow> link_step env clk db db'"

definition some_step :: "link_env \<Rightarrow> link_db \<Rightarrow> link_db \<Rightarrow> bool" where
  "some_step env db db' \<longleftrightarrow> (\<exists>clk. link_step env clk db db')"

abbreviation link_run :: "link_env \<Rightarrow> link_db \<Rightarrow> link_db \<Rightarrow> bool" where
  "link_run env \<equiv> (some_step env)\<^sup>*\<^sup>*"

lemma link_step_changes: "link_step env clk db db' \<Longrightarrow> changes clk db db'"
  by (cases rule: link_step.cases) (blast intro: operation_changes)+

lemma link_step_kept: "\<lbrakk>link_step env clk db db'; links_sound db\<rbrakk> \<Longrightarrow> links_sound db'"
  by (drule link_step_changes) (rule changes_kept)

lemma link_run_kept: "\<lbrakk>link_run env db db'; links_sound db\<rbrakk> \<Longrightarrow> links_sound db'"
  by (induction rule: rtranclp_induct) (auto simp: some_step_def intro: link_step_kept)

end
