(* ===== verification/LinkSpec.thy ===== *)
theory LinkSpec
  imports LinkRuns
begin

text \<open>
  What the linking service promises, and that the service refines it. A request waits, is
  decided once by one account, and when approved is redeemed once; redeeming it is the one way an
  instance comes to be, and it belongs to the account that approved. An instance once cut off
  stays so. Tables are related to this by a function that forgets everything else.
\<close>

section \<open>The promise\<close>

datatype request_status =
    Absent
  | Waiting
  | Approved uuid
  | Denied uuid
  | Redeemed uuid

datatype instance_status = Unknown | LiveFor uuid | CutOff uuid

record link_spec =
  spc_devices :: "string \<Rightarrow> request_status"
  spc_authorizations :: "string \<Rightarrow> request_status"
  spc_instances :: "uuid \<Rightarrow> instance_status"

inductive spec_step :: "link_spec \<Rightarrow> link_spec \<Rightarrow> bool" where
  forget_devices:
    "\<forall>k. ds k \<in> {spc_devices s k, Absent} \<Longrightarrow> spec_step s (s\<lparr>spc_devices := ds\<rparr>)"
| forget_authorizations:
    "\<forall>k. as k \<in> {spc_authorizations s k, Absent} \<Longrightarrow> spec_step s (s\<lparr>spc_authorizations := as\<rparr>)"
| ask_device:
    "spc_devices s k = Absent \<Longrightarrow> spec_step s (s\<lparr>spc_devices := (spc_devices s)(k := Waiting)\<rparr>)"
| ask_authorization:
    "spc_authorizations s k = Absent \<Longrightarrow>
     spec_step s (s\<lparr>spc_authorizations := (spc_authorizations s)(k := Waiting)\<rparr>)"
| decide_device:
    "\<lbrakk>spc_devices s k = Waiting; v \<in> {Approved u, Denied u}\<rbrakk> \<Longrightarrow>
     spec_step s (s\<lparr>spc_devices := (spc_devices s)(k := v)\<rparr>)"
| decide_authorization:
    "\<lbrakk>spc_authorizations s k = Waiting; v \<in> {Approved u, Denied u}\<rbrakk> \<Longrightarrow>
     spec_step s (s\<lparr>spc_authorizations := (spc_authorizations s)(k := v)\<rparr>)"
| grant_device:
    "\<lbrakk>spc_devices s k = Approved u; spc_instances s i = Unknown\<rbrakk> \<Longrightarrow>
     spec_step s (s\<lparr>spc_devices := (spc_devices s)(k := Redeemed u),
                    spc_instances := (spc_instances s)(i := LiveFor u)\<rparr>)"
| grant_authorization:
    "\<lbrakk>spc_authorizations s k = Approved u; spc_instances s i = Unknown\<rbrakk> \<Longrightarrow>
     spec_step s (s\<lparr>spc_authorizations := (spc_authorizations s)(k := Redeemed u),
                    spc_instances := (spc_instances s)(i := LiveFor u)\<rparr>)"
| cut:
    "\<forall>i. is i = spc_instances s i \<or> (\<exists>u. spc_instances s i = LiveFor u \<and> is i = CutOff u) \<Longrightarrow>
     spec_step s (s\<lparr>spc_instances := is\<rparr>)"

abbreviation spec_run :: "link_spec \<Rightarrow> link_spec \<Rightarrow> bool" where
  "spec_run \<equiv> spec_step\<^sup>*\<^sup>*"

section \<open>What the tables say of it\<close>

fun status_by ::
  "(uuid \<times> int) option \<Rightarrow> (uuid \<times> int) option \<Rightarrow> int option \<Rightarrow> request_status" where
  "status_by (Some (u, at)) denied (Some t) = Redeemed u"
| "status_by (Some (u, at)) denied None = Approved u"
| "status_by None (Some (u, at)) redeemed = Denied u"
| "status_by None None redeemed = Waiting"

definition device_state :: "device_request \<Rightarrow> request_status" where
  "device_state d = status_by (dev_approved d) (dev_denied d) (dev_redeemed d)"

definition authorization_state :: "link_authorization \<Rightarrow> request_status" where
  "authorization_state a = status_by (lau_approved a) (lau_denied a) (lau_redeemed a)"

definition instance_state :: "linked_instance \<Rightarrow> instance_status" where
  "instance_state i = (if live i then LiveFor (ins_user i) else CutOff (ins_user i))"

definition state_of :: "('r \<Rightarrow> 's) \<Rightarrow> 's \<Rightarrow> 'r option \<Rightarrow> 's" where
  "state_of f none row = (case row of None \<Rightarrow> none | Some r \<Rightarrow> f r)"

lemma state_of_simps [simp]: "state_of f none None = none" "state_of f none (Some r) = f r"
  by (simp_all add: state_of_def)

definition device_status :: "link_db \<Rightarrow> string \<Rightarrow> request_status" where
  "device_status db k = state_of device_state Absent (the_row dev_code k (lnk_devices db))"

definition authorization_status :: "link_db \<Rightarrow> string \<Rightarrow> request_status" where
  "authorization_status db k =
     state_of authorization_state Absent (the_row lau_request k (lnk_authorizations db))"

definition instance_status :: "link_db \<Rightarrow> uuid \<Rightarrow> instance_status" where
  "instance_status db i = state_of instance_state Unknown (the_row ins_id i (lnk_instances db))"

definition spec_of :: "link_db \<Rightarrow> link_spec" where
  "spec_of db =
     \<lparr>spc_devices = device_status db, spc_authorizations = authorization_status db,
      spc_instances = instance_status db\<rparr>"

section \<open>Statements, seen through it\<close>

lemma state_of_update:
  assumes "\<And>r. key (f r) = key r"
  shows "state_of s none (the_row key k (update_where p f rs)) =
           state_of (\<lambda>r. if p r then s (f r) else s r) none (the_row key k rs)"
  by (simp add: the_row_update [of key, OF assms] state_of_def split: option.splits)

text \<open>An update that leaves what is seen of a row.\<close>

lemma state_of_same:
  assumes "\<And>r. key (f r) = key r" "\<And>r. s (f r) = s r"
  shows "state_of s none (the_row key k (update_where p f rs)) = state_of s none (the_row key k rs)"
  using assms(2)
  by (cases "the_row key k rs") (simp_all add: state_of_update [of key f, OF assms(1)])

text \<open>An update of the one row under a key, \<open>d\<close>.\<close>

lemma state_of_one:
  assumes "distinct (map key rs)" "\<And>r. key (f r) = key r" "d \<in> set rs" "p d"
    and "\<And>r. r \<in> set rs \<Longrightarrow> p r \<Longrightarrow> r = d"
  shows "(\<lambda>k. state_of s none (the_row key k (update_where p f rs))) =
           (\<lambda>k. state_of s none (the_row key k rs))(key d := s (f d))"
proof (rule ext)
  fix k
  have found: "the_row key (key d) rs = Some d"
    using assms(1,3) by (simp add: the_row_iff)
  show "state_of s none (the_row key k (update_where p f rs)) =
      ((\<lambda>k. state_of s none (the_row key k rs))(key d := s (f d))) k"
  proof (cases "k = key d")
    case True
    then show ?thesis using found assms(4) by (simp add: state_of_update [of key f, OF assms(2)])
  next
    case False
    have "\<not> p r" if "the_row key k rs = Some r" for r
      using the_row_Some [OF that] assms(5) False by auto
    then show ?thesis
      using False
      by (cases "the_row key k rs") (simp_all add: state_of_update [of key f, OF assms(2)])
  qed
qed

lemma state_of_deleted:
  assumes "distinct (map key rs)"
  shows "state_of s none (the_row key k (delete_expired expires batch now rs))
           \<in> {state_of s none (the_row key k rs), none}"
  using the_row_delete_expired [OF assms, of k expires batch now] by auto

lemma state_of_inserted:
  assumes "key r \<notin> key ` set rs"
  shows "(\<lambda>k. state_of s none (the_row key k (rs @ [r]))) =
           (\<lambda>k. state_of s none (the_row key k rs))(key r := s r)"
proof (rule ext)
  fix k
  have "the_row key (key r) rs = None"
    using assms by (simp add: the_row_None)
  then show "state_of s none (the_row key k (rs @ [r])) =
      ((\<lambda>k. state_of s none (the_row key k rs))(key r := s r)) k"
    by (simp add: state_of_def split: option.splits)
qed

lemma status_frame [simp]:
  "device_status (db\<lparr>lnk_authorizations := as\<rparr>) = device_status db"
  "device_status (db\<lparr>lnk_instances := is\<rparr>) = device_status db"
  "device_status (db\<lparr>lnk_access := ts\<rparr>) = device_status db"
  "device_status (db\<lparr>lnk_history := hs\<rparr>) = device_status db"
  "device_status (db\<lparr>lnk_rates := rs\<rparr>) = device_status db"
  "authorization_status (db\<lparr>lnk_devices := ds\<rparr>) = authorization_status db"
  "authorization_status (db\<lparr>lnk_instances := is\<rparr>) = authorization_status db"
  "authorization_status (db\<lparr>lnk_access := ts\<rparr>) = authorization_status db"
  "authorization_status (db\<lparr>lnk_history := hs\<rparr>) = authorization_status db"
  "authorization_status (db\<lparr>lnk_rates := rs\<rparr>) = authorization_status db"
  "instance_status (db\<lparr>lnk_devices := ds\<rparr>) = instance_status db"
  "instance_status (db\<lparr>lnk_authorizations := as\<rparr>) = instance_status db"
  "instance_status (db\<lparr>lnk_access := ts\<rparr>) = instance_status db"
  "instance_status (db\<lparr>lnk_history := hs\<rparr>) = instance_status db"
  "instance_status (db\<lparr>lnk_rates := rs\<rparr>) = instance_status db"
  by (rule ext, simp add: device_status_def authorization_status_def instance_status_def)+

lemma spec_of_same:
  assumes "device_status db' = device_status db"
    and "authorization_status db' = authorization_status db"
    and "instance_status db' = instance_status db"
  shows "spec_run (spec_of db) (spec_of db')"
  using assms by (simp add: spec_of_def)

lemma spec_of_devices:
  assumes "spec_step (spec_of db) ((spec_of db)\<lparr>spc_devices := device_status db'\<rparr>)"
    and "authorization_status db' = authorization_status db"
    and "instance_status db' = instance_status db"
  shows "spec_run (spec_of db) (spec_of db')"
  using assms by (auto simp: spec_of_def)

lemma spec_of_authorizations:
  assumes "spec_step (spec_of db) ((spec_of db)\<lparr>spc_authorizations := authorization_status db'\<rparr>)"
    and "device_status db' = device_status db"
    and "instance_status db' = instance_status db"
  shows "spec_run (spec_of db) (spec_of db')"
  using assms by (auto simp: spec_of_def)

lemma spec_of_fields [simp]:
  "spc_devices (spec_of db) = device_status db"
  "spc_authorizations (spec_of db) = authorization_status db"
  "spc_instances (spec_of db) = instance_status db"
  by (simp_all add: spec_of_def)

section \<open>Each change keeps the promise\<close>

lemma sound_keys:
  assumes "links_sound db"
  shows "distinct (map dev_code (lnk_devices db))" "distinct (map dev_user_code (lnk_devices db))"
    "distinct (map lau_request (lnk_authorizations db))" "distinct (map ins_id (lnk_instances db))"
    "distinct (known lau_code (lnk_authorizations db))"
  using assms
  by (simp_all add: links_sound_def devices_sound_def authorizations_sound_def instances_sound_def)

lemma open_device_row:
  assumes "links_sound db" "find (device_open clk u c) (lnk_devices db) = Some d"
  shows "d \<in> set (lnk_devices db)" "device_open clk u c d"
    "\<And>r. r \<in> set (lnk_devices db) \<Longrightarrow> device_open clk u c r \<Longrightarrow> r = d"
    "device_status db (dev_code d) = Waiting"
proof -
  show d: "d \<in> set (lnk_devices db)" "device_open clk u c d"
    using find_one [OF assms(2)] by auto
  show "r = d" if "r \<in> set (lnk_devices db)" "device_open clk u c r" for r
    using one_row [OF sound_keys(2) [OF assms(1)] that(1) d(1)] that(2) d(2)
    by (simp add: device_open_def)
  have "the_row dev_code (dev_code d) (lnk_devices db) = Some d"
    using d(1) sound_keys(1) [OF assms(1)] by (simp add: the_row_iff)
  then show "device_status db (dev_code d) = Waiting"
    using d(2) by (simp add: device_status_def device_state_def device_open_def)
qed

lemma open_authorization_row:
  assumes "links_sound db" "find (authorization_open clk u h) (lnk_authorizations db) = Some a"
  shows "a \<in> set (lnk_authorizations db)" "authorization_open clk u h a"
    "\<And>r. r \<in> set (lnk_authorizations db) \<Longrightarrow> authorization_open clk u h r \<Longrightarrow> r = a"
    "authorization_status db (lau_request a) = Waiting"
proof -
  show a: "a \<in> set (lnk_authorizations db)" "authorization_open clk u h a"
    using find_one [OF assms(2)] by auto
  show "r = a" if "r \<in> set (lnk_authorizations db)" "authorization_open clk u h r" for r
    using one_row [OF sound_keys(3) [OF assms(1)] that(1) a(1)] that(2) a(2)
    by (simp add: authorization_open_def)
  have "the_row lau_request (lau_request a) (lnk_authorizations db) = Some a"
    using a(1) sound_keys(3) [OF assms(1)] by (simp add: the_row_iff)
  then show "authorization_status db (lau_request a) = Waiting"
    using a(2) by (simp add: authorization_status_def authorization_state_def authorization_open_def)
qed

text \<open>The status of the devices after the one open request is decided.\<close>

lemma device_decided:
  assumes "links_sound db" "find (device_open clk u c) (lnk_devices db) = Some d"
    and "\<And>d. dev_code (f d) = dev_code d" "device_state (f d) \<in> {Approved v, Denied v}"
  shows "spec_run (spec_of db)
           (spec_of (db\<lparr>lnk_devices := update_where (device_open clk u c) f (lnk_devices db)\<rparr>))"
proof (rule spec_of_devices)
  let ?db = "db\<lparr>lnk_devices := update_where (device_open clk u c) f (lnk_devices db)\<rparr>"
  note row = open_device_row [OF assms(1,2)]
  have "device_status ?db = (device_status db)(dev_code d := device_state (f d))"
    using state_of_one [OF sound_keys(1) [OF assms(1)], where f = f and p = "device_open clk u c",
        OF assms(3) row(1,2) row(3), where s = device_state and none = Absent]
    by (simp add: device_status_def [abs_def])
  then show "spec_step (spec_of db) ((spec_of db)\<lparr>spc_devices := device_status ?db\<rparr>)"
    using decide_device [of "spec_of db" "dev_code d" "device_state (f d)" v] row(4) assms(4) by simp
qed simp_all

lemma authorization_decided:
  assumes "links_sound db" "find (authorization_open clk u h) (lnk_authorizations db) = Some a"
    and "\<And>a. lau_request (f a) = lau_request a" "authorization_state (f a) \<in> {Approved v, Denied v}"
  shows "spec_run (spec_of db) (spec_of
           (db\<lparr>lnk_authorizations := update_where (authorization_open clk u h) f (lnk_authorizations db)\<rparr>))"
proof (rule spec_of_authorizations)
  let ?db = "db\<lparr>lnk_authorizations :=
    update_where (authorization_open clk u h) f (lnk_authorizations db)\<rparr>"
  note row = open_authorization_row [OF assms(1,2)]
  have "authorization_status ?db = (authorization_status db)(lau_request a := authorization_state (f a))"
    using state_of_one [OF sound_keys(3) [OF assms(1)], where f = f and
        p = "authorization_open clk u h", OF assms(3) row(1,2) row(3),
        where s = authorization_state and none = Absent]
    by (simp add: authorization_status_def [abs_def])
  then show "spec_step (spec_of db) ((spec_of db)\<lparr>spc_authorizations := authorization_status ?db\<rparr>)"
    using decide_authorization [of "spec_of db" "lau_request a" "authorization_state (f a)" v]
      row(4) assms(4) by simp
qed simp_all

lemma approve_device_promise:
  assumes "links_sound db" "approve_device clk u h c db = Some (db', d)"
  shows "spec_run (spec_of db) (spec_of db')"
proof -
  obtain d0 where d0: "find (device_open clk u c) (lnk_devices db) = Some d0"
    and db': "db' = db\<lparr>lnk_devices := update_where (device_open clk u c)
      (\<lambda>d. d\<lparr>dev_token := Some h, dev_reviewed := Some u,
              dev_approved := Some (u, clk_db clk)\<rparr>) (lnk_devices db)\<rparr>"
    using assms(2) by (auto simp: approve_device_def split: option.splits)
  show ?thesis
    unfolding db' using open_device_row(2) [OF assms(1) d0]
    by (intro device_decided [OF assms(1) d0, where v = u])
      (auto simp: device_state_def device_open_def)
qed

lemma deny_device_promise:
  assumes "links_sound db" "deny_device clk u h c db = (db', n)"
  shows "spec_run (spec_of db) (spec_of db')"
proof (cases "find (device_open clk u c) (lnk_devices db)")
  case None
  then have "db' = db"
    using assms(2) by (auto simp: deny_device_def find_None_iff update_where_none)
  then show ?thesis by simp
next
  case (Some d)
  have db': "db' = db\<lparr>lnk_devices := update_where (device_open clk u c)
      (\<lambda>d. d\<lparr>dev_token := Some h, dev_reviewed := Some u, dev_denied := Some (u, clk_db clk)\<rparr>)
      (lnk_devices db)\<rparr>"
    using assms(2) by (auto simp: deny_device_def)
  show ?thesis
    unfolding db' using open_device_row(2) [OF assms(1) Some]
    by (intro device_decided [OF assms(1) Some, where v = u])
      (auto simp: device_state_def device_open_def)
qed

lemma approve_authorization_promise:
  assumes "links_sound db" "approve_authorization_row clk u c h db = Inr (db', a)"
  shows "spec_run (spec_of db) (spec_of db')"
proof -
  obtain a0 where a0: "find (authorization_open clk u h) (lnk_authorizations db) = Some a0"
    and db': "db' = db\<lparr>lnk_authorizations := update_where (authorization_open clk u h)
      (\<lambda>a. a\<lparr>lau_reviewed := Some u, lau_code := Some c,
              lau_approved := Some (u, clk_db clk)\<rparr>) (lnk_authorizations db)\<rparr>"
    using assms(2) by (auto simp: approve_authorization_row_def split: option.splits if_splits)
  show ?thesis
    unfolding db' using open_authorization_row(2) [OF assms(1) a0]
    by (intro authorization_decided [OF assms(1) a0, where v = u])
      (auto simp: authorization_state_def authorization_open_def)
qed

lemma deny_authorization_promise:
  assumes "links_sound db" "deny_authorization_row clk u h db = Some (db', a)"
  shows "spec_run (spec_of db) (spec_of db')"
proof -
  obtain a0 where a0: "find (authorization_open clk u h) (lnk_authorizations db) = Some a0"
    and db': "db' = db\<lparr>lnk_authorizations := update_where (authorization_open clk u h)
      (\<lambda>a. a\<lparr>lau_reviewed := Some u, lau_denied := Some (u, clk_db clk)\<rparr>) (lnk_authorizations db)\<rparr>"
    using assms(2) by (auto simp: deny_authorization_row_def split: option.splits)
  show ?thesis
    unfolding db' using open_authorization_row(2) [OF assms(1) a0]
    by (intro authorization_decided [OF assms(1) a0, where v = u])
      (auto simp: authorization_state_def authorization_open_def)
qed

lemma asked_device_promise:
  assumes "unanswered d" "insert_device_request clk d db = Stored db'"
  shows "spec_run (spec_of db) (spec_of db')"
proof (rule spec_of_devices)
  have db': "db' = db\<lparr>lnk_devices := lnk_devices db @ [d]\<rparr>"
    and new: "dev_code d \<notin> dev_code ` set (lnk_devices db)"
    using assms(2) by (auto simp: insert_device_request_def list_ex_iff split: if_splits)
  have waiting: "device_state d = Waiting"
    using assms(1) by (simp add: unanswered_def device_state_def)
  have "device_status db' = (device_status db)(dev_code d := Waiting)"
    using state_of_inserted [OF new, of device_state Absent] waiting
    by (simp add: db' device_status_def [abs_def])
  moreover have "device_status db (dev_code d) = Absent"
    using new by (simp add: device_status_def the_row_None [THEN iffD2])
  ultimately show "spec_step (spec_of db) ((spec_of db)\<lparr>spc_devices := device_status db'\<rparr>)"
    using ask_device [of "spec_of db" "dev_code d"] by simp
  show "authorization_status db' = authorization_status db" "instance_status db' = instance_status db"
    by (simp_all add: db')
qed

lemma asked_authorization_promise:
  assumes "unanswered_authorization a" "insert_authorization clk a db = Stored db'"
  shows "spec_run (spec_of db) (spec_of db')"
proof (rule spec_of_authorizations)
  have db': "db' = db\<lparr>lnk_authorizations := lnk_authorizations db @ [a]\<rparr>"
    and new: "lau_request a \<notin> lau_request ` set (lnk_authorizations db)"
    using assms(2) by (auto simp: insert_authorization_def list_ex_iff split: if_splits)
  have waiting: "authorization_state a = Waiting"
    using assms(1) by (simp add: unanswered_authorization_def authorization_state_def)
  have "authorization_status db' = (authorization_status db)(lau_request a := Waiting)"
    using state_of_inserted [OF new, of authorization_state Absent] waiting
    by (simp add: db' authorization_status_def [abs_def])
  moreover have "authorization_status db (lau_request a) = Absent"
    using new by (simp add: authorization_status_def the_row_None [THEN iffD2])
  ultimately show "spec_step (spec_of db) ((spec_of db)\<lparr>spc_authorizations := authorization_status db'\<rparr>)"
    using ask_authorization [of "spec_of db" "lau_request a"] by simp
  show "device_status db' = device_status db" "instance_status db' = instance_status db"
    by (simp_all add: db')
qed

lemma cleaned_devices_promise:
  assumes "links_sound db"
  shows "spec_run (spec_of db) (spec_of (delete_expired_devices clk db))"
  unfolding delete_expired_devices_def
proof (rule spec_of_devices)
  let ?db = "db\<lparr>lnk_devices := delete_expired dev_expires cleanup_batch (clk_db clk) (lnk_devices db)\<rparr>"
  have "device_status ?db k \<in> {device_status db k, Absent}" for k
    using state_of_deleted [OF sound_keys(1) [OF assms], of device_state Absent k dev_expires
        cleanup_batch "clk_db clk"] by (simp add: device_status_def)
  then show "spec_step (spec_of db) ((spec_of db)\<lparr>spc_devices := device_status ?db\<rparr>)"
    using forget_devices [of "device_status ?db" "spec_of db"] by simp
qed simp_all

lemma cleaned_authorizations_promise:
  assumes "links_sound db"
  shows "spec_run (spec_of db) (spec_of (delete_expired_authorizations clk db))"
  unfolding delete_expired_authorizations_def
proof (rule spec_of_authorizations)
  let ?db = "db\<lparr>lnk_authorizations :=
    delete_expired lau_expires cleanup_batch (clk_db clk) (lnk_authorizations db)\<rparr>"
  have "authorization_status ?db k \<in> {authorization_status db k, Absent}" for k
    using state_of_deleted [OF sound_keys(3) [OF assms], of authorization_state Absent k lau_expires
        cleanup_batch "clk_db clk"] by (simp add: authorization_status_def)
  then show "spec_step (spec_of db) ((spec_of db)\<lparr>spc_authorizations := authorization_status ?db\<rparr>)"
    using forget_authorizations [of "authorization_status ?db" "spec_of db"] by simp
qed simp_all

lemma polled_same:
  assumes "record_poll clk slow h db = Some (db', n)"
  shows "device_status db' = device_status db" "authorization_status db' = authorization_status db"
    "instance_status db' = instance_status db"
proof -
  let ?f = "\<lambda>d. d\<lparr>dev_polled := Some (clk_db clk), dev_interval := slowed slow (dev_interval d)\<rparr>"
  obtain p where db': "db' = db\<lparr>lnk_devices := update_where p ?f (lnk_devices db)\<rparr>"
    using assms by (auto simp: record_poll_def Let_def split: option.splits)
  show "device_status db' = device_status db"
    by (simp add: db' device_status_def [abs_def] state_of_same device_state_def)
  show "authorization_status db' = authorization_status db" "instance_status db' = instance_status db"
    by (simp_all add: db')
qed

lemma polled_promise:
  "record_poll clk slow h db = Some (db', n) \<Longrightarrow> spec_run (spec_of db) (spec_of db')"
  by (rule spec_of_same) (erule polled_same)+

lemma instances_same_promise:
  assumes "lnk_instances db' = update_where p f (lnk_instances db)"
    and "lnk_devices db' = lnk_devices db" "lnk_authorizations db' = lnk_authorizations db"
    and "\<And>i. ins_id (f i) = ins_id i" "\<And>i. instance_state (f i) = instance_state i"
  shows "spec_run (spec_of db) (spec_of db')"
  using assms(1-3) state_of_same [of ins_id f instance_state, OF assms(4,5)]
  by (intro spec_of_same)
    (simp_all add: device_status_def [abs_def] authorization_status_def [abs_def]
                   instance_status_def [abs_def])

lemma touched_promise:
  assumes "touch_instance clk h db = Some (db', i)"
  shows "spec_run (spec_of db) (spec_of db')"
proof -
  obtain p where "lnk_instances db' = update_where p (\<lambda>i. i\<lparr>ins_seen := Some (clk_db clk)\<rparr>)
      (lnk_instances db)" "lnk_devices db' = lnk_devices db"
      "lnk_authorizations db' = lnk_authorizations db"
    using assms by (auto simp: touch_instance_def Let_def split: option.splits)
  then show ?thesis
    by (rule instances_same_promise) (auto simp: instance_state_def live_def)
qed

lemma redeclared_promise:
  assumes "update_declaration_row v k db = Some (db', i)"
  shows "spec_run (spec_of db) (spec_of db')"
proof -
  obtain p where "lnk_instances db' = update_where p
      (\<lambda>r. r\<lparr>ins_declaration := (ins_declaration r)\<lparr>dec_version := dec_version v,
             dec_protocol := dec_protocol v, dec_capabilities := dec_capabilities v,
             dec_targets := dec_targets v\<rparr>\<rparr>) (lnk_instances db)"
      "lnk_devices db' = lnk_devices db" "lnk_authorizations db' = lnk_authorizations db"
    using assms by (auto simp: update_declaration_row_def Let_def split: option.splits)
  then show ?thesis
    by (rule instances_same_promise) (auto simp: instance_state_def live_def)
qed

lemma rotated_promise:
  assumes "rotate_refresh clk old until fresh prefix k db = Some db'"
  shows "spec_run (spec_of db) (spec_of db')"
proof -
  obtain p where "lnk_instances db' = update_where p (\<lambda>r. r\<lparr>ins_refresh := Some fresh,
      ins_prefix := prefix, ins_seen := Some (clk_db clk)\<rparr>) (lnk_instances db)"
    and "lnk_devices db' = lnk_devices db" "lnk_authorizations db' = lnk_authorizations db"
    using assms by (auto simp: rotate_refresh_def Let_def split: if_splits)
  then show ?thesis
    by (rule instances_same_promise) (auto simp: instance_state_def live_def)
qed

lemma accessed_promise:
  assumes "insert_access clk t db = Some db'"
  shows "spec_run (spec_of db) (spec_of db')"
  using assms by (intro spec_of_same) (auto simp: insert_access_def split: if_splits)

lemma revoked_promise:
  assumes "revoke_where clk p db = (db', b)"
  shows "spec_run (spec_of db) (spec_of db')"
proof -
  have shape: "lnk_devices db' = lnk_devices db" "lnk_authorizations db' = lnk_authorizations db"
      "lnk_instances db' = update_where (\<lambda>i. p i \<and> live i) (cut_off clk) (lnk_instances db)"
    using assms by (auto simp: revoke_where_def Let_def)
  have id: "ins_id (cut_off clk i) = ins_id i" for i
    by (simp add: cut_off_def)
  have "instance_status db' k = instance_status db k \<or>
      (\<exists>u. instance_status db k = LiveFor u \<and> instance_status db' k = CutOff u)" for k
    using the_row_update [of ins_id "cut_off clk", OF id]
    by (cases "the_row ins_id k (lnk_instances db)")
      (auto simp: instance_status_def shape instance_state_def cut_off_def live_def)
  then have "spec_step (spec_of db) ((spec_of db)\<lparr>spc_instances := instance_status db'\<rparr>)"
    using cut [of "instance_status db'" "spec_of db"] by simp
  moreover have "device_status db' = device_status db" "authorization_status db' = authorization_status db"
    using shape by (simp_all add: device_status_def [abs_def] authorization_status_def [abs_def])
  ultimately show ?thesis by (auto simp: spec_of_def)
qed

lemma issued_seen:
  assumes "issued clk i t db db'"
  shows "lnk_devices db' = lnk_devices db" "lnk_authorizations db' = lnk_authorizations db"
    "lnk_instances db' = lnk_instances db @ [i]"
    "instance_status db' = (instance_status db)(ins_id i := LiveFor (ins_user i))"
    "instance_status db (ins_id i) = Unknown"
proof -
  have new: "ins_id i \<notin> ins_id ` set (lnk_instances db)" and "live i"
    and shape: "lnk_devices db' = lnk_devices db" "lnk_authorizations db' = lnk_authorizations db"
      "lnk_instances db' = lnk_instances db @ [i]"
    using assms
    by (auto simp: issued_def insert_instance_def insert_access_def delete_expired_access_def
        list_ex_iff split: if_splits)
  show "lnk_devices db' = lnk_devices db" "lnk_authorizations db' = lnk_authorizations db"
      "lnk_instances db' = lnk_instances db @ [i]"
    by (fact shape)+
  show "instance_status db' = (instance_status db)(ins_id i := LiveFor (ins_user i))"
    using state_of_inserted [OF new, of instance_state Unknown] shape(3) \<open>live i\<close>
    by (simp add: instance_status_def [abs_def] instance_state_def)
  show "instance_status db (ins_id i) = Unknown"
    using new by (simp add: instance_status_def the_row_None [THEN iffD2])
qed

text \<open>The redemption of a request that was approved, with the instance it brings.\<close>

lemma device_granted:
  assumes sound: "links_sound db"
    and d: "lock_device h db = Some d" "dev_approved d = Some (ins_user i, at)"
    and grant: "issued clk i t db db1" "redeem_device clk h db1 = (db', Suc 0)"
  shows "device_status db h = Approved (ins_user i)"
    "device_status db' = (device_status db)(h := Redeemed (ins_user i))"
    "authorization_status db' = authorization_status db"
    "instance_status db' = (instance_status db)(ins_id i := LiveFor (ins_user i))"
    "instance_status db (ins_id i) = Unknown"
proof -
  let ?f = "\<lambda>d. d\<lparr>dev_redeemed := Some (clk_db clk)\<rparr>"
  note seen = issued_seen [OF grant(1)]
  have db': "db' = db1\<lparr>lnk_devices := update_where (redeemable clk h) ?f (lnk_devices db)\<rparr>"
    and "filter (redeemable clk h) (lnk_devices db) \<noteq> []"
    using grant(2) seen(1) by (auto simp: redeem_device_def)
  then obtain d' where d': "d' \<in> set (lnk_devices db)" "redeemable clk h d'"
    by (auto simp: filter_empty_conv)
  have only: "r = d" if "r \<in> set (lnk_devices db)" "redeemable clk h r" for r
    using one_row [OF sound_keys(1) [OF sound] that(1)] that(2) d(1) find_one
    unfolding lock_device_def redeemable_def by fastforce
  then have d_row: "d \<in> set (lnk_devices db)" "redeemable clk h d"
    using d' by auto
  have "the_row dev_code h (lnk_devices db) = Some d"
    using d(1) by (simp add: lock_device_def the_row_def)
  then show "device_status db h = Approved (ins_user i)"
    using d(2) d_row(2) by (simp add: device_status_def device_state_def redeemable_def)
  have "device_state (?f d) = Redeemed (ins_user i)" "dev_code d = h"
    using d(2) d_row(2) by (simp_all add: device_state_def redeemable_def)
  then show "device_status db' = (device_status db)(h := Redeemed (ins_user i))"
    using state_of_one [OF sound_keys(1) [OF sound], where f = ?f and p = "redeemable clk h",
        OF _ d_row only, where s = device_state and none = Absent]
    by (simp add: device_status_def [abs_def] db')
  show "authorization_status db' = authorization_status db"
    using seen(2) by (simp add: db' authorization_status_def [abs_def])
  show "instance_status db' = (instance_status db)(ins_id i := LiveFor (ins_user i))"
    using seen(4) by (simp add: db')
  show "instance_status db (ins_id i) = Unknown" by (fact seen(5))
qed

lemma authorization_granted:
  assumes sound: "links_sound db"
    and a: "lock_authorization h db = Some a" "lau_approved a = Some (ins_user i, at)"
    and grant: "issued clk i t db db1" "redeem_authorization clk h db1 = (db', Suc 0)"
  shows "authorization_status db (lau_request a) = Approved (ins_user i)"
    "authorization_status db' = (authorization_status db)(lau_request a := Redeemed (ins_user i))"
    "device_status db' = device_status db"
    "instance_status db' = (instance_status db)(ins_id i := LiveFor (ins_user i))"
    "instance_status db (ins_id i) = Unknown"
proof -
  let ?f = "\<lambda>a. a\<lparr>lau_redeemed := Some (clk_db clk)\<rparr>"
  note seen = issued_seen [OF grant(1)]
  have db': "db' = db1\<lparr>lnk_authorizations :=
      update_where (authorization_redeemable clk h) ?f (lnk_authorizations db)\<rparr>"
    and "filter (authorization_redeemable clk h) (lnk_authorizations db) \<noteq> []"
    using grant(2) seen(2) by (auto simp: redeem_authorization_def)
  then obtain a' where a': "a' \<in> set (lnk_authorizations db)" "authorization_redeemable clk h a'"
    by (auto simp: filter_empty_conv)
  have row: "a \<in> set (lnk_authorizations db)" "lau_code a = Some h"
    using a(1) find_one unfolding lock_authorization_def by fastforce+
  have only: "r = a" if "r \<in> set (lnk_authorizations db)" "authorization_redeemable clk h r" for r
    using known_one [OF sound_keys(5) [OF sound] that(1) row(1)] that(2) row(2)
    by (simp add: authorization_redeemable_def)
  then have a_row: "a \<in> set (lnk_authorizations db)" "authorization_redeemable clk h a"
    using a' by auto
  have "the_row lau_request (lau_request a) (lnk_authorizations db) = Some a"
    using a_row(1) sound_keys(3) [OF sound] by (simp add: the_row_iff)
  then show "authorization_status db (lau_request a) = Approved (ins_user i)"
    using a(2) a_row(2)
    by (simp add: authorization_status_def authorization_state_def authorization_redeemable_def)
  have "authorization_state (?f a) = Redeemed (ins_user i)"
    using a(2) a_row(2) by (simp add: authorization_state_def authorization_redeemable_def)
  then show "authorization_status db' = (authorization_status db)(lau_request a := Redeemed (ins_user i))"
    using state_of_one [OF sound_keys(3) [OF sound], where f = ?f and
        p = "authorization_redeemable clk h", OF _ a_row only,
        where s = authorization_state and none = Absent]
    by (simp add: authorization_status_def [abs_def] db')
  show "device_status db' = device_status db"
    using seen(1) by (simp add: db' device_status_def [abs_def])
  show "instance_status db' = (instance_status db)(ins_id i := LiveFor (ins_user i))"
    using seen(4) by (simp add: db')
  show "instance_status db (ins_id i) = Unknown" by (fact seen(5))
qed

lemma granted_device_promise:
  assumes "links_sound db" "lock_device h db = Some d" "dev_approved d = Some (ins_user i, at)"
    and "issued clk i t db db1" "redeem_device clk h db1 = (db', Suc 0)"
  shows "spec_run (spec_of db) (spec_of db')"
proof -
  note g = device_granted [OF assms]
  have "spec_step (spec_of db) (spec_of db')"
    using grant_device [of "spec_of db" h "ins_user i" "ins_id i"] g by (simp add: spec_of_def)
  then show ?thesis by blast
qed

lemma granted_authorization_promise:
  assumes "links_sound db" "lock_authorization h db = Some a" "lau_approved a = Some (ins_user i, at)"
    and "issued clk i t db db1" "redeem_authorization clk h db1 = (db', Suc 0)"
  shows "spec_run (spec_of db) (spec_of db')"
proof -
  note g = authorization_granted [OF assms]
  have "spec_step (spec_of db) (spec_of db')"
    using grant_authorization [of "spec_of db" "lau_request a" "ins_user i" "ins_id i"] g
    by (simp add: spec_of_def)
  then show ?thesis by blast
qed

lemma change_promise:
  assumes "change clk db db'" "links_sound db"
  shows "spec_run (spec_of db) (spec_of db')"
  using assms
proof (induction rule: change.induct)
  case (cleaned_access clk db)
  show ?case by (rule spec_of_same) (simp_all add: delete_expired_access_def)
next
  case (cleaned_history clk db)
  show ?case by (rule spec_of_same) (simp_all add: delete_expired_history_def)
next
  case (counted clk db rs)
  show ?case by (rule spec_of_same) simp_all
qed (blast intro: cleaned_devices_promise cleaned_authorizations_promise asked_device_promise
      asked_authorization_promise approve_device_promise deny_device_promise
      approve_authorization_promise deny_authorization_promise polled_promise
      granted_device_promise granted_authorization_promise revoked_promise rotated_promise
      accessed_promise touched_promise redeclared_promise)+

lemma changes_promise:
  "\<lbrakk>changes clk db db'; links_sound db\<rbrakk> \<Longrightarrow> spec_run (spec_of db) (spec_of db')"
proof (induction rule: rtranclp_induct)
  case (step db1 db2)
  have "links_sound db1" using changes_kept [OF step.hyps(1)] step.prems .
  then have "spec_run (spec_of db1) (spec_of db2)" using change_promise [OF step.hyps(2)] by simp
  then show ?case using step.IH [OF step.prems] by (rule rtranclp_trans [rotated])
qed simp

lemma link_step_promise:
  "\<lbrakk>some_step env db db'; links_sound db\<rbrakk> \<Longrightarrow> spec_run (spec_of db) (spec_of db')"
  unfolding some_step_def by (blast intro: changes_promise link_step_changes)

lemma link_run_promise:
  "\<lbrakk>link_run env db db'; links_sound db\<rbrakk> \<Longrightarrow> spec_run (spec_of db) (spec_of db')"
proof (induction rule: rtranclp_induct)
  case (step db1 db2)
  have "links_sound db1" using link_run_kept [OF step.hyps(1)] step.prems .
  then have "spec_run (spec_of db1) (spec_of db2)" using link_step_promise [OF step.hyps(2)] by simp
  then show ?case using step.IH [OF step.prems] by (rule rtranclp_trans [rotated])
qed simp

end
