(* ===== verification/LinkGrants.thy ===== *)
theory LinkGrants
  imports LinkSpec
begin

text \<open>
  What follows from the refinement and the invariant for the users of the service: a request is
  redeemed once, a grant goes to the account that approved, and what was revoked stays out.
  Device requests and browser authorizations share the contract of a request that is used once.
\<close>

section \<open>Requests that are used once\<close>

inductive run_before :: "('c \<Rightarrow> int) \<Rightarrow> ('c \<Rightarrow> 's \<Rightarrow> 's \<Rightarrow> bool) \<Rightarrow> int \<Rightarrow> 's \<Rightarrow> 's \<Rightarrow> bool"
  for clock :: "'c \<Rightarrow> int" and move :: "'c \<Rightarrow> 's \<Rightarrow> 's \<Rightarrow> bool" and t :: int where
  run_before_refl: "run_before clock move t s s"
| run_before_step:
    "\<lbrakk>run_before clock move t s s'; move c s' s''; clock c < t\<rbrakk> \<Longrightarrow> run_before clock move t s s''"

text \<open>
  \<open>used s k t\<close>: the request under \<open>k\<close> is redeemed, and expires at \<open>t\<close>. Until then it is
  remembered, and while it is remembered nothing is granted for it.
\<close>

locale remembered =
  fixes clock :: "'c \<Rightarrow> int"
    and move :: "'c \<Rightarrow> 's \<Rightarrow> 's \<Rightarrow> bool"
    and sound :: "'s \<Rightarrow> bool"
    and used :: "'s \<Rightarrow> 'k \<Rightarrow> int \<Rightarrow> bool"
  assumes move_sound: "\<lbrakk>sound s; move c s s'\<rbrakk> \<Longrightarrow> sound s'"
    and used_remembered: "\<lbrakk>sound s; used s k t; move c s s'; clock c < t\<rbrakk> \<Longrightarrow> used s' k t"
begin

lemma run_remembers:
  assumes "run_before clock move t s s'" "sound s" "used s k t"
  shows "sound s' \<and> used s' k t"
  using assms by (induction rule: run_before.induct) (auto intro: move_sound used_remembered)

end

locale used_once = remembered clock move sound used
  for clock :: "'c \<Rightarrow> int"
    and move :: "'c \<Rightarrow> 's \<Rightarrow> 's \<Rightarrow> bool"
    and sound :: "'s \<Rightarrow> bool"
    and used :: "'s \<Rightarrow> 'k \<Rightarrow> int \<Rightarrow> bool" +
  fixes grants_to :: "'s \<Rightarrow> 'k \<Rightarrow> 'g \<Rightarrow> 's \<Rightarrow> bool"
  assumes grant_sound: "\<lbrakk>sound s; grants_to s k g s'\<rbrakk> \<Longrightarrow> sound s'"
    and grant_used: "\<lbrakk>sound s; grants_to s k g s'\<rbrakk> \<Longrightarrow> \<exists>t. used s' k t"
    and used_refused: "\<lbrakk>sound s; used s k t\<rbrakk> \<Longrightarrow> \<not> grants_to s k g s'"
begin

lemma granted_once:
  assumes "sound s" "grants_to s k g s1"
  shows "\<exists>t. used s1 k t \<and>
    (\<forall>s2 g' s3. run_before clock move t s1 s2 \<longrightarrow> \<not> grants_to s2 k g' s3)"
proof -
  obtain t where t: "used s1 k t" using grant_used [OF assms] ..
  have "\<not> grants_to s2 k g' s3" if "run_before clock move t s1 s2" for s2 g' s3
    using run_remembers [OF that grant_sound [OF assms] t] used_refused by blast
  with t show ?thesis by blast
qed

end

section \<open>Redeemed rows are remembered\<close>

definition redeemed_device :: "link_db \<Rightarrow> string \<Rightarrow> int \<Rightarrow> bool" where
  "redeemed_device db k t \<longleftrightarrow>
     (\<exists>d \<in> set (lnk_devices db). dev_code d = k \<and> dev_redeemed d \<noteq> None \<and> dev_expires d = t)"

definition redeemed_authorization :: "link_db \<Rightarrow> string \<Rightarrow> int \<Rightarrow> bool" where
  "redeemed_authorization db c t \<longleftrightarrow>
     (\<exists>a \<in> set (lnk_authorizations db). lau_code a = Some c \<and> lau_redeemed a \<noteq> None \<and> lau_expires a = t)"

lemma update_where_others: "\<lbrakk>r \<in> set rs; \<not> p r\<rbrakk> \<Longrightarrow> r \<in> set (update_where p f rs)"
  by (auto simp: set_update_where)

lemma issued_rows:
  assumes "issued clk i t db db'"
  shows "lnk_devices db' = lnk_devices db" "lnk_authorizations db' = lnk_authorizations db"
  using issued_seen(1,2) [OF assms] by simp_all

lemma change_keeps_redeemed_device:
  assumes "change clk db db'" "d \<in> set (lnk_devices db)" "dev_redeemed d \<noteq> None" "clk_db clk < dev_expires d"
  shows "d \<in> set (lnk_devices db')"
  using assms
proof (induction rule: change.induct)
  case (granted_device h db d' i at clk t db1 db')
  then show ?case
    by (auto simp: redeem_device_def redeemable_def issued_rows dest!: issued_rows(1)
        intro!: update_where_others)
next
  case (granted_authorization h db a i at clk t db1 db')
  then show ?case by (auto simp: redeem_authorization_def dest!: issued_rows(1))
qed (auto simp: delete_expired_devices_def delete_expired_keeps delete_expired_authorizations_def
      delete_expired_access_def delete_expired_history_def insert_device_request_def
      insert_authorization_def approve_device_def deny_device_def approve_authorization_row_def
      deny_authorization_row_def record_poll_def revoke_where_def rotate_refresh_def
      insert_access_def touch_instance_def update_declaration_row_def Let_def device_open_def
      split: if_splits option.splits intro!: update_where_others)

lemma change_keeps_redeemed_authorization:
  assumes "change clk db db'" "a \<in> set (lnk_authorizations db)" "lau_redeemed a \<noteq> None"
    and "clk_db clk < lau_expires a"
  shows "a \<in> set (lnk_authorizations db')"
  using assms
proof (induction rule: change.induct)
  case (granted_device h db d i at clk t db1 db')
  then show ?case by (auto simp: redeem_device_def dest!: issued_rows(2))
next
  case (granted_authorization h db a' i at clk t db1 db')
  then show ?case
    by (auto simp: redeem_authorization_def authorization_redeemable_def dest!: issued_rows(2)
        intro!: update_where_others)
qed (auto simp: delete_expired_devices_def delete_expired_keeps delete_expired_authorizations_def
      delete_expired_access_def delete_expired_history_def insert_device_request_def
      insert_authorization_def approve_device_def deny_device_def approve_authorization_row_def
      deny_authorization_row_def record_poll_def revoke_where_def rotate_refresh_def
      insert_access_def touch_instance_def update_declaration_row_def Let_def authorization_open_def
      split: if_splits option.splits intro!: update_where_others)

lemma step_remembers_device:
  assumes "links_sound db" "redeemed_device db k t" "link_step env clk db db'" "clk_db clk < t"
  shows "redeemed_device db' k t"
proof -
  obtain d where d: "d \<in> set (lnk_devices db)" "dev_code d = k" "dev_redeemed d \<noteq> None" "dev_expires d = t"
    using assms(2) by (auto simp: redeemed_device_def)
  have "changes clk db db'" using link_step_changes [OF assms(3)] .
  then have "d \<in> set (lnk_devices db')"
    by (induction rule: rtranclp_induct) (use d assms(4) change_keeps_redeemed_device in auto)
  then show ?thesis using d by (auto simp: redeemed_device_def)
qed

lemma step_remembers_authorization:
  assumes "links_sound db" "redeemed_authorization db c t" "link_step env clk db db'" "clk_db clk < t"
  shows "redeemed_authorization db' c t"
proof -
  obtain a where a: "a \<in> set (lnk_authorizations db)" "lau_code a = Some c" "lau_redeemed a \<noteq> None"
      "lau_expires a = t"
    using assms(2) by (auto simp: redeemed_authorization_def)
  have "changes clk db db'" using link_step_changes [OF assms(3)] .
  then have "a \<in> set (lnk_authorizations db')"
    by (induction rule: rtranclp_induct) (use a assms(4) change_keeps_redeemed_authorization in auto)
  then show ?thesis using a by (auto simp: redeemed_authorization_def)
qed

section \<open>What a grant takes\<close>

text \<open>The calls that answer with a grant, under the hash of the code they were called with.\<close>

definition device_grant :: "link_env \<Rightarrow> link_db \<Rightarrow> string \<Rightarrow> token_grant \<Rightarrow> link_db \<Rightarrow> bool" where
  "device_grant env db k g db' \<longleftrightarrow>
     (\<exists>clk src fresh source code. opaque_code_hash env code = Some k \<and>
        poll env clk src fresh source code db = Some (db', Inr (Some g)))"

definition authorization_grant :: "link_env \<Rightarrow> link_db \<Rightarrow> string \<Rightarrow> token_grant \<Rightarrow> link_db \<Rightarrow> bool" where
  "authorization_grant env db c g db' \<longleftrightarrow>
     (\<exists>clk src fresh source code verifier redirect. opaque_code_hash env code = Some c \<and>
        exchange env clk src fresh source code verifier redirect db = Some (db', Inr g))"

lemma and_run_Inr:
  assumes "and_run m k = Some (db', Inr r)"
  obtains a db1 where "m = (db1, Inr a)" "k a db1 = Some (db', Inr r)"
  using assms by (auto simp: and_run_def split: prod.splits sum.splits)

lemma take_rate_rows:
  assumes "take_rate env clk action source limit window db = (db', r)"
  obtains rs where "db' = db\<lparr>lnk_rates := rs\<rparr>"
  using take_rate_counts [of env clk action source limit window db] assms by auto

lemma spec_of_rates [simp]: "spec_of (db\<lparr>lnk_rates := rs\<rparr>) = spec_of db"
  by (simp add: spec_of_def)

lemma poll_request_granted:
  assumes "links_sound db" "poll_request env clk src fresh k db = Some (db', Inr (Some g))"
  shows "\<exists>d u at. lock_device k db = Some d \<and> dev_approved d = Some (u, at) \<and> dev_redeemed d = None \<and>
    dev_denied d = None \<and> clk_app clk \<le> dev_expires d \<and> ian_user (grt_instance g) = u \<and>
    ian_declaration (grt_instance g) = dev_declaration d \<and> ian_scopes (grt_instance g) = dev_scopes d \<and>
    device_status db k = Approved u \<and> device_status db' = (device_status db)(k := Redeemed u) \<and>
    instance_status db' = (instance_status db)(ian_id (grt_instance g) := LiveFor u)"
proof -
  obtain d db1 n u at db2 where d: "lock_device k db = Some d" "dev_redeemed d = None"
      "dev_denied d = None" "\<not> dev_expires d < clk_app clk" "dev_approved d = Some (u, at)"
    and step: "record_poll clk False k db = Some (db1, n)"
      "issue_grant env clk src fresh u (dev_declaration d) (dev_scopes d) db1 = Some (db2, Inr g)"
      "redeem_device clk k db2 = (db', Suc 0)"
    using assms(2) unfolding poll_request_def
    by (auto simp del: not_None_eq split: option.split_asm if_split_asm prod.split_asm sum.split_asm)
  obtain i t where i: "issued clk i t db1 db2" "ins_user i = u" "ins_declaration i = dev_declaration d"
      "ins_scopes i = dev_scopes d" "grt_instance g = answer_of i"
    using issue_grant_issued [OF step(2)] by blast
  obtain d1 where d1: "lock_device k db1 = Some d1" "dev_approved d1 = Some (ins_user i, at)"
    using record_poll_locked [OF step(1) d(1)] d(5) i(2) by auto
  have sound: "links_sound db1" using record_poll_kept [OF assms(1) step(1)] .
  note g = device_granted [OF sound d1 i(1) step(3)]
  have same: "device_status db1 = device_status db" "instance_status db1 = instance_status db"
    using polled_same [OF step(1)] by simp_all
  show ?thesis
    using d i g same by (auto simp: answer_of_def)
qed

lemma exchange_request_granted:
  assumes "links_sound db" "exchange_request env clk src fresh c verifier redirect db = Some (db', Inr g)"
  shows "\<exists>a u at. lock_authorization c db = Some a \<and> lau_approved a = Some (u, at) \<and>
    lau_redeemed a = None \<and> lau_denied a = None \<and> clk_app clk \<le> lau_expires a \<and>
    lau_redirect a = redirect \<and> challenge_matches env verifier (lau_challenge a) \<and>
    ian_user (grt_instance g) = u \<and> ian_declaration (grt_instance g) = lau_declaration a \<and>
    ian_scopes (grt_instance g) = lau_scopes a \<and>
    authorization_status db (lau_request a) = Approved u \<and>
    authorization_status db' = (authorization_status db)(lau_request a := Redeemed u) \<and>
    instance_status db' = (instance_status db)(ian_id (grt_instance g) := LiveFor u)"
proof -
  obtain a u at db1 where a: "lock_authorization c db = Some a" "lau_approved a = Some (u, at)"
      "lau_redeemed a = None" "lau_denied a = None" "\<not> lau_expires a < clk_app clk"
      "lau_redirect a = redirect" "challenge_matches env verifier (lau_challenge a)"
    and step: "issue_grant env clk src fresh u (lau_declaration a) (lau_scopes a) db = Some (db1, Inr g)"
      "redeem_authorization clk c db1 = (db', Suc 0)"
    using assms(2) unfolding exchange_request_def
    by (auto simp del: not_None_eq split: option.split_asm if_split_asm prod.split_asm sum.split_asm)
  obtain i t where i: "issued clk i t db db1" "ins_user i = u" "ins_declaration i = lau_declaration a"
      "ins_scopes i = lau_scopes a" "grt_instance g = answer_of i"
    using issue_grant_issued [OF step(1)] by blast
  have "lau_approved a = Some (ins_user i, at)" using a(2) i(2) by simp
  note g = authorization_granted [OF assms(1) a(1) this i(1) step(2)]
  show ?thesis using a i g by (auto simp: answer_of_def)
qed

text \<open>The same for the whole call: counting the rate touches no request.\<close>

lemma poll_granted:
  assumes "poll env clk src fresh source code db = Some (db', Inr (Some g))"
  obtains k rs where "opaque_code_hash env code = Some k"
    "poll_request env clk src fresh k (db\<lparr>lnk_rates := rs\<rparr>) = Some (db', Inr (Some g))"
proof -
  obtain u db1 where run: "take_rate env clk ''poll'' source 600 (seconds 60) db = (db1, Inr u)"
    and k: "(case opaque_code_hash env code of None \<Rightarrow> Some (db1, Inl LinkRequestNotFound)
       | Some hash \<Rightarrow> poll_request env clk src fresh hash db1) = Some (db', Inr (Some g))"
    using assms unfolding poll_def by (rule and_run_Inr)
  obtain rs where "db1 = db\<lparr>lnk_rates := rs\<rparr>" using run by (rule take_rate_rows)
  with k show ?thesis by (auto split: option.splits intro: that)
qed

lemma exchange_granted:
  assumes "exchange env clk src fresh source code verifier redirect db = Some (db', Inr g)"
  obtains c rs where "opaque_code_hash env code = Some c" "valid_loopback_redirect env redirect"
    "exchange_request env clk src fresh c verifier redirect (db\<lparr>lnk_rates := rs\<rparr>) = Some (db', Inr g)"
proof -
  obtain u db1 where run: "take_rate env clk ''exchange'' source 60 an_hour db = (db1, Inr u)"
    and k: "(case opaque_code_hash env code of None \<Rightarrow> Some (db1, Inl InvalidPKCE)
       | Some hash \<Rightarrow> if \<not> valid_loopback_redirect env redirect then Some (db1, Inl InvalidPKCE)
           else exchange_request env clk src fresh hash verifier redirect db1) = Some (db', Inr g)"
    using assms unfolding exchange_def by (rule and_run_Inr)
  obtain rs where "db1 = db\<lparr>lnk_rates := rs\<rparr>" using run by (rule take_rate_rows)
  with k show ?thesis by (auto split: option.splits if_splits intro: that)
qed

lemma rates_same [simp]:
  "lock_device k (db\<lparr>lnk_rates := rs\<rparr>) = lock_device k db"
  "lock_authorization c (db\<lparr>lnk_rates := rs\<rparr>) = lock_authorization c db"
  by (simp_all add: lock_device_def lock_authorization_def)

lemma device_grant_facts:
  assumes "links_sound db" "device_grant env db k g db'"
  shows "\<exists>d u at. lock_device k db = Some d \<and> dev_approved d = Some (u, at) \<and> dev_redeemed d = None \<and>
    ian_user (grt_instance g) = u \<and> ian_declaration (grt_instance g) = dev_declaration d \<and>
    ian_scopes (grt_instance g) = dev_scopes d \<and> device_status db k = Approved u \<and>
    device_status db' = (device_status db)(k := Redeemed u) \<and>
    instance_status db' = (instance_status db)(ian_id (grt_instance g) := LiveFor u)"
proof -
  obtain clk src fresh source code where "opaque_code_hash env code = Some k"
    and run: "poll env clk src fresh source code db = Some (db', Inr (Some g))"
    using assms(2) by (auto simp: device_grant_def)
  then obtain rs where "poll_request env clk src fresh k (db\<lparr>lnk_rates := rs\<rparr>) = Some (db', Inr (Some g))"
    by (auto elim: poll_granted)
  from poll_request_granted [OF _ this] assms(1) show ?thesis by auto
qed

lemma authorization_grant_facts:
  assumes "links_sound db" "authorization_grant env db c g db'"
  shows "\<exists>a u at. lock_authorization c db = Some a \<and> lau_approved a = Some (u, at) \<and>
    lau_redeemed a = None \<and> ian_user (grt_instance g) = u \<and>
    authorization_status db (lau_request a) = Approved u \<and>
    authorization_status db' = (authorization_status db)(lau_request a := Redeemed u)"
proof -
  obtain clk src fresh source code verifier redirect where "opaque_code_hash env code = Some c"
    and run: "exchange env clk src fresh source code verifier redirect db = Some (db', Inr g)"
    using assms(2) by (auto simp: authorization_grant_def)
  then obtain rs where
      "exchange_request env clk src fresh c verifier redirect (db\<lparr>lnk_rates := rs\<rparr>) = Some (db', Inr g)"
    by (auto elim: exchange_granted)
  from exchange_request_granted [OF _ this] assms(1) show ?thesis by auto
qed

lemma redeemed_status:
  assumes "device_status db k = Redeemed u"
  shows "\<exists>t. redeemed_device db k t"
proof -
  obtain d where "the_row dev_code k (lnk_devices db) = Some d" "device_state d = Redeemed u"
    using assms by (auto simp: device_status_def state_of_def split: option.splits)
  then show ?thesis
    by (auto simp: redeemed_device_def device_state_def dest!: the_row_Some
        elim!: status_by.elims [of _ _ _ "Redeemed u"])
qed

lemma device_grant_step: "device_grant env db k g db' \<Longrightarrow> \<exists>clk. link_step env clk db db'"
  by (auto simp: device_grant_def intro: link_step.intros)

lemma authorization_grant_step: "authorization_grant env db c g db' \<Longrightarrow> \<exists>clk. link_step env clk db db'"
  by (auto simp: authorization_grant_def intro: link_step.intros)

lemma redeemed_no_grant:
  assumes "links_sound db" "redeemed_device db k t"
  shows "\<not> device_grant env db k g db'"
proof
  assume "device_grant env db k g db'"
  then obtain d where d: "lock_device k db = Some d" "dev_redeemed d = None"
    using device_grant_facts [OF assms(1)] by blast
  obtain r where r: "r \<in> set (lnk_devices db)" "dev_code r = k" "dev_redeemed r \<noteq> None"
    using assms(2) by (auto simp: redeemed_device_def)
  have "d \<in> set (lnk_devices db)" "dev_code d = k"
    using find_one d(1) by (fastforce simp: lock_device_def)+
  then have "d = r" using one_row [OF sound_keys(1) [OF assms(1)]] r by simp
  then show False using d(2) r(3) by simp
qed

lemma redeemed_no_authorization_grant:
  assumes "links_sound db" "redeemed_authorization db c t"
  shows "\<not> authorization_grant env db c g db'"
proof
  assume "authorization_grant env db c g db'"
  then obtain a where a: "lock_authorization c db = Some a" "lau_redeemed a = None"
    using authorization_grant_facts [OF assms(1)] by blast
  obtain r where r: "r \<in> set (lnk_authorizations db)" "lau_code r = Some c" "lau_redeemed r \<noteq> None"
    using assms(2) by (auto simp: redeemed_authorization_def)
  have "a \<in> set (lnk_authorizations db)" "lau_code a = Some c"
    using find_one a(1) by (fastforce simp: lock_authorization_def)+
  then have "a = r" using known_one [OF sound_keys(5) [OF assms(1)]] r by blast
  then show False using a(2) r(3) by simp
qed

lemma exchanged_redeemed:
  assumes "links_sound db" "authorization_grant env db c g db'"
  shows "\<exists>t. redeemed_authorization db' c t"
proof -
  obtain clk src fresh source code verifier redirect where "opaque_code_hash env code = Some c"
    and "exchange env clk src fresh source code verifier redirect db = Some (db', Inr g)"
    using assms(2) by (auto simp: authorization_grant_def)
  then obtain db1 where "exchange_request env clk src fresh c verifier redirect db1 = Some (db', Inr g)"
    by (auto elim: exchange_granted)
  then obtain db2 where "redeem_authorization clk c db2 = (db', Suc 0)"
    unfolding exchange_request_def
    by (auto split: option.split_asm if_split_asm prod.split_asm sum.split_asm)
  then have db': "db' = db2\<lparr>lnk_authorizations := update_where (authorization_redeemable clk c)
      (\<lambda>a. a\<lparr>lau_redeemed := Some (clk_db clk)\<rparr>) (lnk_authorizations db2)\<rparr>"
    and "filter (authorization_redeemable clk c) (lnk_authorizations db2) \<noteq> []"
    by (auto simp: redeem_authorization_def)
  then obtain a where "a \<in> set (lnk_authorizations db2)" "authorization_redeemable clk c a"
    by (auto simp: filter_empty_conv)
  then have "a\<lparr>lau_redeemed := Some (clk_db clk)\<rparr> \<in> set (lnk_authorizations db')" "lau_code a = Some c"
    by (auto simp: db' set_update_where authorization_redeemable_def)
  then show ?thesis
    unfolding redeemed_authorization_def
    by (intro exI [of _ "lau_expires a"] bexI [of _ "a\<lparr>lau_redeemed := Some (clk_db clk)\<rparr>"])
      simp_all
qed

interpretation devices: used_once clk_db "link_step env" links_sound redeemed_device "device_grant env"
  for env
proof unfold_locales
  fix s k g s'
  assume s: "links_sound s" "device_grant env s k g s'"
  show "links_sound s'" using device_grant_step [OF s(2)] link_step_kept s(1) by blast
  show "\<exists>t. redeemed_device s' k t"
    using device_grant_facts [OF s] redeemed_status by fastforce
qed (auto intro: link_step_kept step_remembers_device dest: redeemed_no_grant)

interpretation authorizations: used_once clk_db "link_step env" links_sound redeemed_authorization
    "authorization_grant env" for env
proof unfold_locales
  fix s c g s'
  assume s: "links_sound s" "authorization_grant env s c g s'"
  show "links_sound s'" using authorization_grant_step [OF s(2)] link_step_kept s(1) by blast
  show "\<exists>t. redeemed_authorization s' c t" using exchanged_redeemed [OF s] .
qed (auto intro: link_step_kept step_remembers_authorization dest: redeemed_no_authorization_grant)

section \<open>What was cut off stays out\<close>

lemma spec_cut_stays:
  "\<lbrakk>spec_step s s'; spc_instances s i = CutOff u\<rbrakk> \<Longrightarrow> spc_instances s' i = CutOff u"
  by (induction rule: spec_step.induct) (auto, metis instance_status.distinct(5))

lemma cut_stays:
  assumes "link_run env db db'" "links_sound db" "instance_status db i = CutOff u"
  shows "instance_status db' i = CutOff u"
proof -
  have "spec_run (spec_of db) (spec_of db')" using link_run_promise [OF assms(1,2)] .
  then have "spc_instances (spec_of db') i = CutOff u"
    by (induction rule: rtranclp_induct) (use assms(3) spec_cut_stays in auto)
  then show ?thesis by simp
qed

lemma live_row_status:
  assumes "links_sound db" "i \<in> set (lnk_instances db)"
  shows "instance_status db (ins_id i) = (if live i then LiveFor (ins_user i) else CutOff (ins_user i))"
proof -
  have "the_row ins_id (ins_id i) (lnk_instances db) = Some i"
    using assms sound_keys(4) [OF assms(1)] by (simp add: the_row_iff)
  then show ?thesis by (simp add: instance_status_def instance_state_def)
qed

lemma revoked_cut:
  assumes "links_sound db" "revoke clk u i db = (db', Inr ())"
  shows "instance_status db' i = CutOff u"
proof -
  let ?hit = "\<lambda>r. (ins_id r = i \<and> ins_user r = u) \<and> live r"
  have run: "revoke_where clk (\<lambda>r. ins_id r = i \<and> ins_user r = u) db = (db', True)"
    using assms(2) by (auto simp: revoke_def revoke_instance_def split: prod.splits if_splits)
  then have rows: "lnk_instances db' = update_where ?hit (cut_off clk) (lnk_instances db)"
    and "filter ?hit (lnk_instances db) \<noteq> []"
    by (auto simp: revoke_where_def Let_def)
  then obtain r where "r \<in> set (lnk_instances db)" "?hit r" by (auto simp: filter_empty_conv)
  then have "cut_off clk r \<in> set (lnk_instances db')" "ins_id r = i" "ins_user r = u"
    by (auto simp: rows set_update_where)
  moreover have "links_sound db'" using revoke_where_kept [OF assms(1) run] .
  ultimately show ?thesis
    using live_row_status [of db' "cut_off clk r"] by (simp add: cut_off_def live_def)
qed

lemma touch_instance_row:
  assumes "touch_instance clk hash db = Some (db', i)"
  shows "\<exists>t i0. t \<in> set (lnk_access db) \<and> acc_hash t = hash \<and> clk_db clk < acc_expires t \<and>
    i0 \<in> set (lnk_instances db) \<and> live i0 \<and> ins_id i0 = acc_instance t \<and>
    i = i0\<lparr>ins_seen := Some (clk_db clk)\<rparr> \<and> ins_id i = ins_id i0"
proof -
  obtain t i0 where "find (\<lambda>t. acc_hash t = hash \<and> clk_db clk < acc_expires t) (lnk_access db) = Some t"
    and "find (\<lambda>i. ins_id i = acc_instance t \<and> live i) (lnk_instances db) = Some i0"
    and "i = i0\<lparr>ins_seen := Some (clk_db clk)\<rparr>"
    using assms by (auto simp: touch_instance_def Let_def split: option.splits)
  then show ?thesis by (auto dest!: find_one)
qed

lemma cut_off_not_authenticated:
  assumes "links_sound db" "instance_status db i = CutOff u"
    and "authenticate env clk token needs db = (db', Inr a)"
  shows "ian_id a \<noteq> i"
proof -
  obtain hash db1 r where r: "touch_instance clk hash db = Some (db1, r)" "a = answer_of r"
    using assms(3) by (auto simp: authenticate_def split: option.splits if_splits)
  obtain r0 where "r0 \<in> set (lnk_instances db)" "live r0" "ins_id r = ins_id r0"
    using touch_instance_row [OF r(1)] by blast
  then show ?thesis using live_row_status [OF assms(1)] assms(2) r(2) by (force simp: answer_of_def)
qed

lemma cut_off_not_refreshed:
  assumes "links_sound db" "instance_status db i = CutOff u"
    and "refresh env clk src source token db = Some (db', Inr g)"
  shows "ian_id (grt_instance g) \<noteq> i"
proof -
  obtain db1 v where run: "take_rate env clk ''refresh'' source 600 an_hour db = (db1, Inr v)"
    and rest: "(case credential_hash env token refresh_token_kind of
       None \<Rightarrow> Some (db1, Inl InstanceCredential)
     | Some old \<Rightarrow>
         (case lock_instance old db1 of
            None \<Rightarrow> Some (handle_refresh_reuse clk old db1)
          | Some i \<Rightarrow>
              if refresh_expired clk i
              then Some (fst (revoke_by_id clk (ins_id i) db1), Inl InstanceCredential)
              else rotate_refresh_grant env clk src i old db1)) = Some (db', Inr g)"
    using assms(3) unfolding refresh_def by (rule and_run_Inr)
  obtain rs where db1: "db1 = db\<lparr>lnk_rates := rs\<rparr>" using run by (rule take_rate_rows)
  obtain old r where r: "lock_instance old db1 = Some r"
    and grant: "rotate_refresh_grant env clk src r old db1 = Some (db', Inr g)"
    using rest
    by (auto simp: handle_refresh_reuse_def split: option.split_asm if_split_asm)
  have "ian_id (grt_instance g) = ins_id r"
    using grant by (auto simp: rotate_refresh_grant_def answer_of_def split: option.split_asm prod.split_asm)
  moreover have "r \<in> set (lnk_instances db)" "live r"
    using find_one [OF r [unfolded lock_instance_def]] db1 by auto
  ultimately show ?thesis using live_row_status [OF assms(1)] assms(2) by force
qed

lemma cut_off_not_found:
  assumes "links_sound db" "instance_status db i = CutOff u"
  shows "live_by_id v i db = Inl InstanceNotFound"
proof -
  have "live_instance i v db = None"
    using live_row_status [OF assms(1)] assms(2)
    by (force simp: live_instance_def find_None_iff)
  then show ?thesis by (simp add: live_by_id_def or_refuse_def)
qed

lemma cut_off_no_access:
  assumes "links_sound db" "instance_status db i = CutOff u"
  shows "\<forall>t \<in> set (lnk_access db). acc_instance t \<noteq> i"
proof
  fix t assume "t \<in> set (lnk_access db)"
  then obtain r where "r \<in> set (lnk_instances db)" "ins_id r = acc_instance t" "live r"
    using assms(1) by (auto simp: links_sound_def tokens_sound_def)
  then show "acc_instance t \<noteq> i" using live_row_status [OF assms(1)] assms(2) by force
qed

end
