(* ===== verification/DeliveryRuns.thy ===== *)
theory DeliveryRuns
  imports Delivery LinkGrants
begin

text \<open>
  The queue as a whole: what every call does to the rows of the queue, the invariant they keep,
  and runs in which transactions, and statements outside one, of the delivery service and of the
  linking service interleave.
\<close>

section \<open>The invariant\<close>

definition delivery_sound :: "int \<Rightarrow> delivery_row \<Rightarrow> bool" where
  "delivery_sound max_attempts d \<longleftrightarrow>
     0 \<le> dlv_attempts d \<and> dlv_attempts d \<le> max_attempts \<and>
     (dlv_lease d \<noteq> None) = (dlv_state d = Released) \<and>
     (dlv_settled d \<noteq> None) = (dlv_state d = Failed) \<and>
     dlv_queued d < dlv_expires d \<and>
     (case dlv_target d of None \<Rightarrow> True | Some t \<Rightarrow> target_fits t)"

definition route :: "delivery_row \<Rightarrow> uuid \<times> uuid" where
  "route d = (dlv_instance d, dlv_asset d)"

definition queue_sound :: "int \<Rightarrow> delivery_row list \<Rightarrow> bool" where
  "queue_sound max_attempts ds \<longleftrightarrow>
     list_all (delivery_sound max_attempts) ds \<and> distinct (map dlv_id ds) \<and>
     distinct (map route (filter live_state ds))"

lemma queue_sound_filter: "queue_sound m ds \<Longrightarrow> queue_sound m (filter q ds)"
  by (auto simp: queue_sound_def list_all_iff distinct_map inj_on_def)

lemma distinct_map_update:
  assumes "distinct (map key (filter q rs))" "\<And>r. r \<in> set rs \<Longrightarrow> key (f r) = key r"
    and "\<And>r. \<lbrakk>r \<in> set rs; q (f r)\<rbrakk> \<Longrightarrow> q r"
  shows "distinct (map key (filter q (map f rs)))"
  using assms
proof (induction rs)
  case (Cons r rs)
  have "key ` set (filter q (map f rs)) \<subseteq> key ` set (filter q rs)"
    using Cons.prems(2,3) by (force simp: image_iff)
  then show ?case using Cons by (auto split: if_splits)
qed simp

lemma queue_sound_update:
  assumes "queue_sound m ds"
    and "\<And>d. dlv_id (f d) = dlv_id d" "\<And>d. route (f d) = route d"
    and "\<And>d. \<lbrakk>d \<in> set ds; delivery_sound m d; p d\<rbrakk> \<Longrightarrow>
           delivery_sound m (f d) \<and> (live_state (f d) \<longrightarrow> live_state d)"
  shows "queue_sound m (update_where p f ds)"
proof -
  let ?g = "\<lambda>d. if p d then f d else d"
  have "distinct (map route (filter live_state (map ?g ds)))"
    by (rule distinct_map_update)
      (use assms in \<open>auto simp: queue_sound_def list_all_iff split: if_splits\<close>)
  then show ?thesis
    using assms map_update_where [of dlv_id f p ds]
    by (auto simp: queue_sound_def list_all_iff set_update_where) (simp add: update_where_def)
qed

lemma queue_sound_append:
  assumes "queue_sound m ds" "delivery_sound m d" "dlv_id d \<notin> dlv_id ` set ds"
    and "route d \<notin> route ` {e \<in> set ds. live_state e}"
  shows "queue_sound m (ds @ [d])"
  using assms by (auto simp: queue_sound_def)

section \<open>Changes\<close>

definition live_ids :: "link_db \<Rightarrow> uuid set" where
  "live_ids db = ins_id ` {r \<in> set (lnk_instances db). live r}"

definition known_ids :: "link_db \<Rightarrow> uuid set" where
  "known_ids db = ins_id ` set (lnk_instances db)"

definition deliveries_sound :: "settings \<Rightarrow> link_db \<Rightarrow> bool" where
  "deliveries_sound st db \<longleftrightarrow>
     links_sound db \<and> queue_sound (set_max_attempts st) (lnk_deliveries db) \<and>
     dlv_instance ` set (lnk_deliveries db) \<subseteq> known_ids db"

text \<open>\<open>new\<close> is what the identifiers of new deliveries are drawn from.\<close>

inductive queue_change :: "settings \<Rightarrow> uuid set \<Rightarrow> clocks \<Rightarrow> link_db \<Rightarrow> link_db \<Rightarrow> bool"
  for st :: settings and new :: "uuid set" and clk :: clocks where
  linked: "change clk db db' \<Longrightarrow> queue_change st new clk db db'"
| mirrored: "queue_change st new clk db (db\<lparr>lnk_library := ls\<rparr>)"
| dropped: "queue_change st new clk db (db\<lparr>lnk_deliveries := filter q (lnk_deliveries db)\<rparr>)"
| stored:
    "\<lbrakk>fresh \<in> new; queue_delivery clk fresh i a expires db = Some (db', r)\<rbrakk> \<Longrightarrow>
     queue_change st new clk db db'"
| abandoned: "queue_change st new clk db (abandon_exhausted clk i (set_max_attempts st) db)"
| handed:
    "claim_deliveries clk lease i (set_max_attempts st) batch db = (db', rs) \<Longrightarrow>
     queue_change st new clk db db'"
| targeted: "set_delivery_target target k db = Some db' \<Longrightarrow> queue_change st new clk db db'"
| failed: "queue_change st new clk db (fail_delivery clk reason k db)"

abbreviation queue_changes :: "settings \<Rightarrow> uuid set \<Rightarrow> clocks \<Rightarrow> link_db \<Rightarrow> link_db \<Rightarrow> bool" where
  "queue_changes st new clk \<equiv> (queue_change st new clk)\<^sup>*\<^sup>*"

lemma queue_changes_more:
  assumes "queue_changes st new clk db db'" "new \<subseteq> new'"
  shows "queue_changes st new' clk db db'"
proof -
  have "queue_change st new' clk s s'" if "queue_change st new clk s s'" for s s'
    using that by cases (use assms(2) in \<open>blast intro: queue_change.intros\<close>)+
  then show ?thesis using assms(1) by (metis mono_rtranclp)
qed

lemma issued_frames:
  assumes "issued clk i t db db'"
  shows "lnk_deliveries db' = lnk_deliveries db" "known_ids db \<subseteq> known_ids db'"
  using assms
  by (auto simp: issued_def insert_instance_def insert_access_def delete_expired_access_def known_ids_def
      split: if_splits)

lemma live_ids_list: "live_ids db = set (map ins_id (filter live (lnk_instances db)))"
  by (auto simp: live_ids_def)

lemma known_update:
  "(\<And>r. ins_id (f r) = ins_id r) \<Longrightarrow> ins_id ` set (update_where p f rs) = ins_id ` set rs"
  by (rule keys_update_where)

text \<open>A call of the linking service only takes deliveries away, and no instance's row.\<close>

lemma change_deliveries:
  assumes "change clk db db'"
  shows "(\<exists>q. lnk_deliveries db' = filter q (lnk_deliveries db)) \<and> known_ids db \<subseteq> known_ids db'"
proof -
  have same: ?thesis if "lnk_deliveries db' = lnk_deliveries db" "known_ids db \<subseteq> known_ids db'"
    using that by (auto intro: exI [of _ "\<lambda>d. True"])
  show ?thesis
    using assms
  proof cases
    case (revoked p b)
    moreover have "ins_id (cut_off clk r) = ins_id r" for r by (simp add: cut_off_def)
    ultimately show ?thesis
      by (auto simp: revoke_where_def Let_def known_ids_def known_update intro: exI [of _ "\<lambda>d. True"])
  next
    case (granted_device h d i at t db1)
    then show ?thesis
      using issued_frames [OF granted_device(3)] by (intro same) (auto simp: redeem_device_def known_ids_def)
  next
    case (granted_authorization h a i at t db1)
    then show ?thesis
      using issued_frames [OF granted_authorization(3)]
      by (intro same) (auto simp: redeem_authorization_def known_ids_def)
  next
    case (rotated old until fresh prefix i)
    then show ?thesis
      by (intro same) (auto simp: rotate_refresh_def Let_def known_ids_def known_update
          split: if_splits option.splits)
  next
    case (touched h i)
    then show ?thesis
      by (intro same) (auto simp: touch_instance_def Let_def known_ids_def known_update
          split: if_splits option.splits)
  next
    case (redeclared v k i)
    then show ?thesis
      by (intro same) (auto simp: update_declaration_row_def Let_def known_ids_def known_update
          split: if_splits option.splits)
  qed (intro same; auto simp: delete_expired_devices_def delete_expired_authorizations_def
      delete_expired_access_def delete_expired_history_def insert_device_request_def
      insert_authorization_def approve_device_def deny_device_def approve_authorization_row_def
      deny_authorization_row_def record_poll_def insert_access_def Let_def known_ids_def
      split: if_splits option.splits)+
qed

lemma live_for_route: "live_for i a d \<longleftrightarrow> route d = (i, a) \<and> live_state d"
  by (auto simp: live_for_def route_def)

lemma frame_deliveries [simp]:
  "links_sound (db\<lparr>lnk_deliveries := ds\<rparr>) = links_sound db"
  "links_sound (db\<lparr>lnk_library := bs\<rparr>) = links_sound db"
  "live_ids (db\<lparr>lnk_deliveries := ds\<rparr>) = live_ids db"
  "known_ids (db\<lparr>lnk_deliveries := ds\<rparr>) = known_ids db"
  "known_ids (db\<lparr>lnk_library := bs\<rparr>) = known_ids db"
  by (simp_all add: links_sound_def live_ids_def known_ids_def)

lemma instances_update_where:
  "(\<And>d. dlv_instance (f d) = dlv_instance d) \<Longrightarrow>
   dlv_instance ` set (update_where p f ds) = dlv_instance ` set ds"
  by (rule keys_update_where)

lemma queue_statements:
  shows "abandon_exhausted clk i m db = db\<lparr>lnk_deliveries :=
      update_where (exhausted clk i m) (settled_row clk Abandoned) (lnk_deliveries db)\<rparr>"
    and "claim_deliveries clk lease i m batch db = (db', rs) \<Longrightarrow>
      db' = db\<lparr>lnk_deliveries := update_where
        (\<lambda>d. dlv_id d \<in> dlv_id ` set (candidates clk i m batch db)) (hand_out lease) (lnk_deliveries db)\<rparr>"
    and "fail_delivery clk reason k db = db\<lparr>lnk_deliveries :=
      update_where (\<lambda>d. dlv_id d = k) (settled_row clk reason) (lnk_deliveries db)\<rparr>"
    and "set_delivery_target target k db = Some db' \<Longrightarrow> db' = db\<lparr>lnk_deliveries :=
      update_where (\<lambda>d. dlv_id d = k)
        (\<lambda>d. d\<lparr>dlv_target := if target = [] then None else Some target\<rparr>) (lnk_deliveries db)\<rparr>"
    and "queue_delivery clk fresh i a expires db = Some (db', r) \<Longrightarrow>
      db' = db \<and> r = None \<and> list_ex (live_for i a) (lnk_deliveries db) \<or>
      (\<exists>d. db' = db\<lparr>lnk_deliveries := lnk_deliveries db @ [d]\<rparr> \<and> r = Some d \<and>
        d = \<lparr>dlv_id = fresh, dlv_instance = i, dlv_asset = a, dlv_state = Queued, dlv_attempts = 0,
             dlv_queued = clk_db clk, dlv_lease = None, dlv_target = None, dlv_settled = None,
             dlv_expires = expires\<rparr> \<and>
        clk_db clk < expires \<and> fresh \<notin> dlv_id ` set (lnk_deliveries db) \<and> i \<in> known_ids db \<and>
        \<not> list_ex (live_for i a) (lnk_deliveries db))"
  by (auto simp: abandon_exhausted_def claim_deliveries_def fail_delivery_def set_delivery_target_def
      queue_delivery_def Let_def list_ex_iff known_ids_def split: if_splits)

lemma queue_change_frames:
  assumes "queue_change st new clk db db'"
  shows "links_sound db \<Longrightarrow> links_sound db'"
    and "dlv_instance ` set (lnk_deliveries db) \<subseteq> known_ids db \<Longrightarrow>
      dlv_instance ` set (lnk_deliveries db') \<subseteq> known_ids db'"
proof -
  show "links_sound db'" if "links_sound db"
    using assms that
    by cases (auto simp: queue_statements(1,3) dest!: queue_statements(2,4,5) intro: change_kept)
  have same: "dlv_instance (settled_row clk reason d) = dlv_instance d"
      "dlv_instance (hand_out lease d) = dlv_instance d" for reason lease d
    by (simp_all add: settled_row_def hand_out_def)
  show "dlv_instance ` set (lnk_deliveries db') \<subseteq> known_ids db'"
    if "dlv_instance ` set (lnk_deliveries db) \<subseteq> known_ids db"
    using assms
  proof cases
    case linked
    then show ?thesis using that change_deliveries by fastforce
  next
    case (handed lease i batch rs)
    then show ?thesis
      using that by (simp add: queue_statements(2) [OF handed] instances_update_where same)
  next
    case (stored fresh i a expires r)
    then show ?thesis using that by (auto dest!: queue_statements(5); blast)
  next
    case (targeted target k)
    then show ?thesis
      using that by (simp add: queue_statements(4) [OF targeted] instances_update_where)
  qed (use that in \<open>auto simp: queue_statements(1,3) instances_update_where same\<close>)
qed

lemma candidates_claimable:
  "d \<in> set (candidates clk i m batch db) \<Longrightarrow> d \<in> set (lnk_deliveries db) \<and> claimable clk i m db d"
  by (auto simp: candidates_def dest!: in_set_takeD)

text \<open>Identifiers are unique, so a claim updates the rows it took.\<close>

lemma taken_claimable:
  assumes "distinct (map dlv_id (lnk_deliveries db))" "d \<in> set (lnk_deliveries db)"
    and "dlv_id d \<in> dlv_id ` set (candidates clk i m batch db)"
  shows "d \<in> set (candidates clk i m batch db) \<and> claimable clk i m db d"
  using assms candidates_claimable one_row by (metis (no_types, lifting) imageE)

lemma moved_rows [simp]:
  "route (settled_row clk reason d) = route d" "route (hand_out lease d) = route d"
  "dlv_id (settled_row clk reason d) = dlv_id d" "dlv_id (hand_out lease d) = dlv_id d"
  "dlv_instance (settled_row clk reason d) = dlv_instance d" "dlv_instance (hand_out lease d) = dlv_instance d"
  "\<not> live_state (settled_row clk reason d)"
  by (simp_all add: settled_row_def hand_out_def route_def live_state_def)

lemma settled_sound: "delivery_sound m d \<Longrightarrow> delivery_sound m (settled_row clk reason d)"
  by (auto simp: settled_row_def delivery_sound_def)

lemma handed_sound:
  "\<lbrakk>claimable clk i m db d; delivery_sound m d\<rbrakk> \<Longrightarrow> delivery_sound m (hand_out lease d) \<and> live_state d"
  by (auto simp: hand_out_def delivery_sound_def live_state_def claimable_def)

lemma queue_change_rows:
  assumes "queue_change st new clk db db'" "queue_sound (set_max_attempts st) (lnk_deliveries db)"
    and "0 \<le> set_max_attempts st"
  shows "queue_sound (set_max_attempts st) (lnk_deliveries db')"
  using assms(1)
proof cases
  case linked
  then show ?thesis using change_deliveries assms(2) queue_sound_filter by metis
next
  case (stored fresh i a expires r)
  then show ?thesis
    using assms(2,3)
    by (auto simp: live_for_route list_ex_iff delivery_sound_def intro!: queue_sound_append
        dest!: queue_statements(5)) (auto simp: route_def)
next
  case (abandoned i)
  then show ?thesis
    using assms(2) by (auto simp: queue_statements(1) settled_sound intro!: queue_sound_update)
next
  case (handed lease i batch rs)
  have "distinct (map dlv_id (lnk_deliveries db))" using assms(2) by (simp add: queue_sound_def)
  then have "delivery_sound (set_max_attempts st) (hand_out lease d) \<and> live_state d"
    if "d \<in> set (lnk_deliveries db)" "delivery_sound (set_max_attempts st) d"
      "dlv_id d \<in> dlv_id ` set (candidates clk i (set_max_attempts st) batch db)" for d
    using taken_claimable that handed_sound by blast
  then show ?thesis
    using assms(2) unfolding queue_statements(2) [OF handed]
    by (auto intro!: queue_sound_update)
next
  case (targeted target k)
  have "delivery_sound (set_max_attempts st) (d\<lparr>dlv_target := if target = [] then None else Some target\<rparr>)"
    if "d \<in> set (lnk_deliveries db)" "delivery_sound (set_max_attempts st) d" "dlv_id d = k" for d
    using targeted that by (auto simp: set_delivery_target_def delivery_sound_def list_ex_iff split: if_splits)
  then show ?thesis
    using assms(2) unfolding queue_statements(4) [OF targeted]
    by (auto simp: route_def live_state_def intro!: queue_sound_update)
next
  case (failed reason k)
  then show ?thesis
    using assms(2) by (auto simp: queue_statements(3) settled_sound intro!: queue_sound_update)
qed (use assms(2) in \<open>auto intro: queue_sound_filter\<close>)

lemma count_filter:
  assumes "lnk_deliveries db' = filter q (lnk_deliveries db)"
  shows "count_live_deliveries j db' \<le> count_live_deliveries j db"
proof -
  have "length (filter p (filter q ds)) \<le> length (filter p ds)" for p and ds :: "delivery_row list"
    by (induction ds) auto
  then show ?thesis by (simp add: count_live_deliveries_def assms)
qed

lemma count_update:
  assumes "\<And>d. dlv_instance (f d) = dlv_instance d"
    and "\<And>d. \<lbrakk>d \<in> set (lnk_deliveries db); p d; live_state (f d)\<rbrakk> \<Longrightarrow> live_state d"
    and "lnk_deliveries db' = update_where p f (lnk_deliveries db)"
  shows "count_live_deliveries j db' \<le> count_live_deliveries j db"
proof -
  let ?q = "\<lambda>d. dlv_instance d = j \<and> live_state d"
  have "length (filter ?q (update_where p f ds)) \<le> length (filter ?q ds)"
    if "set ds \<subseteq> set (lnk_deliveries db)" for ds
    using that assms(1,2) by (induction ds) (auto simp: update_where_def intro: le_SucI)
  then show ?thesis by (simp add: count_live_deliveries_def assms(3))
qed

text \<open>Where no delivery is new, no instance gets another one, nor another live one.\<close>

lemma queue_change_count:
  assumes "queue_change st {} clk db db'" "distinct (map dlv_id (lnk_deliveries db))"
  shows "count_live_deliveries j db' \<le> count_live_deliveries j db"
  using assms(1)
proof cases
  case linked
  then show ?thesis using change_deliveries count_filter by metis
next
  case (mirrored ls)
  then show ?thesis by (simp add: count_live_deliveries_def)
next
  case (dropped q)
  then show ?thesis by (intro count_filter) simp
next
  case (handed lease i batch rs)
  have "live_state d" if "d \<in> set (lnk_deliveries db)"
    "dlv_id d \<in> dlv_id ` set (candidates clk i (set_max_attempts st) batch db)" for d
    using taken_claimable [OF assms(2) that] by (auto simp: claimable_def live_state_def)
  then show ?thesis
    by (intro count_update [of "hand_out lease"]) (auto simp: queue_statements(2) [OF handed])
next
  case (targeted target k)
  show ?thesis
    by (rule count_update [OF _ _ arg_cong [OF queue_statements(4) [OF targeted],
          of lnk_deliveries, simplified]])
      (auto simp: live_state_def)
next
  case (abandoned i)
  show ?thesis
    by (rule count_update [of "settled_row clk Abandoned"]) (auto simp: abandoned queue_statements(1))
next
  case (failed reason k)
  show ?thesis
    by (rule count_update [of "settled_row clk reason"]) (auto simp: failed queue_statements(3))
qed simp

definition deliveries_of :: "uuid \<Rightarrow> link_db \<Rightarrow> nat" where
  "deliveries_of i db = length (filter (\<lambda>d. dlv_instance d = i) (lnk_deliveries db))"

lemma queue_change_rows_of:
  assumes "queue_change st {} clk db db'"
  shows "deliveries_of i db' \<le> deliveries_of i db"
proof -
  have less: "length (filter (\<lambda>d. q d \<and> dlv_instance d = i) ds) \<le>
      length (filter (\<lambda>d. dlv_instance d = i) ds)" for q ds
    by (induction ds) auto
  have same: "length (filter (\<lambda>d. dlv_instance d = i) (update_where p f ds)) =
      length (filter (\<lambda>d. dlv_instance d = i) ds)"
    if "\<And>d. dlv_instance (f d) = dlv_instance d" for p f ds
    using that by (induction ds) (auto simp: update_where_def)
  show ?thesis
    using assms
  proof cases
    case linked
    then obtain q where "lnk_deliveries db' = filter q (lnk_deliveries db)" using change_deliveries by blast
    then show ?thesis using less [of q] by (simp add: deliveries_of_def)
  next
    case (handed lease j batch rs)
    then show ?thesis using queue_statements(2) [OF handed] by (simp add: deliveries_of_def same)
  next
    case (targeted target k)
    then show ?thesis using queue_statements(4) [OF targeted] by (simp add: deliveries_of_def same)
  qed (simp_all add: deliveries_of_def less same queue_statements(1,3))
qed

lemma queue_change_kept:
  "\<lbrakk>queue_change st new clk db db'; deliveries_sound st db; 0 \<le> set_max_attempts st\<rbrakk> \<Longrightarrow>
   deliveries_sound st db'"
  using queue_change_frames [of st new clk db db'] queue_change_rows
  by (auto simp: deliveries_sound_def)

lemma queue_changes_kept:
  "\<lbrakk>queue_changes st new clk db db'; deliveries_sound st db; 0 \<le> set_max_attempts st\<rbrakk> \<Longrightarrow>
   deliveries_sound st db'"
  by (induction rule: rtranclp_induct) (auto intro: queue_change_kept)

section \<open>What a claim does\<close>

text \<open>The decision on one delivery, and what it makes of the row and of the answer.\<close>

definition verdict ::
  "delivery_env \<Rightarrow> int \<Rightarrow> catalog_asset list \<Rightarrow> instance_answer \<Rightarrow> uuid \<Rightarrow>
     delivery_reason + deliverable \<times> string \<times> string" where
  "verdict env now assets inst a =
     (case deliverable_asset env now assets a of
        None \<Rightarrow> Inl Withdrawn
      | Some s \<Rightarrow>
          (case choose_target (dec_targets (ian_declaration inst)) (dvb_targets s) (dvb_original s) of
             None \<Rightarrow> Inl Unsupported
           | Some (target, label) \<Rightarrow> Inr (s, target, label)))"

definition decide ::
  "delivery_reason + deliverable \<times> string \<times> string \<Rightarrow> clocks \<Rightarrow> delivery_row \<Rightarrow> delivery_row" where
  "decide v clk d =
     (case v of
        Inl reason \<Rightarrow> settled_row clk reason d
      | Inr (s, target, label) \<Rightarrow> d\<lparr>dlv_target := if target = [] then None else Some target\<rparr>)"

definition work_of ::
  "delivery_env \<Rightarrow> clocks \<Rightarrow> catalog_asset list \<Rightarrow> instance_answer \<Rightarrow> delivery_row \<Rightarrow> work list" where
  "work_of env clk assets inst d =
     (case verdict env (clk_app clk) assets inst (dlv_asset d) of
        Inl reason \<Rightarrow> []
      | Inr (s, target, label) \<Rightarrow>
          [\<lparr>wrk_id = dlv_id d, wrk_asset = dlv_asset d, wrk_generation = dvb_generation s,
            wrk_kind = dvb_kind s, wrk_name = dvb_name s, wrk_format = target, wrk_label = label,
            wrk_queued = dlv_queued d, wrk_lease = dlv_lease d,
            wrk_artifacts = artifacts env (clk_app clk) (dlv_id d) s\<rparr>])"

lemma decide_kept [simp]:
  "dlv_id (decide v clk d) = dlv_id d" "dlv_asset (decide v clk d) = dlv_asset d"
  "dlv_instance (decide v clk d) = dlv_instance d"
  by (auto simp: decide_def settled_row_def split: sum.split)

lemma queue_changes_one: "queue_change st new clk db db' \<Longrightarrow> queue_changes st new clk db db'"
  by (rule r_into_rtranclp)

lemma release_one_Inr:
  assumes "release_one env clk assets inst n d (db, works) = Inr (db', works')"
  shows "works' = works @ work_of env clk assets inst d"
    and "db' = db\<lparr>lnk_deliveries := update_where (\<lambda>r. dlv_id r = dlv_id d)
      (decide (verdict env (clk_app clk) assets inst (dlv_asset d)) clk) (lnk_deliveries db)\<rparr>"
    and "queue_changes st new clk db db'"
  using assms
  by (auto simp: release_one_def work_of_def verdict_def decide_def [abs_def] queue_statements(3)
      intro: failed [THEN queue_changes_one, unfolded queue_statements(3)] targeted [THEN queue_changes_one]
      dest: queue_statements(4) split: option.splits prod.splits)

text \<open>The rows after the loop over \<open>ds\<close>, each row decided once.\<close>

definition decide_all ::
  "delivery_env \<Rightarrow> clocks \<Rightarrow> catalog_asset list \<Rightarrow> instance_answer \<Rightarrow> delivery_row list \<Rightarrow>
     delivery_row \<Rightarrow> delivery_row" where
  "decide_all env clk assets inst ds r =
     (case the_row dlv_id (dlv_id r) ds of
        None \<Rightarrow> r
      | Some d \<Rightarrow> decide (verdict env (clk_app clk) assets inst (dlv_asset d)) clk r)"

lemma release_all:
  assumes "each_from n (release_one env clk assets inst) ds (db, works) = Inr (db', works')"
    and "distinct (map dlv_id ds)"
  shows "works' = works @ concat (map (work_of env clk assets inst) ds) \<and>
    queue_changes st new clk db db' \<and>
    db' = db\<lparr>lnk_deliveries := map (decide_all env clk assets inst ds) (lnk_deliveries db)\<rparr>"
  using assms
proof (induction ds arbitrary: n db works)
  case Nil
  then show ?case by (simp add: decide_all_def)
next
  case (Cons d ds)
  obtain db1 works1 where one: "release_one env clk assets inst n d (db, works) = Inr (db1, works1)"
      and rest: "each_from (Suc n) (release_one env clk assets inst) ds (db1, works1) = Inr (db', works')"
    using Cons.prems(1) by (auto split: sum.split_asm)
  note step = release_one_Inr(1,2) [OF one] release_one_Inr(3) [OF one, of st new]
  have fresh: "the_row dlv_id (dlv_id d) ds = None"
    using Cons.prems(2) by (simp add: the_row_None)
  have "map (decide_all env clk assets inst ds) (lnk_deliveries db1) =
      map (decide_all env clk assets inst (d # ds)) (lnk_deliveries db)"
    using fresh by (auto simp: step(2) update_where_def decide_all_def)
  moreover note Cons.IH [OF rest]
  ultimately show ?case using step Cons.prems(2) by (auto intro: rtranclp_trans)
qed

lemma claimable_frame [simp]: "claimable clk i m (db\<lparr>lnk_deliveries := ds\<rparr>) = claimable clk i m db"
  by (simp add: claimable_def [abs_def] may_receive_def)

lemma abandoned_claimable:
  assumes "d \<in> set (lnk_deliveries (abandon_exhausted clk i m db))" "claimable clk j n db d"
  shows "d \<in> set (lnk_deliveries db)"
  using assms
  by (auto simp: queue_statements(1) set_update_where claimable_def settled_row_def)

lemma claim_parts:
  assumes "claim env st clk assets inst db = (db', Inr works)"
  obtains db1 db2 claimed where "db1 = abandon_exhausted clk (ian_id inst) (set_max_attempts st) db"
    and "claim_deliveries clk (clk_app clk + set_lease st) (ian_id inst) (set_max_attempts st)
           (set_batch st) db1 = (db2, claimed)"
    and "each (release_one env clk assets inst) claimed (db2, []) = Inr (db', works)"
  using assms by (auto simp: claim_def Let_def split: prod.split_asm sum.split_asm)

lemma claimed_rows:
  assumes "claim_deliveries clk lease i m batch db = (db', rs)" "distinct (map dlv_id (lnk_deliveries db))"
  shows "set rs = hand_out lease ` set (candidates clk i m batch db)" "distinct (map dlv_id rs)"
    and "lnk_deliveries db' = map (\<lambda>d. if dlv_id d \<in> dlv_id ` set (candidates clk i m batch db)
      then hand_out lease d else d) (lnk_deliveries db)"
proof -
  let ?t = "dlv_id ` set (candidates clk i m batch db)"
  have db': "lnk_deliveries db' =
      update_where (\<lambda>d. dlv_id d \<in> ?t) (hand_out lease) (lnk_deliveries db)"
    using queue_statements(2) [OF assms(1)] by simp
  then show "lnk_deliveries db' = map (\<lambda>d. if dlv_id d \<in> ?t then hand_out lease d else d) (lnk_deliveries db)"
    by (simp add: update_where_def)
  have rs: "rs = filter (\<lambda>d. dlv_id d \<in> ?t) (lnk_deliveries db')"
    using assms(1) db' by (auto simp: claim_deliveries_def Let_def)
  show "distinct (map dlv_id rs)"
    unfolding rs db' using assms(2) map_update_where [of dlv_id "hand_out lease"]
    by (simp add: distinct_map_filter)
  have "d \<in> set (candidates clk i m batch db)" if "d \<in> set (lnk_deliveries db)" "dlv_id d \<in> ?t" for d
    using taken_claimable [OF assms(2) that] by simp
  then show "set rs = hand_out lease ` set (candidates clk i m batch db)"
    unfolding rs db' using candidates_claimable [of _ clk i m batch db]
    by (auto simp: set_update_where image_iff)
qed

lemma claim_works:
  assumes "claim env st clk assets inst db = (db', Inr works)" "distinct (map dlv_id (lnk_deliveries db))"
    and "w \<in> set works"
  obtains d s target label where "d \<in> set (lnk_deliveries db)"
    and "claimable clk (ian_id inst) (set_max_attempts st) db d"
    and "verdict env (clk_app clk) assets inst (dlv_asset d) = Inr (s, target, label)"
    and "[w] = work_of env clk assets inst (hand_out (clk_app clk + set_lease st) d)"
    and "(hand_out (clk_app clk + set_lease st) d)\<lparr>dlv_target := if target = [] then None else Some target\<rparr>
      \<in> set (lnk_deliveries db')"
proof -
  let ?h = "hand_out (clk_app clk + set_lease st)"
  obtain db1 db2 claimed where db1: "db1 = abandon_exhausted clk (ian_id inst) (set_max_attempts st) db"
    and claimed: "claim_deliveries clk (clk_app clk + set_lease st) (ian_id inst) (set_max_attempts st)
           (set_batch st) db1 = (db2, claimed)"
    and all: "each (release_one env clk assets inst) claimed (db2, []) = Inr (db', works)"
    using assms(1) by (rule claim_parts)
  have ids: "distinct (map dlv_id (lnk_deliveries db1))"
    using assms(2) map_update_where [of dlv_id "settled_row clk Abandoned"]
    by (simp add: db1 queue_statements(1))
  note rows = claimed_rows [OF claimed ids]
  have result: "works = concat (map (work_of env clk assets inst) claimed)"
      "lnk_deliveries db' = map (decide_all env clk assets inst claimed) (lnk_deliveries db2)"
    using release_all [OF all rows(2), of st "{}" ] by auto
  obtain r where r: "r \<in> set claimed" "w \<in> set (work_of env clk assets inst r)"
    using assms(3) result(1) by auto
  then obtain d where d: "r = ?h d" "d \<in> set (candidates clk (ian_id inst) (set_max_attempts st) (set_batch st) db1)"
    using rows(1) by auto
  have there: "d \<in> set (lnk_deliveries db1)" "claimable clk (ian_id inst) (set_max_attempts st) db d"
    using candidates_claimable [OF d(2)] by (auto simp: db1 queue_statements(1))
  have old: "d \<in> set (lnk_deliveries db)"
    using abandoned_claimable there unfolding db1 by blast
  obtain s target label where v: "verdict env (clk_app clk) assets inst (dlv_asset d) = Inr (s, target, label)"
    using r(2) d(1) by (cases "verdict env (clk_app clk) assets inst (dlv_asset d)")
      (auto simp: work_of_def hand_out_def)
  have "?h d \<in> set (lnk_deliveries db2)"
    using rows(3) there(1) d(2) by (auto simp: image_iff)
  then have "decide_all env clk assets inst claimed (?h d) \<in> set (lnk_deliveries db')"
    using result(2) by simp
  moreover have "the_row dlv_id (dlv_id d) claimed = Some (?h d)"
    using the_row_iff [OF rows(2)] r(1) d(1) by simp
  ultimately have "(?h d)\<lparr>dlv_target := if target = [] then None else Some target\<rparr> \<in> set (lnk_deliveries db')"
    using v by (simp add: decide_all_def decide_def hand_out_def)
  moreover have "[w] = work_of env clk assets inst (?h d)"
    using r d v by (auto simp: work_of_def hand_out_def)
  ultimately show thesis using that old there(2) v by blast
qed

section \<open>Calls are sequences of changes\<close>

named_theorems delivery_changes

lemma changes_queue: "changes clk db db' \<Longrightarrow> queue_changes st new clk db db'"
  by (induction rule: rtranclp_induct) (auto intro: linked rtranclp.rtrancl_into_rtrancl)

lemma live_by_id_live:
  "live_by_id user i db = Inr inst \<Longrightarrow> i \<in> live_ids db \<and>
     (\<exists>r \<in> set (lnk_instances db). ins_id r = i \<and> ins_user r = user \<and> live r \<and> inst = answer_of r)"
  by (auto simp: live_by_id_def live_instance_def or_refuse_def live_ids_def and_then_Inr find_Some_iff
      split: option.split_asm)

lemma press_changes [delivery_changes]:
  assumes "press_step env st clk assets p db = (db', p')" "prs_fresh p \<in> new"
  shows "queue_changes st new clk db db'"
proof (cases "prs_stage p")
  case Pressed
  then have "\<exists>r. throttle (dle_links env) clk ''delivery-queue'' (uuid_text (prs_user p)) queue_limit
      an_hour db = (db', r)"
    using assms(1) by (auto simp: press_step_def next_stage_def split: prod.split_asm sum.split_asm)
  then show ?thesis using changes_queue throttle_changes by blast
next
  case Counted
  then show ?thesis
    using assms
    by (auto simp: press_step_def next_stage_def store_delivery_def intro: queue_changes_one stored
        split: option.split_asm prod.split_asm)
qed (use assms(1) in \<open>auto simp: press_step_def next_stage_def\<close>)

lemma discard_changes [delivery_changes]:
  "discard user k db = (db', r) \<Longrightarrow> queue_changes st new clk db db'"
  by (auto simp: discard_def discard_delivery_def intro: dropped [THEN queue_changes_one])

lemma acknowledge_changes [delivery_changes]:
  "queue_changes st new clk db (acknowledge_deliveries i ks db)"
  by (auto simp: acknowledge_deliveries_def intro: dropped [THEN queue_changes_one])

lemma claim_changes [delivery_changes]:
  assumes "claim env st clk assets inst db = (db', r)" "distinct (map dlv_id (lnk_deliveries db))"
  shows "queue_changes st new clk db db'"
proof (cases r)
  case (Inl e)
  then show ?thesis using assms by (auto simp: claim_def Let_def split: prod.split_asm sum.split_asm)
next
  case (Inr works)
  obtain db1 db2 claimed where db1: "db1 = abandon_exhausted clk (ian_id inst) (set_max_attempts st) db"
    and claimed: "claim_deliveries clk (clk_app clk + set_lease st) (ian_id inst) (set_max_attempts st)
           (set_batch st) db1 = (db2, claimed)"
    and all: "each (release_one env clk assets inst) claimed (db2, []) = Inr (db', works)"
    using assms(1) unfolding Inr by (rule claim_parts)
  have "distinct (map dlv_id (lnk_deliveries db1))"
    using assms(2) map_update_where [of dlv_id "settled_row clk Abandoned"]
    by (simp add: db1 queue_statements(1))
  then have "queue_changes st new clk db2 db'"
    using release_all [OF all claimed_rows(2) [OF claimed]] by blast
  moreover have "queue_changes st new clk db1 db2" by (rule queue_changes_one [OF handed [OF claimed]])
  moreover have "queue_changes st new clk db db1" unfolding db1 by (rule queue_changes_one [OF abandoned])
  ultimately show ?thesis by (auto intro: rtranclp_trans)
qed

lemma report_rows:
  "report_library_entries clk assets i reported db = Some (db', n) \<Longrightarrow> \<exists>ls. db' = db\<lparr>lnk_library := ls\<rparr>"
  by (auto simp: report_library_entries_def Let_def split: if_splits)

lemma sync_changes [delivery_changes]:
  assumes "sync_checked clk assets inst rep entries removed db = (db', r)"
  shows "queue_changes st new clk db db'"
proof -
  have "\<exists>ls. db' = db\<lparr>lnk_library := ls\<rparr>"
    using assms
    by (auto simp: sync_checked_def Let_def prune_library_def remove_library_entries_def
        dest!: report_rows split: option.split_asm prod.split_asm if_split_asm
        intro: exI [of _ "lnk_library db"])
  then show ?thesis using mirrored queue_changes_one by metis
qed

lemma sweep_changes [delivery_changes]: "queue_changes st new clk db (sweep clk db)"
  using delete_expired_filter [of dlv_expires sweep_batch "clk_db clk" "lnk_deliveries db"]
  by (auto simp: sweep_def delete_expired_deliveries_def intro: dropped [THEN queue_changes_one])

section \<open>Runs\<close>

text \<open>
  What is committed at once: a call of the linking service, a transaction of the delivery
  service, or one of its statements outside a transaction.
\<close>

inductive delivery_call :: "delivery_env \<Rightarrow> settings \<Rightarrow> clocks \<Rightarrow> link_db \<Rightarrow> link_db \<Rightarrow> bool"
  for env :: delivery_env and st :: settings and clk :: clocks where
  linking: "link_step (dle_links env) clk db db' \<Longrightarrow> delivery_call env st clk db db'"
| rated:
    "throttle (dle_links env) clk action source limit window db = (db', u) \<Longrightarrow>
     delivery_call env st clk db db'"
| discarded: "discard user k db = (db', d) \<Longrightarrow> delivery_call env st clk db db'"
| acknowledged: "delivery_call env st clk db (acknowledge_deliveries i ks db)"
| claimed: "claim env st clk assets inst db = (db', w) \<Longrightarrow> delivery_call env st clk db db'"
| reported:
    "sync_checked clk assets inst rep entries removed db = (db', l) \<Longrightarrow> delivery_call env st clk db db'"
| swept: "delivery_call env st clk db (sweep clk db)"

text \<open>The tables also move by the statements of presses, wherever those have got.\<close>

inductive delivery_step :: "delivery_env \<Rightarrow> settings \<Rightarrow> uuid set \<Rightarrow> clocks \<Rightarrow> link_db \<Rightarrow> link_db \<Rightarrow> bool"
  for env :: delivery_env and st :: settings and new :: "uuid set" and clk :: clocks where
  called: "delivery_call env st clk db db' \<Longrightarrow> delivery_step env st new clk db db'"
| pressed:
    "\<lbrakk>press_step env st clk assets p db = (db', p'); prs_fresh p \<in> new\<rbrakk> \<Longrightarrow>
     delivery_step env st new clk db db'"

definition any_step :: "delivery_env \<Rightarrow> settings \<Rightarrow> link_db \<Rightarrow> link_db \<Rightarrow> bool" where
  "any_step env st db db' \<longleftrightarrow> (\<exists>clk. delivery_step env st UNIV clk db db')"

abbreviation delivery_run :: "delivery_env \<Rightarrow> settings \<Rightarrow> link_db \<Rightarrow> link_db \<Rightarrow> bool" where
  "delivery_run env st \<equiv> (any_step env st)\<^sup>*\<^sup>*"

lemma delivery_call_changes:
  assumes "delivery_call env st clk db db'" "distinct (map dlv_id (lnk_deliveries db))"
  shows "queue_changes st {} clk db db'"
  using assms
  by cases (blast intro: delivery_changes changes_queue link_step_changes throttle_changes)+

lemma delivery_step_changes:
  assumes "delivery_step env st new clk db db'" "distinct (map dlv_id (lnk_deliveries db))"
  shows "queue_changes st new clk db db'"
  using assms(1)
proof cases
  case called
  then show ?thesis using queue_changes_more [OF delivery_call_changes [OF _ assms(2)]] by blast
next
  case (pressed assets p p')
  then show ?thesis by (rule press_changes)
qed

lemma delivery_step_kept:
  assumes "delivery_step env st new clk db db'" "deliveries_sound st db" "0 \<le> set_max_attempts st"
  shows "deliveries_sound st db'"
  using queue_changes_kept [OF delivery_step_changes [OF assms(1)] assms(2,3)] assms(2)
  by (simp add: deliveries_sound_def queue_sound_def)

lemma delivery_run_kept:
  "\<lbrakk>delivery_run env st db db'; deliveries_sound st db; 0 \<le> set_max_attempts st\<rbrakk> \<Longrightarrow>
   deliveries_sound st db'"
  by (induction rule: rtranclp_induct) (auto simp: any_step_def intro: delivery_step_kept)

text \<open>A whole call with nothing between its statements is a run.\<close>

lemma call_run: "delivery_call env st clk db db' \<Longrightarrow> delivery_run env st db db'"
  by (rule r_into_rtranclp) (auto simp: any_step_def intro: called)

lemma after_throttle:
  assumes "throttled_run env clk action source limit db k = (db', r)"
    and "\<And>db1. k db1 = (db', r) \<Longrightarrow> delivery_run env st db1 db'"
  shows "delivery_run env st db db'"
proof (cases "throttle (dle_links env) clk action source limit an_hour db")
  case (Pair db1 s)
  then have "delivery_run env st db db1" by (rule call_run [OF rated])
  then show ?thesis
    using assms Pair by (cases s) (auto simp: throttled_run_def intro: rtranclp_trans)
qed

lemma acknowledge_run: "acknowledge env st clk inst ks db = (db', r) \<Longrightarrow> delivery_run env st db db'"
  by (auto simp: acknowledge_def intro: call_run [OF acknowledged] elim!: after_throttle split: if_split_asm)

lemma sync_run: "sync env st clk assets inst rep db = (db', r) \<Longrightarrow> delivery_run env st db db'"
  by (auto simp: sync_def intro: call_run [OF reported] elim!: after_throttle split: sum.split_asm)

lemma press_alone_run:
  "press_alone env st clk assets n p db = (db', p') \<Longrightarrow> delivery_run env st db db'"
proof (induction n arbitrary: db' p')
  case (Suc n)
  obtain db1 p1 where one: "press_alone env st clk assets n p db = (db1, p1)" by fastforce
  then have "press_step env st clk assets p1 db1 = (db', p')"
    using Suc.prems by (simp add: press_alone_def)
  then have "any_step env st db1 db'" by (auto simp: any_step_def intro: pressed)
  then show ?case using Suc.IH [OF one] by (rule rtranclp.rtrancl_into_rtrancl [rotated])
qed (simp add: press_alone_def)

lemma queue_run: "queue env st clk assets fresh user i a db = (db', s) \<Longrightarrow> delivery_run env st db db'"
  by (auto simp: queue_def intro: press_alone_run split: prod.split_asm)

end
