(* ===== verification/DeliveryGrants.thy ===== *)
theory DeliveryGrants
  imports DeliveryRuns
begin

text \<open>
  What the users of the queue rest on: a delivery is lent to one claim at a time, nothing is sent
  to an instance that was revoked.
\<close>

section \<open>Leases\<close>

text \<open>\<open>used s k t\<close>: nobody else is lent \<open>k\<close> before \<open>t\<close>.\<close>

locale lent = remembered clock move sound used
  for clock :: "'c \<Rightarrow> int"
    and move :: "'c \<Rightarrow> 's \<Rightarrow> 's \<Rightarrow> bool"
    and sound :: "'s \<Rightarrow> bool"
    and used :: "'s \<Rightarrow> 'k \<Rightarrow> int \<Rightarrow> bool" +
  fixes lends :: "'s \<Rightarrow> 'c \<Rightarrow> 'k \<Rightarrow> 's \<Rightarrow> bool"
    and until :: "'c \<Rightarrow> int"
  assumes lend_sound: "\<lbrakk>sound s; lends s c k s'\<rbrakk> \<Longrightarrow> sound s'"
    and lend_used: "\<lbrakk>sound s; lends s c k s'\<rbrakk> \<Longrightarrow> used s' k (until c)"
    and used_not_lent: "\<lbrakk>sound s; used s k t; clock c < t\<rbrakk> \<Longrightarrow> \<not> lends s c k s'"
begin

lemma lent_alone:
  assumes "sound s" "lends s c k s1" "run_before clock move (until c) s1 s2" "clock c' < until c"
  shows "\<not> lends s2 c' k s3"
  using run_remembers [OF assms(3)] lend_sound [OF assms(1,2)] lend_used [OF assms(1,2)]
    used_not_lent assms(4) by blast

end

definition held_until :: "uuid set \<Rightarrow> link_db \<Rightarrow> uuid \<Rightarrow> int \<Rightarrow> bool" where
  "held_until new db k t \<longleftrightarrow> k \<notin> new \<and>
     (\<forall>d \<in> set (lnk_deliveries db). dlv_id d = k \<longrightarrow>
        dlv_state d = Failed \<or> dlv_state d = Released \<and> (\<exists>l \<ge> t. dlv_lease d = Some l))"

lemma held_not_claimable:
  "\<lbrakk>held_until new db (dlv_id d) t; d \<in> set (lnk_deliveries db); clk_db clk < t\<rbrakk> \<Longrightarrow>
   \<not> claimable clk i m db d"
  by (auto simp: held_until_def claimable_def lease_over_def)

lemma queue_change_holds:
  assumes "queue_change st new clk db db'" "held_until new db k t" "clk_db clk < t"
    and "distinct (map dlv_id (lnk_deliveries db))"
  shows "held_until new db' k t"
  using assms(1)
proof cases
  case linked
  then show ?thesis using change_deliveries assms(2) by (fastforce simp: held_until_def)
next
  case (stored fresh i a expires r)
  then show ?thesis using assms(2) by (auto simp: held_until_def dest!: queue_statements(5))
next
  case (handed lease i batch rs)
  have "dlv_id d \<noteq> k"
    if "d \<in> set (lnk_deliveries db)" "dlv_id d \<in> dlv_id ` set (candidates clk i (set_max_attempts st) batch db)"
    for d
    using taken_claimable [OF assms(4) that] held_not_claimable that(1) assms(2,3) by blast
  then have "d \<in> set (lnk_deliveries db)" if "d \<in> set (lnk_deliveries db')" "dlv_id d = k" for d
    using that by (force simp: queue_statements(2) [OF handed] set_update_where)
  then show ?thesis using assms(2) unfolding held_until_def by blast
next
  case (targeted target k')
  then show ?thesis
    using assms(2) by (auto simp: held_until_def queue_statements(4) [OF targeted] set_update_where)
qed (use assms(2) in \<open>auto simp: held_until_def queue_statements(1,3) set_update_where settled_row_def\<close>)

lemma queue_changes_hold:
  assumes "queue_changes st new clk db db'" "held_until new db k t" "clk_db clk < t"
    and "deliveries_sound st db" "0 \<le> set_max_attempts st"
  shows "held_until new db' k t"
proof -
  have "held_until new db' k t \<and> deliveries_sound st db'"
    using assms(1)
  proof (induction rule: rtranclp_induct)
    case (step db1 db2)
    then show ?case
      using queue_change_holds [OF step(2) _ assms(3)] queue_change_kept [OF step(2) _ assms(5)]
      by (auto simp: deliveries_sound_def queue_sound_def)
  qed (use assms in simp)
  then show ?thesis ..
qed

lemma sound_ids: "deliveries_sound st db \<Longrightarrow> distinct (map dlv_id (lnk_deliveries db))"
  by (simp add: deliveries_sound_def queue_sound_def)

lemma claim_kept:
  assumes "claim env st clk assets inst db = (db', r)" "deliveries_sound st db" "0 \<le> set_max_attempts st"
  shows "deliveries_sound st db'"
  using queue_changes_kept [OF claim_changes [OF assms(1) sound_ids [OF assms(2)]] assms(2,3)] .

text \<open>A claim that hands out the delivery \<open>k\<close>.\<close>

definition hands_out ::
  "delivery_env \<Rightarrow> settings \<Rightarrow> uuid set \<Rightarrow> link_db \<Rightarrow> clocks \<Rightarrow> uuid \<Rightarrow> link_db \<Rightarrow> bool" where
  "hands_out env st new db clk k db' \<longleftrightarrow> k \<notin> new \<and>
     (\<exists>assets inst works. claim env st clk assets inst db = (db', Inr works) \<and> k \<in> wrk_id ` set works)"

lemma hands_out_kept:
  "\<lbrakk>deliveries_sound st db; hands_out env st new db clk k db'; 0 \<le> set_max_attempts st\<rbrakk> \<Longrightarrow>
   deliveries_sound st db'"
  by (auto simp: hands_out_def intro: claim_kept)

lemma work_id: "[w] = work_of env clk assets inst d \<Longrightarrow> wrk_id w = dlv_id d"
  by (auto simp: work_of_def split: sum.split_asm)

lemma handed_out_held:
  assumes "deliveries_sound st db" "hands_out env st new db clk k db'" "0 \<le> set_max_attempts st"
  shows "held_until new db' k (clk_app clk + set_lease st)"
proof -
  obtain assets inst works w where run: "claim env st clk assets inst db = (db', Inr works)"
      "w \<in> set works" "k = wrk_id w" and new: "k \<notin> new"
    using assms(2) by (auto simp: hands_out_def)
  obtain d target where d: "[w] = work_of env clk assets inst (hand_out (clk_app clk + set_lease st) d)"
      "(hand_out (clk_app clk + set_lease st) d)\<lparr>dlv_target := if target = [] then None else Some target\<rparr>
        \<in> set (lnk_deliveries db')"
    using claim_works [OF run(1) sound_ids [OF assms(1)] run(2)] by metis
  let ?r = "(hand_out (clk_app clk + set_lease st) d)\<lparr>dlv_target := if target = [] then None else Some target\<rparr>"
  have "e = ?r" if "e \<in> set (lnk_deliveries db')" "dlv_id e = k" for e
    using one_row [OF sound_ids [OF claim_kept [OF run(1) assms(1,3)]] that(1) d(2)] that(2)
      work_id [OF d(1)] run(3) by simp
  moreover have "dlv_state ?r = Released" "dlv_lease ?r = Some (clk_app clk + set_lease st)"
    by (simp_all add: hand_out_def)
  ultimately show ?thesis using new unfolding held_until_def by (metis order_refl)
qed

lemma held_not_handed_out:
  assumes "deliveries_sound st db" "held_until new db k t" "clk_db clk < t"
  shows "\<not> hands_out env st new db clk k db'"
proof
  assume "hands_out env st new db clk k db'"
  then obtain assets inst works w where run: "claim env st clk assets inst db = (db', Inr works)"
      "w \<in> set works" "k = wrk_id w"
    by (auto simp: hands_out_def)
  obtain d where d: "d \<in> set (lnk_deliveries db)" "claimable clk (ian_id inst) (set_max_attempts st) db d"
      "[w] = work_of env clk assets inst (hand_out (clk_app clk + set_lease st) d)"
    using claim_works [OF run(1) sound_ids [OF assms(1)] run(2)] by metis
  then show False using held_not_claimable [OF _ d(1) assms(3)] assms(2) work_id [OF d(3)] run(3) by auto
qed

interpretation leases: lent clk_db "delivery_step env st new"
    "\<lambda>db. deliveries_sound st db \<and> 0 \<le> set_max_attempts st"
    "held_until new" "hands_out env st new" "\<lambda>clk. clk_app clk + set_lease st"
  for env st new
proof unfold_locales
  fix s k t c s'
  assume s: "deliveries_sound st s \<and> 0 \<le> set_max_attempts st" "delivery_step env st new c s s'"
  show "deliveries_sound st s' \<and> 0 \<le> set_max_attempts st" using s delivery_step_kept by blast
  assume "held_until new s k t" "clk_db c < t"
  then show "held_until new s' k t"
    using queue_changes_hold delivery_step_changes [OF s(2) sound_ids] s(1) by blast
qed (auto intro: hands_out_kept handed_out_held dest: held_not_handed_out)

section \<open>Instances that were cut off\<close>

lemma queue_change_cut:
  assumes "queue_change st new clk db db'" "links_sound db" "instance_status db i = CutOff u"
  shows "instance_status db' i = CutOff u"
  using assms(1)
proof cases
  case linked
  have "spec_run (spec_of db) (spec_of db')" using change_promise [OF linked assms(2)] .
  then have "spc_instances (spec_of db') i = CutOff u"
    by (induction rule: rtranclp_induct) (use assms(3) spec_cut_stays in auto)
  then show ?thesis by simp
qed (use assms(3) in \<open>auto simp: instance_status_def queue_statements(1,3) dest!: queue_statements(2,4,5)\<close>)

lemma queue_changes_cut:
  assumes "queue_changes st new clk db db'" "links_sound db" "instance_status db i = CutOff u"
  shows "links_sound db' \<and> instance_status db' i = CutOff u"
  using assms(1)
  by (induction rule: rtranclp_induct) (use assms(2,3) queue_change_cut queue_change_frames(1) in blast)+

lemma delivery_run_cut:
  assumes "delivery_run env st db db'" "deliveries_sound st db" "0 \<le> set_max_attempts st"
    and "instance_status db i = CutOff u"
  shows "deliveries_sound st db' \<and> instance_status db' i = CutOff u"
  using assms(1)
proof (induction rule: rtranclp_induct)
  case (step db1 db2)
  then obtain clk where move: "delivery_step env st UNIV clk db1 db2" by (auto simp: any_step_def)
  have "queue_changes st UNIV clk db1 db2"
    using delivery_step_changes [OF move sound_ids] step.IH by blast
  then show ?case
    using queue_changes_cut delivery_step_kept [OF move _ assms(3)] step.IH
    by (auto simp: deliveries_sound_def)
qed (use assms in simp)

lemma cut_off_not_live:
  "\<lbrakk>links_sound db; instance_status db i = CutOff u\<rbrakk> \<Longrightarrow> i \<notin> live_ids db"
  using live_row_status by (force simp: live_ids_def)

lemma cut_off_not_receiving:
  "\<lbrakk>links_sound db; instance_status db i = CutOff u\<rbrakk> \<Longrightarrow> \<not> may_receive i db"
  using cut_off_not_live by (fastforce simp: may_receive_def live_ids_def list_ex_iff)

lemma cut_off_not_fetched:
  assumes "deliveries_sound st db" "instance_status db i = CutOff u"
    and "artifact env clk k e signature db = Inr x" "d \<in> set (lnk_deliveries db)" "dlv_id d = k"
  shows "dlv_instance d \<noteq> i"
proof
  assume i: "dlv_instance d = i"
  have "delivery_for_artifact clk k db \<noteq> None"
    using assms(3) by (auto simp: artifact_def or_refuse_def split: if_split_asm option.split_asm)
  then obtain r where "find (fetchable clk k db) (lnk_deliveries db) = Some r"
    by (auto simp: delivery_for_artifact_def split: option.split_asm)
  then have r: "r \<in> set (lnk_deliveries db)" "fetchable clk k db r"
    by (metis find_Some_iff nth_mem)+
  then have "r = d"
    using one_row [OF sound_ids [OF assms(1)]] assms(4,5) by (simp add: fetchable_def)
  then show False
    using r(2) i cut_off_not_receiving [OF _ assms(2)] assms(1) by (auto simp: fetchable_def deliveries_sound_def)
qed

lemma cut_off_no_work:
  assumes "deliveries_sound st db" "instance_status db i = CutOff u"
    and "claim env st clk assets inst db = (db', Inr works)" "ian_id inst = i"
  shows "works = []"
proof (rule ccontr)
  assume "works \<noteq> []"
  then obtain w where "w \<in> set works" by (cases works) auto
  then obtain d where "d \<in> set (lnk_deliveries db)" "claimable clk (ian_id inst) (set_max_attempts st) db d"
    using claim_works [OF assms(3) sound_ids [OF assms(1)]] by metis
  then show False
    using cut_off_not_receiving [OF _ assms(2)] assms(1,4) by (auto simp: claimable_def deliveries_sound_def)
qed

end
