(* ===== verification/DeliveryFacts.thy ===== *)
theory DeliveryFacts
  imports DeliveryGrants
begin

text \<open>
  The facts behind the properties of the delivery service: which format is chosen and for whom,
  which deliveries a claim serves, what a signature vouches for, what the mirror says and which
  requests wait.
\<close>

section \<open>Formats\<close>

text \<open>The first accepted format that can be had, or else the file itself where it may go out.\<close>

definition can_have :: "(string \<times> string) list \<Rightarrow> bool \<Rightarrow> string \<Rightarrow> bool" where
  "can_have offered original wanted \<longleftrightarrow>
     wanted \<in> fst ` set offered \<or> wanted = raw_download_target \<and> original"

lemma can_have_offer:
  "can_have offered original wanted \<longleftrightarrow>
     map_of (rev offered) wanted \<noteq> None \<or> wanted = raw_download_target \<and> original"
  using map_of_eq_None_iff [of "rev offered" wanted] by (auto simp: can_have_def)

lemma choose_from_first:
  "map_option fst (choose_from offered original ws) =
     (case find (can_have offered original) ws of
        Some w \<Rightarrow> Some w
      | None \<Rightarrow> if original then Some raw_download_target else None)"
  by (induction ws) (auto simp: can_have_offer split: option.split)

lemma choose_from_label:
  "choose_from offered original ws = Some (target, label) \<Longrightarrow>
   map_of (rev offered) target = Some label \<or>
   target = raw_download_target \<and> label = raw_label \<and> original"
  by (induction ws) (auto split: option.split_asm if_split_asm)

lemma choose_from_accepted:
  "choose_from offered original ws = Some (target, label) \<Longrightarrow>
   target \<in> set ws \<and> (target, label) \<in> set offered \<or>
   target = raw_download_target \<and> original"
  by (induction ws) (auto dest: map_of_SomeD split: option.split_asm if_split_asm)

lemma deliverable_of:
  assumes "deliverable_asset env now assets k = Some s"
  obtains a where "sendable_asset assets k = Some a" "dvb_kind s = cat_kind a"
    and "dvb_original s \<longleftrightarrow> cat_apps a = [] \<and> cat_original a"
    and "dvb_generation s = cat_generation a"
    and "set (dvb_targets s) = {p \<in> (case cat_export a of None \<Rightarrow> {} | Some ts \<Rightarrow> set ts).
      cat_apps a \<noteq> [] \<longrightarrow> target_allowed (cat_apps a) (cat_kind a) (fst p)}"
  using assms
  by (fastforce simp: deliverable_asset_def Let_def split: option.split_asm if_split_asm)

lemma sealed_targets:
  "target_allowed accepting kind target \<Longrightarrow> kind = ''preset'' \<and> target = ''preset_lumiverse''"
  by (auto simp: target_allowed_def app_targets_def list_ex_iff split: if_split_asm)

lemma verdict_sendable:
  assumes "verdict env now assets inst k = Inr (s, target, label)"
  obtains a where "sendable_asset assets k = Some a" "dvb_generation s = cat_generation a"
    and "cat_apps a = [] \<or> cat_kind a = ''preset'' \<and> target = ''preset_lumiverse''"
    and "target \<in> set (case dec_targets (ian_declaration inst) of None \<Rightarrow> [] | Some ws \<Rightarrow> ws) \<and>
        (target, label) \<in> set (case cat_export a of None \<Rightarrow> [] | Some ts \<Rightarrow> ts) \<or>
      target = raw_download_target \<and> cat_original a"
proof -
  have s: "deliverable_asset env now assets k = Some s"
    and chosen: "choose_from (dvb_targets s) (dvb_original s)
      (case dec_targets (ian_declaration inst) of None \<Rightarrow> [] | Some ws \<Rightarrow> ws) = Some (target, label)"
    using assms by (auto simp: verdict_def choose_target_def split: option.split_asm)
  obtain a where a: "sendable_asset assets k = Some a" "dvb_generation s = cat_generation a"
    "dvb_original s \<longleftrightarrow> cat_apps a = [] \<and> cat_original a"
    "set (dvb_targets s) = {p \<in> (case cat_export a of None \<Rightarrow> {} | Some ts \<Rightarrow> set ts).
      cat_apps a \<noteq> [] \<longrightarrow> target_allowed (cat_apps a) (cat_kind a) (fst p)}"
    using s by (rule deliverable_of)
  from choose_from_accepted [OF chosen] show thesis
    using a sealed_targets by (intro that [of a]) (auto split: option.split_asm option.split)
qed

section \<open>Whom a claim serves\<close>

lemma take_sorted_key:
  assumes "sorted (map f xs)" "x \<in> set (take n xs)" "y \<in> set xs" "y \<notin> set (take n xs)"
  shows "f x \<le> f y"
proof -
  have "y \<in> set (drop n xs)" using assms(3,4) by (metis Un_iff append_take_drop_id set_append)
  moreover have "sorted (map f (take n xs @ drop n xs))" using assms(1) by simp
  ultimately show ?thesis using assms(2) by (auto simp only: map_append sorted_append set_map)
qed

lemma candidates_oldest:
  assumes "d \<in> set (lnk_deliveries db)" "claimable clk i m db d"
    and "d \<notin> set (candidates clk i m batch db)"
  shows "length (candidates clk i m batch db) = batch"
    and "\<And>e. e \<in> set (candidates clk i m batch db) \<Longrightarrow> dlv_queued e \<le> dlv_queued d"
proof -
  let ?ys = "sort_key dlv_queued (sort_key dlv_id (filter (claimable clk i m db) (lnk_deliveries db)))"
  have d: "d \<in> set ?ys" "d \<notin> set (take batch ?ys)" using assms by (auto simp: candidates_def)
  then have "batch < length ?ys" by (metis leI take_all)
  then show "length (candidates clk i m batch db) = batch" by (simp add: candidates_def)
  show "dlv_queued e \<le> dlv_queued d" if "e \<in> set (candidates clk i m batch db)" for e
    using take_sorted_key [OF sorted_sort_key _ d] that by (simp add: candidates_def)
qed

lemma abandon_keeps_claimable:
  assumes "d \<in> set (lnk_deliveries db)" "claimable clk i m db d"
  shows "d \<in> set (lnk_deliveries (abandon_exhausted clk i m db))"
  using assms by (auto simp: queue_statements(1) set_update_where exhausted_def claimable_def)

lemma claim_serves:
  assumes run: "claim env st clk assets inst db = (db', Inr works)"
    and ids: "distinct (map dlv_id (lnk_deliveries db))"
    and d: "d \<in> set (lnk_deliveries db)" "claimable clk (ian_id inst) (set_max_attempts st) db d"
  obtains "set (work_of env clk assets inst (hand_out (clk_app clk + set_lease st) d)) \<subseteq> set works"
  | es where "length es = set_batch st" "distinct (map dlv_id es)" "set es \<subseteq> set (lnk_deliveries db)"
    and "\<forall>e \<in> set es. claimable clk (ian_id inst) (set_max_attempts st) db e \<and> dlv_queued e \<le> dlv_queued d \<and>
      (\<exists>r \<in> set (lnk_deliveries db'). dlv_id r = dlv_id e \<and> dlv_attempts r = dlv_attempts e + 1)"
proof -
  obtain db1 db2 claimed where db1: "db1 = abandon_exhausted clk (ian_id inst) (set_max_attempts st) db"
    and claimed: "claim_deliveries clk (clk_app clk + set_lease st) (ian_id inst) (set_max_attempts st)
           (set_batch st) db1 = (db2, claimed)"
    and all: "each (release_one env clk assets inst) claimed (db2, []) = Inr (db', works)"
    using run by (rule claim_parts)
  let ?c = "candidates clk (ian_id inst) (set_max_attempts st) (set_batch st) db1"
  have ids1: "distinct (map dlv_id (lnk_deliveries db1))"
    using ids map_update_where [of dlv_id "settled_row clk Abandoned"]
    by (simp add: db1 queue_statements(1))
  have here: "d \<in> set (lnk_deliveries db1)" "claimable clk (ian_id inst) (set_max_attempts st) db1 d"
    using abandon_keeps_claimable d by (auto simp: db1 queue_statements(1))
  show thesis
  proof (cases "d \<in> set ?c")
    case True
    then have "hand_out (clk_app clk + set_lease st) d \<in> set claimed"
      using claimed_rows(1) [OF claimed ids1] by simp
    then show ?thesis
      using that(1) release_all [OF all claimed_rows(2) [OF claimed ids1], of st "{}"] by auto
  next
    case False
    have "distinct (map dlv_id ?c)"
      using ids1 by (simp add: candidates_def distinct_map distinct_take) (auto intro!: inj_onI dest!: in_set_takeD
        dest: inj_onD)
    moreover have "e \<in> set (lnk_deliveries db)" "claimable clk (ian_id inst) (set_max_attempts st) db e"
      if "e \<in> set ?c" for e
      using candidates_claimable [OF that] abandoned_claimable
      by (auto simp: db1 queue_statements(1))
    moreover have "\<exists>r \<in> set (lnk_deliveries db'). dlv_id r = dlv_id e \<and> dlv_attempts r = dlv_attempts e + 1"
      if e: "e \<in> set ?c" for e
    proof -
      let ?h = "hand_out (clk_app clk + set_lease st) e"
      have "?h \<in> set (lnk_deliveries db2)"
        using claimed_rows(3) [OF claimed ids1] candidates_claimable [OF e] e by (auto simp: image_iff)
      moreover have "lnk_deliveries db' = map (decide_all env clk assets inst claimed) (lnk_deliveries db2)"
        using release_all [OF all claimed_rows(2) [OF claimed ids1], of st "{}"] by auto
      ultimately have "decide_all env clk assets inst claimed ?h \<in> set (lnk_deliveries db')" by simp
      then show ?thesis
        by (rule bexI [rotated]) (auto simp: decide_all_def decide_def settled_row_def hand_out_def split: option.split sum.split)
    qed
    ultimately show ?thesis
      using that(2) [of ?c] candidates_oldest [OF here False] by auto
  qed
qed

text \<open>A claim goes through when every format it may choose fits its column.\<close>

lemma release_one_runs:
  assumes "\<forall>a \<in> set assets. \<forall>p \<in> set (case cat_export a of None \<Rightarrow> [] | Some ts \<Rightarrow> ts). target_fits (fst p)"
  shows "\<exists>r. release_one env clk assets inst n d s = Inr r"
proof (cases s)
  case (Pair db works)
  have raw: "target_fits raw_download_target" by code_simp
  have "target_fits target" if v: "verdict env (clk_app clk) assets inst (dlv_asset d) = Inr (v, target, label)"
    for v target label
  proof -
    obtain a where "sendable_asset assets (dlv_asset d) = Some a"
      "(target, label) \<in> set (case cat_export a of None \<Rightarrow> [] | Some ts \<Rightarrow> ts) \<or> target = raw_download_target"
      using verdict_sendable [OF v] by blast
    then show ?thesis using assms raw by (fastforce simp: sendable_asset_def find_Some_iff)
  qed
  then show ?thesis
    unfolding Pair
    by (auto simp: release_one_def verdict_def set_delivery_target_def split: option.splits prod.splits)
qed

lemma claim_runs:
  assumes "\<forall>a \<in> set assets. \<forall>p \<in> set (case cat_export a of None \<Rightarrow> [] | Some ts \<Rightarrow> ts). target_fits (fst p)"
  shows "\<exists>db' works. claim env st clk assets inst db = (db', Inr works)"
proof -
  have all: "\<exists>r. each_from n (release_one env clk assets inst) ds s = Inr r" for n ds s
  proof (induction ds arbitrary: n s)
    case (Cons d ds)
    obtain r where "release_one env clk assets inst n d s = Inr r"
      using release_one_runs [OF assms] by blast
    then show ?case using Cons by simp
  qed simp
  show ?thesis
  proof (cases "claim_deliveries clk (clk_app clk + set_lease st) (ian_id inst) (set_max_attempts st)
      (set_batch st) (abandon_exhausted clk (ian_id inst) (set_max_attempts st) db)")
    case (Pair db2 claimed)
    obtain r where "each (release_one env clk assets inst) claimed (db2, []) = Inr r"
      using all by blast
    then show ?thesis using Pair by (cases r) (simp add: claim_def)
  qed
qed

section \<open>Signatures\<close>

lemma byte_digit: "n < 10 \<Longrightarrow> byte (digit n) = 48 + n"
  by (simp add: digit_def byte_def)

lemma digit_value: "n < 10 \<Longrightarrow> int (byte (digit n)) - 48 = int n"
  by (simp add: byte_digit)

lemma digits_value_snoc: "digits_value (ds @ [c]) = digits_value ds * 10 + (int (byte c) - 48)"
  by (simp add: digits_value_def)

lemma decimal_value: "digits_value (decimal n) = int n \<and> list_all digit_char (decimal n) \<and> decimal n \<noteq> []"
proof (induction n rule: less_induct)
  case (less n)
  have digits: "digit_char (digit k)" if "k < 10" for k
    using that by (simp add: digit_char_def between_def byte_digit)
  show ?case
  proof (cases "n < 10")
    case True
    then show ?thesis
      using digit_value digits by (subst (1 2 3) decimal.simps) (simp add: digits_value_def)
  next
    case False
    then have "n div 10 < n" by simp
    note IH = less.IH [OF this]
    have "decimal n = decimal (n div 10) @ [digit (n mod 10)]"
      using False by (subst decimal.simps) simp
    moreover have "int (n div 10) * 10 + int (n mod 10) = int n" by presburger
    ultimately show ?thesis
      using IH digit_value [of "n mod 10"] digits [of "n mod 10"] by (simp add: digits_value_snoc)
  qed
qed

lemma parse_int_text:
  assumes "- (2 ^ 63) \<le> n" "n < 2 ^ 63"
  shows "parse_int (int_text n) = Some n"
proof -
  note d = decimal_value [of "nat n"] decimal_value [of "nat (- n)"]
  show ?thesis
  proof (cases "n < 0")
    case True
    then show ?thesis using d assms by (simp add: parse_int_def int_text_def parse_digits_def)
  next
    case False
    obtain c cs where c: "decimal (nat n) = c # cs" using d(1) by (cases "decimal (nat n)") auto
    then have "digit_char c" using d(1) by simp
    then have "c \<noteq> CHR ''-''" "c \<noteq> CHR ''+''" by (auto simp: digit_char_def between_def byte_def)
    then show ?thesis
      using False c d(1) assms by (simp add: parse_int_def int_text_def parse_digits_def)
  qed
qed

lemma int_text_one_line: "CHR 0x0A \<notin> set (int_text n)"
proof -
  have "\<not> digit_char (CHR 0x0A)" by (simp add: digit_char_def between_def byte_def)
  then show ?thesis
    using decimal_value [of "nat n"] decimal_value [of "nat (- n)"]
    by (auto simp: int_text_def list_all_iff)
qed

text \<open>The text under a signature names one path and one deadline.\<close>

definition signed_text :: "string \<Rightarrow> int \<Rightarrow> string" where
  "signed_text path expires = path @ [CHR 0x0A] @ int_text expires"

lemma last_break:
  assumes "xs @ [b] @ ys = zs @ [b] @ ws" "b \<notin> set ys" "b \<notin> set ws"
  shows "xs = zs \<and> ys = ws"
proof -
  have split: "takeWhile (\<lambda>c. c \<noteq> b) (rev (us @ [b] @ vs)) = rev vs" if "b \<notin> set vs" for us vs
  proof -
    have "takeWhile (\<lambda>c. c \<noteq> b) (rev vs) = rev vs" using that by (auto simp: takeWhile_eq_all_conv)
    then show ?thesis using takeWhile_tail [of "\<lambda>c. c \<noteq> b" b "rev vs" "rev us"] by simp
  qed
  have "rev ys = rev ws"
    using split [OF assms(2), of xs] split [OF assms(3), of zs] unfolding assms(1) by simp
  then show ?thesis using assms(1) by simp
qed

definition int64 :: "int \<Rightarrow> bool" where
  "int64 n \<longleftrightarrow> - (2 ^ 63) \<le> n \<and> n < 2 ^ 63"

lemma int_text_inject: "\<lbrakk>int_text m = int_text n; int64 m; int64 n\<rbrakk> \<Longrightarrow> m = n"
  using parse_int_text unfolding int64_def by (metis option.inject)

lemma signed_text_one:
  assumes "signed_text p m = signed_text q n" "int64 m" "int64 n"
  shows "p = q \<and> m = n"
proof -
  have "p @ [CHR 0x0A] @ int_text m = q @ [CHR 0x0A] @ int_text n"
    using assms(1) by (simp add: signed_text_def)
  from last_break [OF this int_text_one_line int_text_one_line]
  have "p = q" "int_text m = int_text n" by simp_all
  then show ?thesis using int_text_inject [OF _ assms(2,3)] by simp
qed

lemma base64_inject: "base64_encode a = base64_encode b \<Longrightarrow> a = b"
  by (metis base64_decode_encode option.inject)

lemma parse_digits_bounds: "parse_digits b ds = Some n \<Longrightarrow> - (2 ^ 63) \<le> n \<and> n < 2 ^ 63"
proof -
  have "0 \<le> digits_value ds" if "list_all digit_char ds"
    using that
    by (induction ds rule: rev_induct) (auto simp: digits_value_snoc digit_char_def between_def, simp add: digits_value_def)
  then show "parse_digits b ds = Some n \<Longrightarrow> ?thesis"
    by (auto simp: parse_digits_def split: if_split_asm)
qed

lemma parse_int_bounds: "parse_int s = Some n \<Longrightarrow> int64 n"
  using parse_digits_bounds by (auto simp: parse_int_def int64_def split: list.split_asm if_split_asm)

section \<open>The mirror\<close>

definition mirror_of :: "uuid \<Rightarrow> library_row list \<Rightarrow> uuid \<Rightarrow> int option" where
  "mirror_of i ls a = map_option lib_generation (find (\<lambda>r. lib_instance r = i \<and> lib_asset r = a) ls)"

lemma installed_mirror: "installed_generation i a db = mirror_of i (lnk_library db) a"
  by (simp add: installed_generation_def mirror_of_def)

lemma mirror_put:
  "mirror_of i (put_entry e ls) =
     (if lib_instance e = i then (mirror_of i ls)(lib_asset e \<mapsto> lib_generation e) else mirror_of i ls)"
proof -
  let ?same = "\<lambda>r. lib_instance r = lib_instance e \<and> lib_asset r = lib_asset e"
  have there: "mirror_of i (update_where ?same (\<lambda>r. e) ls) a =
      (if lib_instance e = i \<and> lib_asset e = a \<and> list_ex ?same ls then Some (lib_generation e)
       else mirror_of i ls a)" for a
    by (induction ls) (auto simp: mirror_of_def update_where_def)
  have not_there: "mirror_of i (ls @ [e]) a =
      (if lib_instance e = i \<and> lib_asset e = a then Some (lib_generation e) else mirror_of i ls a)"
    if "\<not> list_ex ?same ls" for a
    using that by (induction ls) (auto simp: mirror_of_def)
  show ?thesis
  proof (rule ext)
    fix a
    show "mirror_of i (put_entry e ls) a =
      (if lib_instance e = i then (mirror_of i ls)(lib_asset e \<mapsto> lib_generation e) else mirror_of i ls) a"
      using there [of a] not_there [of a] by (cases "list_ex ?same ls") (simp_all add: put_entry_def Let_def)
  qed
qed

lemma mirror_filter:
  "mirror_of i (filter (\<lambda>r. lib_instance r = j \<longrightarrow> keep (lib_asset r)) ls) =
     (if i = j then mirror_of i ls |` {a. keep a} else mirror_of i ls)"
proof (rule ext)
  fix a
  show "mirror_of i (filter (\<lambda>r. lib_instance r = j \<longrightarrow> keep (lib_asset r)) ls) a =
     (if i = j then mirror_of i ls |` {a. keep a} else mirror_of i ls) a"
    by (induction ls) (auto simp: mirror_of_def restrict_map_def)
qed

lemma mirror_fold:
  assumes "\<forall>e \<in> set es. lib_instance e = i"
  shows "mirror_of j (fold put_entry es ls) =
    (if i = j then mirror_of j ls ++ map_of (rev (map (\<lambda>e. (lib_asset e, lib_generation e)) es))
     else mirror_of j ls)"
  using assms by (induction es arbitrary: ls) (auto simp: mirror_put map_add_def fun_eq_iff split: option.split)

text \<open>
  What a report says of the assets that are published. A generation is cut to 32 bits, and one of
  which nothing is left counts as none.
\<close>

definition taken_generation :: "catalog_asset \<Rightarrow> int option \<Rightarrow> int" where
  "taken_generation a generation =
     (case generation of
        None \<Rightarrow> cat_generation a
      | Some g \<Rightarrow> if int32 g = 0 then cat_generation a else int32 g)"

definition told :: "catalog_asset list \<Rightarrow> (uuid \<times> int option) list \<Rightarrow> uuid \<Rightarrow> int option" where
  "told assets entries k =
     (case map_of entries k of
        None \<Rightarrow> None
      | Some generation \<Rightarrow> map_option (\<lambda>a. taken_generation a generation) (reportable assets k))"

lemma reportable_id: "reportable assets k = Some a \<Longrightarrow> cat_id a = k"
  by (auto simp: reportable_def find_Some_iff)

lemma int32_small: "\<lbrakk>- (2 ^ 31) \<le> n; n < 2 ^ 31\<rbrakk> \<Longrightarrow> int32 n = n"
  using signed_take_bit_int_eq_self [of 31 n] by (simp add: int32_def sint_sbintrunc')

lemma reported_Nil [simp]: "reported_entries clk assets i [] = []"
  by (simp add: reported_entries_def)

lemma reported_Cons [simp]:
  "reported_entries clk assets i ((k, g) # reported) =
     (case reportable assets k of None \<Rightarrow> [] | Some a \<Rightarrow> [reported_entry clk i a g]) @
     reported_entries clk assets i reported"
  by (simp add: reported_entries_def)

lemma reported_entry_fields [simp]:
  "lib_asset (reported_entry clk i a g) = cat_id a" "lib_instance (reported_entry clk i a g) = i"
  "lib_generation (reported_entry clk i a g) = (if g = 0 then cat_generation a else g)"
  by (simp_all add: reported_entry_def)

lemma reported_assets:
  "lib_asset ` set (reported_entries clk assets i reported) \<subseteq> fst ` set reported"
proof (induction reported)
  case (Cons p reported)
  then show ?case
    using reportable_id by (cases p, cases "reportable assets (fst p)") auto
qed simp

lemma reported_generation_pair [simp]:
  "reported_generation (k, g) = (k, case g of None \<Rightarrow> 0 | Some n \<Rightarrow> int32 n)"
  by (simp add: reported_generation_def)

lemma reported_assets_known:
  "lib_asset ` set (reported_entries clk assets i (map reported_generation entries)) \<subseteq> fst ` set entries"
  using reported_assets [of clk assets i "map reported_generation entries"]
  by (force simp: image_iff reported_generation_def split: prod.split_asm)

lemma reported_distinct:
  "distinct (map fst entries) \<Longrightarrow>
   distinct (map lib_asset (reported_entries clk assets i (map reported_generation entries)))"
proof (induction entries)
  case (Cons p entries)
  obtain k g where p: "p = (k, g)" by force
  have "k \<notin> lib_asset ` set (reported_entries clk assets i (map reported_generation entries))"
    using Cons.prems p reported_assets_known by fastforce
  then show ?case
    using Cons p reportable_id by (cases "reportable assets k") auto
qed simp

lemma told_Cons:
  "told assets ((k, g) # entries) =
     (case reportable assets k of
        None \<Rightarrow> (told assets entries)(k := None)
      | Some a \<Rightarrow> (told assets entries)(k \<mapsto> taken_generation a g))"
  by (auto simp: told_def fun_eq_iff split: option.split)

lemma taken_reported:
  "(if (case g of None \<Rightarrow> 0 | Some n \<Rightarrow> int32 n) = 0 then cat_generation a
    else (case g of None \<Rightarrow> 0 | Some n \<Rightarrow> int32 n)) = taken_generation a g"
  by (simp add: taken_generation_def split: option.split)

lemma reported_told:
  assumes "distinct (map fst entries)"
  shows "map_of (map (\<lambda>e. (lib_asset e, lib_generation e))
    (reported_entries clk assets i (map reported_generation entries))) = told assets entries"
  using assms
proof (induction entries)
  case (Cons p entries)
  obtain k g where p: "p = (k, g)" by force
  have "map_of entries k = None" using Cons.prems p by (auto simp: map_of_eq_None_iff)
  then have "told assets entries k = None" by (simp add: told_def)
  then show ?case
    using Cons p reportable_id
    by (cases "reportable assets k") (auto simp: taken_reported told_Cons fun_upd_idem simp del: if_split)
qed (simp add: told_def fun_eq_iff)

lemma told_small:
  assumes "distinct (map fst entries)" "(k, Some n) \<in> set entries" "1 \<le> n" "n < 2 ^ 31"
  shows "told assets entries k = map_option (\<lambda>a. n) (reportable assets k)"
proof -
  have "int32 n = n" using assms(3,4) by (simp add: int32_small)
  moreover have "map_of entries k = Some (Some n)" using assms(1,2) by (rule map_of_is_SomeI)
  ultimately show ?thesis using assms(3) by (simp add: told_def taken_generation_def)
qed

text \<open>What is stored is positive.\<close>

lemma told_positive:
  assumes "report_library_entries clk assets i (map reported_generation entries) db = Some (db', n)"
    and "distinct (map fst entries)" "told assets entries k = Some g"
  shows "0 < g"
proof -
  let ?es = "reported_entries clk assets i (map reported_generation entries)"
  have "map_of (map (\<lambda>e. (lib_asset e, lib_generation e)) ?es) k = Some g"
    using assms(3) by (simp add: reported_told [OF assms(2)])
  then have "(k, g) \<in> set (map (\<lambda>e. (lib_asset e, lib_generation e)) ?es)" by (rule map_of_SomeD)
  then obtain e where "e \<in> set ?es" "lib_generation e = g" by auto
  moreover have "\<forall>e \<in> set ?es. 0 < lib_generation e"
    using assms(1) by (simp add: report_library_entries_def Let_def list_ex_iff not_le split: if_split_asm)
  ultimately show ?thesis by blast
qed

lemma read_entry_Inr:
  "read_entry n (k, g) seen = Inr seen' \<longleftrightarrow>
     (\<forall>n. g = Some n \<longrightarrow> 1 \<le> n) \<and> k \<notin> seen \<and> seen' = insert k seen"
  by (auto simp: read_entry_def split: option.split)

lemma read_entries:
  "each_from n read_entry es seen = Inr seen' \<Longrightarrow>
   distinct (map fst es) \<and> fst ` set es \<inter> seen = {} \<and> seen' = seen \<union> fst ` set es \<and>
   (\<forall>(k, g) \<in> set es. \<forall>n. g = Some n \<longrightarrow> 1 \<le> n)"
proof (induction es arbitrary: n seen)
  case (Cons p es)
  obtain k g where p: "p = (k, g)" by force
  then have "k \<notin> seen" "\<forall>n. g = Some n \<longrightarrow> 1 \<le> n" "each_from (Suc n) read_entry es (insert k seen) = Inr seen'"
    using Cons.prems by (auto simp: read_entry_Inr split: sum.split_asm)
  from Cons.IH [OF this(3)] this(1,2) show ?case by (auto simp: p)
qed simp

lemma read_removals:
  "each_from n (read_removed seen) ks u = Inr u' \<Longrightarrow> set ks \<inter> seen = {}"
  by (induction ks arbitrary: n u) (auto simp: read_removed_def split: if_split_asm)

lemma read_report_Inr:
  assumes "read_report st rep = Inr (entries, removed)"
  shows "entries = rep_entries rep" "removed = rep_removed rep" "distinct (map fst entries)"
    and "\<forall>(k, g) \<in> set entries. \<forall>n. g = Some n \<longrightarrow> 1 \<le> n"
    and "set removed \<inter> fst ` set entries = {}" "rep_snapshot rep \<Longrightarrow> removed = []"
  using assms
  by (auto simp: read_report_def and_then_Inr split: if_split_asm dest!: read_entries read_removals)

lemma told_dom: "dom (told assets entries) \<subseteq> fst ` set entries"
  by (auto simp: told_def dom_map_of_conv_image_fst [symmetric] split: option.split_asm)

lemma restrict_told:
  "dom f \<subseteq> A \<Longrightarrow> (m ++ f) |` A = (m |` A) ++ f"
  by (auto simp: restrict_map_def map_add_def fun_eq_iff split: option.split)

definition mirror_kept :: "library_report \<Rightarrow> (uuid \<Rightarrow> int option) \<Rightarrow> uuid \<Rightarrow> int option" where
  "mirror_kept rep m =
     (if rep_snapshot rep then m |` (fst ` set (rep_entries rep)) else m |` (- set (rep_removed rep)))"

lemma reported_rows:
  assumes "report_library_entries clk assets i (map reported_generation entries) db = Some (db', n)"
    and "distinct (map fst entries)"
  shows "mirror_of j (lnk_library db') =
      (if i = j then mirror_of j (lnk_library db) ++ told assets entries else mirror_of j (lnk_library db))"
    and "n = card (dom (told assets entries))"
proof -
  let ?es = "reported_entries clk assets i (map reported_generation entries)"
  let ?pairs = "map (\<lambda>e. (lib_asset e, lib_generation e)) ?es"
  have step: "lnk_library db' = fold put_entry ?es (lnk_library db)" "n = length ?es"
    using assms(1) by (auto simp: report_library_entries_def Let_def split: if_split_asm)
  have keys: "distinct (map fst ?pairs)" using reported_distinct [OF assms(2)] by (simp add: comp_def)
  have "\<forall>e \<in> set (reported_entries clk assets i reported). lib_instance e = i" for reported
    by (auto simp: reported_entries_def split: option.split_asm)
  moreover have "map_of (rev ?pairs) = told assets entries"
    using map_of_inject_set [of "rev ?pairs" ?pairs] keys reported_told [OF assms(2)]
    by (simp add: rev_map [symmetric])
  ultimately show "mirror_of j (lnk_library db') =
      (if i = j then mirror_of j (lnk_library db) ++ told assets entries else mirror_of j (lnk_library db))"
    unfolding step(1) by (subst mirror_fold) (auto simp: rev_map)
  have "dom (told assets entries) = set (map fst ?pairs)"
    using reported_told [OF assms(2), of clk assets i] dom_map_of_conv_image_fst [of ?pairs]
    by (simp only: set_map)
  then show "n = card (dom (told assets entries))"
    using distinct_card [OF keys] step(2) by simp
qed

lemma sync_tells:
  assumes "sync env st clk assets inst rep db = (db', Inr res)"
  shows "mirror_of (ian_id inst) (lnk_library db') =
      mirror_kept rep (mirror_of (ian_id inst) (lnk_library db)) ++ told assets (rep_entries rep)"
    and "j \<noteq> ian_id inst \<Longrightarrow> mirror_of j (lnk_library db') = mirror_of j (lnk_library db)"
    and "res_accepted res = card (dom (told assets (rep_entries rep)))"
    and "res_ignored res = int (length (rep_entries rep)) - int (res_accepted res)"
    and "told assets (rep_entries rep) k = Some g \<Longrightarrow> 0 < g"
    and "\<lbrakk>(k, Some g) \<in> set (rep_entries rep); g < 2 ^ 31\<rbrakk> \<Longrightarrow>
      told assets (rep_entries rep) k = map_option (\<lambda>a. g) (reportable assets k)"
proof -
  let ?es = "rep_entries rep" and ?i = "ian_id inst"
  obtain removed where read: "read_report st rep = Inr (?es, removed)"
    using assms(1) read_report_Inr(1)
    by (auto simp: sync_def split: sum.split_asm prod.split_asm)
  note good = read_report_Inr [OF read]
  obtain db1 where rate: "throttle (dle_links env) clk (if rep_snapshot rep then ''library-snapshot'' else ''library-sync'')
      (uuid_text ?i) (if rep_snapshot rep then sync_whole_limit else sync_part_limit) an_hour db = (db1, Inr ())"
    and checked: "sync_checked clk assets inst rep ?es removed db1 = (db', Inr res)"
    using assms(1) by (auto simp: sync_def read throttled_run_def split: sum.split_asm prod.split_asm)
  obtain rs where "db1 = db\<lparr>lnk_rates := rs\<rparr>" by (rule take_rate_rows [OF rate [unfolded throttle_def]])
  then have same: "lnk_library db1 = lnk_library db" by simp
  obtain db2 n where rows: "report_library_entries clk assets ?i (map reported_generation ?es) db1 = Some (db2, n)"
    and lib: "lnk_library db' = (if rep_snapshot rep then filter (\<lambda>r. lib_instance r = ?i \<longrightarrow> lib_asset r \<in> fst ` set ?es) (lnk_library db2)
        else filter (\<lambda>r. lib_instance r = ?i \<longrightarrow> lib_asset r \<notin> set removed) (lnk_library db2))"
    and counts: "res_accepted res = n" "res_ignored res = int (length ?es) - int n"
    using checked
    by (auto simp: sync_checked_def prune_library_def remove_library_entries_def Let_def
        split: option.split_asm prod.split_asm if_split_asm)
  note facts = reported_rows [OF rows good(3)]
  have "set removed \<inter> dom (told assets ?es) = {}" using good(5) told_dom [of assets ?es] by blast
  then have left: "dom (told assets ?es) \<subseteq> - set removed" by blast
  show "mirror_of ?i (lnk_library db') =
      mirror_kept rep (mirror_of ?i (lnk_library db)) ++ told assets ?es"
  proof (cases "rep_snapshot rep")
    case True
    then show ?thesis
      using mirror_filter [of ?i ?i "\<lambda>a. a \<in> fst ` set ?es" "lnk_library db2"]
      by (simp add: lib facts(1) same mirror_kept_def restrict_told [OF told_dom])
  next
    case False
    have "{a. a \<notin> set removed} = - set removed" by auto
    then show ?thesis
      using False good(2) mirror_filter [of ?i ?i "\<lambda>a. a \<notin> set removed" "lnk_library db2"]
      by (simp only: lib facts(1) same mirror_kept_def restrict_told [OF left [unfolded good(2)]] if_False if_True simp_thms)
  qed
  show "j \<noteq> ?i \<Longrightarrow> mirror_of j (lnk_library db') = mirror_of j (lnk_library db)"
    using facts(1) [of j] mirror_filter [of j ?i "\<lambda>a. a \<in> fst ` set ?es" "lnk_library db2"]
      mirror_filter [of j ?i "\<lambda>a. a \<notin> set removed" "lnk_library db2"]
    by (simp add: lib same)
  show "res_accepted res = card (dom (told assets ?es))"
    "res_ignored res = int (length ?es) - int (res_accepted res)"
    using counts facts(2) by simp_all
  show "told assets ?es k = Some g \<Longrightarrow> 0 < g" using told_positive [OF rows good(3)] .
  show "\<lbrakk>(k, Some g) \<in> set ?es; g < 2 ^ 31\<rbrakk> \<Longrightarrow>
      told assets ?es k = map_option (\<lambda>a. g) (reportable assets k)"
    using told_small [OF good(3)] good(4) by blast
qed

section \<open>Fetching and queueing\<close>

lemma claim_instances:
  assumes "claim env st clk assets inst db = (db', Inr works)" "distinct (map dlv_id (lnk_deliveries db))"
  shows "lnk_instances db' = lnk_instances db"
proof -
  obtain db1 db2 claimed where db1: "db1 = abandon_exhausted clk (ian_id inst) (set_max_attempts st) db"
    and claimed: "claim_deliveries clk (clk_app clk + set_lease st) (ian_id inst) (set_max_attempts st)
           (set_batch st) db1 = (db2, claimed)"
    and all: "each (release_one env clk assets inst) claimed (db2, []) = Inr (db', works)"
    using assms(1) by (rule claim_parts)
  have "distinct (map dlv_id (lnk_deliveries db1))"
    using assms(2) map_update_where [of dlv_id "settled_row clk Abandoned"]
    by (simp add: db1 queue_statements(1))
  from release_all [OF all claimed_rows(2) [OF claimed this], of st "{}"]
  have "lnk_instances db' = lnk_instances db2" by (metis link_db.select_convs(3) link_db.surjective link_db.update_convs(7))
  then show ?thesis using queue_statements(2) [OF claimed] by (simp add: db1 queue_statements(1))
qed

lemma unix_time_small:
  assumes "0 \<le> now" "now < 2 ^ 62"
  shows "int64 (unix now)" "unix_time (unix now) = now - now mod 1000000"
proof -
  have small: "0 \<le> unix now" "unix now < 2 ^ 62" using assms by (auto simp: unix_def)
  then show "int64 (unix now)" by (simp add: int64_def)
  have "signed_take_bit 63 (unix now + unix_to_internal) = unix now + unix_to_internal"
    using small by (intro signed_take_bit_int_eq_self) (auto simp: unix_to_internal_def)
  then have "sint (word_of_int (unix now + unix_to_internal) :: 64 word) = unix now + unix_to_internal"
    using sint_sbintrunc' [of "unix now + unix_to_internal", where 'a = 64] by simp
  then show "unix_time (unix now) = now - now mod 1000000"
    by (simp only: unix_time_def) (simp add: unix_def minus_mod_eq_div_mult)
qed

lemma stamp_text: "stamp env path e = base64_encode (dle_hmac env (dle_key env) (signed_text path e))"
  by (simp add: stamp_def signed_text_def)

lemma stamp_valid:
  assumes "int64 e" "t \<le> unix_time e" "dle_key env \<noteq> []"
  shows "valid_signature env path (int_text e) (stamp env path e) t"
  using assms parse_int_text [of e] by (simp add: valid_signature_def int64_def)

lemma stamp_taken:
  assumes "valid_signature env q x (stamp env path e) t" "int64 e"
  shows "q = path \<and> parse_int x = Some e \<and> t \<le> unix_time e \<or>
    (\<exists>m m'. m \<noteq> m' \<and> dle_hmac env (dle_key env) m = dle_hmac env (dle_key env) m')"
proof -
  obtain n where n: "parse_int x = Some n" "\<not> unix_time n < t" "stamp env path e = stamp env q n"
    using assms(1) by (auto simp: valid_signature_def split: option.split_asm)
  have sign: "dle_hmac env (dle_key env) (signed_text path e) = dle_hmac env (dle_key env) (signed_text q n)"
    using n(3) base64_inject by (simp add: stamp_text)
  show ?thesis
  proof (cases "signed_text path e = signed_text q n")
    case True
    then have "path = q \<and> e = n" using signed_text_one assms(2) parse_int_bounds [OF n(1)] by blast
    then show ?thesis using n by auto
  next
    case False
    then show ?thesis using sign by blast
  qed
qed

lemma work_fetched:
  assumes sound: "deliveries_sound st db" "0 \<le> set_max_attempts st"
    and run: "claim env st clk assets inst db = (db', Inr works)" "w \<in> set works"
    and time: "clk_db clk' < clk_app clk + set_lease st"
      "\<forall>d \<in> set (lnk_deliveries db). dlv_id d = wrk_id w \<longrightarrow> clk_db clk' < dlv_expires d"
    and format: "wrk_format w \<noteq> []"
  shows "delivery_for_artifact clk' (wrk_id w) db' = Some (wrk_asset w, wrk_format w)"
proof -
  obtain d s target label where d: "d \<in> set (lnk_deliveries db)"
    "claimable clk (ian_id inst) (set_max_attempts st) db d"
    "verdict env (clk_app clk) assets inst (dlv_asset d) = Inr (s, target, label)"
    "[w] = work_of env clk assets inst (hand_out (clk_app clk + set_lease st) d)"
    and row: "(hand_out (clk_app clk + set_lease st) d)\<lparr>dlv_target := if target = [] then None else Some target\<rparr>
      \<in> set (lnk_deliveries db')" (is "?r \<in> _")
    using claim_works [OF run(1) sound_ids [OF sound(1)] run(2)] by metis
  have w: "wrk_id w = dlv_id d" "wrk_asset w = dlv_asset d" "wrk_format w = target"
    using d(3,4) by (auto simp: work_of_def hand_out_def)
  have "may_receive (ian_id inst) db'"
    using d(2) claim_instances [OF run(1) sound_ids [OF sound(1)]] by (simp add: claimable_def may_receive_def)
  then have good: "fetchable clk' (wrk_id w) db' ?r"
    using d(1,2) time w format by (auto simp: fetchable_def hand_out_def claimable_def)
  have "distinct (map dlv_id (lnk_deliveries db'))"
    using sound_ids [OF claim_kept [OF run(1) sound]] .
  then have "r = ?r" if "r \<in> set (lnk_deliveries db')" "fetchable clk' (wrk_id w) db' r" for r
    using one_row [of dlv_id "lnk_deliveries db'" r ?r] that row w(1) by (simp add: fetchable_def hand_out_def)
  then have "find (fetchable clk' (wrk_id w) db') (lnk_deliveries db') = Some ?r"
    by (rule only_row [of _ _ "fetchable clk' (wrk_id w) db'", OF row good])
  then show ?thesis using w format by (simp add: delivery_for_artifact_def hand_out_def)
qed

lemma live_found:
  assumes "deliveries_sound st db" "d \<in> set (lnk_deliveries db)" "live_for i a d"
  shows "live_delivery_for_asset i a db = Some d"
proof -
  have one: "distinct (map route (filter live_state (lnk_deliveries db)))"
    using assms(1) by (simp add: deliveries_sound_def queue_sound_def)
  have "e = d" if "e \<in> set (lnk_deliveries db)" "live_for i a e" for e
    using one_row [OF one, of e d] that assms(2,3) by (auto simp: live_for_route)
  then show ?thesis
    unfolding live_delivery_for_asset_def by (rule only_row [of _ _ "live_for i a", OF assms(2,3)])
qed

lemma store_again:
  assumes "deliveries_sound st db" "d \<in> set (lnk_deliveries db)" "live_for i a d"
    and "clk_db clk < clk_app clk + set_retention st"
  shows "store_delivery st clk fresh i a db = (db, InTheWay)"
    "live_delivery_for_asset i a db = Some d"
  using assms live_found [OF assms(1-3)]
  by (auto simp: store_delivery_def queue_delivery_def list_ex_iff)

lemma store_new:
  assumes "\<not> list_ex (live_for i a) (lnk_deliveries db)" "fresh \<notin> dlv_id ` set (lnk_deliveries db)"
    and "clk_db clk < clk_app clk + set_retention st" "i \<in> known_ids db"
  shows "\<exists>d. store_delivery st clk fresh i a db =
      (db\<lparr>lnk_deliveries := lnk_deliveries db @ [d]\<rparr>, Answered (Inr d)) \<and>
    live_for i a d \<and> dlv_id d = fresh"
  using assms
  by (auto simp: store_delivery_def queue_delivery_def list_ex_iff Let_def live_for_def live_state_def known_ids_def)

section \<open>Waiting requests\<close>

definition hub_sound :: "hub \<Rightarrow> bool" where
  "hub_sound h \<longleftrightarrow>
     distinct (map fst (hub_waiting h)) \<and> distinct (map snd (hub_waiting h)) \<and>
     length (hub_waiting h) \<le> hub_limit h \<and>
     (\<forall>n \<in> snd ` set (hub_waiting h). n < hub_next h \<and> n \<notin> hub_superseded h) \<and>
     (\<forall>n \<in> hub_superseded h. n < hub_next h)"

lemma length_update:
  "length (AList.update k v xs) = (if k \<in> fst ` set xs then length xs else Suc (length xs))"
  by (induction xs) auto

lemma set_update_subset: "snd ` set (AList.update k v xs) \<subseteq> insert v (snd ` set xs)"
  by (induction xs) auto

lemma distinct_snd_update:
  "\<lbrakk>distinct (map snd xs); v \<notin> snd ` set xs\<rbrakk> \<Longrightarrow> distinct (map snd (AList.update k v xs))"
proof (induction xs)
  case (Cons x xs)
  then show ?case using set_update_subset [of k v xs] by (cases x) auto
qed simp

lemma update_forgets:
  "\<lbrakk>distinct (map fst xs); distinct (map snd xs); map_of xs k = Some p; v \<noteq> p\<rbrakk> \<Longrightarrow>
   p \<notin> snd ` set (AList.update k v xs)"
proof (induction xs)
  case (Cons x xs)
  obtain a b where x: "x = (a, b)" by (cases x)
  show ?case
  proof (cases "a = k")
    case True
    then show ?thesis using Cons.prems x by auto
  next
    case False
    then have "map_of xs k = Some p" using Cons.prems x by simp
    then have "p \<in> snd ` set xs" by (force dest: map_of_SomeD)
    then show ?thesis using Cons False x by auto
  qed
qed simp

lemma hold_sound:
  assumes "hub_sound h" "hold i h = Some (h', n)"
  shows "hub_sound h'"
proof (cases "map_of (hub_waiting h) i")
  case None
  then have h': "h' = h\<lparr>hub_waiting := (i, hub_next h) # hub_waiting h, hub_next := Suc (hub_next h)\<rparr>"
      "length (hub_waiting h) < hub_limit h"
    using assms(2) by (auto simp: hold_def split: if_split_asm)
  have "i \<notin> fst ` set (hub_waiting h)" using None by (simp add: map_of_eq_None_iff)
  then show ?thesis using assms(1) h'(2) by (force simp: h'(1) hub_sound_def)
next
  case (Some p)
  then have p: "(i, p) \<in> set (hub_waiting h)" by (rule map_of_SomeD)
  then have old: "p < hub_next h" "hub_next h \<notin> snd ` set (hub_waiting h)" "i \<in> fst ` set (hub_waiting h)"
    using assms(1) by (force simp: hub_sound_def)+
  have gone: "p \<notin> snd ` set (AList.update i (hub_next h) (hub_waiting h))"
    using update_forgets Some old(1) assms(1) by (force simp: hub_sound_def)
  have "n < Suc (hub_next h) \<and> n \<noteq> p \<and> n \<notin> hub_superseded h"
    if "n \<in> snd ` set (AList.update i (hub_next h) (hub_waiting h))" for n
  proof (cases "n = hub_next h")
    case True
    then show ?thesis using assms(1) old(1) by (auto simp: hub_sound_def)
  next
    case False
    then have "n \<in> snd ` set (hub_waiting h)" using subsetD [OF set_update_subset that] by simp
    then show ?thesis using assms(1) gone that by (auto simp: hub_sound_def less_Suc_eq)
  qed
  then have "hub_sound (h\<lparr>hub_waiting := AList.update i (hub_next h) (hub_waiting h),
      hub_superseded := insert p (hub_superseded h), hub_next := Suc (hub_next h)\<rparr>)"
    using assms(1) old by (simp add: hub_sound_def distinct_update distinct_snd_update length_update less_SucI)
  then show ?thesis using assms(2) Some by (auto simp: hold_def)
qed

lemma release_sound: "hub_sound h \<Longrightarrow> hub_sound (release i n h)"
  by (auto simp: release_def hub_sound_def AList.delete_eq distinct_map_filter
      intro: order_trans [OF length_filter_le])

lemma signal_sound: "hub_sound h \<Longrightarrow> hub_sound (signal i h)"
  by (auto simp: signal_def hub_sound_def split: option.split)

lemma hold_answers:
  assumes "hub_sound h" "hold i h = Some (h', n)"
  shows "map_of (hub_waiting h') i = Some n" "j \<noteq> i \<Longrightarrow> map_of (hub_waiting h') j = map_of (hub_waiting h) j"
    and "map_of (hub_waiting h) i = Some p \<Longrightarrow> p \<in> hub_superseded h' \<and> p \<noteq> n"
    and "n \<notin> hub_superseded h'"
proof -
  have next_free: "hub_next h \<notin> hub_superseded h" using assms(1) by (force simp: hub_sound_def)
  have old: "map_of (hub_waiting h) i = Some p \<Longrightarrow> p < hub_next h" for p
    using assms(1) by (force simp: hub_sound_def dest: map_of_SomeD)
  show "map_of (hub_waiting h') i = Some n" "j \<noteq> i \<Longrightarrow> map_of (hub_waiting h') j = map_of (hub_waiting h) j"
    "map_of (hub_waiting h) i = Some p \<Longrightarrow> p \<in> hub_superseded h' \<and> p \<noteq> n"
    "n \<notin> hub_superseded h'"
    using assms(2) next_free old by (auto simp: hold_def update_conv' split: option.split_asm if_split_asm)
qed

lemma new_hub_sound: "hub_sound (new_hub limit)"
  by (simp add: new_hub_def hub_sound_def)

text \<open>The wait ends before the request's deadline, or does not begin.\<close>

lemma hold_time_fits:
  assumes "\<And>n. 0 < n \<Longrightarrow> 0 \<le> draw n \<and> draw n < n" "0 \<le> set_hold_floor st"
    and "set_hold_floor st \<le> set_hold_ceiling st"
  shows "0 \<le> hold_time st draw left \<and> hold_time st draw left \<le> set_hold_ceiling st \<and>
    (\<forall>l. left = Some l \<longrightarrow> hold_time st draw left = 0 \<or> hold_time st draw left + hold_margin \<le> l)"
  using assms(1) [of "set_hold_ceiling st - set_hold_floor st"] assms(2,3)
  by (cases left) (auto simp: hold_time_def Let_def)

text \<open>A request that waits ends with the first end of the wait, and does nothing but claim.\<close>

lemma claim_run: "claim env st clk assets inst db = (db', r) \<Longrightarrow> delivery_run env st db db'"
  by (rule call_run [OF claimed])

lemma await_answers:
  assumes "\<exists>x \<in> set wakes. fst x \<noteq> Woken \<and> fst x \<noteq> Rechecked"
    and "\<forall>(x, others, c, as) \<in> set wakes. \<forall>db. delivery_run env st db (others db)"
  shows "\<exists>db' r. await_work env st inst clk assets db wakes = Some (db', r) \<and> delivery_run env st db db'"
  using assms
proof (induction wakes arbitrary: clk assets db)
  case (Cons x wakes)
  obtain wake others clk' assets' where x: "x = (wake, others, clk', assets')" by (cases x)
  obtain db1 r where run: "claim env st clk assets inst db = (db1, r)" by fastforce
  show ?case
  proof (cases "(\<exists>e. r = Inl e) \<or> (\<exists>w ws. r = Inr (w # ws)) \<or> wake \<noteq> Woken \<and> wake \<noteq> Rechecked")
    case True
    then show ?thesis
      using run x claim_run [OF run] by (subst await_work.simps) (auto split: sum.split)
  next
    case False
    then have r: "r = Inr []" and wake: "wake = Woken \<or> wake = Rechecked"
      by (cases r; auto; metis list.exhaust)+
    have "delivery_run env st db1 (others db1)" using Cons.prems(2) x by auto
    then have before: "delivery_run env st db (others db1)"
      using claim_run [OF run] by (rule rtranclp_trans [rotated])
    obtain db' r' where "await_work env st inst clk' assets' (others db1) wakes = Some (db', r')"
      "delivery_run env st (others db1) db'"
      using Cons.IH [of clk' assets' "others db1"] Cons.prems x wake by auto
    then show ?thesis
      using run r wake x before by (subst await_work.simps) (auto intro: rtranclp_trans)
  qed
qed simp

end
