(* ===== verification/DeliveryPresses.thy ===== *)
theory DeliveryPresses
  imports DeliveryFacts
begin

text \<open>
  Presses that overlap. \<^verbatim>\<open>Queue\<close> checks and writes in separate statements, so what its checks
  promise holds for the tables they saw and not for those it writes to: how far the promises
  carry is a matter of how many presses are between their check and their insert at once.
\<close>

section \<open>Interleaving\<close>

text \<open>
  Processes over one state: others change the state, a process begins, or one of those under way
  makes its next move.
\<close>

inductive interleaved ::
  "('s \<Rightarrow> 's \<Rightarrow> bool) \<Rightarrow> ('p \<Rightarrow> bool) \<Rightarrow> ('s \<Rightarrow> 'p \<Rightarrow> 's \<Rightarrow> 'p \<Rightarrow> bool) \<Rightarrow>
     's \<times> 'p list \<Rightarrow> 's \<times> 'p list \<Rightarrow> bool"
  for other :: "'s \<Rightarrow> 's \<Rightarrow> bool" and start :: "'p \<Rightarrow> bool" and move :: "'s \<Rightarrow> 'p \<Rightarrow> 's \<Rightarrow> 'p \<Rightarrow> bool" where
  others: "other s s' \<Longrightarrow> interleaved other start move (s, ps) (s', ps)"
| begins: "start p \<Longrightarrow> interleaved other start move (s, ps) (s, ps @ [p])"
| moves: "\<lbrakk>k < length ps; move s (ps ! k) s' p\<rbrakk> \<Longrightarrow> interleaved other start move (s, ps) (s', ps[k := p])"

definition holders :: "('p \<Rightarrow> bool) \<Rightarrow> 'p list \<Rightarrow> nat" where
  "holders holds ps = length (filter holds ps)"

text \<open>Steps after which at most \<open>n\<close> processes hold what is counted.\<close>

definition crowded :: "nat \<Rightarrow> ('p \<Rightarrow> bool) \<Rightarrow> ('s \<times> 'p list \<Rightarrow> 's \<times> 'p list \<Rightarrow> bool) \<Rightarrow>
    's \<times> 'p list \<Rightarrow> 's \<times> 'p list \<Rightarrow> bool" where
  "crowded n holds step x y \<longleftrightarrow> step x y \<and> holders holds (snd y) \<le> n"

lemma holders_append [simp]: "holders holds (ps @ [p]) = holders holds ps + of_bool (holds p)"
  by (simp add: holders_def)

lemma holders_moved:
  "k < length ps \<Longrightarrow>
   holders holds (ps[k := p]) + of_bool (holds (ps ! k)) = holders holds ps + of_bool (holds p)"
proof (induction ps arbitrary: k)
  case (Cons q ps)
  then show ?case by (cases k) (auto simp: holders_def)
qed simp

text \<open>
  A holder may add one row, and holds no longer when it has; the others add none. One comes to
  hold only where the state is free.
\<close>

locale rows_held =
  fixes other :: "'s \<Rightarrow> 's \<Rightarrow> bool"
    and start :: "'p \<Rightarrow> bool"
    and move :: "'s \<Rightarrow> 'p \<Rightarrow> 's \<Rightarrow> 'p \<Rightarrow> bool"
    and sound :: "'s \<Rightarrow> bool"
    and rows :: "'s \<Rightarrow> nat"
    and holds :: "'p \<Rightarrow> bool"
    and free :: "'s \<Rightarrow> bool"
  assumes other_sound: "\<lbrakk>other s s'; sound s\<rbrakk> \<Longrightarrow> sound s'"
    and move_sound: "\<lbrakk>move s p s' p'; sound s\<rbrakk> \<Longrightarrow> sound s'"
    and start_holds: "start p \<Longrightarrow> \<not> holds p"
    and other_rows: "\<lbrakk>other s s'; sound s\<rbrakk> \<Longrightarrow> rows s' \<le> rows s"
    and move_rows: "\<lbrakk>move s p s' p'; sound s\<rbrakk> \<Longrightarrow>
      rows s' + of_bool (holds p') \<le> rows s + of_bool (holds p) \<or> free s \<and> s' = s"
begin

lemma step_rows:
  assumes "interleaved other start move (s, ps) (s', ps')" "sound s"
  shows "sound s' \<and>
    (rows s' + holders holds ps' \<le> rows s + holders holds ps \<or> free s \<and> rows s' = rows s)"
  using assms(1)
proof cases
  case others
  then show ?thesis using assms(2) other_sound other_rows by auto
next
  case (begins p)
  then show ?thesis using assms(2) start_holds by simp
next
  case (moves k p)
  then show ?thesis
    using assms(2) move_sound [OF moves(3)] move_rows [OF moves(3)] holders_moved [OF moves(2), of holds p]
    by auto
qed

text \<open>While nothing is free, rows and holders together never grow.\<close>

lemma run_shut:
  assumes "(interleaved other start move)\<^sup>*\<^sup>* (s, ps) (s', ps')" "sound s" "\<And>t. sound t \<Longrightarrow> \<not> free t"
  shows "sound s' \<and> rows s' + holders holds ps' \<le> rows s + holders holds ps"
  using assms(1)
proof (induction rule: rtranclp_induct2)
  case (step t qs u rs)
  then show ?case using step_rows [OF step(2)] assms(3) by (meson le_trans)
qed (use assms(2) in simp)

text \<open>Where free means below the cap, it is exceeded by less than the most that hold at once.\<close>

lemma run_capped:
  assumes "(crowded n holds (interleaved other start move))\<^sup>*\<^sup>* (s, ps) (s', ps')" "sound s"
    and "\<And>t. free t \<Longrightarrow> rows t < cap" "rows s + holders holds ps < cap + n"
  shows "sound s' \<and> rows s' + holders holds ps' < cap + n"
  using assms(1)
proof (induction rule: rtranclp_induct2)
  case (step t qs u rs)
  then have one: "interleaved other start move (t, qs) (u, rs)" "holders holds rs \<le> n"
    by (simp_all add: crowded_def)
  then show ?case using step_rows [OF one(1)] step.IH assms(3) [of t] by auto
qed (use assms(2,4) in simp)

end

section \<open>The service\<close>

definition service_step ::
  "delivery_env \<Rightarrow> settings \<Rightarrow> link_db \<times> press list \<Rightarrow> link_db \<times> press list \<Rightarrow> bool" where
  "service_step env st =
     interleaved (\<lambda>db db'. \<exists>clk. delivery_call env st clk db db') (\<lambda>p. prs_stage p = Pressed)
       (\<lambda>db p db' p'. \<exists>clk assets. press_step env st clk assets p db = (db', p'))"

abbreviation service_run ::
  "delivery_env \<Rightarrow> settings \<Rightarrow> link_db \<times> press list \<Rightarrow> link_db \<times> press list \<Rightarrow> bool" where
  "service_run env st \<equiv> (service_step env st)\<^sup>*\<^sup>*"

text \<open>Between the count and the insert, and anywhere between the check of the link and the insert.\<close>

definition about_to_store :: "uuid \<Rightarrow> press \<Rightarrow> bool" where
  "about_to_store i p \<longleftrightarrow> prs_instance p = i \<and> prs_stage p = Counted"

fun past_check :: "stage \<Rightarrow> bool" where
  "past_check (Linked inst) = True"
| "past_check Fitting = True"
| "past_check Counted = True"
| "past_check _ = False"

definition found_linked :: "uuid \<Rightarrow> press \<Rightarrow> bool" where
  "found_linked i p \<longleftrightarrow> prs_instance p = i \<and> past_check (prs_stage p)"

definition not_looked :: "press \<Rightarrow> bool" where
  "not_looked p \<longleftrightarrow> prs_stage p = Pressed \<or> prs_stage p = Admitted"

text \<open>Runs in which at most \<open>n\<close> presses for \<open>i\<close> are between their count and their insert.\<close>

abbreviation crowded_run ::
  "delivery_env \<Rightarrow> settings \<Rightarrow> nat \<Rightarrow> uuid \<Rightarrow> link_db \<times> press list \<Rightarrow> link_db \<times> press list \<Rightarrow> bool" where
  "crowded_run env st n i \<equiv> (crowded n (about_to_store i) (service_step env st))\<^sup>*\<^sup>*"

section \<open>What a move of a press does\<close>

lemma press_instance [simp]:
  "press_step env st clk assets p db = (db', p') \<Longrightarrow> prs_instance p' = prs_instance p"
  by (auto simp: press_step_def split: prod.split_asm)

lemma pressed_rows:
  assumes "press_step env st clk assets p db = (db', p')" "prs_stage p = Pressed"
  shows "lnk_deliveries db' = lnk_deliveries db" "prs_stage p' = Admitted \<or> (\<exists>e. prs_stage p' = Answered (Inl e))"
proof -
  obtain r where run: "throttle (dle_links env) clk ''delivery-queue'' (uuid_text (prs_user p)) queue_limit
      an_hour db = (db', r)"
    using assms by (auto simp: press_step_def next_stage_def split: prod.split_asm sum.split_asm)
  show "lnk_deliveries db' = lnk_deliveries db"
    by (rule take_rate_rows [OF run [unfolded throttle_def]]) simp
  show "prs_stage p' = Admitted \<or> (\<exists>e. prs_stage p' = Answered (Inl e))"
    using assms run by (auto simp: press_step_def next_stage_def split: sum.split_asm)
qed

lemma admitted_stage:
  assumes "press_step env st clk assets p db = (db', p')" "prs_stage p = Admitted"
  shows "db' = db \<and> (prs_instance p \<in> live_ids db \<and> past_check (prs_stage p') \<or>
    (\<exists>e. prs_stage p' = Answered (Inl e)))"
  using assms live_by_id_live
  by (fastforce simp: press_step_def next_stage_def linked_stage_def split: sum.split_asm if_split_asm)

lemma fits_or_not:
  "\<exists>e. fitting_stage env now assets inst a = Answered (Inl e) \<or> fitting_stage env now assets inst a = Fitting"
  by (auto simp: fitting_stage_def split: option.split)

lemma stored_row:
  assumes "store_delivery st clk fresh i a db = (db', s)"
  shows "db' = db \<and> (s = InTheWay \<or> (\<exists>e. s = Answered (Inl e))) \<or>
    (\<exists>d. db' = db\<lparr>lnk_deliveries := lnk_deliveries db @ [d]\<rparr> \<and> dlv_instance d = i \<and> s = Answered (Inr d))"
  using assms by (auto simp: store_delivery_def dest!: queue_statements(5) split: option.split_asm prod.split_asm)

text \<open>The rows of one instance, all of them or the live ones.\<close>

lemma press_rows:
  assumes "press_step env st clk assets p db = (db', p')"
  shows "deliveries_of i db' + of_bool (found_linked i p') \<le> deliveries_of i db + of_bool (found_linked i p) \<or>
      i \<in> live_ids db \<and> db' = db" (is ?of)
    and "count_live_deliveries i db' + of_bool (about_to_store i p') \<le>
      count_live_deliveries i db + of_bool (about_to_store i p) \<or>
      count_live_deliveries i db < set_pending st \<and> db' = db" (is ?live)
proof -
  have "?of \<and> ?live"
  proof (cases "prs_stage p")
    case Pressed
    then show ?thesis
      using pressed_rows [OF assms Pressed]
      by (auto simp: deliveries_of_def count_live_deliveries_def found_linked_def about_to_store_def)
  next
    case Admitted
    then show ?thesis
      using admitted_stage [OF assms Admitted] assms
      by (auto simp: found_linked_def about_to_store_def press_step_def next_stage_def linked_stage_def
          split: sum.split_asm if_split_asm)
  next
    case (Linked inst)
    then show ?thesis
      using assms fits_or_not [of env "clk_app clk" assets inst "prs_asset p"]
      by (auto simp: found_linked_def about_to_store_def press_step_def next_stage_def)
  next
    case Fitting
    then show ?thesis
      using assms
      by (auto simp: found_linked_def about_to_store_def press_step_def next_stage_def counted_stage_def
          split: if_split_asm)
  next
    case Counted
    then obtain s where s: "store_delivery st clk (prs_fresh p) (prs_instance p) (prs_asset p) db = (db', s)"
      "p' = p\<lparr>prs_stage := s\<rparr>"
      using assms by (auto simp: press_step_def next_stage_def split: prod.split_asm)
    from stored_row [OF s(1)] show ?thesis
    proof (elim disjE exE conjE)
      fix d
      assume "db' = db\<lparr>lnk_deliveries := lnk_deliveries db @ [d]\<rparr>" "dlv_instance d = prs_instance p"
        "s = Answered (Inr d)"
      then show ?thesis
        using Counted
        by (simp add: s(2) found_linked_def about_to_store_def deliveries_of_def count_live_deliveries_def)
    qed (simp_all add: s(2) Counted found_linked_def about_to_store_def)
  qed (use assms in \<open>auto simp: found_linked_def about_to_store_def press_step_def next_stage_def\<close>)
  then show ?of ?live by blast+
qed

lemma call_rows:
  assumes "delivery_call env st clk db db'" "deliveries_sound st db" "0 \<le> set_max_attempts st"
  shows "count_live_deliveries i db' \<le> count_live_deliveries i db \<and> deliveries_of i db' \<le> deliveries_of i db"
proof -
  have "queue_changes st {} clk db db'" by (rule delivery_call_changes [OF assms(1) sound_ids [OF assms(2)]])
  then have "deliveries_sound st db' \<and> count_live_deliveries i db' \<le> count_live_deliveries i db \<and>
      deliveries_of i db' \<le> deliveries_of i db"
  proof (induction rule: rtranclp_induct)
    case (step db1 db2)
    then show ?case
      using queue_change_kept [OF step(2) _ assms(3)] queue_change_count [OF step(2) sound_ids]
        queue_change_rows_of [OF step(2)] by (meson le_trans)
  qed (use assms(2) in simp)
  then show ?thesis by blast
qed

section \<open>The cap\<close>

interpretation capped: rows_held
    "\<lambda>db db'. \<exists>clk. delivery_call env st clk db db'" "\<lambda>p. prs_stage p = Pressed"
    "\<lambda>db p db' p'. \<exists>clk assets. press_step env st clk assets p db = (db', p')"
    "\<lambda>db. deliveries_sound st db \<and> 0 \<le> set_max_attempts st"
    "count_live_deliveries i" "about_to_store i" "\<lambda>db. count_live_deliveries i db < set_pending st"
  for env st i
proof unfold_locales
  fix s s' p p'
  assume sound: "deliveries_sound st s \<and> 0 \<le> set_max_attempts st"
  show "deliveries_sound st s' \<and> 0 \<le> set_max_attempts st" if "\<exists>clk. delivery_call env st clk s s'"
    using that sound delivery_step_kept called by blast
  show "deliveries_sound st s' \<and> 0 \<le> set_max_attempts st"
    if "\<exists>clk assets. press_step env st clk assets p s = (s', p')"
    using that sound delivery_step_kept pressed [of _ _ _ _ _ _ _ _ UNIV] by blast
  show "count_live_deliveries i s' \<le> count_live_deliveries i s" if "\<exists>clk. delivery_call env st clk s s'"
    using that sound call_rows by blast
  show "count_live_deliveries i s' + of_bool (about_to_store i p') \<le>
      count_live_deliveries i s + of_bool (about_to_store i p) \<or>
      count_live_deliveries i s < set_pending st \<and> s' = s"
    if "\<exists>clk assets. press_step env st clk assets p s = (s', p')"
    using that press_rows(2) by blast
qed (simp add: about_to_store_def)

section \<open>Instances that were cut off\<close>

lemma step_cut:
  assumes "delivery_step env st UNIV clk db db'" "deliveries_sound st db" "instance_status db i = CutOff u"
  shows "instance_status db' i = CutOff u"
  using queue_changes_cut [OF delivery_step_changes [OF assms(1) sound_ids [OF assms(2)]] _ assms(3)]
    assms(2) by (simp add: deliveries_sound_def)

interpretation shut: rows_held
    "\<lambda>db db'. \<exists>clk. delivery_call env st clk db db'" "\<lambda>p. prs_stage p = Pressed"
    "\<lambda>db p db' p'. \<exists>clk assets. press_step env st clk assets p db = (db', p')"
    "\<lambda>db. (deliveries_sound st db \<and> 0 \<le> set_max_attempts st) \<and> instance_status db i = CutOff u"
    "deliveries_of i" "found_linked i" "\<lambda>db. i \<in> live_ids db"
  for env st i u
proof unfold_locales
  fix s s' p p'
  assume sound: "(deliveries_sound st s \<and> 0 \<le> set_max_attempts st) \<and> instance_status s i = CutOff u"
  show "(deliveries_sound st s' \<and> 0 \<le> set_max_attempts st) \<and> instance_status s' i = CutOff u"
    if "\<exists>clk. delivery_call env st clk s s'"
    using that sound capped.other_sound [OF that] step_cut called by blast
  show "(deliveries_sound st s' \<and> 0 \<le> set_max_attempts st) \<and> instance_status s' i = CutOff u"
    if "\<exists>clk assets. press_step env st clk assets p s = (s', p')"
    using that sound capped.move_sound [OF that] step_cut pressed [of _ _ _ _ _ _ _ _ UNIV] by blast
  show "deliveries_of i s' \<le> deliveries_of i s" if "\<exists>clk. delivery_call env st clk s s'"
    using that sound call_rows by blast
  show "deliveries_of i s' + of_bool (found_linked i p') \<le> deliveries_of i s + of_bool (found_linked i p) \<or>
      i \<in> live_ids s \<and> s' = s"
    if "\<exists>clk assets. press_step env st clk assets p s = (s', p')"
    using that press_rows(1) by blast
qed (simp add: found_linked_def)

text \<open>A press that looks the link up after that is refused.\<close>

definition refusing :: "press \<Rightarrow> bool" where
  "refusing p \<longleftrightarrow> not_looked p \<or> (\<exists>e. prs_stage p = Answered (Inl e))"

lemma press_refusing:
  assumes "press_step env st clk assets p db = (db', p')" "refusing p" "prs_instance p \<notin> live_ids db"
  shows "refusing p'"
proof -
  consider "prs_stage p = Pressed" | "prs_stage p = Admitted" | e where "prs_stage p = Answered (Inl e)"
    using assms(2) by (auto simp: refusing_def not_looked_def)
  then show ?thesis
  proof cases
    case 3
    then show ?thesis using assms(1) by (auto simp: refusing_def press_step_def next_stage_def)
  next
    case 1
    then show ?thesis using pressed_rows(2) [OF assms(1)] by (auto simp: refusing_def not_looked_def)
  next
    case 2
    then show ?thesis using admitted_stage [OF assms(1) 2] assms(3) by (auto simp: refusing_def)
  qed
qed

lemma run_refuses:
  assumes "service_run env st (db, ps) (db', qs)"
    and "deliveries_sound st db" "0 \<le> set_max_attempts st" "instance_status db i = CutOff v"
  shows "length ps \<le> length qs \<and>
    (\<forall>k < length qs. prs_instance (qs ! k) = i \<and> (k < length ps \<longrightarrow> not_looked (ps ! k)) \<longrightarrow> refusing (qs ! k))"
  using assms(1)
proof (induction rule: rtranclp_induct2)
  case refl
  then show ?case by (simp add: refusing_def)
next
  case (step t qs u rs)
  have run: "(interleaved (\<lambda>db db'. \<exists>clk. delivery_call env st clk db db') (\<lambda>p. prs_stage p = Pressed)
      (\<lambda>db p db' p'. \<exists>clk assets. press_step env st clk assets p db = (db', p')))\<^sup>*\<^sup>* (db, ps) (t, qs)"
    using step(1) by (simp add: service_step_def)
  have "deliveries_sound st t" "instance_status t i = CutOff v"
    using shut.run_shut [OF run, where u = v and i = i] assms(2-4) cut_off_not_live
    by (auto simp: deliveries_sound_def)
  then have gone: "i \<notin> live_ids t" using cut_off_not_live by (simp add: deliveries_sound_def)
  from step(2) show ?case unfolding service_step_def
  proof cases
    case (begins p)
    then show ?thesis
      using step.IH by (auto simp: nth_append refusing_def not_looked_def less_Suc_eq)
  next
    case (moves k p)
    then obtain clk assets where p: "press_step env st clk assets (qs ! k) t = (u, p)" by blast
    have "refusing p" if "prs_instance (qs ! k) = i" "refusing (qs ! k)"
      using press_refusing [OF p that(2)] that(1) gone by simp
    then show ?thesis
      using step.IH moves(1,2) press_instance [OF p] by (auto simp: nth_list_update)
  qed (use step.IH in simp)
qed

section \<open>Runs of the service\<close>

lemma move_at:
  "\<lbrakk>k < length ps; press_step env st clk assets (ps ! k) db = (db', p)\<rbrakk> \<Longrightarrow>
   service_step env st (db, ps) (db', ps[k := p])"
  unfolding service_step_def by (rule moves) auto

lemma call_at: "delivery_call env st clk db db' \<Longrightarrow> service_step env st (db, ps) (db', ps)"
  unfolding service_step_def by (rule others) auto

text \<open>Of the tables alone, a run of the service is a run of steps.\<close>

lemma service_run_tables:
  "service_run env st (db, ps) (db', qs) \<Longrightarrow> delivery_run env st db db'"
proof (induction rule: rtranclp_induct2)
  case (step t qs u rs)
  from step(2) have "any_step env st t u \<or> u = t"
    unfolding service_step_def any_step_def by cases (blast intro: called pressed)+
  then show ?case using step.IH by (auto intro: rtranclp.rtrancl_into_rtrancl)
qed simp

lemma presses_capped:
  assumes "crowded_run env st n i (db, ps) (db', qs)"
    and "deliveries_sound st db" "0 \<le> set_max_attempts st"
    and "count_live_deliveries i db + holders (about_to_store i) ps < set_pending st + n"
  shows "deliveries_sound st db' \<and>
    count_live_deliveries i db' + holders (about_to_store i) qs < set_pending st + n"
  using capped.run_capped [OF assms(1) [unfolded service_step_def], of "set_pending st"] assms(2-4) by auto

lemma presses_shut:
  assumes "service_run env st (db, ps) (db', qs)"
    and "deliveries_sound st db" "0 \<le> set_max_attempts st" "instance_status db i = CutOff u"
  shows "deliveries_sound st db'" "instance_status db' i = CutOff u"
    and "deliveries_of i db' + holders (found_linked i) qs \<le> deliveries_of i db + holders (found_linked i) ps"
  using shut.run_shut [OF assms(1) [unfolded service_step_def], where u = u and i = i] assms(2-4)
    cut_off_not_live by (auto simp: deliveries_sound_def)

lemma revoked_no_deliveries:
  assumes "links_sound db" "revoke clk u i db = (db', Inr ())"
  shows "deliveries_of i db' = 0"
proof -
  have run: "revoke_where clk (\<lambda>r. ins_id r = i \<and> ins_user r = u) db = (db', True)"
    using assms(2) by (auto simp: revoke_def revoke_instance_def split: prod.splits if_splits)
  then show ?thesis
    by (auto simp: revoke_where_def Let_def deliveries_of_def filter_empty_conv)
qed

end
