(* ===== verification/LinkCodeFacts.thy ===== *)
theory LinkCodeFacts
  imports LinkCodes
begin

text \<open>
  What the codes of the linking service promise: the loop that draws one ends and draws evenly,
  each code and token is accepted back as what it was made as and as nothing else, and the
  checks of a request accept exactly what they describe.
\<close>

section \<open>Drawing a code\<close>

abbreviation drawable :: "char \<Rightarrow> bool" where
  "drawable v \<equiv> byte v < code_limit"

lemma code_numbers: "length code_alphabet = 28" "code_limit = 252" "distinct code_alphabet"
  by (simp_all add: code_alphabet_def code_limit_def)

lemma take_letters_take:
  "length code \<le> n \<Longrightarrow>
     take_letters n code vs = take n (code @ map code_letter (filter drawable vs))"
proof (induction vs arbitrary: code)
  case Nil
  then show ?case by simp
next
  case (Cons v vs)
  show ?case
  proof (cases "drawable v \<and> length code < n")
    case True
    then show ?thesis using Cons.IH [of "code @ [code_letter v]"] by simp
  next
    case False
    then show ?thesis using Cons by (cases "drawable v") auto
  qed
qed

lemma next_after: "next_bytes n src @ next_bytes m (after_bytes n src) = next_bytes (n + m) src"
proof -
  have "map src [n..<n + m] = map (\<lambda>k. src (n + k)) [0..<m]"
    by (rule nth_equalityI) simp_all
  moreover have "[0..<n + m] = [0..<n] @ [n..<n + m]"
    using upt_add_eq_append [of 0 n m] by simp
  ultimately show ?thesis by (simp only: next_bytes_def after_bytes_def map_append)
qed

lemma after_after [simp]: "after_bytes m (after_bytes n src) = after_bytes (n + m) src"
  by (simp add: after_bytes_def add.assoc)

text \<open>Enough letters in the first \<open>m\<close> buffers are enough buffers.\<close>

lemma fill_code_enough:
  assumes "length code \<le> n"
    and "n \<le> length code + length (filter drawable (next_bytes (m * n) src))"
  shows "\<exists>k \<le> m. fill_code n code src =
    Some (take n (code @ map code_letter (filter drawable (next_bytes (m * n) src))),
          after_bytes (k * n) src)"
  using assms
proof (induction m arbitrary: code src)
  case 0
  then show ?case by (simp add: fill_code.simps next_bytes_def after_bytes_def)
next
  case (Suc m)
  show ?case
  proof (cases "length code < n")
    case False
    then show ?thesis
      using Suc.prems(1) by (intro exI [of _ 0]) (simp add: fill_code.simps after_bytes_def)
  next
    case True
    let ?first = "filter drawable (next_bytes n src)"
    let ?code = "take n (code @ map code_letter ?first)"
    have split: "filter drawable (next_bytes (n + m * n) src) =
        ?first @ filter drawable (next_bytes (m * n) (after_bytes n src))"
      using next_after [of n src "m * n"] by (metis filter_append)
    have "n \<le> length ?code + length (filter drawable (next_bytes (m * n) (after_bytes n src)))"
      using Suc.prems(2) unfolding mult_Suc split by auto
    with Suc.IH [of ?code "after_bytes n src"] obtain k where k: "k \<le> m"
      "fill_code n ?code (after_bytes n src) =
        Some (take n (?code @ map code_letter (filter drawable (next_bytes (m * n) (after_bytes n src)))),
              after_bytes (k * n) (after_bytes n src))"
      by (metis length_take min.cobounded2)
    have "take n (?code @ xs) = take n (code @ map code_letter ?first @ xs)" for xs
      using Suc.prems(1) by (cases "n \<le> length (code @ map code_letter ?first)") auto
    then show ?thesis
      using k True take_letters_take [of code n "next_bytes n src"]
      by (intro exI [of _ "Suc k"]) (simp add: fill_code.simps [of n code] split add.commute)
  qed
qed

lemma code_letter_in: "code_letter v \<in> set code_alphabet"
  by (simp add: code_letter_def code_numbers)

lemma fill_code_result:
  assumes "fill_code n code src = Some (code', src')" and "length code \<le> n"
    and "set code \<subseteq> set code_alphabet"
  shows "length code' = n \<and> set code' \<subseteq> set code_alphabet"
proof -
  have "length code \<le> n \<longrightarrow> set code \<subseteq> set code_alphabet \<longrightarrow>
      length (fst r) = n \<and> set (fst r) \<subseteq> set code_alphabet"
    if "fill_code n code src = Some r" for r
  proof (rule fill_code.raw_induct [where P = "\<lambda>n code src r. length code \<le> n \<longrightarrow>
      set code \<subseteq> set code_alphabet \<longrightarrow> length (fst r) = n \<and> set (fst r) \<subseteq> set code_alphabet",
      OF _ that])
    fix f n code and src :: byte_source and r
    assume IH: "\<And>n code src r. f n code src = Some r \<Longrightarrow> length code \<le> n \<longrightarrow>
        set code \<subseteq> set code_alphabet \<longrightarrow> length (fst r) = n \<and> set (fst r) \<subseteq> set code_alphabet"
      and eq: "(if length code < n
        then f n (take_letters n code (next_bytes n src)) (after_bytes n src)
        else Some (code, src)) = Some r"
    show "length code \<le> n \<longrightarrow> set code \<subseteq> set code_alphabet \<longrightarrow>
        length (fst r) = n \<and> set (fst r) \<subseteq> set code_alphabet"
    proof (intro impI)
      assume small: "length code \<le> n" and letters: "set code \<subseteq> set code_alphabet"
      show "length (fst r) = n \<and> set (fst r) \<subseteq> set code_alphabet"
      proof (cases "length code < n")
        case True
        have "set (take_letters n code (next_bytes n src)) \<subseteq> set code_alphabet"
          using letters code_letter_in
          by (auto simp: take_letters_take [OF small] dest!: in_set_takeD)
        moreover have "length (take_letters n code (next_bytes n src)) \<le> n"
          by (simp add: take_letters_take [OF small])
        ultimately show ?thesis using IH eq True by simp
      next
        case False
        then show ?thesis using eq small letters by auto
      qed
    qed
  qed
  then show ?thesis using assms by fastforce
qed

lemma new_code_facts:
  assumes "new_code n src = Some (code, src')"
  shows "length code = n \<and> set code \<subseteq> set code_alphabet"
  using fill_code_result [OF assms [unfolded new_code_def]] by simp

lemma new_code_buffers:
  assumes "n \<le> length (filter drawable (next_bytes (m * n) src))"
  shows "\<exists>k \<le> m. new_code n src =
    Some (take n (map code_letter (filter drawable (next_bytes (m * n) src))), after_bytes (k * n) src)"
  using fill_code_enough [of "[]" n m src] assms by (simp add: new_code_def)

text \<open>A source that never stops giving bytes below the limit gives as many as are asked for.\<close>

lemma drawable_often:
  assumes "\<forall>i. \<exists>k \<ge> i. drawable (src k)"
  shows "\<exists>m. n \<le> length (filter drawable (next_bytes m src))"
proof (induction n)
  case (Suc n)
  then obtain m where m: "n \<le> length (filter drawable (next_bytes m src))" by blast
  from assms obtain k where k: "m \<le> k" "drawable (src k)" by blast
  have "next_bytes (Suc k) src = next_bytes m src @ map src [m..<k] @ [src k]"
    using k(1) upt_add_eq_append [of 0 m "k - m"] by (simp add: next_bytes_def)
  then show ?case using m k(2) by (intro exI [of _ "Suc k"]) simp
qed simp

lemma filter_next_mono:
  assumes "m \<le> m'"
  shows "length (filter P (next_bytes m src)) \<le> length (filter P (next_bytes m' src))"
proof -
  obtain d where "m' = m + d" using assms le_Suc_ex by blast
  then show ?thesis using next_after [of m src d] by (metis filter_append le_add1 length_append)
qed

text \<open>
  C15. The loop that draws a code ends. Against a source that keeps giving bytes below the limit it
  returns a code of the length asked for, over the alphabet, and as soon as the buffers read
  hold enough such bytes it reads no more of them: the code is made of the first ones.
\<close>

theorem new_code_ends:
  assumes "\<forall>i. \<exists>k \<ge> i. drawable (src k)"
  shows "(\<exists>code src'. new_code n src = Some (code, src') \<and> length code = n \<and>
      set code \<subseteq> set code_alphabet) \<and>
    (\<forall>m. n \<le> length (filter drawable (next_bytes (m * n) src)) \<longrightarrow>
      (\<exists>k \<le> m. new_code n src =
        Some (take n (map code_letter (filter drawable (next_bytes (m * n) src))), after_bytes (k * n) src)))"
proof
  from drawable_often [OF assms] obtain m where "n \<le> length (filter drawable (next_bytes m src))"
    by blast
  moreover have "n = 0 \<or> m \<le> m * n" by auto
  ultimately have "n \<le> length (filter drawable (next_bytes (m * n) src))"
    using filter_next_mono [of m "m * n" drawable src] by fastforce
  from new_code_buffers [OF this] show "\<exists>code src'. new_code n src = Some (code, src') \<and> length code = n \<and>
      set code \<subseteq> set code_alphabet"
    using new_code_facts by blast
qed (use new_code_buffers in blast)

lemma bytes_of_letter:
  assumes "c \<in> set code_alphabet"
  shows "card {v. drawable v \<and> code_letter v = c} = 9"
proof -
  obtain i where i: "i < 28" "c = code_alphabet ! i"
    using assms by (metis code_numbers(1) in_set_conv_nth)
  have same: "code_alphabet ! (n mod 28) = c \<longleftrightarrow> n mod 28 = i" for n
    using i code_numbers(1,3) by (simp add: nth_eq_iff_index_eq)
  have "{v. drawable v \<and> code_letter v = c} = char_of ` {n. n < 252 \<and> n mod 28 = i}"
  proof (intro set_eqI iffI)
    fix v assume "v \<in> {v. drawable v \<and> code_letter v = c}"
    then have "byte v \<in> {n. n < 252 \<and> n mod 28 = i}"
      by (simp add: code_letter_def code_numbers same)
    then show "v \<in> char_of ` {n. n < 252 \<and> n mod 28 = i}" by (metis char_of_byte imageI)
  next
    fix v assume "v \<in> char_of ` {n. n < 252 \<and> n mod 28 = i}"
    then obtain n where n: "n < 252" "n mod 28 = i" "v = char_of n" by auto
    then have "byte v = n" by (simp add: byte_def)
    then show "v \<in> {v. drawable v \<and> code_letter v = c}"
      using n by (simp add: code_letter_def code_numbers same)
  qed
  moreover have "inj_on (char_of :: nat \<Rightarrow> char) {n. n < 252 \<and> n mod 28 = i}"
  proof (rule inj_onI)
    fix m n :: nat
    assume mn: "m \<in> {n. n < 252 \<and> n mod 28 = i}" "n \<in> {n. n < 252 \<and> n mod 28 = i}"
      "char_of m = (char_of n :: char)"
    then have "of_char (char_of m :: char) = (of_char (char_of n :: char) :: nat)" by simp
    then show "m = n" using mn by simp
  qed
  moreover have "{n. n < 252 \<and> n mod 28 = i} = (\<lambda>q. q * 28 + i) ` {..<9}"
  proof (intro set_eqI iffI)
    fix n assume "n \<in> {n. n < 252 \<and> n mod 28 = i}"
    then have "n = n div 28 * 28 + i" "n div 28 < 9" by auto
    then show "n \<in> (\<lambda>q. q * 28 + i) ` {..<9}" by blast
  next
    fix n assume "n \<in> (\<lambda>q. q * 28 + i) ` {..<9}"
    then obtain q where "n = q * 28 + i" "q < 9" by auto
    then show "n \<in> {n. n < 252 \<and> n mod 28 = i}" using i(1) by simp
  qed
  moreover have "inj_on (\<lambda>q. q * 28 + i) {..<9}" by (rule inj_onI) simp
  ultimately show ?thesis
    by (simp add: card_image)
qed

text \<open>
  Every letter is as likely as every other: of the 256 bytes the loop keeps exactly nine for
  each letter of the alphabet, and none for any other character.
\<close>

theorem letters_drawn_evenly:
  "card {v. drawable v \<and> code_letter v = c} = (if c \<in> set code_alphabet then 9 else 0)"
proof (cases "c \<in> set code_alphabet")
  case False
  then have "{v. drawable v \<and> code_letter v = c} = {}" using code_letter_in by auto
  then show ?thesis using False by (metis card.empty)
qed (simp add: bytes_of_letter)

section \<open>A user code read back\<close>

text \<open>What a person may make of a code: any letter in lower case.\<close>

definition lowered :: "char \<Rightarrow> char" where
  "lowered c = (if between 65 90 c then char_of (byte c + 32) else c)"

definition spelled :: "char \<Rightarrow> char \<Rightarrow> bool" where
  "spelled typed c \<longleftrightarrow> typed = c \<or> typed = lowered c"

lemma alphabet_ranges: "c \<in> set code_alphabet \<Longrightarrow> between 50 57 c \<or> between 65 90 c"
  by (auto simp: code_alphabet_def between_def byte_def)

lemma byte_char_of: "n < 256 \<Longrightarrow> byte (char_of n) = n"
  by (simp add: byte_def)

lemma letter_back:
  assumes "c \<in> set code_alphabet" and "spelled t c"
  shows "byte t < 0x80 \<and> code_rune (to_upper uni (byte t)) \<and> char_of (to_upper uni (byte t)) = c"
proof -
  have range: "between 50 57 c \<or> between 65 90 c" using alphabet_ranges [OF assms(1)] .
  have "byte t < 0x80 \<and> to_upper uni (byte t) = byte c"
    using assms(2) range
    by (auto simp: spelled_def lowered_def between_def to_upper_def byte_char_of split: if_splits)
  then show ?thesis
    using assms(1) range by (auto simp: code_rune_def between_def)
qed

lemma keep_letters:
  assumes "list_all2 spelled ts cs" and "set cs \<subseteq> set code_alphabet"
  shows "each_from i keep_letter (map (\<lambda>t. to_upper uni (byte t)) ts) code = Inr (code @ cs)"
  using assms
proof (induction ts cs arbitrary: i code rule: list_all2_induct)
  case (Cons t ts c cs)
  then show ?case using letter_back [of c t uni] by (simp add: keep_letter_def)
qed simp

lemma keep_between:
  "keep_letter i (byte (CHR ''-'')) code = Inr code" "keep_letter i (byte (CHR '' '')) code = Inr code"
proof -
  have "\<not> code_rune (byte (CHR ''-''))" "\<not> code_rune (byte (CHR '' ''))"
    by (simp_all add: code_rune_def code_alphabet_def)
  then show "keep_letter i (byte (CHR ''-'')) code = Inr code" "keep_letter i (byte (CHR '' '')) code = Inr code"
    by (simp_all add: keep_letter_def)
qed

lemma spelled_ascii: "\<lbrakk>list_all2 spelled ts cs; set cs \<subseteq> set code_alphabet\<rbrakk> \<Longrightarrow> ascii ts"
  by (induction ts cs rule: list_all2_induct) (auto simp: ascii_def dest: letter_back)

lemma normalize_typed:
  assumes "list_all2 spelled (ts @ us) code" and "set code \<subseteq> set code_alphabet"
    and "length code = code_length" and "mid \<in> {''-'', '' '', []}"
  shows "normalize_user_code uni (ts @ mid @ us) = Some code"
proof -
  obtain cs ds where code: "code = cs @ ds" "list_all2 spelled ts cs" "list_all2 spelled us ds"
    using assms(1) by (auto simp: list_all2_append1)
  have letters: "set cs \<subseteq> set code_alphabet" "set ds \<subseteq> set code_alphabet" using assms(2) code(1) by auto
  have lens: "length (ts @ mid @ us) \<le> 9"
    using assms(3,4) code list_all2_lengthD [OF code(2)] list_all2_lengthD [OF code(3)]
    by (auto simp: code_length_def)
  have "ascii (ts @ mid @ us)"
    using spelled_ascii [OF code(2) letters(1)] spelled_ascii [OF code(3) letters(2)] assms(4)
    by (auto simp: ascii_def byte_def)
  then have runes: "map (\<lambda>(r, bs). to_upper uni r) (runes (ts @ mid @ us)) =
      map (\<lambda>t. to_upper uni (byte t)) (ts @ mid @ us)"
    by (simp add: runes_ascii)
  have mids: "each_from i keep_letter (map (\<lambda>t. to_upper uni (byte t)) mid) c = Inr c" for i c
    using assms(4) keep_between by (auto simp: to_upper_def byte_def)
  have "each_from 0 keep_letter (map (\<lambda>t. to_upper uni (byte t)) (ts @ mid @ us)) [] = Inr (cs @ ds)"
    using keep_letters [OF code(2) letters(1)] keep_letters [OF code(3) letters(2)] mids
    by (simp add: each_from_append)
  then show ?thesis
    using lens assms(3) code(1)
    by (simp add: normalize_user_code_def runes max_user_code_input_def)
qed

text \<open>
  A user code survives being read aloud: however the grouped code is typed back, in either case
  letter by letter, with its hyphen, a space or nothing between the groups, it is the code.
\<close>

theorem user_code_back:
  assumes "new_code code_length src = Some (code, src')"
    and "list_all2 spelled typed (take code_group_size code)"
    and "list_all2 spelled typed' (drop code_group_size code)"
    and "mid \<in> {''-'', '' '', []}"
  shows "normalize_user_code uni (typed @ mid @ typed') = Some code \<and>
    normalize_user_code uni (format_user_code code) = Some code"
proof -
  note code = new_code_facts [OF assms(1)]
  have typed: "list_all2 spelled (typed @ typed') code"
    using list_all2_appendI [OF assms(2,3)] by simp
  have same: "list_all2 spelled code code" by (simp add: list_all2_same spelled_def)
  show ?thesis
    using normalize_typed [OF typed _ _ assms(4)] code
      normalize_typed [of "take code_group_size code" "drop code_group_size code" code "''-''"] same
    by (simp add: format_user_code_def)
qed

section \<open>Codes and tokens accepted back\<close>

lemma secret_length:
  "length (next_bytes secret_bytes src) = secret_bytes"
  "length (base64_encode (next_bytes secret_bytes src)) = opaque_code_length"
  by (simp_all add: next_bytes_def length_base64 secret_bytes_def opaque_code_length_def)

lemma decodes_to_secret_encoded: "decodes_to_secret (base64_encode (next_bytes secret_bytes src))"
  by (simp add: decodes_to_secret_def secret_length)

lemma opaque_back:
  assumes "new_opaque_code env src = ((code, hash), src')"
  shows "opaque_code_hash env code = Some hash \<and> hash = lke_sha256 env code \<and>
    length code = opaque_code_length"
proof -
  have "code = base64_encode (next_bytes secret_bytes src)" "hash = lke_sha256 env code"
    using assms by (auto simp: new_opaque_code_def Let_def)
  then show ?thesis
    using decodes_to_secret_encoded by (simp add: opaque_code_hash_def secret_length)
qed

lemma split_at_plain: "sep \<notin> set s \<Longrightarrow> split_at sep s = [s]"
  by (induction s) auto

lemma split_at_append: "sep \<notin> set s \<Longrightarrow> split_at sep (s @ sep # t) = s # split_at sep t"
  by (induction s) auto

lemma alphabet_plain:
  "CHR ''.'' \<notin> set code_alphabet" "CHR ''.'' \<notin> set base64_alphabet"
  by (simp_all add: code_alphabet_def base64_alphabet_def)

lemma code_runes:
  assumes "set code \<subseteq> set code_alphabet"
  shows "list_all (\<lambda>(r, bs). code_rune r) (runes code)"
proof -
  have all: "list_all (\<lambda>c. byte c < 0x80) code_alphabet" by (simp add: code_alphabet_def byte_def)
  then have "ascii code" using assms by (auto simp: ascii_def list_all_iff)
  then show ?thesis using assms all by (auto simp: runes_ascii list_all_iff code_rune_def)
qed

lemma credential_back:
  assumes "new_credential env kind src = Some (c, src')" and "kind \<in> {access_token_kind, refresh_token_kind}"
  shows "crd_hash c = lke_sha256 env (crd_token c) \<and>
    credential_hash env (crd_token c) kind' = (if kind' = kind then Some (crd_hash c) else None)"
proof -
  from assms(1) obtain prefix src1 where
    prefix: "new_code code_length src = Some (prefix, src1)" and
    c: "crd_token c = kind @ ''.'' @ prefix @ ''.'' @ base64_encode (next_bytes secret_bytes src1)"
      "crd_hash c = lke_sha256 env (crd_token c)"
    by (auto simp: new_credential_def Let_def split: option.splits)
  let ?secret = "base64_encode (next_bytes secret_bytes src1)"
  have kind: "length kind = 3" "CHR ''.'' \<notin> set kind"
    using assms(2) by (auto simp: access_token_kind_def refresh_token_kind_def)
  note facts = new_code_facts [OF prefix]
  have secret: "length ?secret = opaque_code_length" "CHR ''.'' \<notin> set ?secret"
    using base64_letters alphabet_plain by (auto simp: secret_length)
  have "CHR ''.'' \<notin> set prefix" using facts alphabet_plain by blast
  then have "split_at (CHR ''.'') (crd_token c) = [kind, prefix, ?secret]"
    using kind secret(2) by (simp add: c(1) split_at_append split_at_plain)
  moreover have "length (crd_token c) = credential_length"
    using kind(1) facts secret(1) by (simp add: c(1) credential_length_def)
  ultimately show ?thesis
    using facts code_runes decodes_to_secret_encoded c(2)
    by (auto simp: credential_hash_def)
qed

text \<open>
  A token is taken back as the kind it was made as and never as the other: an access token does
  not refresh and a refresh token does not authenticate. A code of the browser or device flow
  is taken back as the code it is.
\<close>

theorem tokens_taken_back:
  assumes "new_credential env kind src = Some (c, src')"
    and "kind \<in> {access_token_kind, refresh_token_kind}"
    and "new_opaque_code env src = ((code, hash), src'')"
  shows "credential_hash env (crd_token c) kind' = (if kind' = kind then Some (crd_hash c) else None) \<and>
    opaque_code_hash env code = Some hash"
  using credential_back [OF assms(1,2)] opaque_back [OF assms(3)] by blast

section \<open>Requests\<close>

lemma scopes_differ: "scope_receive_assets \<noteq> scope_sync_library"
  by (simp add: scope_receive_assets_def scope_sync_library_def)

lemma two_counts:
  fixes a b :: 'a
  assumes "a \<noteq> b"
  shows "distinct xs \<and> set xs \<subseteq> {a, b} \<longleftrightarrow>
    length (filter (\<lambda>s. s = a) xs) \<le> 1 \<and> length (filter (\<lambda>s. s = b) xs) \<le> 1 \<and>
    length xs = length (filter (\<lambda>s. s = a) xs) + length (filter (\<lambda>s. s = b) xs)"
proof (induction xs)
  case (Cons x xs)
  have le: "length (filter (\<lambda>s. s = a) xs) + length (filter (\<lambda>s. s = b) xs) \<le> length xs"
    using assms by (induction xs) auto
  have present: "length (filter (\<lambda>s. s = y) xs) = 0 \<longleftrightarrow> y \<notin> set xs" for y
    by (auto simp: filter_empty_conv)
  consider "x = a" | "x = b" | "x \<noteq> a" "x \<noteq> b" by blast
  then show ?case
  proof cases
    case 1
    then show ?thesis using Cons.IH present [of a] assms by auto
  next
    case 2
    then show ?thesis using Cons.IH present [of b] assms by auto
  next
    case 3
    then show ?thesis using le by auto
  qed
qed simp

text \<open>
  A request is granted exactly the scopes it names, in the order of the code and not of the
  request, and only if it names at least one, none twice and none the service does not know.
\<close>

theorem canonical_scopes_decides:
  "canonical_scopes requested =
     (if requested \<noteq> [] \<and> distinct requested \<and> set requested \<subseteq> set scope_order
      then Inr (filter (\<lambda>s. s \<in> set requested) scope_order) else Inl InvalidScopes)"
proof -
  let ?a = scope_receive_assets and ?b = scope_sync_library
  obtain na nb where counts: "na = length (filter (\<lambda>s. s = ?a) requested)"
    "nb = length (filter (\<lambda>s. s = ?b) requested)" by blast
  have present: "0 < length (filter (\<lambda>s. s = y) requested) \<longleftrightarrow> y \<in> set requested" for y
    by (auto simp: filter_empty_conv)
  have grants: "grant_scope requested i ?a g =
      (if 1 < na then Inl InvalidScopes else if na = 1 then Inr (g @ [?a]) else Inr g)"
    "grant_scope requested i ?b g =
      (if 1 < nb then Inl InvalidScopes else if nb = 1 then Inr (g @ [?b]) else Inr g)" for i g
    by (simp_all add: grant_scope_def counts Let_def)
  have run: "canonical_scopes requested =
      (if requested = [] \<or> 1 < na \<or> 1 < nb \<or> length requested \<noteq> na + nb then Inl InvalidScopes
       else Inr ((if na = 1 then [?a] else []) @ (if nb = 1 then [?b] else [])))"
    by (auto simp: canonical_scopes_def scope_order_def grants)
  have fits: "distinct requested \<and> set requested \<subseteq> set scope_order \<longleftrightarrow>
      na \<le> 1 \<and> nb \<le> 1 \<and> length requested = na + nb"
    using two_counts [OF scopes_differ, of requested] by (simp add: scope_order_def counts)
  have "?a \<in> set requested \<longleftrightarrow> 0 < na" "?b \<in> set requested \<longleftrightarrow> 0 < nb"
    by (simp_all only: counts present)
  then have "(if na = 1 then [?a] else []) @ (if nb = 1 then [?b] else []) =
      filter (\<lambda>s. s \<in> set requested) scope_order" if "na \<le> 1" "nb \<le> 1"
    using that by (auto simp: scope_order_def)
  then show ?thesis unfolding run fits by auto
qed

lemma canonical_identifiers_loop:
  "collect_from i (canonical_one pattern) vs seen = Inr (result, seen') \<longleftrightarrow>
     result = vs \<and> seen' = seen \<union> set vs \<and> distinct vs \<and> set vs \<inter> seen = {} \<and>
     list_all (\<lambda>v. length v \<le> max_identifier_length \<and> pattern v) vs"
proof (induction vs arbitrary: i seen result seen')
  case (Cons v vs)
  have one: "canonical_one pattern i v seen =
      (if length v \<le> max_identifier_length \<and> pattern v \<and> v \<notin> seen then Inr (v, insert v seen)
       else Inl InvalidDeclaration)"
    by (auto simp: canonical_one_def)
  show ?case
  proof (cases "collect_from (Suc i) (canonical_one pattern) vs (insert v seen)")
    case (Inl e)
    then have "\<not> (distinct vs \<and> set vs \<inter> insert v seen = {} \<and>
        list_all (\<lambda>v. length v \<le> max_identifier_length \<and> pattern v) vs)"
      using Cons.IH [of "Suc i" "insert v seen" vs "insert v seen \<union> set vs"] by simp
    then show ?thesis using Inl by (auto simp: one)
  next
    case (Inr r)
    obtain vs' s where r: "r = (vs', s)" by (cases r)
    have "vs' = vs" "s = insert v seen \<union> set vs" "distinct vs" "set vs \<inter> insert v seen = {}"
      "list_all (\<lambda>v. length v \<le> max_identifier_length \<and> pattern v) vs"
      using Inr unfolding r Cons.IH by blast+
    then show ?thesis using Inr r by (auto simp: one)
  qed
qed auto

lemma canonical_identifiers_decides:
  "canonical_identifiers vs pattern = Inr result \<longleftrightarrow>
     result = vs \<and> length vs \<le> max_declaration_items \<and> distinct vs \<and>
     list_all (\<lambda>v. length v \<le> max_identifier_length \<and> pattern v) vs"
  by (auto simp: canonical_identifiers_def and_then_Inr canonical_identifiers_loop)

section \<open>Witnesses\<close>

lemma steady_code:
  "new_code code_length (\<lambda>k. CHR ''A'') = Some (''MMMMMMMM'', \<lambda>k. CHR ''A'')"
proof -
  have "next_bytes 8 (\<lambda>k. CHR ''A'') = ''AAAAAAAA''" by (simp add: next_bytes_def upt_rec)
  moreover have "code_letter (CHR ''A'') = CHR ''M''"
    by (simp add: code_letter_def code_alphabet_def byte_def)
  moreover have "drawable (CHR ''A'')" by (simp add: code_numbers byte_def)
  ultimately show ?thesis
    by (simp add: new_code_def fill_code.simps [of _ "[]"] fill_code.simps [of _ "_ # _"] after_bytes_def
        code_length_def)
qed

theorem new_code_ends_witness:
  "\<exists>code src'. new_code code_length (\<lambda>k. CHR ''A'') = Some (code, src') \<and> length code = code_length"
proof -
  have "\<forall>i. \<exists>k \<ge> i. drawable ((\<lambda>k::nat. CHR ''A'') k)" by (auto simp: code_numbers byte_def)
  from new_code_ends [OF this] show ?thesis by blast
qed

theorem user_code_back_witness:
  "normalize_user_code \<lparr>uni_print = \<lambda>_. False, uni_space = \<lambda>_. False, uni_upper = \<lambda>r. r\<rparr> ''mMmm MMMM'' =
     Some ''MMMMMMMM''"
proof -
  have "lowered (CHR ''M'') = CHR ''m''" by (simp add: lowered_def between_def byte_def char_of_eq_iff)
  then have "list_all2 spelled ''mMmm'' (take code_group_size ''MMMMMMMM'')"
    "list_all2 spelled ''MMMM'' (drop code_group_size ''MMMMMMMM'')"
    by (simp_all add: spelled_def code_group_size_def)
  from user_code_back [OF steady_code this, of "'' ''"] show ?thesis by simp
qed

text \<open>Digests that keep what they are given, and the letters of ASCII.\<close>

definition sample_unicode :: unicode where
  "sample_unicode =
     \<lparr>uni_print = \<lambda>r. 32 \<le> r \<and> r < 127, uni_space = \<lambda>r. r = 32,
      uni_upper = \<lambda>r. if 97 \<le> r \<and> r < 123 then r - 32 else r\<rparr>"

definition sample_link_env :: link_env where
  "sample_link_env =
     \<lparr>lke_unicode = sample_unicode, lke_parse = \<lambda>_. None, lke_sha256 = \<lambda>s. s,
      lke_hmac = \<lambda>s. take 32 (s @ replicate 32 CHR 0x00), lke_site = ''https://illarin.test''\<rparr>"

theorem tokens_taken_back_witness:
  "\<exists>c src'. new_credential sample_link_env access_token_kind (\<lambda>k. CHR ''A'') = Some (c, src') \<and>
     credential_hash sample_link_env (crd_token c) refresh_token_kind = None"
proof -
  obtain c src' where run: "new_credential sample_link_env access_token_kind (\<lambda>k. CHR ''A'') = Some (c, src')"
    by (simp add: new_credential_def steady_code Let_def)
  obtain code hash src'' where opaque: "new_opaque_code sample_link_env (\<lambda>k. CHR ''A'') = ((code, hash), src'')"
    by (metis prod.exhaust)
  have "refresh_token_kind \<noteq> access_token_kind" by (simp add: access_token_kind_def refresh_token_kind_def)
  then show ?thesis
    using tokens_taken_back [OF run _ opaque, of refresh_token_kind] run by auto
qed

end
