(* ===== verification/LinkRates.thy ===== *)
theory LinkRates
  imports LinkService LinkTables
begin

text \<open>
  How often a source gets through \<^verbatim>\<open>takeRate\<close>: calls for one action and source, among calls for
  others and cleanups of old counters, in any order.
\<close>

section \<open>Counters\<close>

abbreviation rate_id :: "rate_row \<Rightarrow> string \<times> string" where
  "rate_id r \<equiv> (rte_key r, rte_action r)"

definition rates_sound :: "link_db \<Rightarrow> bool" where
  "rates_sound db \<longleftrightarrow>
     distinct (map rate_id (lnk_rates db)) \<and> (\<forall>r \<in> set (lnk_rates db). 0 < rte_attempts r)"

definition counter :: "link_env \<Rightarrow> string \<Rightarrow> string \<Rightarrow> link_db \<Rightarrow> rate_row option" where
  "counter env action source db = the_row rate_id (rate_key env action source, action) (lnk_rates db)"

lemma same_rate_id: "same_rate key action = (\<lambda>r. rate_id r = (key, action))"
  by (auto simp: same_rate_def)

lemma count_attempt_id [simp]: "rate_id (count_attempt clk cutoff r) = rate_id r"
  by (simp add: count_attempt_def)

text \<open>The three things a call may find.\<close>

lemma take_rate_limit_cases:
  assumes "rates_sound db"
  shows "case the_row rate_id (key, action) (lnk_rates db) of
      None \<Rightarrow> \<exists>db'. take_rate_limit clk key action cutoff db =
          Some (db', \<lparr>rte_key = key, rte_action = action, rte_attempts = 1, rte_start = clk_db clk\<rparr>) \<and>
        rates_sound db' \<and> (\<forall>k. the_row rate_id k (lnk_rates db') =
          (if k = (key, action) then Some \<lparr>rte_key = key, rte_action = action, rte_attempts = 1,
             rte_start = clk_db clk\<rparr> else the_row rate_id k (lnk_rates db)))
    | Some r \<Rightarrow>
        (take_rate_limit clk key action cutoff db = None \<and> cutoff < rte_start r \<and>
           max_integer \<le> rte_attempts r) \<or>
        (\<exists>db'. take_rate_limit clk key action cutoff db = Some (db', count_attempt clk cutoff r) \<and>
          rates_sound db' \<and> (\<forall>k. the_row rate_id k (lnk_rates db') =
            (if k = (key, action) then Some (count_attempt clk cutoff r)
             else the_row rate_id k (lnk_rates db))))"
proof (cases "the_row rate_id (key, action) (lnk_rates db)")
  case None
  then have "(key, action) \<notin> rate_id ` set (lnk_rates db)" by (simp add: the_row_None)
  moreover have "find (same_rate key action) (lnk_rates db) = None"
    using None by (simp add: same_rate_id the_row_def)
  ultimately show ?thesis
    using None assms by (auto simp: take_rate_limit_def rates_sound_def Let_def split: option.splits)
next
  case (Some r)
  let ?p = "same_rate key action"
  let ?rs = "update_where ?p (count_attempt clk cutoff) (lnk_rates db)"
  have found: "find ?p (lnk_rates db) = Some r"
    using Some by (simp add: same_rate_id the_row_def)
  have row: "the_row rate_id k ?rs =
      map_option (\<lambda>r. if ?p r then count_attempt clk cutoff r else r) (the_row rate_id k (lnk_rates db))" for k
    by (rule the_row_update) simp
  have others: "the_row rate_id k ?rs =
      (if k = (key, action) then Some (count_attempt clk cutoff r) else the_row rate_id k (lnk_rates db))" for k
  proof (cases "the_row rate_id k (lnk_rates db)")
    case None
    then show ?thesis using row Some by auto
  next
    case (Some q)
    then have "rate_id q = k" using the_row_Some by fast
    then show ?thesis using row Some \<open>the_row rate_id (key, action) (lnk_rates db) = Some r\<close>
      by (auto simp: same_rate_id)
  qed
  have "map rate_id ?rs = map rate_id (lnk_rates db)" by (rule map_update_where) simp
  moreover have "0 < rte_attempts (count_attempt clk cutoff q)" if "0 < rte_attempts q" for q
    using that by (simp add: count_attempt_def)
  ultimately have "rates_sound (db\<lparr>lnk_rates := ?rs\<rparr>)"
    using assms by (auto simp: rates_sound_def set_update_where)
  then show ?thesis
    using Some found others by (auto simp: take_rate_limit_def)
qed

section \<open>Calls and cleanups\<close>

datatype rate_event =
    Attempt clocks
  | Elsewhere clocks string string int int
  | Cleanup int

fun admitted ::
  "link_env \<Rightarrow> string \<Rightarrow> string \<Rightarrow> int \<Rightarrow> int \<Rightarrow> rate_event list \<Rightarrow> link_db \<Rightarrow> nat" where
  "admitted env action source limit window [] db = 0"
| "admitted env action source limit window (Attempt clk # es) db =
     (case take_rate env clk action source limit window db of
        (db', Inl e) \<Rightarrow> admitted env action source limit window es db'
      | (db', Inr u) \<Rightarrow> Suc (admitted env action source limit window es db'))"
| "admitted env action source limit window (Elsewhere clk action' source' limit' window' # es) db =
     admitted env action source limit window es
       (fst (take_rate env clk action' source' limit' window' db))"
| "admitted env action source limit window (Cleanup cutoff # es) db =
     admitted env action source limit window es (delete_expired_rates cutoff db)"

text \<open>
  Events within a span that is shorter than the window and begins at \<open>s\<close>: a database reading is
  not before \<open>s\<close>, an application's is before the window is over, a cleanup takes what is older.
\<close>

fun in_span :: "link_env \<Rightarrow> string \<Rightarrow> string \<Rightarrow> int \<Rightarrow> int \<Rightarrow> rate_event \<Rightarrow> bool" where
  "in_span env action source window s (Attempt clk) \<longleftrightarrow> s \<le> clk_db clk \<and> clk_app clk < s + window"
| "in_span env action source window s (Elsewhere clk action' source' limit' window') \<longleftrightarrow>
     (rate_key env action' source', action') \<noteq> (rate_key env action source, action)"
| "in_span env action source window s (Cleanup cutoff) \<longleftrightarrow> cutoff < s"

text \<open>What is left to admit, at most: a window that began before the span may still end in it.\<close>

definition room :: "int \<Rightarrow> int \<Rightarrow> rate_row option \<Rightarrow> int" where
  "room limit s c =
     (case c of
        None \<Rightarrow> limit
      | Some r \<Rightarrow> max 0 (limit - rte_attempts r) + (if rte_start r < s then limit else 0))"

lemma attempt_room:
  assumes "rates_sound db" "in_span env action source window s (Attempt clk)" "0 \<le> limit"
    and "take_rate env clk action source limit window db = (db', res)"
  shows "rates_sound db' \<and>
    room limit s (counter env action source db') + (case res of Inl e \<Rightarrow> 0 | Inr u \<Rightarrow> 1) \<le>
    room limit s (counter env action source db)"
proof -
  let ?k = "rate_key env action source"
  show ?thesis
  proof (cases "the_row rate_id (?k, action) (lnk_rates db)")
    case None
    then show ?thesis
      using take_rate_limit_cases [OF assms(1), of clk ?k action "clk_app clk - window"] assms(2-4)
      by (auto simp: take_rate_def counter_def room_def split: if_splits)
  next
    case (Some r)
    have "r \<in> set (lnk_rates db)" using the_row_Some [OF Some] by simp
    then have "0 < rte_attempts r" using assms(1) by (simp add: rates_sound_def)
    then show ?thesis
      using take_rate_limit_cases [OF assms(1), of clk ?k action "clk_app clk - window"] assms Some
      by (auto simp: take_rate_def counter_def room_def count_attempt_def split: if_splits)
  qed
qed

lemma elsewhere_room:
  assumes "rates_sound db"
    and "in_span env action source window s (Elsewhere clk action' source' limit' window')"
  shows "rates_sound (fst (take_rate env clk action' source' limit' window' db)) \<and>
    counter env action source (fst (take_rate env clk action' source' limit' window' db)) =
    counter env action source db"
  using take_rate_limit_cases [OF assms(1), of clk "rate_key env action' source'" action'
      "clk_app clk - window'"] assms
  by (auto simp: take_rate_def counter_def split: option.splits)

lemma cleanup_room:
  assumes "rates_sound db" "cutoff < s" "0 \<le> limit"
  shows "rates_sound (delete_expired_rates cutoff db) \<and>
    room limit s (counter env action source (delete_expired_rates cutoff db)) \<le>
    room limit s (counter env action source db)"
proof -
  obtain q where q: "delete_expired rte_start cleanup_batch cutoff (lnk_rates db) = filter q (lnk_rates db)"
      "\<forall>r. cutoff < rte_start r \<longrightarrow> q r"
    using delete_expired_filter by blast
  have "distinct (map rate_id (lnk_rates db))" using assms(1) by (simp add: rates_sound_def)
  from the_row_filter [OF this, of _ q] show ?thesis
    using assms q(2)
    by (auto simp: delete_expired_rates_def q(1) counter_def room_def rates_sound_def distinct_map_filter
        split: option.splits)
qed

lemma admitted_room:
  assumes "rates_sound db" "0 \<le> limit" "\<forall>e \<in> set es. in_span env action source window s e"
  shows "int (admitted env action source limit window es db) \<le> room limit s (counter env action source db)"
  using assms
proof (induction es arbitrary: db)
  case Nil
  then show ?case by (auto simp: room_def split: option.splits)
next
  case (Cons e es)
  show ?case
  proof (cases e)
    case (Attempt clk)
    obtain db' res where run: "take_rate env clk action source limit window db = (db', res)"
      by fastforce
    have "in_span env action source window s (Attempt clk)" using Cons.prems(3) Attempt by simp
    note step = attempt_room [OF Cons.prems(1) this Cons.prems(2) run]
    then show ?thesis
      using Cons.IH [of db'] Cons.prems Attempt run by (auto split: sum.splits)
  next
    case (Elsewhere clk action' source' limit' window')
    have "in_span env action source window s (Elsewhere clk action' source' limit' window')"
      using Cons.prems(3) Elsewhere by simp
    note step = elsewhere_room [OF Cons.prems(1) this]
    then show ?thesis
      using Cons.IH [of "fst (take_rate env clk action' source' limit' window' db)"] Cons.prems Elsewhere
      by simp
  next
    case (Cleanup cutoff)
    note step = cleanup_room [OF Cons.prems(1) _ Cons.prems(2), of cutoff s env action source]
    then show ?thesis
      using Cons.IH [of "delete_expired_rates cutoff db"] Cons.prems Cleanup by simp
  qed
qed

text \<open>
  C21. However its calls fall, between calls of others and cleanups, a source gets through at
  most twice its limit in any span shorter than the window, and at most its limit when no
  window of it was open before.
\<close>

theorem rates_bound_admissions:
  assumes "rates_sound db" "0 \<le> limit" "\<forall>e \<in> set es. in_span env action source window s e"
  shows "int (admitted env action source limit window es db) \<le>
    (if counter env action source db = None then limit else 2 * limit)"
proof (cases "counter env action source db")
  case (Some r)
  then have "r \<in> set (lnk_rates db)" unfolding counter_def by (blast dest: the_row_Some)
  then have "0 < rte_attempts r" using assms(1) by (simp add: rates_sound_def)
  then have "room limit s (counter env action source db) \<le> 2 * limit"
    using Some assms(2) by (simp add: room_def)
  then show ?thesis using admitted_room [OF assms] Some by simp
qed (use admitted_room [OF assms] in \<open>simp add: room_def\<close>)

end
