(* ===== verification/LinkFlow.thy ===== *)
theory LinkFlow
  imports LinkCodeFacts LinkRates LinkGrants
begin

text \<open>
  The device flow from end to end: an application asks, a person reviews and approves with the
  code the application shows, the application polls and has tokens that work.
\<close>

section \<open>Rates that have room\<close>

definition rate_open :: "link_env \<Rightarrow> clocks \<Rightarrow> string \<Rightarrow> string \<Rightarrow> int \<Rightarrow> int \<Rightarrow> link_db \<Rightarrow> bool" where
  "rate_open env clk action source limit window db \<longleftrightarrow>
     0 < limit \<and> limit \<le> max_integer \<and>
     (case counter env action source db of
        None \<Rightarrow> True
      | Some r \<Rightarrow> rte_attempts r < limit \<or> rte_start r \<le> clk_app clk - window)"

lemma rate_open_takes:
  assumes "rates_sound db" "rate_open env clk action source limit window db"
  shows "\<exists>rs. take_rate env clk action source limit window db = (db\<lparr>lnk_rates := rs\<rparr>, Inr ()) \<and>
    rates_sound (db\<lparr>lnk_rates := rs\<rparr>) \<and>
    (\<forall>action' source'. action' \<noteq> action \<longrightarrow>
       counter env action' source' (db\<lparr>lnk_rates := rs\<rparr>) = counter env action' source' db)"
proof -
  obtain db' res where run: "take_rate env clk action source limit window db = (db', res)" by fastforce
  obtain rs where rs: "db' = db\<lparr>lnk_rates := rs\<rparr>" using run by (rule take_rate_rows)
  have "res = Inr () \<and> rates_sound db' \<and> (\<forall>action' source'. action' \<noteq> action \<longrightarrow>
      counter env action' source' db' = counter env action' source' db)"
    using take_rate_limit_cases [OF assms(1), of clk "rate_key env action source" action
        "clk_app clk - window"] assms(2) run
    by (auto simp: rate_open_def counter_def take_rate_def count_attempt_def split: option.splits if_splits)
  then show ?thesis using run rs by auto
qed

lemma rate_open_less:
  "\<lbrakk>rate_open env clk action source limit window db;
    counter env action source db' \<in> {None, counter env action source db}\<rbrakk> \<Longrightarrow>
   rate_open env clk action source limit window db'"
  by (auto simp: rate_open_def)

lemma cleaned_counters:
  assumes "rates_sound db"
  shows "rates_sound (delete_expired_rates cutoff db) \<and>
    counter env action source (delete_expired_rates cutoff db) \<in> {None, counter env action source db}"
proof -
  obtain q where q: "delete_expired rte_start cleanup_batch cutoff (lnk_rates db) = filter q (lnk_rates db)"
    using delete_expired_filter by blast
  have "distinct (map rate_id (lnk_rates db))" using assms by (simp add: rates_sound_def)
  from the_row_filter [OF this, of _ q] show ?thesis
    using assms
    by (auto simp: delete_expired_rates_def q counter_def rates_sound_def distinct_map_filter
        split: option.splits)
qed

section \<open>The newest row of a table\<close>

lemma last_row:
  assumes "\<And>r. r \<in> set rs \<Longrightarrow> \<not> p r"
  shows "find p (rs @ [r]) = (if p r then Some r else None)"
    "update_where p f (rs @ [r]) = rs @ [if p r then f r else r]"
    "filter p (rs @ [r]) = (if p r then [r] else [])"
  using assms by (induction rs) (auto simp: update_where_def)

section \<open>The steps of the flow\<close>

lemma formatted_code_back:
  assumes "new_code code_length src = Some (code, src')"
  shows "normalize_user_code uni (format_user_code code) = Some code"
proof -
  have "list_all2 spelled code code" by (simp add: list_all2_same spelled_def)
  then show ?thesis
    using normalize_typed [of "take code_group_size code" "drop code_group_size code" code "''-''"]
      new_code_facts [OF assms] by (simp add: format_user_code_def)
qed

lemma start_answers:
  assumes "validate_start (lke_unicode env) input = Inr inp"
    and "rates_sound db" "rate_open env clk ''start'' source 30 an_hour db"
    and "new_opaque_code env src = ((code, hash), src1)"
    and "new_code code_length src1 = Some (letters, src2)"
    and "hash \<notin> dev_code ` set (lnk_devices db)"
    and "digest env ''user-code'' letters \<notin> dev_user_code ` set (lnk_devices db)"
    and "clk_db clk < clk_app clk + request_lifetime"
  shows "\<exists>rs ds. start_device env clk src source input db =
      Some (db\<lparr>lnk_rates := rs, lnk_devices := ds @ [new_device_request env clk inp hash letters]\<rparr>,
        Inr \<lparr>dva_device_code = code, dva_user_code = format_user_code letters,
             dva_verify_url = lke_site env @ ''/link'', dva_expires = clk_app clk + request_lifetime,
             dva_interval = seconds poll_interval\<rparr>) \<and>
    set ds \<subseteq> set (lnk_devices db) \<and> rates_sound (db\<lparr>lnk_rates := rs\<rparr>) \<and>
    (\<forall>action' source'. action' \<noteq> ''start'' \<longrightarrow>
       counter env action' source' (db\<lparr>lnk_rates := rs\<rparr>) \<in> {None, counter env action' source' db})"
proof -
  let ?row = "new_device_request env clk inp hash letters"
  obtain rs where rate: "take_rate env clk ''start'' source 30 an_hour db = (db\<lparr>lnk_rates := rs\<rparr>, Inr ())"
      "rates_sound (db\<lparr>lnk_rates := rs\<rparr>)"
    and counters: "\<And>action' source'. action' \<noteq> ''start'' \<Longrightarrow>
       counter env action' source' (db\<lparr>lnk_rates := rs\<rparr>) = counter env action' source' db"
    using rate_open_takes [OF assms(2,3)] by blast
  define ds where "ds = delete_expired dev_expires cleanup_batch (clk_db clk) (lnk_devices db)"
  define qs where "qs = delete_expired rte_start cleanup_batch (clk_app clk - rate_lifetime) rs"
  have ds: "set ds \<subseteq> set (lnk_devices db)" unfolding ds_def by (rule delete_expired_subset)
  have cleaned: "delete_expired_rates (clk_app clk - rate_lifetime)
      (delete_expired_devices clk (db\<lparr>lnk_rates := rs\<rparr>)) = db\<lparr>lnk_rates := qs, lnk_devices := ds\<rparr>"
    by (simp add: delete_expired_rates_def delete_expired_devices_def ds_def qs_def)
  have new: "\<not> (dev_code r = dev_code ?row \<or> dev_user_code r = dev_user_code ?row)" if "r \<in> set ds" for r
  proof -
    have "r \<in> set (lnk_devices db)" using that ds by auto
    then have "dev_code r \<noteq> hash" "dev_user_code r \<noteq> digest env ''user-code'' letters"
      using assms(6,7) by (metis imageI)+
    then show ?thesis by (simp add: new_device_request_def)
  qed
  have "insert_device_request clk ?row (db\<lparr>lnk_rates := qs, lnk_devices := ds\<rparr>) =
      Stored (db\<lparr>lnk_rates := qs, lnk_devices := ds @ [?row]\<rparr>)"
    using new assms(8) by (auto simp: insert_device_request_def list_ex_iff new_device_request_def)
  then have "start_device env clk src source input db =
      Some (db\<lparr>lnk_rates := qs, lnk_devices := ds @ [?row]\<rparr>,
        Inr \<lparr>dva_device_code = code, dva_user_code = format_user_code letters,
             dva_verify_url = lke_site env @ ''/link'', dva_expires = clk_app clk + request_lifetime,
             dva_interval = seconds poll_interval\<rparr>)"
    using assms(1,4,5) rate(1)
    by (simp add: start_device_def and_run_def cleaned eval_nat_numeral)
  moreover have "db\<lparr>lnk_rates := qs\<rparr> =
      delete_expired_rates (clk_app clk - rate_lifetime) (db\<lparr>lnk_rates := rs\<rparr>)"
    by (simp add: delete_expired_rates_def qs_def)
  then have "rates_sound (db\<lparr>lnk_rates := qs\<rparr>) \<and> (\<forall>action' source'. action' \<noteq> ''start'' \<longrightarrow>
       counter env action' source' (db\<lparr>lnk_rates := qs\<rparr>) \<in> {None, counter env action' source' db})"
    using cleaned_counters [OF rate(2)] counters by metis
  ultimately show ?thesis using ds by blast
qed

lemma proof_taken_back:
  assumes "\<forall>s. length (lke_hmac env s) = secret_bytes"
  shows "device_approval_proof_hash env user code (device_approval_proof env user code) =
    Some (lke_sha256 env (device_approval_proof env user code))"
  using assms
  by (simp add: device_approval_proof_hash_def opaque_code_hash_def device_approval_proof_def digest_def
      decodes_to_secret_def length_base64 secret_bytes_def opaque_code_length_def)

text \<open>A request that was asked for last, and is under review by nobody.\<close>

lemma pending_answers:
  assumes "lnk_devices db = ds @ [d]" "unanswered d" "dev_reviewed d = None"
    and "dev_user_code d = digest env ''user-code'' letters" "clk_db clk < dev_expires d"
    and "\<forall>r \<in> set ds. dev_user_code r \<noteq> dev_user_code d"
    and "normalize_user_code (lke_unicode env) typed = Some letters"
    and "rates_sound db" "rate_open env clk ''user-code'' (uuid_text user) code_attempt_limit an_hour db"
  shows "\<exists>rs. pending env clk user typed db =
      (db\<lparr>lnk_rates := rs\<rparr>, Inr (pending_of_device d (device_approval_proof env user letters))) \<and>
    rates_sound (db\<lparr>lnk_rates := rs\<rparr>) \<and>
    (\<forall>action' source'. action' \<noteq> ''user-code'' \<longrightarrow>
       counter env action' source' (db\<lparr>lnk_rates := rs\<rparr>) = counter env action' source' db)"
proof -
  have "find (device_open clk user (dev_user_code d)) (ds @ [d]) = Some d"
    using assms(2-6) last_row(1) [of ds "device_open clk user (dev_user_code d)" d]
    by (auto simp: device_open_def unanswered_def)
  then show ?thesis
    using rate_open_takes [OF assms(8,9)] assms(1,4,7)
    by (auto simp: pending_def review_device_def)
qed

lemma approve_answers:
  assumes "lnk_devices db = ds @ [d]" "unanswered d" "dev_reviewed d = None"
    and "dev_user_code d = digest env ''user-code'' letters" "clk_db clk < dev_expires d"
    and "\<forall>r \<in> set ds. dev_user_code r \<noteq> dev_user_code d"
    and "normalize_user_code (lke_unicode env) typed = Some letters"
    and "\<forall>s. length (lke_hmac env s) = secret_bytes"
  shows "\<exists>q. approve env clk user typed (device_approval_proof env user letters) db =
    (db\<lparr>lnk_devices := ds @ [d\<lparr>dev_token :=
          Some (lke_sha256 env (device_approval_proof env user letters)), dev_reviewed := Some user,
          dev_approved := Some (user, clk_db clk)\<rparr>]\<rparr>, Inr q)"
proof -
  let ?p = "device_open clk user (dev_user_code d)"
  have none: "\<not> ?p r" if "r \<in> set ds" for r using that assms(6) by (auto simp: device_open_def)
  have "?p d" using assms(2,3,5) by (simp add: device_open_def unanswered_def)
  then show ?thesis
    using assms(1,4,7) proof_taken_back [OF assms(8)] last_row [of ds ?p, OF none]
    by (simp add: approve_def decided_code_def approve_device_def Let_def)
qed

text \<open>The poll of an approved request, and the instance it brings.\<close>

lemma issue_answers:
  assumes "new_credential env access_token_kind src = Some (access, src1)"
    and "new_credential env refresh_token_kind src1 = Some (renew, src2)"
    and "fresh \<notin> ins_id ` set (lnk_instances db)" "crd_hash renew \<notin> set (known ins_refresh (lnk_instances db))"
    and "crd_hash access \<notin> acc_hash ` set (lnk_access db)"
    and "clk_db clk < clk_app clk + access_token_lifetime"
  shows "issue_grant env clk src fresh user decl scopes db =
    Some (db\<lparr>lnk_instances := lnk_instances db @ [granted_instance clk fresh user decl scopes renew],
        lnk_access := delete_expired acc_expires cleanup_batch (clk_db clk)
          (lnk_access db @ [\<lparr>acc_hash = crd_hash access, acc_instance = fresh,
             acc_expires = clk_app clk + access_token_lifetime\<rparr>])\<rparr>,
      Inr \<lparr>grt_instance = answer_of (granted_instance clk fresh user decl scopes renew),
           grt_access = crd_token access, grt_access_expires = clk_app clk + access_token_lifetime,
           grt_refresh = crd_token renew\<rparr>)"
proof -
  let ?i = "granted_instance clk fresh user decl scopes renew"
  let ?t = "\<lparr>acc_hash = crd_hash access, acc_instance = fresh,
    acc_expires = clk_app clk + access_token_lifetime\<rparr>"
  have "insert_instance ?i db = Some (db\<lparr>lnk_instances := lnk_instances db @ [?i]\<rparr>)"
    using assms(3,4)
    by (force simp: insert_instance_def list_ex_iff granted_instance_def set_known)
  moreover have "insert_access clk ?t (db\<lparr>lnk_instances := lnk_instances db @ [?i]\<rparr>) =
      Some (db\<lparr>lnk_instances := lnk_instances db @ [?i], lnk_access := lnk_access db @ [?t]\<rparr>)"
    using assms(5,6)
    by (force simp: insert_access_def list_ex_iff granted_instance_def live_def)
  ultimately show ?thesis
    using assms(1,2) by (simp add: issue_grant_def delete_expired_access_def Let_def)
qed

lemma poll_answers:
  assumes "lnk_devices db = ds @ [d]" "dev_approved d = Some (user, at)" "dev_denied d = None"
    and "dev_redeemed d = None" "dev_polled d = None" "\<forall>r \<in> set ds. dev_code r \<noteq> dev_code d"
    and "clk_db clk < dev_expires d" "clk_app clk \<le> dev_expires d"
    and "rates_sound db" "rate_open env clk ''poll'' source 600 (seconds 60) db"
    and "opaque_code_hash env code = Some (dev_code d)"
    and "new_credential env access_token_kind src = Some (access, src1)"
    and "new_credential env refresh_token_kind src1 = Some (renew, src2)"
    and "fresh \<notin> ins_id ` set (lnk_instances db)" "crd_hash renew \<notin> set (known ins_refresh (lnk_instances db))"
    and "crd_hash access \<notin> acc_hash ` set (lnk_access db)"
    and "clk_db clk < clk_app clk + access_token_lifetime"
  shows "\<exists>db' g. poll env clk src fresh source code db = Some (db', Inr (Some g)) \<and>
    g = \<lparr>grt_instance = answer_of (granted_instance clk fresh user (dev_declaration d) (dev_scopes d) renew),
         grt_access = crd_token access, grt_access_expires = clk_app clk + access_token_lifetime,
         grt_refresh = crd_token renew\<rparr> \<and>
    lnk_instances db' =
      lnk_instances db @ [granted_instance clk fresh user (dev_declaration d) (dev_scopes d) renew] \<and>
    lnk_access db' = delete_expired acc_expires cleanup_batch (clk_db clk)
      (lnk_access db @ [\<lparr>acc_hash = crd_hash access, acc_instance = fresh,
         acc_expires = clk_app clk + access_token_lifetime\<rparr>])"
proof -
  obtain rs where rate: "take_rate env clk ''poll'' source 600 (seconds 60) db = (db\<lparr>lnk_rates := rs\<rparr>, Inr ())"
    using rate_open_takes [OF assms(9,10)] by blast
  let ?db = "db\<lparr>lnk_rates := rs\<rparr>" and ?k = "dev_code d"
  let ?d = "d\<lparr>dev_polled := Some (clk_db clk)\<rparr>"
  let ?db1 = "?db\<lparr>lnk_devices := ds @ [?d]\<rparr>"
  let ?polled = "\<lambda>r. dev_code r = ?k \<and> clk_db clk < dev_expires r \<and> dev_redeemed r = None"
  have locked: "lock_device ?k ?db = Some d"
    using assms(1,6) last_row(1) [of ds "\<lambda>r. dev_code r = ?k" d] by (simp add: lock_device_def)
  have soon: "\<not> polled_too_soon clk d" using assms(5) by (simp add: polled_too_soon_def)
  have none: "\<not> ?polled r" "\<not> redeemable clk ?k r" if "r \<in> set ds" for r
    using that assms(6) by (auto simp: redeemable_def)
  have recorded: "record_poll clk False ?k ?db = Some (?db1, dev_interval d)"
    using assms(1,4,7) last_row(1,2) [of ds ?polled, OF none(1)]
    by (simp add: record_poll_def slowed_def Let_def)
  let ?i = "granted_instance clk fresh user (dev_declaration d) (dev_scopes d) renew"
  let ?ts = "delete_expired acc_expires cleanup_batch (clk_db clk)
      (lnk_access db @ [\<lparr>acc_hash = crd_hash access, acc_instance = fresh,
         acc_expires = clk_app clk + access_token_lifetime\<rparr>])"
  let ?db2 = "?db1\<lparr>lnk_instances := lnk_instances db @ [?i], lnk_access := ?ts\<rparr>"
  let ?g = "\<lparr>grt_instance = answer_of ?i, grt_access = crd_token access,
       grt_access_expires = clk_app clk + access_token_lifetime, grt_refresh = crd_token renew\<rparr>"
  have issued: "issue_grant env clk src fresh user (dev_declaration d) (dev_scopes d) ?db1 =
      Some (?db2, Inr ?g)"
    using issue_answers [OF assms(12,13), of fresh ?db1] assms(14-17) by simp
  have "redeemable clk ?k ?d" using assms(2-4,7) by (simp add: redeemable_def)
  moreover have "filter (redeemable clk ?k) ds = []" using none(2) by (simp add: filter_empty_conv)
  ultimately obtain rows where rows: "redeem_device clk ?k ?db2 = (?db2\<lparr>lnk_devices := rows\<rparr>, Suc 0)"
    by (simp add: redeem_device_def)
  have "poll_request env clk src fresh ?k ?db = Some (?db2\<lparr>lnk_devices := rows\<rparr>, Inr (Some ?g))"
    using assms(2-4,8) locked soon recorded issued rows by (simp add: poll_request_def)
  then have "poll env clk src fresh source code db = Some (?db2\<lparr>lnk_devices := rows\<rparr>, Inr (Some ?g))"
    using rate assms(11) by (simp add: poll_def and_run_def)
  then show ?thesis by simp
qed

lemma authenticate_answers:
  assumes "new_credential env access_token_kind src = Some (access, src1)"
    and "lnk_instances db = is @ [i]" "live i" "ins_id i \<notin> ins_id ` set is"
    and "lnk_access db = delete_expired acc_expires cleanup_batch before
      (ts @ [\<lparr>acc_hash = crd_hash access, acc_instance = ins_id i, acc_expires = expires\<rparr>])"
    and "crd_hash access \<notin> acc_hash ` set ts" "before < expires" "clk_db clk < expires"
    and "needs = [] \<or> needs \<in> set (ins_scopes i)"
  shows "\<exists>db'. authenticate env clk (crd_token access) needs db =
    (db', Inr ((answer_of i)\<lparr>ian_seen := Some (clk_db clk)\<rparr>))"
proof -
  let ?t = "\<lparr>acc_hash = crd_hash access, acc_instance = ins_id i, acc_expires = expires\<rparr>"
  have hash: "credential_hash env (crd_token access) access_token_kind = Some (crd_hash access)"
    using credential_back [OF assms(1)] by simp
  have there: "?t \<in> set (lnk_access db)"
    unfolding assms(5) by (rule delete_expired_keeps) (simp_all add: assms(7))
  have only: "q = ?t" if "q \<in> set (lnk_access db)" "acc_hash q = crd_hash access" for q
  proof -
    have "q \<in> set (ts @ [?t])"
      using that(1) delete_expired_subset unfolding assms(5) by (rule subsetD [rotated])
    moreover have "q \<notin> set ts" using assms(6) that(2) by (metis imageI)
    ultimately show ?thesis by simp
  qed
  have "find (\<lambda>t. acc_hash t = crd_hash access \<and> clk_db clk < acc_expires t) (lnk_access db) = Some ?t"
    by (rule only_row [OF there]) (use assms(8) only in simp_all)
  moreover have "find (\<lambda>r. ins_id r = ins_id i \<and> live r) (lnk_instances db) = Some i"
  proof -
    have other: "\<not> (ins_id r = ins_id i \<and> live r)" if "r \<in> set is" for r
      using assms(4) that by (metis imageI)
    show ?thesis
      using last_row(1) [of "is" "\<lambda>r. ins_id r = ins_id i \<and> live r", OF other] assms(2,3) by simp
  qed
  ultimately show ?thesis
    using hash assms(9)
    by (auto simp: authenticate_def touch_instance_def Let_def grants_def answer_of_def)
qed

text \<open>
  The readings of the four calls: the request has not expired at any of them, and the two clocks
  agree well enough that nothing new is already over.
\<close>

definition in_time :: "clocks \<Rightarrow> clocks \<Rightarrow> clocks \<Rightarrow> clocks \<Rightarrow> bool" where
  "in_time asked reviewed approved polled \<longleftrightarrow>
     (let over = clk_app asked + request_lifetime in
      clk_db asked < over \<and> clk_db reviewed < over \<and> clk_db approved < over \<and>
      clk_db polled < over \<and> clk_app polled \<le> over \<and>
      clk_db polled < clk_app polled + access_token_lifetime)"

text \<open>What the calls draw is new to the tables.\<close>

definition nothing_taken ::
  "link_env \<Rightarrow> string \<Rightarrow> string \<Rightarrow> uuid \<Rightarrow> credential \<Rightarrow> credential \<Rightarrow> link_db \<Rightarrow> bool" where
  "nothing_taken env hash letters fresh access renew db \<longleftrightarrow>
     hash \<notin> dev_code ` set (lnk_devices db) \<and>
     digest env ''user-code'' letters \<notin> dev_user_code ` set (lnk_devices db) \<and>
     fresh \<notin> ins_id ` set (lnk_instances db) \<and>
     crd_hash renew \<notin> set (known ins_refresh (lnk_instances db)) \<and>
     crd_hash access \<notin> acc_hash ` set (lnk_access db)"

text \<open>The flow as far as the approval, and the request as it then stands, the newest of its table.\<close>

lemma flow_approved:
  assumes "validate_start (lke_unicode env) input = Inr inp"
    and "new_opaque_code env src = ((code, hash), src1)" "new_code code_length src1 = Some (letters, src2)"
    and "nothing_taken env hash letters fresh access renew db"
    and "in_time asked reviewed approved polled" "\<forall>s. length (lke_hmac env s) = secret_bytes"
    and "rates_sound db" "rate_open env asked ''start'' source 30 an_hour db"
    and "rate_open env reviewed ''user-code'' (uuid_text user) code_attempt_limit an_hour db"
    and "rate_open env polled ''poll'' source' 600 (seconds 60) db"
  shows "\<exists>db1 a db2 p db3 q ds d.
    start_device env asked src source input db = Some (db1, Inr a) \<and> dva_device_code a = code \<and>
    pending env reviewed user (dva_user_code a) db1 = (db2, Inr p) \<and>
    pnd_declaration p = inp_declaration inp \<and> pnd_scopes p = inp_scopes inp \<and>
    approve env approved user (dva_user_code a) (pnd_token p) db2 = (db3, Inr q) \<and>
    lnk_devices db3 = ds @ [d] \<and> (\<forall>r \<in> set ds. dev_code r \<noteq> hash) \<and> dev_code d = hash \<and>
    dev_approved d = Some (user, clk_db approved) \<and> dev_denied d = None \<and> dev_redeemed d = None \<and>
    dev_polled d = None \<and> dev_expires d = clk_app asked + request_lifetime \<and>
    dev_declaration d = inp_declaration inp \<and> dev_scopes d = inp_scopes inp \<and>
    rates_sound db3 \<and> rate_open env polled ''poll'' source' 600 (seconds 60) db3 \<and>
    lnk_instances db3 = lnk_instances db \<and> lnk_access db3 = lnk_access db"
proof -
  let ?d = "new_device_request env asked inp hash letters"
  note new = assms(4) [unfolded nothing_taken_def]
  note time = assms(5) [unfolded in_time_def Let_def]
  obtain rs ds where start: "start_device env asked src source input db =
      Some (db\<lparr>lnk_rates := rs, lnk_devices := ds @ [?d]\<rparr>,
        Inr \<lparr>dva_device_code = code, dva_user_code = format_user_code letters,
             dva_verify_url = lke_site env @ ''/link'', dva_expires = clk_app asked + request_lifetime,
             dva_interval = seconds poll_interval\<rparr>)"
    and ds: "set ds \<subseteq> set (lnk_devices db)" and rates: "rates_sound (db\<lparr>lnk_rates := rs\<rparr>)"
    and counters: "\<And>action' source'. action' \<noteq> ''start'' \<Longrightarrow>
      counter env action' source' (db\<lparr>lnk_rates := rs\<rparr>) \<in> {None, counter env action' source' db}"
    using start_answers [OF assms(1,7,8,2,3)] new time by blast
  let ?db1 = "db\<lparr>lnk_rates := rs, lnk_devices := ds @ [?d]\<rparr>"
  let ?a = "\<lparr>dva_device_code = code, dva_user_code = format_user_code letters,
      dva_verify_url = lke_site env @ ''/link'', dva_expires = clk_app asked + request_lifetime,
      dva_interval = seconds poll_interval\<rparr>"
  let ?p = "pending_of_device ?d (device_approval_proof env user letters)"
  have row: "unanswered ?d" "dev_reviewed ?d = None" "dev_code ?d = hash"
      "dev_user_code ?d = digest env ''user-code'' letters"
      "dev_expires ?d = clk_app asked + request_lifetime" "dev_polled ?d = None"
      "dev_declaration ?d = inp_declaration inp" "dev_scopes ?d = inp_scopes inp"
    by (simp_all add: unanswered_def new_device_request_def poll_interval_def)
  have apart: "\<forall>r \<in> set ds. dev_user_code r \<noteq> dev_user_code ?d" "\<forall>r \<in> set ds. dev_code r \<noteq> dev_code ?d"
    using ds new row(3,4) by (metis imageI subsetD)+
  note typed = formatted_code_back [OF assms(3), of "lke_unicode env"]
  have rates1: "rates_sound ?db1" using rates by (simp add: rates_sound_def)
  have counters1: "action' \<noteq> ''start'' \<Longrightarrow>
      counter env action' source' ?db1 \<in> {None, counter env action' source' db}" for action' source'
    using counters [of action' source'] by (simp add: counter_def)
  have "rate_open env reviewed ''user-code'' (uuid_text user) code_attempt_limit an_hour ?db1"
    using assms(9) counters1 by (rule rate_open_less) simp
  with pending_answers [of ?db1 ds ?d env letters reviewed "format_user_code letters" user] obtain rs2
    where review: "pending env reviewed user (format_user_code letters) ?db1 =
      (?db1\<lparr>lnk_rates := rs2\<rparr>, Inr (pending_of_device ?d (device_approval_proof env user letters)))"
    and rates2: "rates_sound (?db1\<lparr>lnk_rates := rs2\<rparr>)"
    and counters2: "\<And>action' source'. action' \<noteq> ''user-code'' \<Longrightarrow>
      counter env action' source' (?db1\<lparr>lnk_rates := rs2\<rparr>) = counter env action' source' ?db1"
    using row apart(1) time typed rates1 by auto
  let ?db2 = "?db1\<lparr>lnk_rates := rs2\<rparr>"
  let ?d' = "?d\<lparr>dev_token := Some (lke_sha256 env (device_approval_proof env user letters)),
      dev_reviewed := Some user, dev_approved := Some (user, clk_db approved)\<rparr>"
  from approve_answers [of ?db2 ds ?d env letters approved "format_user_code letters" user]
  obtain q where approval: "approve env approved user (format_user_code letters)
      (device_approval_proof env user letters) ?db2 = (?db2\<lparr>lnk_devices := ds @ [?d']\<rparr>, Inr q)"
    using row apart(1) time typed assms(6) by auto
  let ?db3 = "?db2\<lparr>lnk_devices := ds @ [?d']\<rparr>"
  have rates3: "rates_sound ?db3" using rates2 by (simp add: rates_sound_def)
  have "counter env ''poll'' source' ?db3 = counter env ''poll'' source' ?db2" by (simp add: counter_def)
  then have open3: "rate_open env polled ''poll'' source' 600 (seconds 60) ?db3"
    using rate_open_less [OF assms(10), of ?db3] counters2 [of "''poll''" source']
      counters1 [of "''poll''" source'] by simp
  show ?thesis
    by (rule exI [of _ ?db1], rule exI [of _ ?a], rule exI [of _ ?db2], rule exI [of _ ?p],
        rule exI [of _ ?db3], rule exI [of _ q], rule exI [of _ ds], rule exI [of _ ?d'])
      (use start review approval rates3 open3 apart(2) in
        \<open>simp add: pending_of_device_def row(2,3,5-8) row(1) [unfolded unanswered_def]\<close>)
qed

text \<open>
  C20. The device flow completes. An application that asks with a valid declaration is answered; the
  person who enters the code it shows is told what asks for what, and the token of that
  answer approves it; the next poll has tokens for an instance of that person's, as declared
  and with the scopes asked for; and the access token authenticates as that instance for each
  of the scopes until it expires. It takes room in the rates, readings in time, and draws
  that are new.
\<close>

theorem device_flow_completes:
  assumes "validate_start (lke_unicode env) input = Inr inp"
    and "new_opaque_code env src = ((code, hash), src1)" "new_code code_length src1 = Some (letters, src2)"
    and "new_credential env access_token_kind src' = Some (access, src1')"
    and "new_credential env refresh_token_kind src1' = Some (renew, src2')"
    and "nothing_taken env hash letters fresh access renew db"
    and "in_time asked reviewed approved polled" "\<forall>s. length (lke_hmac env s) = secret_bytes"
    and "rates_sound db" "rate_open env asked ''start'' source 30 an_hour db"
    and "rate_open env reviewed ''user-code'' (uuid_text user) code_attempt_limit an_hour db"
    and "rate_open env polled ''poll'' source' 600 (seconds 60) db"
  shows "\<exists>db1 a db2 p db3 q db4 g.
    start_device env asked src source input db = Some (db1, Inr a) \<and>
    pending env reviewed user (dva_user_code a) db1 = (db2, Inr p) \<and>
    pnd_declaration p = inp_declaration inp \<and> pnd_scopes p = inp_scopes inp \<and>
    approve env approved user (dva_user_code a) (pnd_token p) db2 = (db3, Inr q) \<and>
    poll env polled src' fresh source' (dva_device_code a) db3 = Some (db4, Inr (Some g)) \<and>
    ian_id (grt_instance g) = fresh \<and> ian_user (grt_instance g) = user \<and>
    ian_declaration (grt_instance g) = inp_declaration inp \<and>
    ian_scopes (grt_instance g) = inp_scopes inp \<and>
    (\<forall>clk. clk_db clk < grt_access_expires g \<longrightarrow> (\<forall>scope \<in> set (inp_scopes inp).
       \<exists>db5. authenticate env clk (grt_access g) scope db4 =
         (db5, Inr ((grt_instance g)\<lparr>ian_seen := Some (clk_db clk)\<rparr>))))"
proof -
  note new = assms(6) [unfolded nothing_taken_def]
  note time = assms(7) [unfolded in_time_def Let_def]
  obtain db1 a db2 p db3 q ds d where flow:
      "start_device env asked src source input db = Some (db1, Inr a)" "dva_device_code a = code"
      "pending env reviewed user (dva_user_code a) db1 = (db2, Inr p)"
      "pnd_declaration p = inp_declaration inp" "pnd_scopes p = inp_scopes inp"
      "approve env approved user (dva_user_code a) (pnd_token p) db2 = (db3, Inr q)"
    and device: "lnk_devices db3 = ds @ [d]" "\<forall>r \<in> set ds. dev_code r \<noteq> hash" "dev_code d = hash"
      "dev_approved d = Some (user, clk_db approved)" "dev_denied d = None" "dev_redeemed d = None"
      "dev_polled d = None" "dev_expires d = clk_app asked + request_lifetime"
      "dev_declaration d = inp_declaration inp" "dev_scopes d = inp_scopes inp"
    and rest: "rates_sound db3" "rate_open env polled ''poll'' source' 600 (seconds 60) db3"
      "lnk_instances db3 = lnk_instances db" "lnk_access db3 = lnk_access db"
    using flow_approved [OF assms(1-3,6-12)] by blast
  let ?i = "granted_instance polled fresh user (inp_declaration inp) (inp_scopes inp) renew"
  obtain db4 g where granted: "poll env polled src' fresh source' code db3 = Some (db4, Inr (Some g))"
    and g: "g = \<lparr>grt_instance = answer_of ?i, grt_access = crd_token access,
         grt_access_expires = clk_app polled + access_token_lifetime, grt_refresh = crd_token renew\<rparr>"
    and rows4: "lnk_instances db4 = lnk_instances db @ [?i]"
      "lnk_access db4 = delete_expired acc_expires cleanup_batch (clk_db polled)
         (lnk_access db @ [\<lparr>acc_hash = crd_hash access, acc_instance = fresh,
            acc_expires = clk_app polled + access_token_lifetime\<rparr>])"
    using poll_answers [of db3 ds d user "clk_db approved" polled env source' code src' access src1'
        renew src2' fresh] device rest time assms(4,5) new opaque_back [OF assms(2)] by auto
  have "\<exists>db5. authenticate env clk (grt_access g) scope db4 =
      (db5, Inr ((grt_instance g)\<lparr>ian_seen := Some (clk_db clk)\<rparr>))"
    if "clk_db clk < grt_access_expires g" "scope \<in> set (inp_scopes inp)" for clk scope
    using authenticate_answers [OF assms(4), of db4 "lnk_instances db" ?i "clk_db polled" "lnk_access db"
        "clk_app polled + access_token_lifetime" clk scope] rows4 new time that
    by (simp add: g granted_instance_def live_def)
  then show ?thesis
    using flow granted
    by (intro exI conjI) (auto simp: g answer_of_def granted_instance_def)
qed

end
