(* ===== verification/LinkClaims.thy ===== *)
theory LinkClaims
  imports LinkFlow
begin

text \<open>
  The properties of the linking service as a whole, and concrete runs of it at which every
  hypothesis holds: one approved request, polled, and its instance revoked.
\<close>

section \<open>Properties\<close>

text \<open>
  C16. The service refines its promise: whatever the calls, their clocks and their order, what the
  tables say of requests and instances moves only as the promise allows.
\<close>

theorem links_keep_promise:
  assumes "links_sound db" "link_run env db db'"
  shows "spec_run (spec_of db) (spec_of db')"
  by (rule link_run_promise [OF assms(2,1)])

text \<open>
  C17. Every call keeps the tables sound: codes, hashes and identifiers are unique, a request is
  decided once and redeemed only when approved, the poll interval stays within five and sixty
  seconds, a refresh token belongs to a live instance and an access token points to one.
\<close>

theorem links_stay_sound:
  assumes "links_sound db" "link_run env db db'"
  shows "links_sound db'"
  by (rule link_run_kept [OF assms(2,1)])

text \<open>
  C18. A device code is redeemed once, by the account that approved it: a poll that answers with
  tokens found the request approved, gives the instance to the approver with what the request
  declared and asked for, and until the request expires no poll with that code has tokens again,
  whatever calls come between.
\<close>

theorem redeemed_once:
  assumes "links_sound db" "poll env clk src fresh source code db = Some (db1, Inr (Some g))"
  shows "\<exists>k t d u at. opaque_code_hash env code = Some k \<and> redeemed_device db1 k t \<and>
    lock_device k db = Some d \<and> dev_approved d = Some (u, at) \<and>
    ian_user (grt_instance g) = u \<and> ian_declaration (grt_instance g) = dev_declaration d \<and>
    ian_scopes (grt_instance g) = dev_scopes d \<and>
    (\<forall>db2 clk' src' fresh' source' db3 g'. run_before clk_db (link_step env) t db1 db2 \<longrightarrow>
       poll env clk' src' fresh' source' code db2 \<noteq> Some (db3, Inr (Some g')))"
proof -
  obtain k rs where k: "opaque_code_hash env code = Some k"
    using assms(2) by (rule poll_granted)
  have grant: "device_grant env db k g db1"
    using assms(2) k unfolding device_grant_def by blast
  obtain t where t: "redeemed_device db1 k t"
    "\<And>db2 g' db3. run_before clk_db (link_step env) t db1 db2 \<Longrightarrow> \<not> device_grant env db2 k g' db3"
    using devices.granted_once [OF assms(1) grant] by blast
  have "poll env clk' src' fresh' source' code db2 \<noteq> Some (db3, Inr (Some g'))"
    if "run_before clk_db (link_step env) t db1 db2" for db2 clk' src' fresh' source' db3 g'
    using t(2) [OF that] k unfolding device_grant_def by blast
  then show ?thesis using k t(1) device_grant_facts [OF assms(1) grant] by blast
qed

text \<open>
  C19. An instance its owner revoked stays out: after any further calls no access token
  authenticates as it, no refresh token is rotated for it, it is not found among the live ones
  and no access token of it is kept.
\<close>

theorem revoked_stays_out:
  assumes "links_sound db" "revoke clk u i db = (db1, Inr ())" "link_run env db1 db2"
  shows "(\<forall>clk token needs db3 a. authenticate env clk token needs db2 = (db3, Inr a) \<longrightarrow> ian_id a \<noteq> i) \<and>
    (\<forall>clk src source token db3 g. refresh env clk src source token db2 = Some (db3, Inr g) \<longrightarrow>
       ian_id (grt_instance g) \<noteq> i) \<and>
    (\<forall>v. live_by_id v i db2 = Inl InstanceNotFound) \<and>
    (\<forall>t \<in> set (lnk_access db2). acc_instance t \<noteq> i)"
proof -
  have "links_sound db1" using changes_kept [OF revoke_changes [OF assms(2)] assms(1)] .
  then have sound: "links_sound db2" and cut: "instance_status db2 i = CutOff u"
    using link_run_kept [OF assms(3)] cut_stays [OF assms(3)] revoked_cut [OF assms(1,2)] by auto
  show ?thesis
    using cut_off_not_authenticated [OF sound cut] cut_off_not_refreshed [OF sound cut]
      cut_off_not_found [OF sound cut] cut_off_no_access [OF sound cut] by blast
qed

section \<open>Samples\<close>

definition no_links :: link_db where
  "no_links =
     \<lparr>lnk_devices = [], lnk_authorizations = [], lnk_instances = [], lnk_access = [],
      lnk_history = [], lnk_rates = [], lnk_deliveries = [], lnk_library = []\<rparr>"

definition sample_clock :: clocks where
  "sample_clock = \<lparr>clk_app = 0, clk_db = 0\<rparr>"

abbreviation steady :: byte_source where
  "steady \<equiv> \<lambda>k. CHR ''A''"

definition sample_code :: string where
  "sample_code = base64_encode (next_bytes secret_bytes steady)"

definition sample_declaration :: app_declaration where
  "sample_declaration =
     \<lparr>dec_application = ''Kiln'', dec_instance = ''Desk'', dec_version = [], dec_protocol = 1,
      dec_capabilities = Some [], dec_targets = Some []\<rparr>"

definition sample_request :: device_request where
  "sample_request =
     \<lparr>dev_code = sample_code, dev_user_code = ''A'', dev_declaration = sample_declaration,
      dev_scopes = [scope_receive_assets], dev_token = Some ''T'', dev_reviewed = Some 7,
      dev_approved = Some (7, 0), dev_denied = None, dev_redeemed = None, dev_polled = None,
      dev_interval = 5, dev_expires = 600\<rparr>"

definition sample_links :: link_db where
  "sample_links = no_links\<lparr>lnk_devices := [sample_request]\<rparr>"

lemma sample_links_sound: "links_sound sample_links"
  by (simp add: sample_links_def no_links_def sample_request_def links_sound_def devices_sound_def
      authorizations_sound_def instances_sound_def tokens_sound_def device_sound_def)

lemma no_links_sound: "rates_sound no_links" "rates_sound sample_links"
  by (simp_all add: rates_sound_def no_links_def sample_links_def)

lemma no_counter: "counter env action source no_links = None" "counter env action source sample_links = None"
  by (simp_all add: counter_def no_links_def sample_links_def)

lemma sample_opaque:
  "new_opaque_code sample_link_env steady = ((sample_code, sample_code), after_bytes secret_bytes steady)"
  by (simp add: new_opaque_code_def sample_code_def sample_link_env_def Let_def)

definition sample_token :: "string \<Rightarrow> credential" where
  "sample_token kind =
     (let token = kind @ ''.'' @ ''MMMMMMMM'' @ ''.'' @ sample_code
      in \<lparr>crd_token = token, crd_prefix = ''MMMMMMMM'', crd_hash = token\<rparr>)"

lemma sample_credential:
  "new_credential sample_link_env kind steady = Some (sample_token kind, steady)"
  by (simp add: new_credential_def steady_code Let_def after_bytes_def sample_code_def sample_token_def
      sample_link_env_def)

lemma sample_grant:
  "\<exists>db g. poll sample_link_env sample_clock steady 5 ''a'' sample_code sample_links = Some (db, Inr (Some g)) \<and>
     lnk_instances db = [granted_instance sample_clock 5 7 sample_declaration [scope_receive_assets]
       (sample_token refresh_token_kind)]"
proof -
  have "opaque_code_hash sample_link_env sample_code = Some sample_code"
    using opaque_back [OF sample_opaque] by simp
  moreover have "rate_open sample_link_env sample_clock ''poll'' ''a'' 600 (seconds 60) sample_links"
    by (simp add: rate_open_def no_counter max_integer_def)
  ultimately show ?thesis
    using poll_answers [of sample_links "[]" sample_request "7" "0" sample_clock sample_link_env "''a''"
        sample_code steady "sample_token access_token_kind" steady "sample_token refresh_token_kind"
        steady "5"] sample_credential no_links_sound(2)
    by (auto simp: sample_links_def no_links_def sample_request_def sample_clock_def
        access_token_lifetime_def seconds_def)
qed

lemma sample_run:
  obtains db g where "poll sample_link_env sample_clock steady 5 ''a'' sample_code sample_links =
      Some (db, Inr (Some g))"
    and "link_run sample_link_env sample_links db" "links_sound db" "instance_status db 5 = LiveFor 7"
proof -
  obtain db g where run: "poll sample_link_env sample_clock steady 5 ''a'' sample_code sample_links =
      Some (db, Inr (Some g))"
    and rows: "lnk_instances db = [granted_instance sample_clock 5 7 sample_declaration
      [scope_receive_assets] (sample_token refresh_token_kind)]"
    using sample_grant by blast
  have step: "link_run sample_link_env sample_links db"
    using link_step.intros(8) [OF run] unfolding some_step_def by blast
  moreover have "instance_status db 5 = LiveFor 7"
    by (simp add: instance_status_def rows granted_instance_def instance_state_def live_def)
  ultimately show ?thesis using run link_run_kept [OF step sample_links_sound] that by blast
qed

section \<open>Witnesses\<close>

theorem rates_bound_admissions_witness:
  "int (admitted sample_link_env ''start'' ''a'' 1 an_hour
     [Attempt sample_clock, Cleanup (- 9), Attempt sample_clock] no_links) \<le> 1"
proof -
  have "\<forall>e \<in> set [Attempt sample_clock, Cleanup (- 9), Attempt sample_clock].
      in_span sample_link_env ''start'' ''a'' an_hour 0 e"
    by (simp add: sample_clock_def an_hour_def seconds_def)
  from rates_bound_admissions [OF no_links_sound(1) _ this, of 1] show ?thesis
    by (simp add: no_counter)
qed

theorem links_keep_promise_witness:
  "\<exists>db. link_run sample_link_env sample_links db \<and> spec_run (spec_of sample_links) (spec_of db) \<and>
     spc_instances (spec_of db) 5 = LiveFor 7"
proof -
  obtain db g where "link_run sample_link_env sample_links db" "instance_status db 5 = LiveFor 7"
    by (rule sample_run)
  then show ?thesis using links_keep_promise [OF sample_links_sound] by auto
qed

theorem links_stay_sound_witness:
  "\<exists>db. link_run sample_link_env sample_links db \<and> links_sound db \<and> instance_status db 5 = LiveFor 7"
proof -
  obtain db g where "link_run sample_link_env sample_links db" "instance_status db 5 = LiveFor 7"
    by (rule sample_run)
  then show ?thesis using links_stay_sound [OF sample_links_sound] by auto
qed

theorem redeemed_once_witness:
  "\<exists>db g. poll sample_link_env sample_clock steady 5 ''a'' sample_code sample_links = Some (db, Inr (Some g)) \<and>
     (\<forall>clk src fresh source db' g'.
        poll sample_link_env clk src fresh source sample_code db \<noteq> Some (db', Inr (Some g')))"
proof -
  obtain db g where run: "poll sample_link_env sample_clock steady 5 ''a'' sample_code sample_links =
      Some (db, Inr (Some g))"
    by (rule sample_run)
  obtain t where "\<forall>db2 clk' src' fresh' source' db3 g'.
      run_before clk_db (link_step sample_link_env) t db db2 \<longrightarrow>
      poll sample_link_env clk' src' fresh' source' sample_code db2 \<noteq> Some (db3, Inr (Some g'))"
    using redeemed_once [OF sample_links_sound run] by auto
  then have "\<forall>clk src fresh source db' g'.
      poll sample_link_env clk src fresh source sample_code db \<noteq> Some (db', Inr (Some g'))"
    using run_before_refl by fast
  with run show ?thesis by blast
qed

theorem revoked_stays_out_witness:
  "\<exists>db db1. link_run sample_link_env sample_links db \<and> revoke sample_clock 7 5 db = (db1, Inr ()) \<and>
     (\<forall>clk token needs db2 a. authenticate sample_link_env clk token needs db1 = (db2, Inr a) \<longrightarrow>
        ian_id a \<noteq> 5)"
proof -
  obtain db g where run: "link_run sample_link_env sample_links db" "links_sound db"
      and live: "instance_status db 5 = LiveFor 7"
    by (rule sample_run)
  obtain r where "r \<in> set (lnk_instances db)" "ins_id r = 5" "live r" "ins_user r = 7"
    using live by (auto simp: instance_status_def state_of_def instance_state_def
        split: option.splits if_splits dest!: the_row_Some)
  then have "\<exists>db1. revoke sample_clock 7 5 db = (db1, Inr ())"
    by (auto simp: revoke_def revoke_instance_def revoke_where_def Let_def filter_empty_conv)
  then obtain db1 where db1: "revoke sample_clock 7 5 db = (db1, Inr ())" ..
  from revoked_stays_out [OF run(2) db1, of sample_link_env db1] show ?thesis
    using run(1) db1 by blast
qed

definition sample_input :: start_input where
  "sample_input = \<lparr>inp_declaration = sample_declaration, inp_scopes = [scope_receive_assets]\<rparr>"

lemma sample_input_valid: "validate_start (lke_unicode sample_link_env) sample_input = Inr sample_input"
  by code_simp

theorem device_flow_completes_witness:
  "\<exists>db1 a db2 p db3 q db4 g.
     start_device sample_link_env sample_clock steady ''a'' sample_input no_links = Some (db1, Inr a) \<and>
     pending sample_link_env sample_clock 7 (dva_user_code a) db1 = (db2, Inr p) \<and>
     approve sample_link_env sample_clock 7 (dva_user_code a) (pnd_token p) db2 = (db3, Inr q) \<and>
     poll sample_link_env sample_clock steady 5 ''a'' (dva_device_code a) db3 = Some (db4, Inr (Some g)) \<and>
     ian_user (grt_instance g) = 7"
proof -
  have draws: "new_code code_length (after_bytes secret_bytes steady) = Some (''MMMMMMMM'', steady)"
    using steady_code by (simp add: after_bytes_def)
  have new: "nothing_taken sample_link_env sample_code ''MMMMMMMM'' 5 (sample_token access_token_kind)
      (sample_token refresh_token_kind) no_links"
    by (simp add: nothing_taken_def no_links_def)
  have time: "in_time sample_clock sample_clock sample_clock sample_clock"
    by (simp add: in_time_def sample_clock_def request_lifetime_def access_token_lifetime_def seconds_def)
  have proofs: "\<forall>s. length (lke_hmac sample_link_env s) = secret_bytes"
    by (auto simp: sample_link_env_def secret_bytes_def min_def)
  have rate: "rate_open sample_link_env sample_clock action source limit window no_links"
    if "0 < limit" "limit \<le> max_integer" for action source limit window
    using that by (simp add: rate_open_def no_counter)
  show ?thesis
    using device_flow_completes [OF sample_input_valid sample_opaque draws sample_credential
        sample_credential new time proofs no_links_sound(1) rate rate rate, of "''a''" 7 "''a''"]
    by (simp add: max_integer_def code_attempt_limit_def) blast
qed

end
