(* ===== verification/DeliveryClaims.thy ===== *)
theory DeliveryClaims
  imports DeliveryPresses LinkClaims
begin

text \<open>
  The properties of the delivery service, and a queue with one waiting delivery at which their
  hypotheses hold.
\<close>

section \<open>Properties\<close>

text \<open>
  C22. Whatever calls of both services and presses that overlap do to the tables, the queue stays
  sound: an instance has at most one live delivery of an asset, and a delivery is handed out at
  most the configured number of times, holds a lease exactly while it is released and a settlement
  exactly once it has failed, and is for an instance there is. The cap on live deliveries is as
  good as the presses are apart: while at most \<open>n\<close> presses for an instance are between their count
  and their insert at once, its live deliveries with those presses stay below the cap and \<open>n\<close>; so one
  press at a time never exceeds the cap, and \<open>n\<close> at once by at most \<open>n - 1\<close>.
\<close>

theorem deliveries_stay_sound:
  assumes "deliveries_sound st db" "0 \<le> set_max_attempts st" "count_live_deliveries i db \<le> set_pending st"
    and "1 \<le> n" "crowded_run env st n i (db, []) (db', ps)"
  shows "deliveries_sound st db' \<and>
    count_live_deliveries i db' + holders (about_to_store i) ps < set_pending st + n"
  using presses_capped [OF assms(5,1,2)] assms(3,4) by (simp add: holders_def)

text \<open>
  C23. A delivery is lent to one claim at a time: after a claim has handed it out, no claim hands it
  out again while its lease lives, whatever calls come between, unless its identifier is drawn again.
\<close>

theorem lent_to_one:
  assumes "deliveries_sound st db" "0 \<le> set_max_attempts st"
    and "claim env st clk assets inst db = (db1, Inr works)" "w \<in> set works" "wrk_id w \<notin> new"
    and "run_before clk_db (delivery_step env st new) (clk_app clk + set_lease st) db1 db2"
    and "clk_db clk' < clk_app clk + set_lease st"
    and "claim env st clk' assets' inst' db2 = (db3, Inr works')"
  shows "wrk_id w \<notin> wrk_id ` set works'"
proof
  assume again: "wrk_id w \<in> wrk_id ` set works'"
  have "hands_out env st new db clk (wrk_id w) db1" "hands_out env st new db2 clk' (wrk_id w) db3"
    using assms(3-5,8) again unfolding hands_out_def by (metis imageI)+
  then show False using leases.lent_alone assms(1,2,6,7) by blast
qed

text \<open>
  C24. What a claim hands out may be handed out: a delivery of the asking instance, which is linked
  with the scope for it, that waits or whose lease ran out, in time and within its attempts, of an
  asset that is published and neither deleted nor withheld, in a format the instance accepts and the
  asset is offered in, or as the file itself; and an asset with sealed prompts goes out in no format
  but the one its apps read.
\<close>

theorem works_authorized:
  assumes "deliveries_sound st db" "claim env st clk assets inst db = (db', Inr works)" "w \<in> set works"
  shows "\<exists>d a. d \<in> set (lnk_deliveries db) \<and> dlv_id d = wrk_id w \<and> dlv_asset d = wrk_asset w \<and>
    dlv_instance d = ian_id inst \<and> may_receive (ian_id inst) db \<and>
    (dlv_state d = Queued \<or> dlv_state d = Released \<and> lease_over clk d) \<and>
    clk_db clk < dlv_expires d \<and> dlv_attempts d < set_max_attempts st \<and>
    sendable_asset assets (wrk_asset w) = Some a \<and> wrk_generation w = cat_generation a \<and>
    (wrk_format w \<in> set (case dec_targets (ian_declaration inst) of None \<Rightarrow> [] | Some ws \<Rightarrow> ws) \<and>
       (wrk_format w, wrk_label w) \<in> set (case cat_export a of None \<Rightarrow> [] | Some ts \<Rightarrow> ts) \<or>
     wrk_format w = raw_download_target \<and> cat_original a) \<and>
    (cat_apps a = [] \<or> cat_kind a = ''preset'' \<and> wrk_format w = ''preset_lumiverse'')"
proof -
  obtain d s target label where d: "d \<in> set (lnk_deliveries db)"
    "claimable clk (ian_id inst) (set_max_attempts st) db d"
    "verdict env (clk_app clk) assets inst (dlv_asset d) = Inr (s, target, label)"
    "[w] = work_of env clk assets inst (hand_out (clk_app clk + set_lease st) d)"
    using claim_works [OF assms(2) sound_ids [OF assms(1)] assms(3)] by metis
  have w: "wrk_id w = dlv_id d" "wrk_asset w = dlv_asset d" "wrk_format w = target" "wrk_label w = label"
    "wrk_generation w = dvb_generation s"
    using d(3,4) by (auto simp: work_of_def hand_out_def)
  obtain a where a: "sendable_asset assets (dlv_asset d) = Some a" "dvb_generation s = cat_generation a"
    "cat_apps a = [] \<or> cat_kind a = ''preset'' \<and> target = ''preset_lumiverse''"
    "target \<in> set (case dec_targets (ian_declaration inst) of None \<Rightarrow> [] | Some ws \<Rightarrow> ws) \<and>
        (target, label) \<in> set (case cat_export a of None \<Rightarrow> [] | Some ts \<Rightarrow> ts) \<or>
      target = raw_download_target \<and> cat_original a"
    using d(3) by (rule verdict_sendable)
  show ?thesis
    using d(1,2) a unfolding claimable_def w by (intro exI [of _ d] exI [of _ a]) auto
qed

text \<open>
  C25. The longest waiting are served: a claim goes through whenever the formats of the assets fit
  their column, and a delivery that may be handed out, of an asset the instance can take, is in its
  answer, or as many others as a claim takes, none of them queued later, have each used one of their
  attempts.
\<close>

theorem oldest_served:
  assumes "deliveries_sound st db"
    and "\<forall>a \<in> set assets. \<forall>p \<in> set (case cat_export a of None \<Rightarrow> [] | Some ts \<Rightarrow> ts). target_fits (fst p)"
    and "d \<in> set (lnk_deliveries db)" "claimable clk (ian_id inst) (set_max_attempts st) db d"
    and "deliverable_asset env (clk_app clk) assets (dlv_asset d) = Some s"
    and "choose_target (dec_targets (ian_declaration inst)) (dvb_targets s) (dvb_original s) = Some p"
  shows "\<exists>db' works. claim env st clk assets inst db = (db', Inr works) \<and>
    (dlv_id d \<in> wrk_id ` set works \<or>
     (\<exists>es. length es = set_batch st \<and> distinct (map dlv_id es) \<and> set es \<subseteq> set (lnk_deliveries db) \<and>
        (\<forall>e \<in> set es. dlv_queued e \<le> dlv_queued d \<and>
           (\<exists>r \<in> set (lnk_deliveries db'). dlv_id r = dlv_id e \<and> dlv_attempts r = dlv_attempts e + 1))))"
proof -
  obtain db' works where run: "claim env st clk assets inst db = (db', Inr works)"
    using claim_runs [OF assms(2)] by blast
  have "dlv_id d \<in> wrk_id ` set (work_of env clk assets inst (hand_out (clk_app clk + set_lease st) d))"
    using assms(5,6) by (cases p) (simp add: work_of_def verdict_def hand_out_def)
  with run show ?thesis
    by (rule_tac claim_serves [OF run sound_ids [OF assms(1)] assms(3,4)]) blast+
qed

text \<open>
  C26. What was handed out can be fetched: the first address of the work carries a deadline and a
  signature with which \<^verbatim>\<open>Artifact\<close> finds the asset and the chosen format, until the deadline or the
  lease has passed or the delivery has expired.
\<close>

theorem work_can_be_fetched:
  assumes "deliveries_sound st db" "0 \<le> set_max_attempts st"
    and "claim env st clk assets inst db = (db', Inr works)" "w \<in> set works" "wrk_format w \<noteq> []"
    and "0 \<le> clk_app clk" "clk_app clk < 2 ^ 61"
    and "e = unix (clk_app clk + signature_life)" "clk_app clk' \<le> unix_time e"
    and "clk_db clk' < clk_app clk + set_lease st"
    and "\<forall>d \<in> set (lnk_deliveries db). dlv_id d = wrk_id w \<longrightarrow> clk_db clk' < dlv_expires d"
    and "dle_key env \<noteq> []"
  shows "art_url (hd (wrk_artifacts w)) = dle_site env @ delivery_path (wrk_id w) @ ''?expires='' @
      query_escape (int_text e) @ ''&signature='' @ query_escape (stamp env (delivery_path (wrk_id w)) e) \<and>
    artifact env clk' (wrk_id w) (int_text e) (stamp env (delivery_path (wrk_id w)) e) db' =
      Inr (wrk_asset w, wrk_format w)"
proof -
  obtain d s target label where d: "verdict env (clk_app clk) assets inst (dlv_asset d) = Inr (s, target, label)"
    "[w] = work_of env clk assets inst (hand_out (clk_app clk + set_lease st) d)"
    using claim_works [OF assms(3) sound_ids [OF assms(1)] assms(4)] by metis
  have "wrk_artifacts w = artifacts env (clk_app clk) (wrk_id w) s"
    using d by (auto simp: work_of_def hand_out_def)
  then have url: "art_url (hd (wrk_artifacts w)) = signed_url env (delivery_path (wrk_id w)) (clk_app clk)"
    by (simp add: artifacts_def)
  have "int64 e"
    using unix_time_small(1) [of "clk_app clk + signature_life"] assms(6-8)
    by (simp add: signature_life_def seconds_def)
  then have "valid_signature env (delivery_path (wrk_id w)) (int_text e)
      (stamp env (delivery_path (wrk_id w)) e) (clk_app clk')"
    by (rule stamp_valid [OF _ assms(9,12)])
  then show ?thesis
    using work_fetched [OF assms(1-4,10,11,5)] assms(8) url
    by (simp add: artifact_def or_refuse_def signed_url_def sign_def Let_def)
qed

text \<open>
  C27. An instance its owner revoked receives nothing more: in every later state no claim for it
  has work, no delivery of it can be fetched, and every press that had not found it linked by then
  is refused or has still to look. \<^verbatim>\<open>Queue\<close> does not look again before it inserts, so a press that had
  found it linked may still leave a row that nobody collects: the rows for the instance, and the
  presses that may leave one more, are never more than those presses were; without any, there is
  none.
\<close>

theorem revoked_receives_nothing:
  assumes "deliveries_sound st db" "0 \<le> set_max_attempts st"
    and "revoke clk u i db = (db1, Inr ())" "service_run env st (db1, ps) (db2, qs)"
  shows "(\<forall>clk assets inst db3 works. claim env st clk assets inst db2 = (db3, Inr works) \<longrightarrow>
       ian_id inst = i \<longrightarrow> works = []) \<and>
    (\<forall>clk k e signature x d. artifact env clk k e signature db2 = Inr x \<longrightarrow>
       d \<in> set (lnk_deliveries db2) \<longrightarrow> dlv_id d = k \<longrightarrow> dlv_instance d \<noteq> i) \<and>
    (\<forall>k < length qs. prs_instance (qs ! k) = i \<and> (k < length ps \<longrightarrow> not_looked (ps ! k)) \<longrightarrow>
       refusing (qs ! k)) \<and>
    deliveries_of i db2 + holders (found_linked i) qs \<le> holders (found_linked i) ps"
proof -
  have "delivery_step env st UNIV clk db db1"
    by (rule called [OF linking]) (rule link_step.intros(12) [OF assms(3)])
  then have one: "deliveries_sound st db1" using delivery_step_kept assms(1,2) by blast
  have links: "links_sound db" using assms(1) by (simp add: deliveries_sound_def)
  note cut = revoked_cut [OF links assms(3)]
  note two = presses_shut [OF assms(4) one assms(2) cut]
  show ?thesis
    using cut_off_no_work [OF two(1,2)] cut_off_not_fetched [OF two(1,2)]
      run_refuses [OF assms(4) one assms(2) cut] two(3) revoked_no_deliveries [OF links assms(3)]
    by auto
qed

text \<open>
  C28. The mirror refines a finite map: a report that is accepted leaves for its instance what was
  there, cut to the reported assets by a snapshot and short of the removed ones otherwise, overridden
  for every published asset by the generation taken from the report; the mirrors of other instances
  stay, and the counts add up. A generation below \<^verbatim>\<open>2^31\<close> is taken as it is reported; a wider one,
  which nothing refuses, only by its low 32 bits, where nothing but zeros counts as none given; where
  none is given the asset's current one is taken. What is taken is positive.
\<close>

theorem sync_mirrors:
  assumes "sync env st clk assets inst rep db = (db', Inr res)"
  shows "mirror_of (ian_id inst) (lnk_library db') =
      mirror_kept rep (mirror_of (ian_id inst) (lnk_library db)) ++ told assets (rep_entries rep) \<and>
    (\<forall>j. j \<noteq> ian_id inst \<longrightarrow> mirror_of j (lnk_library db') = mirror_of j (lnk_library db)) \<and>
    (\<forall>k g. (k, Some g) \<in> set (rep_entries rep) \<longrightarrow> g < 2 ^ 31 \<longrightarrow>
       told assets (rep_entries rep) k = map_option (\<lambda>a. g) (reportable assets k)) \<and>
    (\<forall>k g. told assets (rep_entries rep) k = Some g \<longrightarrow> 0 < g) \<and>
    res_accepted res = card (dom (told assets (rep_entries rep))) \<and>
    int (res_accepted res) + res_ignored res = int (length (rep_entries rep))"
  using sync_tells [OF assms] by simp

text \<open>
  C29. A signature vouches for one path until its deadline: what \<^verbatim>\<open>Sign\<close> writes for a path is valid for
  it until the second of its deadline, and if it is taken with another path or another deadline, the
  keyed hash gives two texts the same code.
\<close>

theorem signature_vouches:
  assumes "0 \<le> now" "now < 2 ^ 61" "e = unix (now + signature_life)" "dle_key env \<noteq> []"
  shows "sign env path now = path @ ''?expires='' @ query_escape (int_text e) @ ''&signature='' @
      query_escape (stamp env path e) \<and>
    unix_time e = now + signature_life - now mod 1000000 \<and>
    (\<forall>t \<le> unix_time e. valid_signature env path (int_text e) (stamp env path e) t) \<and>
    (\<forall>q x t. valid_signature env q x (stamp env path e) t \<longrightarrow>
       q = path \<and> parse_int x = Some e \<and> t \<le> unix_time e \<or>
       (\<exists>m m'. m \<noteq> m' \<and> dle_hmac env (dle_key env) m = dle_hmac env (dle_key env) m'))"
proof -
  have life: "signature_life mod 1000000 = 0" by (simp add: signature_life_def seconds_def)
  have small: "0 \<le> now + signature_life" "now + signature_life < 2 ^ 62"
    using assms(1,2) by (simp_all add: signature_life_def seconds_def)
  note e = unix_time_small [OF small, folded assms(3)]
  have "(now + signature_life) mod 1000000 = now mod 1000000"
    using life by (metis add.right_neutral mod_add_right_eq)
  then show ?thesis
    using e stamp_valid [OF e(1) _ assms(4)] stamp_taken [OF _ e(1)]
    by (auto simp: sign_def Let_def assms(3))
qed

text \<open>
  A second press on an asset that is already on its way to the instance answers with the first
  delivery and writes nothing, unless the instance holds as many live deliveries as it may: then the
  press is refused, though it would have queued nothing.
\<close>

theorem second_press:
  assumes "deliveries_sound st db" "d \<in> set (lnk_deliveries db)" "live_for (prs_instance p) (prs_asset p) d"
    and "prs_stage p = Fitting" "clk_db clk < clk_app clk + set_retention st"
  shows "press_alone env st clk assets 3 p db =
    (db, p\<lparr>prs_stage := Answered (if count_live_deliveries (prs_instance p) db < set_pending st
      then Inr d else Inl QueueFull)\<rparr>)"
  using store_again [OF assms(1-3,5)] assms(4)
  by (auto simp: press_alone_def numeral_3_eq_3 press_step_def next_stage_def counted_stage_def or_refuse_def)

text \<open>
  Two presses whose counts both ran before either wrote leave one live delivery more than the cap.
\<close>

theorem overlapping_presses:
  assumes "prs_stage p = Fitting" "prs_stage q = Fitting" "prs_instance p = i" "prs_instance q = i"
    and "prs_asset p \<noteq> prs_asset q"
    and "\<forall>d \<in> set (lnk_deliveries db). \<not> live_for i (prs_asset p) d \<and> \<not> live_for i (prs_asset q) d"
    and "prs_fresh p \<noteq> prs_fresh q" "{prs_fresh p, prs_fresh q} \<inter> dlv_id ` set (lnk_deliveries db) = {}"
    and "clk_db (clk :: clocks) < clk_app clk + set_retention st" "i \<in> known_ids db"
    and "Suc (count_live_deliveries i db) = set_pending st"
  shows "\<exists>db' d e. service_run env st (db, [p, q])
      (db', [p\<lparr>prs_stage := Answered (Inr d)\<rparr>, q\<lparr>prs_stage := Answered (Inr e)\<rparr>]) \<and>
    count_live_deliveries i db' = Suc (set_pending st)"
proof -
  let ?c = "\<lambda>p. p\<lparr>prs_stage := Counted\<rparr>"
  obtain d where d: "store_delivery st clk (prs_fresh p) i (prs_asset p) db =
        (db\<lparr>lnk_deliveries := lnk_deliveries db @ [d]\<rparr>, Answered (Inr d))"
      "live_for i (prs_asset p) d" "dlv_id d = prs_fresh p"
    using store_new [of i "prs_asset p" db "prs_fresh p" clk st] assms(6,8-10) by (auto simp: list_ex_iff)
  let ?db1 = "db\<lparr>lnk_deliveries := lnk_deliveries db @ [d]\<rparr>"
  have "\<not> list_ex (live_for i (prs_asset q)) (lnk_deliveries ?db1)"
    using assms(5,6) d(2) by (auto simp: list_ex_iff live_for_def)
  moreover have "prs_fresh q \<notin> dlv_id ` set (lnk_deliveries ?db1)" using assms(7,8) d(3) by auto
  ultimately obtain e where e: "store_delivery st clk (prs_fresh q) i (prs_asset q) ?db1 =
      (?db1\<lparr>lnk_deliveries := lnk_deliveries ?db1 @ [e]\<rparr>, Answered (Inr e))" "live_for i (prs_asset q) e"
    using store_new [of i "prs_asset q" ?db1 "prs_fresh q" clk st] assms(9,10) by auto
  let ?db2 = "?db1\<lparr>lnk_deliveries := lnk_deliveries ?db1 @ [e]\<rparr>"
  have count: "count_live_deliveries i ?db2 = Suc (set_pending st)"
    using assms(11) d(2) e(2) by (simp add: count_live_deliveries_def live_for_def)
  have steps: "press_step env st clk [] r db = (db, ?c r)" if "prs_stage r = Fitting" "prs_instance r = i" for r
    using that assms(11) by (simp add: press_step_def next_stage_def counted_stage_def)
  have stores: "press_step env st clk [] (?c p) db = (?db1, p\<lparr>prs_stage := Answered (Inr d)\<rparr>)"
    "press_step env st clk [] (?c q) ?db1 = (?db2, q\<lparr>prs_stage := Answered (Inr e)\<rparr>)"
    using d(1) e(1) assms(3,4) by (simp_all add: press_step_def next_stage_def)
  have "service_step env st (db, [p, q]) (db, [?c p, q])"
    using move_at [of 0 "[p, q]" env st clk "[]" db db "?c p"] steps [of p] assms(1,3) by simp
  moreover have "service_step env st (db, [?c p, q]) (db, [?c p, ?c q])"
    using move_at [of 1 "[?c p, q]" env st clk "[]" db db "?c q"] steps [of q] assms(2,4) by simp
  moreover have "service_step env st (db, [?c p, ?c q]) (?db1, [p\<lparr>prs_stage := Answered (Inr d)\<rparr>, ?c q])"
    using move_at [of 0 "[?c p, ?c q]" env st clk "[]" db ?db1] stores(1) by simp
  moreover have "service_step env st (?db1, [p\<lparr>prs_stage := Answered (Inr d)\<rparr>, ?c q])
      (?db2, [p\<lparr>prs_stage := Answered (Inr d)\<rparr>, q\<lparr>prs_stage := Answered (Inr e)\<rparr>])"
    using move_at [of 1 "[p\<lparr>prs_stage := Answered (Inr d)\<rparr>, ?c q]" env st clk "[]" ?db1 ?db2] stores(2) by simp
  ultimately have "service_run env st (db, [p, q])
      (?db2, [p\<lparr>prs_stage := Answered (Inr d)\<rparr>, q\<lparr>prs_stage := Answered (Inr e)\<rparr>])"
    by (meson converse_rtranclp_into_rtranclp rtranclp.rtrancl_refl)
  then show ?thesis using count by blast
qed

text \<open>A press that had counted when the instance was revoked still inserts, and is answered.\<close>

theorem late_press:
  assumes "prs_stage p = Counted" "revoke clk u (prs_instance p) db = (db1, Inr ())" "deliveries_sound st db"
    and "prs_fresh p \<notin> dlv_id ` set (lnk_deliveries db1)" "clk_db clk' < clk_app clk' + set_retention st"
  shows "\<exists>d. press_step env st clk' assets p db1 =
      (db1\<lparr>lnk_deliveries := lnk_deliveries db1 @ [d]\<rparr>, p\<lparr>prs_stage := Answered (Inr d)\<rparr>) \<and>
    dlv_instance d = prs_instance p \<and> prs_instance p \<notin> live_ids db1"
proof -
  have links: "links_sound db" using assms(3) by (simp add: deliveries_sound_def)
  note cut = revoked_cut [OF links assms(2)]
  have sound: "links_sound db1"
    using link_step_kept [OF link_step.intros(12) [OF assms(2)] links] .
  have none: "\<not> list_ex (live_for (prs_instance p) (prs_asset p)) (lnk_deliveries db1)"
    using revoked_no_deliveries [OF links assms(2)]
    by (auto simp: deliveries_of_def filter_empty_conv list_ex_iff live_for_def)
  have "prs_instance p \<in> known_ids db1"
    using cut the_row_None [of ins_id "prs_instance p" "lnk_instances db1"]
    by (auto simp: instance_status_def known_ids_def)
  then show ?thesis
    using store_new [OF none assms(4,5)] assms(1) cut_off_not_live [OF sound cut]
    by (auto simp: press_step_def next_stage_def live_for_def)
qed

text \<open>
  C30. A request that waits is answered: once one of its ends comes (superseded, waited out or
  cancelled) \<^verbatim>\<open>Collect\<close> returns, whatever woke it before, and all it did to the tables is a run of
  calls.
\<close>

theorem collect_answers:
  assumes "\<exists>x \<in> set wakes. fst x \<noteq> Woken \<and> fst x \<noteq> Rechecked"
    and "\<forall>(x, others, c, as) \<in> set wakes. \<forall>db. delivery_run env st db (others db)"
  shows "\<exists>db' r. collect env st clk assets inst ks h wakes db = Some (db', r) \<and> delivery_run env st db db'"
proof -
  obtain db1 r1 where ack: "acknowledge env st clk inst ks db = (db1, r1)" by fastforce
  have first: "delivery_run env st db db1"
    by (rule acknowledge_run [OF ack])
  obtain db2 r2 where "await_work env st inst clk assets db1 wakes = Some (db2, r2)"
    "delivery_run env st db1 db2"
    using await_answers [OF assms] by blast
  then show ?thesis
    using ack first by (auto simp: collect_def split: sum.split option.split intro: rtranclp_trans)
qed

text \<open>
  The hub holds at most one request for an instance and at most its limit in all, each with a
  number of its own that nothing has closed. A new request takes the place of the instance's last,
  which is closed and whose release then changes nothing; it is refused only where the hub is full
  and holds none of the instance.
\<close>

theorem hub_holds_one:
  assumes "hub_sound h"
  shows "(case hold i h of
      None \<Rightarrow> map_of (hub_waiting h) i = None \<and> hub_limit h \<le> length (hub_waiting h)
    | Some (h', n) \<Rightarrow> hub_sound h' \<and> map_of (hub_waiting h') = (map_of (hub_waiting h))(i \<mapsto> n) \<and>
        n \<notin> hub_superseded h' \<and>
        (case map_of (hub_waiting h) i of
           None \<Rightarrow> True
         | Some p \<Rightarrow> p \<in> hub_superseded h' \<and> release i p h' = h')) \<and>
    hub_sound (release i m h) \<and> hub_sound (signal i h)"
proof (cases "hold i h")
  case None
  then show ?thesis
    using assms release_sound signal_sound by (auto simp: hold_def split: option.split_asm if_split_asm)
next
  case (Some q)
  obtain h' n where q: "q = (h', n)" by (cases q)
  note held = Some [unfolded q]
  have "map_of (hub_waiting h') = (map_of (hub_waiting h))(i \<mapsto> n)"
    using hold_answers(1,2) [OF assms held] by auto
  moreover have "p \<in> hub_superseded h' \<and> release i p h' = h'" if "map_of (hub_waiting h) i = Some p" for p
    using hold_answers(1) [OF assms held] hold_answers(3) [OF assms held that] by (auto simp: release_def)
  ultimately show ?thesis
    using held q hold_sound [OF assms held] hold_answers(4) [OF assms held] release_sound [OF assms]
      signal_sound [OF assms] by (auto split: option.split)
qed

section \<open>Samples\<close>

definition sample_delivery_env :: delivery_env where
  "sample_delivery_env =
     \<lparr>dle_links = sample_link_env, dle_site = ''s'', dle_key = ''k'',
      dle_hmac = (\<lambda>k s. s), dle_media_version = 1\<rparr>"

lemma sample_key: "dle_key sample_delivery_env \<noteq> []"
  by (simp add: sample_delivery_env_def)

definition sample_asset :: catalog_asset where
  "sample_asset =
     \<lparr>cat_id = 9, cat_kind = ''lorebook'', cat_name = ''A'', cat_generation = 3, cat_deleted = False,
      cat_withheld = False, cat_published = True, cat_original = True, cat_cover = None,
      cat_export = None, cat_apps = [], cat_media = []\<rparr>"

definition sample_instance :: linked_instance where
  "sample_instance =
     granted_instance sample_clock 5 7 sample_declaration [scope_receive_assets]
       (sample_token refresh_token_kind)"

definition sample_delivery :: delivery_row where
  "sample_delivery =
     \<lparr>dlv_id = 8, dlv_instance = 5, dlv_asset = 9, dlv_state = Queued, dlv_attempts = 0, dlv_queued = 0,
      dlv_lease = None, dlv_target = None, dlv_settled = None, dlv_expires = 1000000000\<rparr>"

definition sample_queue :: link_db where
  "sample_queue = no_links\<lparr>lnk_instances := [sample_instance], lnk_deliveries := [sample_delivery]\<rparr>"

lemma sample_queue_sound: "deliveries_sound default_settings sample_queue"
  by (simp add: deliveries_sound_def links_sound_def devices_sound_def authorizations_sound_def
      instances_sound_def tokens_sound_def instance_sound_def sample_queue_def no_links_def
      sample_instance_def granted_instance_def live_def queue_sound_def delivery_sound_def
      sample_delivery_def default_settings_def known_ids_def live_state_def)

lemma default_attempts: "0 \<le> set_max_attempts default_settings"
  by (simp add: default_settings_def)

lemma sample_claimable:
  "sample_delivery \<in> set (lnk_deliveries sample_queue)"
  "claimable sample_clock (ian_id (answer_of sample_instance)) (set_max_attempts default_settings)
     sample_queue sample_delivery"
  by (simp_all add: sample_queue_def claimable_def may_receive_def sample_instance_def granted_instance_def
      live_def answer_of_def sample_delivery_def sample_clock_def default_settings_def no_links_def)

lemma sample_deliverable:
  "\<exists>s. deliverable_asset sample_delivery_env now [sample_asset] 9 = Some s \<and>
     choose_target (dec_targets (ian_declaration (answer_of sample_instance))) (dvb_targets s) (dvb_original s) =
       Some (raw_download_target, raw_label)"
  by (simp add: deliverable_asset_def sendable_asset_def sendable_def sample_asset_def Let_def
      choose_target_def answer_of_def sample_instance_def granted_instance_def sample_declaration_def)

lemma sample_fits:
  "\<forall>a \<in> set [sample_asset]. \<forall>p \<in> set (case cat_export a of None \<Rightarrow> [] | Some ts \<Rightarrow> ts). target_fits (fst p)"
  by (simp add: sample_asset_def)

lemma sample_only:
  "\<not> (length es = set_batch default_settings \<and> distinct (map dlv_id es) \<and>
     set es \<subseteq> set (lnk_deliveries sample_queue))"
proof
  assume es: "length es = set_batch default_settings \<and> distinct (map dlv_id es) \<and>
    set es \<subseteq> set (lnk_deliveries sample_queue)"
  then have "card (set es) \<le> card {sample_delivery}"
    by (intro card_mono) (simp_all add: sample_queue_def)
  moreover have "card (set es) = 10"
    using es distinct_card [of es] distinct_map [of dlv_id es] by (simp add: default_settings_def)
  ultimately show False by simp
qed

lemma sample_claim:
  obtains db works w where "claim sample_delivery_env default_settings sample_clock [sample_asset]
      (answer_of sample_instance) sample_queue = (db, Inr works)"
    and "w \<in> set works" "wrk_id w = 8" "wrk_asset w = 9" "wrk_format w = raw_download_target"
proof -
  obtain s where "verdict sample_delivery_env (clk_app sample_clock) [sample_asset]
      (answer_of sample_instance) 9 = Inr (s, raw_download_target, raw_label)"
    using sample_deliverable [of "clk_app sample_clock"] by (auto simp: verdict_def)
  then obtain w where w: "work_of sample_delivery_env sample_clock [sample_asset] (answer_of sample_instance)
      (hand_out (clk_app sample_clock + set_lease default_settings) sample_delivery) = [w]"
    "wrk_id w = 8" "wrk_asset w = 9" "wrk_format w = raw_download_target"
    by (simp add: work_of_def hand_out_def sample_delivery_def)
  obtain db works where run: "claim sample_delivery_env default_settings sample_clock [sample_asset]
      (answer_of sample_instance) sample_queue = (db, Inr works)"
    using claim_runs [OF sample_fits] by blast
  from run sound_ids [OF sample_queue_sound] sample_claimable show thesis
  proof (rule claim_serves)
    assume "set (work_of sample_delivery_env sample_clock [sample_asset] (answer_of sample_instance)
      (hand_out (clk_app sample_clock + set_lease default_settings) sample_delivery)) \<subseteq> set works"
    then show thesis using that [OF run] w by simp
  qed (use sample_only in blast)
qed

lemma sample_now: "0 \<le> clk_app sample_clock" "clk_app sample_clock < 2 ^ 61" "clk_db sample_clock = 0"
  by (simp_all add: sample_clock_def)

section \<open>Witnesses\<close>

theorem deliveries_stay_sound_witness:
  "\<exists>db. crowded_run sample_delivery_env default_settings 1 5 (sample_queue, []) (db, []) \<and>
     deliveries_sound default_settings db \<and> count_live_deliveries 5 db \<le> 100 \<and> db \<noteq> sample_queue"
proof -
  obtain db works w where run: "claim sample_delivery_env default_settings sample_clock [sample_asset]
      (answer_of sample_instance) sample_queue = (db, Inr works)" and w: "w \<in> set works" "wrk_id w = 8"
    by (rule sample_claim)
  have step: "crowded_run sample_delivery_env default_settings 1 5 (sample_queue, []) (db, [])"
    using call_at [OF claimed [OF run], of "[]"] by (auto simp: crowded_def holders_def)
  have "held_until {} db 8 (clk_app sample_clock + set_lease default_settings)"
    by (rule handed_out_held [OF sample_queue_sound _ default_attempts])
      (use run w in \<open>force simp: hands_out_def\<close>)
  then have "db \<noteq> sample_queue" by (auto simp: held_until_def sample_queue_def sample_delivery_def)
  moreover have "count_live_deliveries 5 sample_queue \<le> set_pending default_settings"
    by (simp add: count_live_deliveries_def sample_queue_def default_settings_def)
  ultimately show ?thesis
    using step deliveries_stay_sound [OF sample_queue_sound default_attempts _ order_refl step]
    by (auto simp: holders_def default_settings_def)
qed

theorem lent_to_one_witness:
  "\<exists>db db2 works w again. claim sample_delivery_env default_settings sample_clock [sample_asset]
      (answer_of sample_instance) sample_queue = (db, Inr works) \<and> w \<in> set works \<and>
     claim sample_delivery_env default_settings sample_clock [sample_asset] (answer_of sample_instance) db =
      (db2, Inr again) \<and> wrk_id w \<notin> wrk_id ` set again"
proof -
  obtain db works w where run: "claim sample_delivery_env default_settings sample_clock [sample_asset]
      (answer_of sample_instance) sample_queue = (db, Inr works)" and w: "w \<in> set works"
    by (rule sample_claim)
  obtain db2 again where second: "claim sample_delivery_env default_settings sample_clock [sample_asset]
      (answer_of sample_instance) db = (db2, Inr again)"
    using claim_runs [OF sample_fits] by blast
  have "clk_db sample_clock < clk_app sample_clock + set_lease default_settings"
    by (simp add: sample_clock_def default_settings_def signature_life_def seconds_def)
  from lent_to_one [OF sample_queue_sound default_attempts run w _ run_before_refl this second, of "{}"]
  show ?thesis using run w second by auto
qed

theorem works_authorized_witness:
  "\<exists>db works w. claim sample_delivery_env default_settings sample_clock [sample_asset]
      (answer_of sample_instance) sample_queue = (db, Inr works) \<and> w \<in> set works \<and>
     (\<exists>a. sendable_asset [sample_asset] (wrk_asset w) = Some a \<and> wrk_generation w = cat_generation a)"
proof -
  obtain db works w where run: "claim sample_delivery_env default_settings sample_clock [sample_asset]
      (answer_of sample_instance) sample_queue = (db, Inr works)" and w: "w \<in> set works"
    by (rule sample_claim)
  from works_authorized [OF sample_queue_sound run w] show ?thesis using run w by auto
qed

theorem oldest_served_witness:
  "\<exists>db works. claim sample_delivery_env default_settings sample_clock [sample_asset]
      (answer_of sample_instance) sample_queue = (db, Inr works) \<and> 8 \<in> wrk_id ` set works"
proof -
  obtain s where s: "deliverable_asset sample_delivery_env (clk_app sample_clock) [sample_asset]
      (dlv_asset sample_delivery) = Some s"
    and p: "choose_target (dec_targets (ian_declaration (answer_of sample_instance))) (dvb_targets s)
      (dvb_original s) = Some (raw_download_target, raw_label)"
    using sample_deliverable [of "clk_app sample_clock"] by (auto simp: sample_delivery_def)
  show ?thesis
    using oldest_served [OF sample_queue_sound sample_fits sample_claimable s p] sample_only
    by (auto simp: sample_delivery_def)
qed

theorem work_can_be_fetched_witness:
  "\<exists>db works w e signature. claim sample_delivery_env default_settings sample_clock [sample_asset]
      (answer_of sample_instance) sample_queue = (db, Inr works) \<and> w \<in> set works \<and>
     artifact sample_delivery_env sample_clock 8 e signature db = Inr (9, raw_download_target)"
proof -
  obtain db works w where run: "claim sample_delivery_env default_settings sample_clock [sample_asset]
      (answer_of sample_instance) sample_queue = (db, Inr works)"
    and w: "w \<in> set works" "wrk_id w = 8" "wrk_asset w = 9" "wrk_format w = raw_download_target"
    by (rule sample_claim)
  have format: "wrk_format w \<noteq> []" by (simp add: w raw_download_target_def)
  have time: "clk_app sample_clock \<le> unix_time (unix (clk_app sample_clock + signature_life))"
    "clk_db sample_clock < clk_app sample_clock + set_lease default_settings"
    "\<forall>d \<in> set (lnk_deliveries sample_queue). dlv_id d = wrk_id w \<longrightarrow> clk_db sample_clock < dlv_expires d"
    using unix_time_small(2) [of signature_life]
    by (simp_all add: sample_clock_def default_settings_def sample_queue_def sample_delivery_def
        signature_life_def seconds_def)
  from work_can_be_fetched [OF sample_queue_sound default_attempts run w(1) format sample_now(1,2) refl time sample_key]
  show ?thesis using run w by auto
qed

theorem revoked_receives_nothing_witness:
  "\<exists>db. revoke sample_clock 7 5 sample_queue = (db, Inr ()) \<and> deliveries_of 5 db = 0 \<and>
     (\<forall>clk assets db2 w works.
        claim sample_delivery_env default_settings clk assets (answer_of sample_instance) db \<noteq>
          (db2, Inr (w # works)))"
proof -
  obtain db where run: "revoke sample_clock 7 5 sample_queue = (db, Inr ())"
    by (auto simp: revoke_def revoke_instance_def revoke_where_def Let_def sample_queue_def
        sample_instance_def granted_instance_def live_def)
  have i: "ian_id (answer_of sample_instance) = 5"
    by (simp add: answer_of_def sample_instance_def granted_instance_def)
  note none = revoked_receives_nothing [OF sample_queue_sound default_attempts run rtranclp.rtrancl_refl,
      of sample_delivery_env "[]"]
  then have "deliveries_of 5 db = 0" by (simp add: holders_def)
  moreover have "claim sample_delivery_env default_settings clk assets (answer_of sample_instance) db \<noteq>
      (db2, Inr (w # works))" for clk assets db2 w works
    using conjunct1 [OF none] i by (metis list.distinct(1))
  ultimately show ?thesis using run by blast
qed

definition sample_report :: library_report where
  "sample_report = \<lparr>rep_snapshot = True, rep_entries = [(9, Some 2)], rep_removed = []\<rparr>"

theorem sync_mirrors_witness:
  "\<exists>db res. sync sample_delivery_env default_settings sample_clock [sample_asset]
      (answer_of sample_instance) sample_report sample_queue = (db, Inr res) \<and>
     mirror_of 5 (lnk_library db) 9 = Some 2 \<and> res_accepted res = 1"
proof -
  have i: "ian_id (answer_of sample_instance) = 5"
    by (simp add: answer_of_def sample_instance_def granted_instance_def)
  have read: "read_report default_settings sample_report = Inr ([(9, Some 2)], [])" by code_simp
  have "rates_sound sample_queue" "rate_open sample_link_env sample_clock action source sync_whole_limit an_hour sample_queue"
    for action source
    by (simp_all add: rates_sound_def sample_queue_def no_links_def rate_open_def counter_def
        sync_whole_limit_def max_integer_def)
  then obtain rs where rate: "take_rate sample_link_env sample_clock ''library-snapshot'' (uuid_text 5)
      sync_whole_limit an_hour sample_queue = (sample_queue\<lparr>lnk_rates := rs\<rparr>, Inr ())"
    using rate_open_takes by blast
  have same: "rep_snapshot sample_report" "dle_links sample_delivery_env = sample_link_env"
    by (simp_all add: sample_report_def sample_delivery_env_def)
  obtain db n where rows: "report_library_entries sample_clock [sample_asset] 5 [(9, 2)]
      (sample_queue\<lparr>lnk_rates := rs\<rparr>) = Some (db, n)"
    by (simp add: report_library_entries_def reportable_def sample_asset_def Let_def)
  obtain db res where run: "sync sample_delivery_env default_settings sample_clock [sample_asset]
      (answer_of sample_instance) sample_report sample_queue = (db, Inr res)"
    using rate rows same
    by (simp add: sync_def read throttled_run_def throttle_def i sync_checked_def int32_small prune_library_def)
  have "told [sample_asset] (rep_entries sample_report) = [9 \<mapsto> 2]"
    by (auto simp: told_def sample_report_def reportable_def sample_asset_def taken_generation_def int32_small fun_eq_iff)
  then show ?thesis
    using sync_mirrors [OF run] run i by (auto simp: sample_report_def)
qed

theorem signature_vouches_witness:
  "unix_time 901 = 901000000 \<and>
     valid_signature sample_delivery_env ''a'' (int_text 901) (stamp sample_delivery_env ''a'' 901) 901000000 \<and>
     \<not> valid_signature sample_delivery_env ''b'' (int_text 901) (stamp sample_delivery_env ''a'' 901) 0"
proof -
  have e: "(901 :: int) = unix (1000000 + signature_life)"
    by (simp add: unix_def signature_life_def seconds_def)
  show ?thesis
    using signature_vouches [OF _ _ e sample_key, of "''a''"]
    by (auto simp: signature_life_def seconds_def sample_delivery_env_def)
qed

definition sample_press :: "uuid \<Rightarrow> uuid \<Rightarrow> press" where
  "sample_press fresh a = (new_press fresh 7 5 a)\<lparr>prs_stage := Fitting\<rparr>"

lemma sample_press_fields [simp]:
  "prs_instance (sample_press fresh a) = 5" "prs_asset (sample_press fresh a) = a"
  "prs_fresh (sample_press fresh a) = fresh" "prs_stage (sample_press fresh a) = Fitting"
  by (simp_all add: sample_press_def new_press_def)

theorem second_press_witness:
  "press_alone sample_delivery_env default_settings sample_clock [] 3 (sample_press 3 9) sample_queue =
     (sample_queue, (sample_press 3 9)\<lparr>prs_stage := Answered (Inr sample_delivery)\<rparr>)"
proof -
  have here: "sample_delivery \<in> set (lnk_deliveries sample_queue)" "live_for 5 9 sample_delivery"
    "count_live_deliveries 5 sample_queue = 1"
    by (simp_all add: sample_queue_def live_for_def sample_delivery_def live_state_def count_live_deliveries_def)
  have "clk_db sample_clock < clk_app sample_clock + set_retention default_settings"
    by (simp add: sample_clock_def default_settings_def seconds_def)
  then show ?thesis
    using second_press [OF sample_queue_sound here(1), of "sample_press 3 9" sample_clock sample_delivery_env "[]"]
      here by (simp add: default_settings_def)
qed

theorem overlapping_presses_witness:
  "\<exists>db ps. service_run sample_delivery_env (default_settings\<lparr>set_pending := 1\<rparr>)
       (sample_queue\<lparr>lnk_deliveries := []\<rparr>, [sample_press 3 9, sample_press 4 10]) (db, ps) \<and>
     count_live_deliveries 5 db = 2"
proof -
  let ?st = "default_settings\<lparr>set_pending := 1\<rparr>" and ?db = "sample_queue\<lparr>lnk_deliveries := []\<rparr>"
  have time: "clk_db sample_clock < clk_app sample_clock + set_retention ?st"
    by (simp add: sample_clock_def default_settings_def seconds_def)
  have "5 \<in> known_ids ?db"
    by (simp add: known_ids_def sample_queue_def sample_instance_def granted_instance_def)
  then show ?thesis
    using overlapping_presses [of "sample_press 3 9" "sample_press 4 10" 5 ?db sample_clock ?st sample_delivery_env]
      time by (auto simp: count_live_deliveries_def numeral_2_eq_2)
qed

theorem late_press_witness:
  "\<exists>db d. revoke sample_clock 7 5 sample_queue = (db, Inr ()) \<and>
     press_step sample_delivery_env default_settings sample_clock [] ((sample_press 3 9)\<lparr>prs_stage := Counted\<rparr>) db =
       (db\<lparr>lnk_deliveries := lnk_deliveries db @ [d]\<rparr>, (sample_press 3 9)\<lparr>prs_stage := Answered (Inr d)\<rparr>)"
proof -
  let ?p = "(sample_press 3 9)\<lparr>prs_stage := Counted\<rparr>"
  obtain db where run: "revoke sample_clock 7 5 sample_queue = (db, Inr ())" and "lnk_deliveries db = []"
    by (auto simp: revoke_def revoke_instance_def revoke_where_def Let_def sample_queue_def
        sample_instance_def granted_instance_def live_def sample_delivery_def)
  moreover have "clk_db sample_clock < clk_app sample_clock + set_retention default_settings"
    by (simp add: sample_clock_def default_settings_def seconds_def)
  ultimately show ?thesis
    using late_press [of ?p sample_clock 7 sample_queue db default_settings sample_clock sample_delivery_env "[]"]
      sample_queue_sound by auto
qed

theorem collect_answers_witness:
  "\<exists>db r. collect sample_delivery_env default_settings sample_clock [] (answer_of sample_instance) []
     (new_hub (set_concurrent_holds default_settings))
     [(Woken, id, sample_clock, [sample_asset]), (WaitedOut, id, sample_clock, [])] sample_queue = Some (db, r) \<and>
     deliveries_sound default_settings db"
proof -
  have "\<forall>(x, others, c, as) \<in> set [(Woken, id, sample_clock, [sample_asset]), (WaitedOut, id, sample_clock, [])].
      \<forall>db. delivery_run sample_delivery_env default_settings db (others db)"
    by simp
  from collect_answers [OF _ this] show ?thesis
    using delivery_run_kept [OF _ sample_queue_sound default_attempts] by fastforce
qed

theorem hub_holds_one_witness:
  "hub_sound (fst (the (hold 5
     \<lparr>hub_waiting = [(5, 0)], hub_work = {}, hub_superseded = {}, hub_next = 1, hub_limit = 1\<rparr>)))"
proof -
  have "hub_sound \<lparr>hub_waiting = [(5, 0)], hub_work = {}, hub_superseded = {}, hub_next = 1, hub_limit = 1\<rparr>"
    by (simp add: hub_sound_def)
  from hub_holds_one [OF this, of 5 0] show ?thesis by (auto simp: hold_def)
qed

end
