(* ===== verification/AccountText.thy ===== *)
theory AccountText
  imports LinkStore
begin

text \<open>
  The text of accounts (\<^verbatim>\<open>account/service.go\<close>, \<^verbatim>\<open>account/discord.go\<close>): handles, the addresses of
  mail, the credentials a session or a link carries, and the handle an account made from a
  Discord profile gets. \<^verbatim>\<open>mail.ParseAddress\<close>, bcrypt, SHA-256, the lower case of runes beyond
  ASCII and the database's \<^verbatim>\<open>lower\<close> are parameters.
\<close>

section \<open>Refusals\<close>

datatype account_error =
    FieldError string string
  | HandleTaken
  | EmailUnavailable
  | VerificationInvalid
  | CredentialsWrong
  | NotSignedIn
  | EmailUnverified
  | ProfileNotFound
  | EmailVerified
  | EmailBelongsDiscord
  | DiscordUnavailable
  | DiscordFlow
  | DiscordEmailConflict
  | DiscordClaimed
  | DiscordNotLinked
  | LastSignInMethod
  | PasswordAlreadySet
  | PasswordReset
  | AccountFailed

record account_env =
  aen_unicode :: unicode
  aen_lower :: "nat \<Rightarrow> nat"
  aen_address :: "string \<Rightarrow> string option"
  aen_sha256 :: "string \<Rightarrow> string"
  aen_bcrypt :: "string \<Rightarrow> string \<Rightarrow> string option"
  aen_matches :: "string \<Rightarrow> string \<Rightarrow> bool"
  aen_db_lower :: "string \<Rightarrow> string"
  aen_site :: string

section \<open>Lower case\<close>

definition to_lower :: "account_env \<Rightarrow> nat \<Rightarrow> nat" where
  "to_lower env r =
     (if r < 0x80 then (if 65 \<le> r \<and> r \<le> 90 then r + 32 else r) else aen_lower env r)"

text \<open>\<^verbatim>\<open>utf8.AppendRune\<close>, which writes the error rune for what is no rune\<close>

definition tail_byte :: "nat \<Rightarrow> char" where
  "tail_byte n = char_of (0x80 + n mod 64)"

definition encode_rune :: "nat \<Rightarrow> string" where
  "encode_rune r =
     (let r = (if (0xD800 \<le> r \<and> r \<le> 0xDFFF) \<or> 0x10FFFF < r then rune_error else r) in
      if r < 0x80 then [char_of r]
      else if r < 0x800 then [char_of (0xC0 + r div 64), tail_byte r]
      else if r < 0x10000 then [char_of (0xE0 + r div 4096), tail_byte (r div 64), tail_byte r]
      else [char_of (0xF0 + r div 262144), tail_byte (r div 4096), tail_byte (r div 64), tail_byte r])"

text \<open>\<^verbatim>\<open>strings.ToLower\<close>\<close>

definition lower_text :: "account_env \<Rightarrow> string \<Rightarrow> string" where
  "lower_text env s = concat (map (\<lambda>(r, bs). encode_rune (to_lower env r)) (runes s))"

section \<open>Addresses\<close>

definition normalize_email :: "account_env \<Rightarrow> string \<Rightarrow> account_error + string" where
  "normalize_email env raw =
     (let normalized = lower_text env (trim_space (aen_unicode env) raw) in
      if aen_address env normalized \<noteq> Some normalized \<or> 254 < length normalized
      then Inl (FieldError ''email'' ''Email address needs to look like name@example.com.'')
      else Inr normalized)"

section \<open>Handles\<close>

definition rune_digit :: "nat \<Rightarrow> bool" where
  "rune_digit r \<longleftrightarrow> 48 \<le> r \<and> r \<le> 57"

definition rune_dot :: "nat \<Rightarrow> bool" where
  "rune_dot r \<longleftrightarrow> r = byte (CHR ''.'') \<or> r = byte (CHR ''_'')"

definition handle_rune :: "nat \<Rightarrow> bool" where
  "handle_rune r \<longleftrightarrow> (97 \<le> r \<and> r \<le> 122) \<or> rune_digit r \<or> rune_dot r"

text \<open>The loop of \<^verbatim>\<open>validateHandle\<close> with its two flags\<close>

fun check_runes :: "nat list \<Rightarrow> bool \<Rightarrow> bool \<Rightarrow> account_error + bool \<times> bool" where
  "check_runes [] all_digits all_punctuation = Inr (all_digits, all_punctuation)"
| "check_runes (r # rs) all_digits all_punctuation =
     (if \<not> handle_rune r
      then Inl (FieldError ''handle'' ''Handle can use lowercase letters, numbers, dots and underscores.'')
      else check_runes rs (all_digits \<and> rune_digit r) (all_punctuation \<and> rune_dot r))"

definition validate_handle :: "string \<Rightarrow> account_error + unit" where
  "validate_handle handle =
     (if length handle < 3 \<or> 32 < length handle
      then Inl (FieldError ''handle'' ''Handle needs to be 3 to 32 characters.'')
      else
        (case check_runes (map fst (runes handle)) True True of
           Inl e \<Rightarrow> Inl e
         | Inr (all_digits, all_punctuation) \<Rightarrow>
             if all_digits \<or> all_punctuation
             then Inl (FieldError ''handle''
               ''Handle needs at least one letter, or a mix of numbers and punctuation.'')
             else Inr ()))"

section \<open>Credentials\<close>

text \<open>\<^verbatim>\<open>newCredential\<close>: the token and its hash, and the bytes that are left\<close>

definition new_token :: "account_env \<Rightarrow> byte_source \<Rightarrow> (string \<times> string) \<times> byte_source" where
  "new_token env src =
     (let raw = next_bytes 32 src
      in ((base64_encode raw, aen_sha256 env raw), after_bytes 32 src))"

definition token_hash :: "account_env \<Rightarrow> string \<Rightarrow> string option" where
  "token_hash env token =
     (case base64_decode token of
        None \<Rightarrow> None
      | Some raw \<Rightarrow> if length raw \<noteq> 32 then None else Some (aen_sha256 env raw))"

definition password_material :: "account_env \<Rightarrow> string \<Rightarrow> string" where
  "password_material env password = aen_sha256 env password"

section \<open>The handle of a Discord account\<close>

text \<open>The loop of \<^verbatim>\<open>discordHandleSeed\<close>, which stops at 32 bytes\<close>

fun seed_runes :: "nat list \<Rightarrow> string \<Rightarrow> string" where
  "seed_runes [] seed = seed"
| "seed_runes (r # rs) seed =
     (let seed = (if handle_rune r then seed @ encode_rune r else seed)
      in if length seed = 32 then seed else seed_runes rs seed)"

definition discord_handle_seed :: "account_env \<Rightarrow> string \<Rightarrow> string" where
  "discord_handle_seed env username =
     (let seed = seed_runes (map fst (runes (lower_text env username))) [];
          padded = seed @ replicate (3 - length seed) (CHR ''.'');
          handle =
            (case validate_handle padded of
               Inr u \<Rightarrow> padded
             | Inl e \<Rightarrow>
                 if padded \<noteq> [] \<and> list_all rune_digit (map fst (runes padded))
                 then ''user.'' @ padded else ''creator'')
      in take 32 handle)"

text \<open>
  \<^verbatim>\<open>availableDiscordHandle\<close>: the seed, then the seed with \<open>.2\<close>, \<open>.3\<close> and so on until one is free.
  The slice is out of bounds, and the code panics, once an ending has more than 32 bytes.
\<close>

definition handle_candidate :: "string \<Rightarrow> nat \<Rightarrow> string" where
  "handle_candidate seed suffix =
     (if 1 < suffix
      then (let ending = ''.'' @ decimal suffix
            in take (min (length seed) (32 - length ending)) seed @ ending)
      else seed)"

partial_function (option) free_handle :: "(string \<Rightarrow> bool) \<Rightarrow> string \<Rightarrow> nat \<Rightarrow> string option" where
  "free_handle taken seed suffix =
     (if 32 < length (decimal suffix) + 1 then None
      else if taken (handle_candidate seed suffix) then free_handle taken seed (Suc suffix)
      else Some (handle_candidate seed suffix))"

definition available_discord_handle ::
  "account_env \<Rightarrow> (string \<Rightarrow> bool) \<Rightarrow> string \<Rightarrow> string option" where
  "available_discord_handle env taken username =
     free_handle taken (discord_handle_seed env username) 1"

end
