(* ===== verification/AccountHandles.thy ===== *)
theory AccountHandles
  imports AccountText
begin

text \<open>
  Which handles \<^verbatim>\<open>validateHandle\<close> lets through, and that an account made from a Discord profile
  gets one of them that nobody has or had.
\<close>

section \<open>Valid handles\<close>

definition handle_char :: "char \<Rightarrow> bool" where
  "handle_char c \<longleftrightarrow> handle_rune (byte c)"

definition valid_handle :: "string \<Rightarrow> bool" where
  "valid_handle h \<longleftrightarrow>
     3 \<le> length h \<and> length h \<le> 32 \<and> list_all handle_char h \<and>
     \<not> list_all (\<lambda>c. rune_digit (byte c)) h \<and> \<not> list_all (\<lambda>c. rune_dot (byte c)) h"

lemma handle_rune_ascii: "handle_rune r \<Longrightarrow> r < 0x80"
  by (auto simp: handle_rune_def rune_digit_def rune_dot_def byte_def)

lemma decode_rune_large:
  assumes "\<not> byte a < 0x80"
  shows "0x80 \<le> fst (decode_rune a rest)"
proof -
  have two: "0x80 \<le> two_bytes a b" if "between 0xC2 0xDF a" for b
    using that by (auto simp: two_bytes_def between_def)
  have three: "0x80 \<le> three_bytes a b c"
    if "between 0xE0 0xEF a" "second_of_three a b" for b c
    using that by (auto simp: three_bytes_def between_def second_of_three_def split: if_splits)
  have four: "0x80 \<le> four_bytes a b c d"
    if "between 0xF0 0xF4 a" "second_of_four a b" for b c d
    using that by (auto simp: four_bytes_def between_def second_of_four_def split: if_splits)
  show ?thesis
    using assms two three four by (auto simp: decode_rune_def rune_error_def split: list.splits)
qed

lemma runes_from_large:
  "list_all (\<lambda>r. r < 0x80) (map fst (runes_from 0 s)) \<Longrightarrow> list_all (\<lambda>c. byte c < 0x80) s"
proof (induction s)
  case (Cons c s)
  show ?case
  proof (cases "byte c < 0x80")
    case True
    then show ?thesis using Cons by (simp add: decode_rune_def)
  next
    case False
    then show ?thesis using Cons.prems decode_rune_large [OF False, of s]
      by (auto simp: case_prod_beta Let_def)
  qed
qed simp

lemma check_runes_decides:
  "check_runes rs d p =
     (if list_all handle_rune rs then Inr (d \<and> list_all rune_digit rs, p \<and> list_all rune_dot rs)
      else Inl (FieldError ''handle'' ''Handle can use lowercase letters, numbers, dots and underscores.''))"
  by (induction rs arbitrary: d p) auto

lemma handle_runes_chars:
  "list_all handle_rune (map fst (runes h)) \<longleftrightarrow> list_all handle_char h"
proof
  assume "list_all handle_rune (map fst (runes h))"
  moreover from this have "ascii h"
    using runes_from_large [of h] handle_rune_ascii by (auto simp: ascii_def runes_def list_all_iff)
  ultimately show "list_all handle_char h"
    by (simp add: runes_ascii list_all_iff handle_char_def)
next
  assume "list_all handle_char h"
  moreover from this have "ascii h"
    using handle_rune_ascii by (auto simp: ascii_def list_all_iff handle_char_def)
  ultimately show "list_all handle_rune (map fst (runes h))"
    by (simp add: runes_ascii list_all_iff handle_char_def)
qed

lemma handle_chars_runes:
  "list_all handle_char h \<Longrightarrow> map fst (runes h) = map byte h"
  using handle_rune_ascii
  by (subst runes_ascii) (auto simp: ascii_def list_all_iff handle_char_def)

lemma validate_handle_decides: "validate_handle h = Inr u \<longleftrightarrow> valid_handle h"
proof (cases "list_all handle_char h")
  case True
  then have "list_all handle_rune (map byte h)" by (simp add: list_all_iff handle_char_def)
  moreover have "map fst (runes h) = map byte h" using handle_chars_runes [OF True] .
  ultimately show ?thesis
    using True by (auto simp: validate_handle_def valid_handle_def check_runes_decides list_all_iff)
next
  case False
  then show ?thesis
    by (auto simp: validate_handle_def valid_handle_def check_runes_decides handle_runes_chars)
qed

lemma validate_handle_refuses: "validate_handle h = Inl e \<Longrightarrow> \<not> valid_handle h"
  using validate_handle_decides [of h "()"] by auto

section \<open>The seed\<close>

lemma encode_ascii: "r < 0x80 \<Longrightarrow> encode_rune r = [char_of r]"
  by (simp add: encode_rune_def Let_def)

lemma seed_runes_chars:
  assumes "list_all handle_char seed" "length seed < 32"
  shows "list_all handle_char (seed_runes rs seed) \<and> length (seed_runes rs seed) \<le> 32"
  using assms
proof (induction rs arbitrary: seed)
  case (Cons r rs)
  show ?case
  proof (cases "handle_rune r")
    case True
    then have r: "r < 0x80" by (rule handle_rune_ascii)
    then have "handle_char (char_of r)" using True by (simp add: handle_char_def byte_def)
    then show ?thesis using Cons r True by (auto simp: encode_ascii Let_def)
  qed (use Cons in auto)
qed simp

lemma list_all_take: "list_all p xs \<Longrightarrow> list_all p (take n xs)"
  by (auto simp: list_all_iff dest: in_set_takeD)

lemma creator_valid: "valid_handle ''creator''"
  by (simp add: valid_handle_def handle_char_def handle_rune_def rune_digit_def rune_dot_def byte_def)

lemma user_digits_valid:
  assumes "list_all handle_char ds" "3 \<le> length ds"
  shows "valid_handle (take 32 (''user.'' @ ds))"
  using assms
  by (simp add: valid_handle_def handle_char_def handle_rune_def rune_digit_def rune_dot_def byte_def
      list_all_take)

lemma discord_handle_seed_valid: "valid_handle (discord_handle_seed env username)"
proof -
  let ?seed = "seed_runes (map fst (runes (lower_text env username))) []"
  let ?padded = "?seed @ replicate (3 - length ?seed) (CHR ''.'')"
  have seed: "list_all handle_char ?seed" "length ?seed \<le> 32"
    using seed_runes_chars [of "[]"] by auto
  have dot: "handle_char (CHR ''.'')"
    by (simp add: handle_char_def handle_rune_def rune_dot_def)
  have padded: "list_all handle_char ?padded" "3 \<le> length ?padded" "length ?padded \<le> 32"
    using seed dot by (auto simp: list_all_iff)
  show ?thesis
  proof (cases "validate_handle ?padded")
    case (Inr u)
    then have "valid_handle ?padded" by (simp only: validate_handle_decides)
    then show ?thesis using Inr padded(3) by (simp add: discord_handle_seed_def Let_def)
  next
    case (Inl e)
    then show ?thesis
      using user_digits_valid [OF padded(1,2)] creator_valid
      by (simp add: discord_handle_seed_def Let_def)
  qed
qed

section \<open>The candidates\<close>

definition digits_number :: "string \<Rightarrow> nat" where
  "digits_number ds = foldl (\<lambda>n c. n * 10 + (byte c - 48)) 0 ds"

lemma byte_of_digit: "n < 10 \<Longrightarrow> byte (digit n) = 48 + n"
  by (simp add: byte_def digit_def)

lemma decimal_number:
  "digits_number (decimal n) = n \<and> list_all (\<lambda>c. rune_digit (byte c)) (decimal n)"
proof (induction n rule: decimal.induct)
  case (1 n)
  show ?case
  proof (cases "n < 10")
    case True
    then show ?thesis
      by (subst (1 2) decimal.simps) (simp add: digits_number_def byte_of_digit rune_digit_def)
  next
    case False
    with 1 show ?thesis
      by (subst (1 2) decimal.simps) (simp add: digits_number_def byte_of_digit rune_digit_def)
  qed
qed

lemma length_decimal: "\<lbrakk>n < 10 ^ k; 0 < k\<rbrakk> \<Longrightarrow> length (decimal n) \<le> k"
proof (induction k arbitrary: n)
  case (Suc k)
  show ?case
  proof (cases "n < 10")
    case True
    then show ?thesis by (subst decimal.simps) simp
  next
    case False
    then have "k \<noteq> 0" using Suc.prems by (cases k) auto
    moreover have "n div 10 < 10 ^ k" using Suc.prems by auto
    ultimately have "length (decimal (n div 10)) \<le> k" using Suc.IH by simp
    then show ?thesis using False by (subst decimal.simps) simp
  qed
qed simp

lemma ending_unique:
  assumes "xs @ ''.'' @ decimal m = ys @ ''.'' @ decimal n"
  shows "m = n"
proof -
  have no_dot: "CHR ''.'' \<notin> set (decimal k)" for k
    using decimal_number [of k] by (auto simp: list_all_iff rune_digit_def byte_def)
  have tail: "takeWhile (\<lambda>c. c \<noteq> CHR ''.'') (rev (zs @ ''.'' @ decimal k)) = rev (decimal k)" for zs k
    using no_dot [of k] by (auto simp: takeWhile_append)
  have "rev (decimal m) = rev (decimal n)" using assms tail by metis
  then show ?thesis using decimal_number by (metis rev_is_rev_conv)
qed

lemma later_candidate:
  assumes "1 < k"
  shows "\<exists>xs. handle_candidate seed k = xs @ ''.'' @ decimal k"
proof -
  have "handle_candidate seed k
      = take (min (length seed) (32 - length (''.'' @ decimal k))) seed @ ''.'' @ decimal k"
    using assms unfolding handle_candidate_def Let_def by (rule if_P)
  then show ?thesis ..
qed

lemma candidates_differ:
  assumes "handle_candidate seed m = handle_candidate seed n" "1 < m" "1 < n"
  shows "m = n"
  using assms later_candidate ending_unique by metis

lemma candidate_valid:
  assumes "valid_handle seed" "length (decimal k) \<le> 31"
  shows "valid_handle (handle_candidate seed k)"
proof (cases "1 < k")
  case True
  have digits: "list_all (\<lambda>c. rune_digit (byte c)) (decimal k)" using decimal_number [of k] by simp
  obtain d ds where d: "decimal k = d # ds" by (cases "decimal k") simp_all
  let ?t = "take (min (length seed) (31 - length (decimal k))) seed"
  have len: "3 \<le> length ?t + 1 + length (decimal k)" if "3 \<le> length seed"
    using that d by auto
  have seed: "3 \<le> length seed" "list_all handle_char seed" using assms(1) by (auto simp: valid_handle_def)
  show ?thesis
    using True digits d seed assms(2) len list_all_take [OF seed(2)]
    by (auto simp: handle_candidate_def Let_def valid_handle_def handle_char_def handle_rune_def
        rune_dot_def list_all_iff rune_digit_def byte_def)
qed (use assms in \<open>simp add: handle_candidate_def\<close>)

section \<open>A free one is found\<close>

lemma free_handle_from:
  assumes "\<not> taken (handle_candidate seed k)" "k < 10 ^ 31" "j \<le> k"
    and "\<And>i. \<lbrakk>j \<le> i; i < k\<rbrakk> \<Longrightarrow> taken (handle_candidate seed i)"
  shows "free_handle taken seed j = Some (handle_candidate seed k)"
  using assms(3,4)
proof (induction "k - j" arbitrary: j)
  case 0
  then have "j = k" by simp
  moreover have "length (decimal k) \<le> 31" using length_decimal [OF assms(2)] by simp
  ultimately show ?case using assms(1) by (subst free_handle.simps) simp
next
  case (Suc d)
  then have "j < k" by simp
  then have "length (decimal j) \<le> 31" using length_decimal [of j 31] assms(2) by simp
  moreover have "free_handle taken seed (Suc j) = Some (handle_candidate seed k)"
    using Suc.hyps \<open>j < k\<close> Suc.prems(2) by simp
  moreover have "taken (handle_candidate seed j)" using Suc.prems \<open>j < k\<close> by simp
  ultimately show ?case by (subst free_handle.simps) simp
qed

lemma untaken_candidate:
  assumes "finite {h. taken h}"
  shows "\<exists>k. 1 \<le> k \<and> k \<le> card {h. taken h} + 2 \<and> \<not> taken (handle_candidate seed k)"
proof (rule ccontr)
  let ?n = "card {h. taken h}"
  let ?later = "handle_candidate seed ` {2..?n + 2}"
  assume "\<nexists>k. 1 \<le> k \<and> k \<le> ?n + 2 \<and> \<not> taken (handle_candidate seed k)"
  then have "?later \<subseteq> {h. taken h}" by auto
  then have "card ?later \<le> ?n" using assms card_mono by blast
  moreover have "inj_on (handle_candidate seed) {2..?n + 2}"
    by (rule inj_onI) (use candidates_differ in auto)
  then have "card ?later = ?n + 1" by (simp add: card_image)
  ultimately show False by simp
qed

lemma discord_handle_found:
  assumes "finite {h. taken h}" "card {h. taken h} < 2 ^ 62"
  shows "\<exists>k. available_discord_handle env taken username
        = Some (handle_candidate (discord_handle_seed env username) k) \<and>
      1 \<le> k \<and> k \<le> card {h. taken h} + 2 \<and>
      valid_handle (handle_candidate (discord_handle_seed env username) k) \<and>
      \<not> taken (handle_candidate (discord_handle_seed env username) k) \<and>
      (\<forall>j. 1 \<le> j \<and> j < k \<longrightarrow> taken (handle_candidate (discord_handle_seed env username) j))"
proof -
  let ?c = "handle_candidate (discord_handle_seed env username)"
  let ?free = "\<lambda>k. 1 \<le> k \<and> \<not> taken (?c k)"
  obtain m where m: "1 \<le> m" "m \<le> card {h. taken h} + 2" "\<not> taken (?c m)"
    using untaken_candidate [OF assms(1)] by blast
  define k where "k = (LEAST k. ?free k)"
  have free: "?free k" unfolding k_def by (rule LeastI [of ?free m]) (use m in blast)
  have first: "taken (?c j)" if "1 \<le> j" "j < k" for j
    using not_less_Least [of j ?free] that unfolding k_def by blast
  have bound: "k \<le> card {h. taken h} + 2"
    using Least_le [of ?free m] m unfolding k_def by simp
  then have small: "k < 10 ^ 31" using assms(2) by simp
  have "available_discord_handle env taken username = Some (?c k)"
    unfolding available_discord_handle_def
    by (rule free_handle_from) (use free small first in auto)
  moreover have "valid_handle (?c k)"
    by (rule candidate_valid [OF discord_handle_seed_valid]) (use length_decimal [OF small] in simp)
  ultimately show ?thesis using free first bound by blast
qed

lemma free_handle_free:
  assumes "free_handle taken seed k = Some h"
  shows "\<not> taken h"
  using free_handle.raw_induct [of "\<lambda>taken seed k h. \<not> taken h", OF _ assms]
  by (metis (mono_tags, lifting) option.distinct(1) option.inject)

end
