(* ===== verification/AccountStore.thy ===== *)
theory AccountStore
  imports AccountHandles
begin

text \<open>
  The tables of accounts and their statements (\<^verbatim>\<open>db/queries.sql.go\<close>, the constraints of the
  migrations 9 to 12, 16, 18 and 36). A statement that breaks a constraint changes nothing and
  says whether it was one of uniqueness. Hashes have the 32 bytes SHA-256 gives, so the
  constraint on their length is not repeated here; nothing deletes an account.
\<close>

section \<open>Tables\<close>

datatype user_role = RoleUser | RoleModerator | RoleAdmin
datatype nsfw_visibility = NSFWHidden | NSFWBlurred | NSFWShown
datatype email_source = CreatorSource | DiscordSource
datatype discord_intent = DiscordSignIn | DiscordAttach

record user_row =
  usr_id :: uuid
  usr_name :: string
  usr_email :: "string option"
  usr_password :: "string option"
  usr_verified :: "int option"
  usr_source :: "email_source option"
  usr_role :: user_role
  usr_visibility :: nsfw_visibility
  usr_shows_nsfw :: bool
  usr_display :: string
  usr_avatar :: string
  usr_banner :: string

record session_row =
  ses_hash :: string
  ses_user :: uuid
  ses_expires :: int

record verification_row =
  ver_hash :: string
  ver_user :: uuid
  ver_email :: string
  ver_expires :: int

record reset_row =
  rst_hash :: string
  rst_user :: uuid
  rst_expires :: int

record identity_row =
  idn_user :: uuid
  idn_subject :: string
  idn_email :: "string option"

record state_row =
  sta_hash :: string
  sta_intent :: discord_intent
  sta_user :: "uuid option"
  sta_expires :: int

text \<open>What was handed to the mail sender: the address, the page the link opens and its token.\<close>

datatype mail_page = VerifyPage | ResetPage

record mail =
  mai_address :: string
  mai_page :: mail_page
  mai_link :: string

record account_db =
  adb_users :: "user_row list"
  adb_retired :: "string list"
  adb_sessions :: "session_row list"
  adb_verifications :: "verification_row list"
  adb_resets :: "reset_row list"
  adb_identities :: "identity_row list"
  adb_states :: "state_row list"
  adb_mails :: "mail list"

section \<open>Constraints\<close>

datatype 'a written = Written 'a | Collides | Breaks

text \<open>Since migration 36 a handle of digits only passes the table's check.\<close>

definition stored_handle :: "string \<Rightarrow> bool" where
  "stored_handle h \<longleftrightarrow>
     3 \<le> length h \<and> length h \<le> 32 \<and> list_all handle_char h \<and>
     \<not> list_all (\<lambda>c. rune_dot (byte c)) h"

definition email_shape :: "user_row \<Rightarrow> bool" where
  "email_shape u \<longleftrightarrow>
     (usr_email u = None \<and> usr_source u = None \<and> usr_verified u = None) \<or>
     (usr_email u \<noteq> None \<and> usr_source u \<noteq> None)"

definition lower_stored :: "account_env \<Rightarrow> string option \<Rightarrow> bool" where
  "lower_stored env e \<longleftrightarrow> (case e of None \<Rightarrow> True | Some s \<Rightarrow> s = aen_db_lower env s)"

definition user_checks :: "account_env \<Rightarrow> user_row \<Rightarrow> bool" where
  "user_checks env u \<longleftrightarrow> stored_handle (usr_name u) \<and> email_shape u \<and> lower_stored env (usr_email u)"

definition verified_emails :: "user_row list \<Rightarrow> string option list" where
  "verified_emails us = map usr_email (filter (\<lambda>u. usr_verified u \<noteq> None \<and> usr_email u \<noteq> None) us)"

definition users_unique :: "user_row list \<Rightarrow> bool" where
  "users_unique us \<longleftrightarrow>
     distinct (map usr_id us) \<and> distinct (map usr_name us) \<and> distinct (verified_emails us)"

definition write_users :: "account_env \<Rightarrow> user_row list \<Rightarrow> account_db \<Rightarrow> account_db written" where
  "write_users env us db =
     (if \<not> list_all (user_checks env) us then Breaks
      else if \<not> users_unique us then Collides
      else Written (db\<lparr>adb_users := us\<rparr>))"

definition user_known :: "uuid \<Rightarrow> account_db \<Rightarrow> bool" where
  "user_known i db \<longleftrightarrow> list_ex (\<lambda>u. usr_id u = i) (adb_users db)"

definition committed :: "'a written \<Rightarrow> account_error + 'a" where
  "committed w = (case w of Written db \<Rightarrow> Inr db | _ \<Rightarrow> Inl AccountFailed)"

section \<open>Handles and accounts\<close>

definition handle_unavailable :: "string \<Rightarrow> account_db \<Rightarrow> bool" where
  "handle_unavailable h db \<longleftrightarrow>
     list_ex (\<lambda>u. usr_name u = h) (adb_users db) \<or> h \<in> set (adb_retired db)"

definition verified_with :: "string \<Rightarrow> user_row \<Rightarrow> bool" where
  "verified_with email u \<longleftrightarrow> usr_email u = Some email \<and> usr_verified u \<noteq> None"

definition verified_email_exists :: "string \<Rightarrow> account_db \<Rightarrow> bool" where
  "verified_email_exists email db \<longleftrightarrow> list_ex (verified_with email) (adb_users db)"

definition discord_linked :: "account_db \<Rightarrow> uuid \<Rightarrow> bool" where
  "discord_linked db i \<longleftrightarrow> list_ex (\<lambda>d. idn_user d = i) (adb_identities db)"

definition verified_email_belongs_to_discord :: "string \<Rightarrow> account_db \<Rightarrow> bool" where
  "verified_email_belongs_to_discord email db \<longleftrightarrow>
     list_ex (\<lambda>u. verified_with email u \<and> discord_linked db (usr_id u)) (adb_users db)"

definition new_user :: "uuid \<Rightarrow> string \<Rightarrow> user_row" where
  "new_user i h =
     \<lparr>usr_id = i, usr_name = h, usr_email = None, usr_password = None, usr_verified = None,
      usr_source = None, usr_role = RoleUser, usr_visibility = NSFWBlurred, usr_shows_nsfw = False,
      usr_display = [], usr_avatar = [], usr_banner = []\<rparr>"

definition insert_user ::
  "account_env \<Rightarrow> uuid \<Rightarrow> string \<Rightarrow> string \<Rightarrow> string \<Rightarrow> account_db \<Rightarrow> account_db written" where
  "insert_user env i h email password db =
     write_users env
       (adb_users db @ [(new_user i h)\<lparr>usr_email := Some email, usr_password := Some password,
                                        usr_source := Some CreatorSource\<rparr>]) db"

definition insert_retired_handle :: "string \<Rightarrow> account_db \<Rightarrow> account_db written" where
  "insert_retired_handle h db =
     (if h \<in> set (adb_retired db) then Collides
      else if \<not> stored_handle h then Breaks
      else Written (db\<lparr>adb_retired := adb_retired db @ [h]\<rparr>))"

definition update_user_handle :: "account_env \<Rightarrow> uuid \<Rightarrow> string \<Rightarrow> account_db \<Rightarrow> account_db written" where
  "update_user_handle env i h db =
     write_users env (update_where (\<lambda>u. usr_id u = i) (\<lambda>u. u\<lparr>usr_name := h\<rparr>) (adb_users db)) db"

definition profile_by_handle :: "string \<Rightarrow> account_db \<Rightarrow> user_row option" where
  "profile_by_handle h db = find (\<lambda>u. usr_name u = h) (adb_users db)"

definition user_by_id :: "uuid \<Rightarrow> account_db \<Rightarrow> user_row option" where
  "user_by_id i db = find (\<lambda>u. usr_id u = i) (adb_users db)"

section \<open>Sessions\<close>

definition insert_session :: "string \<Rightarrow> uuid \<Rightarrow> int \<Rightarrow> account_db \<Rightarrow> account_db written" where
  "insert_session h i expires db =
     (if list_ex (\<lambda>s. ses_hash s = h) (adb_sessions db) then Collides
      else if \<not> user_known i db then Breaks
      else Written (db\<lparr>adb_sessions :=
             adb_sessions db @ [\<lparr>ses_hash = h, ses_user = i, ses_expires = expires\<rparr>]\<rparr>))"

definition live_session :: "clocks \<Rightarrow> string \<Rightarrow> session_row \<Rightarrow> bool" where
  "live_session clk h s \<longleftrightarrow> ses_hash s = h \<and> clk_db clk < ses_expires s"

definition user_by_session :: "clocks \<Rightarrow> string \<Rightarrow> account_db \<Rightarrow> user_row option" where
  "user_by_session clk h db =
     (case find (live_session clk h) (adb_sessions db) of
        None \<Rightarrow> None
      | Some s \<Rightarrow> user_by_id (ses_user s) db)"

definition set_visibility_by_session ::
  "clocks \<Rightarrow> nsfw_visibility \<Rightarrow> string \<Rightarrow> account_db \<Rightarrow> account_db \<times> nat" where
  "set_visibility_by_session clk v h db =
     (let hit = (\<lambda>u. list_ex (\<lambda>s. live_session clk h s \<and> ses_user s = usr_id u) (adb_sessions db))
      in (db\<lparr>adb_users := update_where hit (\<lambda>u. u\<lparr>usr_visibility := v\<rparr>) (adb_users db)\<rparr>,
          length (filter hit (adb_users db))))"

definition delete_session :: "string \<Rightarrow> account_db \<Rightarrow> account_db" where
  "delete_session h db = db\<lparr>adb_sessions := filter (\<lambda>s. ses_hash s \<noteq> h) (adb_sessions db)\<rparr>"

section \<open>Verifying an address\<close>

definition insert_verification ::
  "string \<Rightarrow> uuid \<Rightarrow> string \<Rightarrow> int \<Rightarrow> account_db \<Rightarrow> account_db written" where
  "insert_verification h i email expires db =
     (if list_ex (\<lambda>v. ver_hash v = h \<or> ver_user v = i) (adb_verifications db) then Collides
      else if \<not> user_known i db then Breaks
      else Written (db\<lparr>adb_verifications := adb_verifications db @
             [\<lparr>ver_hash = h, ver_user = i, ver_email = email, ver_expires = expires\<rparr>]\<rparr>))"

definition verification_by_hash :: "clocks \<Rightarrow> string \<Rightarrow> account_db \<Rightarrow> verification_row option" where
  "verification_by_hash clk h db =
     find (\<lambda>v. ver_hash v = h \<and> clk_db clk < ver_expires v) (adb_verifications db)"

definition verification_email_by_hash :: "clocks \<Rightarrow> string \<Rightarrow> account_db \<Rightarrow> string option" where
  "verification_email_by_hash clk h db = map_option ver_email (verification_by_hash clk h db)"

text \<open>\<^verbatim>\<open>VerifyUserEmail\<close>: no row, a collision of verified addresses, or the account\<close>

definition awaits_email :: "uuid \<Rightarrow> string \<Rightarrow> user_row \<Rightarrow> bool" where
  "awaits_email i email u \<longleftrightarrow> usr_id u = i \<and> usr_email u = Some email \<and> usr_verified u = None"

definition verify_user_email ::
  "account_env \<Rightarrow> clocks \<Rightarrow> uuid \<Rightarrow> string \<Rightarrow> account_db \<Rightarrow> (account_db \<times> user_row) written option" where
  "verify_user_email env clk i email db =
     (case find (awaits_email i email) (adb_users db) of
        None \<Rightarrow> None
      | Some u \<Rightarrow>
          (let verify = (\<lambda>u. u\<lparr>usr_verified := Some (clk_db clk)\<rparr>)
           in Some (case write_users env (update_where (awaits_email i email) verify (adb_users db)) db of
                Written db' \<Rightarrow> Written (db', verify u) | Collides \<Rightarrow> Collides | Breaks \<Rightarrow> Breaks)))"

definition clear_pending_email_copies ::
  "account_env \<Rightarrow> string \<Rightarrow> uuid \<Rightarrow> account_db \<Rightarrow> account_db written" where
  "clear_pending_email_copies env email i db =
     write_users env
       (update_where (\<lambda>u. usr_email u = Some email \<and> usr_id u \<noteq> i \<and> usr_verified u = None)
          (\<lambda>u. u\<lparr>usr_email := None, usr_source := None\<rparr>) (adb_users db)) db"

definition delete_verifications_for_email :: "string \<Rightarrow> account_db \<Rightarrow> account_db" where
  "delete_verifications_for_email email db =
     db\<lparr>adb_verifications := filter (\<lambda>v. ver_email v \<noteq> email) (adb_verifications db)\<rparr>"

definition delete_verifications_for_user :: "uuid \<Rightarrow> account_db \<Rightarrow> account_db" where
  "delete_verifications_for_user i db =
     db\<lparr>adb_verifications := filter (\<lambda>v. ver_user v \<noteq> i) (adb_verifications db)\<rparr>"

definition update_unverified_email ::
  "account_env \<Rightarrow> uuid \<Rightarrow> string \<Rightarrow> account_db \<Rightarrow> (account_db \<times> user_row) written option" where
  "update_unverified_email env i email db =
     (let open = (\<lambda>u. usr_id u = i \<and> usr_verified u = None);
          change = (\<lambda>u. u\<lparr>usr_email := Some email, usr_source := Some CreatorSource\<rparr>)
      in case find open (adb_users db) of
           None \<Rightarrow> None
         | Some u \<Rightarrow>
             Some (case write_users env (update_where open change (adb_users db)) db of
                Written db' \<Rightarrow> Written (db', change u) | Collides \<Rightarrow> Collides | Breaks \<Rightarrow> Breaks))"

section \<open>Passwords\<close>

definition users_for_sign_in :: "string \<Rightarrow> account_db \<Rightarrow> user_row list" where
  "users_for_sign_in email db =
     filter (\<lambda>u. usr_email u = Some email \<and> usr_password u \<noteq> None) (adb_users db)"

definition set_first_password ::
  "uuid \<Rightarrow> string \<Rightarrow> account_db \<Rightarrow> (account_db \<times> user_row) option" where
  "set_first_password i password db =
     (let bare = (\<lambda>u. usr_id u = i \<and> usr_password u = None);
          change = (\<lambda>u. u\<lparr>usr_password := Some password\<rparr>)
      in case find bare (adb_users db) of
           None \<Rightarrow> None
         | Some u \<Rightarrow> Some (db\<lparr>adb_users := update_where bare change (adb_users db)\<rparr>, change u))"

definition replace_password :: "uuid \<Rightarrow> string \<Rightarrow> account_db \<Rightarrow> account_db" where
  "replace_password i password db =
     db\<lparr>adb_users := update_where (\<lambda>u. usr_id u = i) (\<lambda>u. u\<lparr>usr_password := Some password\<rparr>)
          (adb_users db)\<rparr>"

definition verified_user_by_email :: "string \<Rightarrow> account_db \<Rightarrow> uuid option" where
  "verified_user_by_email email db = map_option usr_id (find (verified_with email) (adb_users db))"

definition delete_reset_for_user :: "uuid \<Rightarrow> account_db \<Rightarrow> account_db" where
  "delete_reset_for_user i db = db\<lparr>adb_resets := filter (\<lambda>r. rst_user r \<noteq> i) (adb_resets db)\<rparr>"

definition insert_reset :: "string \<Rightarrow> uuid \<Rightarrow> int \<Rightarrow> account_db \<Rightarrow> account_db written" where
  "insert_reset h i expires db =
     (if list_ex (\<lambda>r. rst_hash r = h \<or> rst_user r = i) (adb_resets db) then Collides
      else if \<not> user_known i db then Breaks
      else Written (db\<lparr>adb_resets :=
             adb_resets db @ [\<lparr>rst_hash = h, rst_user = i, rst_expires = expires\<rparr>]\<rparr>))"

definition take_reset :: "clocks \<Rightarrow> string \<Rightarrow> account_db \<Rightarrow> (account_db \<times> uuid) option" where
  "take_reset clk h db =
     (let hit = (\<lambda>r. rst_hash r = h \<and> clk_db clk < rst_expires r)
      in case find hit (adb_resets db) of
           None \<Rightarrow> None
         | Some r \<Rightarrow> Some (db\<lparr>adb_resets := filter (\<lambda>r. \<not> hit r) (adb_resets db)\<rparr>, rst_user r))"

section \<open>Discord\<close>

text \<open>A state of the attach flow names its account, one of the sign-in flow none.\<close>

definition insert_oauth_state ::
  "string \<Rightarrow> discord_intent \<Rightarrow> uuid option \<Rightarrow> int \<Rightarrow> account_db \<Rightarrow> account_db written" where
  "insert_oauth_state h intent user expires db =
     (if (intent = DiscordAttach) \<noteq> (user \<noteq> None) then Breaks
      else if list_ex (\<lambda>s. sta_hash s = h) (adb_states db) then Collides
      else if (case user of None \<Rightarrow> False | Some i \<Rightarrow> \<not> user_known i db) then Breaks
      else Written (db\<lparr>adb_states := adb_states db @
             [\<lparr>sta_hash = h, sta_intent = intent, sta_user = user, sta_expires = expires\<rparr>]\<rparr>))"

definition take_oauth_state :: "clocks \<Rightarrow> string \<Rightarrow> account_db \<Rightarrow> (account_db \<times> state_row) option" where
  "take_oauth_state clk h db =
     (let hit = (\<lambda>s. sta_hash s = h \<and> clk_db clk < sta_expires s)
      in case find hit (adb_states db) of
           None \<Rightarrow> None
         | Some s \<Rightarrow> Some (db\<lparr>adb_states := filter (\<lambda>s. \<not> hit s) (adb_states db)\<rparr>, s))"

definition user_by_identity :: "string \<Rightarrow> account_db \<Rightarrow> user_row option" where
  "user_by_identity subject db =
     (case find (\<lambda>d. idn_subject d = subject) (adb_identities db) of
        None \<Rightarrow> None
      | Some d \<Rightarrow> user_by_id (idn_user d) db)"

definition insert_discord_user ::
  "account_env \<Rightarrow> uuid \<Rightarrow> string \<Rightarrow> string option \<Rightarrow> int option \<Rightarrow> string \<times> string \<times> string \<Rightarrow>
     account_db \<Rightarrow> account_db written" where
  "insert_discord_user env i h email verified shown db =
     (case shown of (display, avatar, banner) \<Rightarrow>
        write_users env
          (adb_users db @ [(new_user i h)\<lparr>usr_email := email, usr_verified := verified,
             usr_source := (case email of None \<Rightarrow> None | Some e \<Rightarrow> Some DiscordSource),
             usr_display := display, usr_avatar := avatar, usr_banner := banner\<rparr>]) db)"

definition insert_identity ::
  "account_env \<Rightarrow> uuid \<Rightarrow> string \<Rightarrow> string option \<Rightarrow> account_db \<Rightarrow> account_db written" where
  "insert_identity env i subject email db =
     (if \<not> lower_stored env email then Breaks
      else if list_ex (\<lambda>d. idn_subject d = subject) (adb_identities db) then Collides
      else if \<not> user_known i db then Breaks
      else Written (db\<lparr>adb_identities := adb_identities db @
             [\<lparr>idn_user = i, idn_subject = subject, idn_email = email\<rparr>]\<rparr>))"

definition update_discord_email ::
  "account_env \<Rightarrow> clocks \<Rightarrow> uuid \<Rightarrow> string \<Rightarrow> account_db \<Rightarrow> (account_db \<times> user_row) written option" where
  "update_discord_email env clk i email db =
     (let open = (\<lambda>u. usr_id u = i \<and> (usr_email u = None \<or> usr_source u = Some DiscordSource));
          change = (\<lambda>u. u\<lparr>usr_email := Some email, usr_verified := Some (clk_db clk),
                          usr_source := Some DiscordSource\<rparr>)
      in case find open (adb_users db) of
           None \<Rightarrow> None
         | Some u \<Rightarrow>
             Some (case write_users env (update_where open change (adb_users db)) db of
                Written db' \<Rightarrow> Written (db', change u) | Collides \<Rightarrow> Collides | Breaks \<Rightarrow> Breaks))"

definition update_identity_email ::
  "account_env \<Rightarrow> string \<Rightarrow> string \<Rightarrow> account_db \<Rightarrow> account_db written" where
  "update_identity_email env subject email db =
     (if list_ex (\<lambda>d. idn_subject d = subject) (adb_identities db) \<and> \<not> lower_stored env (Some email)
      then Breaks
      else Written (db\<lparr>adb_identities := update_where (\<lambda>d. idn_subject d = subject)
             (\<lambda>d. d\<lparr>idn_email := Some email\<rparr>) (adb_identities db)\<rparr>))"

definition update_discord_profile ::
  "uuid \<Rightarrow> string \<times> string \<times> string \<Rightarrow> account_db \<Rightarrow> account_db" where
  "update_discord_profile i shown db =
     (case shown of (display, avatar, banner) \<Rightarrow>
        db\<lparr>adb_users := update_where (\<lambda>u. usr_id u = i)
             (\<lambda>u. u\<lparr>usr_display := display, usr_avatar := avatar, usr_banner := banner\<rparr>)
             (adb_users db)\<rparr>)"

text \<open>The order of the subjects is that in which their locks are taken.\<close>

definition discord_subjects_for_user :: "uuid \<Rightarrow> account_db \<Rightarrow> string list" where
  "discord_subjects_for_user i db =
     map idn_subject (filter (\<lambda>d. idn_user d = i) (adb_identities db))"

definition delete_identities_for_user :: "uuid \<Rightarrow> account_db \<Rightarrow> account_db" where
  "delete_identities_for_user i db =
     db\<lparr>adb_identities := filter (\<lambda>d. idn_user d \<noteq> i) (adb_identities db)\<rparr>"

end
