(* ===== verification/AccountService.thy ===== *)
theory AccountService
  imports AccountStore LinkService
begin

text \<open>
  The account service: \<^verbatim>\<open>account/service.go\<close> and \<^verbatim>\<open>account/discord.go\<close>. An operation is given what
  it may draw (the clocks, random bytes, an identifier, bcrypt's salt, whether the mail sender
  takes a message) and the tables, and gives the tables it commits with its answer, or its
  refusal, after which the tables are as they were. The advisory locks the operations take on a
  handle, an address or an identity make them one step each and are not modelled.
\<close>

section \<open>Answers\<close>

record account_draws =
  drw_clock :: clocks
  drw_bytes :: byte_source
  drw_ids :: uuid_source
  drw_salt :: string
  drw_sent :: bool

record account_answer =
  acn_id :: uuid
  acn_handle :: string
  acn_email :: "string option"
  acn_verified :: bool
  acn_discord :: bool
  acn_password :: bool
  acn_role :: user_role

record session_answer =
  san_account :: account_answer
  san_token :: string
  san_expires :: int

record sign_up_input =
  sup_email :: string
  sup_password :: string
  sup_handle :: string

record profile_answer =
  prf_id :: uuid
  prf_handle :: string
  prf_shows_nsfw :: bool

type_synonym 'a account_result = "account_error + account_db \<times> 'a"

definition verification_lifetime :: int where "verification_lifetime = seconds (24 * 3600)"
definition password_reset_lifetime :: int where "password_reset_lifetime = seconds 3600"
definition session_lifetime :: int where "session_lifetime = seconds (30 * 24 * 3600)"
definition oauth_state_lifetime :: int where "oauth_state_lifetime = seconds (10 * 60)"

text \<open>\<^verbatim>\<open>accountFrom\<close>: a record that names no role is a user's.\<close>

definition account_from :: "user_row \<Rightarrow> bool \<Rightarrow> bool \<Rightarrow> user_role option \<Rightarrow> account_answer" where
  "account_from u has_password linked r =
     \<lparr>acn_id = usr_id u, acn_handle = usr_name u, acn_email = usr_email u,
      acn_verified = (usr_verified u \<noteq> None), acn_discord = linked, acn_password = has_password,
      acn_role = (case r of None \<Rightarrow> RoleUser | Some r \<Rightarrow> r)\<rparr>"

definition has_password :: "user_row \<Rightarrow> bool" where
  "has_password u \<longleftrightarrow> usr_password u \<noteq> None"

definition profile_from :: "user_row \<Rightarrow> profile_answer" where
  "profile_from u = \<lparr>prf_id = usr_id u, prf_handle = usr_name u, prf_shows_nsfw = usr_shows_nsfw u\<rparr>"

text \<open>\<^verbatim>\<open>NewService\<close> keeps the address of the site without the slashes at its end.\<close>

definition kept_site :: "string \<Rightarrow> string" where
  "kept_site url = rev (dropWhile (\<lambda>c. c = CHR ''/'') (rev url))"

definition page_path :: "mail_page \<Rightarrow> string" where
  "page_path p = (case p of VerifyPage \<Rightarrow> ''/verify-email?token='' | ResetPage \<Rightarrow> ''/reset-password?token='')"

definition send_mail ::
  "account_env \<Rightarrow> account_draws \<Rightarrow> string \<Rightarrow> mail_page \<Rightarrow> string \<Rightarrow> account_db \<Rightarrow>
     account_error + account_db" where
  "send_mail env drw address page token db =
     (if drw_sent drw
      then Inr (db\<lparr>adb_mails := adb_mails db @
             [\<lparr>mai_address = address, mai_page = page,
               mai_link = aen_site env @ page_path page @ query_escape token\<rparr>]\<rparr>)
      else Inl AccountFailed)"

section \<open>Signing up and in\<close>

definition sign_up ::
  "account_env \<Rightarrow> account_draws \<Rightarrow> sign_up_input \<Rightarrow> account_db \<Rightarrow> session_answer account_result" where
  "sign_up env drw inp db =
     and_then (normalize_email env (sup_email inp)) (\<lambda>email.
     and_then (validate_handle (sup_handle inp)) (\<lambda>_.
     and_then (ensure (sup_password inp \<noteq> []) (FieldError ''password'' ''Enter a password.'')) (\<lambda>_.
     and_then (or_refuse AccountFailed
         (aen_bcrypt env (drw_salt drw) (password_material env (sup_password inp)))) (\<lambda>password.
     let ((verification, verification_hash), src) = new_token env (drw_bytes drw);
         ((session, session_hash), src') = new_token env src;
         now = clk_app (drw_clock drw);
         expires = now + session_lifetime;
         user = drawn (drw_ids drw) in
     and_then (ensure (\<not> handle_unavailable (sup_handle inp) db) HandleTaken) (\<lambda>_.
     and_then (ensure (\<not> verified_email_exists email db)
         (if verified_email_belongs_to_discord email db then EmailBelongsDiscord
          else EmailUnavailable)) (\<lambda>_.
     and_then (committed (insert_user env user (sup_handle inp) email password db)) (\<lambda>db.
     and_then (committed (insert_verification verification_hash user email
         (now + verification_lifetime) db)) (\<lambda>db.
     and_then (committed (insert_session session_hash user expires db)) (\<lambda>db.
     and_then (send_mail env drw email VerifyPage verification db) (\<lambda>db.
     Inr (db, \<lparr>san_account = account_from ((new_user user (sup_handle inp))\<lparr>usr_email := Some email\<rparr>)
                              True False None,
               san_token = session, san_expires = expires\<rparr>)))))))))))"

definition known_account :: "account_db \<Rightarrow> user_row \<Rightarrow> account_answer" where
  "known_account db u =
     account_from u (has_password u) (discord_linked db (usr_id u)) (Some (usr_role u))"

definition current :: "account_env \<Rightarrow> clocks \<Rightarrow> string \<Rightarrow> account_db \<Rightarrow> account_answer option" where
  "current env clk token db =
     (case token_hash env token of
        None \<Rightarrow> None
      | Some h \<Rightarrow> map_option (known_account db) (user_by_session clk h db))"

definition nsfw_visibility_of ::
  "account_env \<Rightarrow> clocks \<Rightarrow> string \<Rightarrow> account_db \<Rightarrow> nsfw_visibility" where
  "nsfw_visibility_of env clk token db =
     (case token_hash env token of
        None \<Rightarrow> NSFWBlurred
      | Some h \<Rightarrow>
          (case user_by_session clk h db of None \<Rightarrow> NSFWBlurred | Some u \<Rightarrow> usr_visibility u))"

text \<open>A visibility the request spells wrong is \<open>None\<close>.\<close>

definition set_nsfw_visibility ::
  "account_env \<Rightarrow> clocks \<Rightarrow> string \<Rightarrow> nsfw_visibility option \<Rightarrow> account_db \<Rightarrow> unit account_result" where
  "set_nsfw_visibility env clk token visibility db =
     and_then (or_refuse (FieldError ''visibility'' ''Choose hidden, blurred or shown.'') visibility) (\<lambda>v.
     and_then (or_refuse NotSignedIn (token_hash env token)) (\<lambda>h.
     let (db', changed) = set_visibility_by_session clk v h db
     in if changed = 0 then Inl NotSignedIn else Inr (db', ())))"

definition sign_in ::
  "account_env \<Rightarrow> account_draws \<Rightarrow> string \<Rightarrow> string \<Rightarrow> account_db \<Rightarrow> session_answer account_result" where
  "sign_in env drw email password db =
     (case normalize_email env email of
        Inl e \<Rightarrow> Inl CredentialsWrong
      | Inr normalized \<Rightarrow>
          (case filter (\<lambda>u. aen_matches env (the (usr_password u)) (password_material env password))
                  (users_for_sign_in normalized db) of
             [u] \<Rightarrow>
               (let ((token, h), src) = new_token env (drw_bytes drw);
                    expires = clk_app (drw_clock drw) + session_lifetime in
                and_then (committed (insert_session h (usr_id u) expires db)) (\<lambda>db.
                Inr (db, \<lparr>san_account = account_from u True (discord_linked db (usr_id u)) (Some (usr_role u)),
                          san_token = token, san_expires = expires\<rparr>)))
           | _ \<Rightarrow> Inl CredentialsWrong))"

definition sign_out :: "account_env \<Rightarrow> string \<Rightarrow> account_db \<Rightarrow> unit account_result" where
  "sign_out env token db =
     (case token_hash env token of
        None \<Rightarrow> Inr (db, ())
      | Some h \<Rightarrow> Inr (delete_session h db, ()))"

section \<open>The address of an account\<close>

definition verify_email ::
  "account_env \<Rightarrow> clocks \<Rightarrow> string \<Rightarrow> account_db \<Rightarrow> account_answer account_result" where
  "verify_email env clk token db =
     and_then (or_refuse VerificationInvalid (token_hash env token)) (\<lambda>h.
     and_then (or_refuse VerificationInvalid (verification_email_by_hash clk h db)) (\<lambda>email.
     and_then (or_refuse VerificationInvalid (verification_by_hash clk h db)) (\<lambda>v.
     and_then (ensure (ver_email v = email) VerificationInvalid) (\<lambda>_.
     case verify_user_email env clk (ver_user v) (ver_email v) db of
       None \<Rightarrow> Inl VerificationInvalid
     | Some Collides \<Rightarrow> Inl EmailUnavailable
     | Some Breaks \<Rightarrow> Inl AccountFailed
     | Some (Written (db1, u)) \<Rightarrow>
         and_then (committed (clear_pending_email_copies env (ver_email v) (ver_user v) db1)) (\<lambda>db2.
         Inr (delete_verifications_for_email (ver_email v) db2,
              account_from u (has_password u) (discord_linked db1 (usr_id u)) None))))))"

definition change_unverified_email ::
  "account_env \<Rightarrow> account_draws \<Rightarrow> string \<Rightarrow> string \<Rightarrow> account_db \<Rightarrow> account_answer account_result" where
  "change_unverified_email env drw token raw db =
     and_then (normalize_email env raw) (\<lambda>email.
     and_then (or_refuse NotSignedIn (token_hash env token)) (\<lambda>h.
     let ((verification, verification_hash), src) = new_token env (drw_bytes drw) in
     and_then (or_refuse NotSignedIn (user_by_session (drw_clock drw) h db)) (\<lambda>u.
     and_then (ensure (usr_verified u = None) EmailVerified) (\<lambda>_.
     and_then (ensure (\<not> verified_email_exists email db) EmailUnavailable) (\<lambda>_.
     case update_unverified_email env (usr_id u) email db of
       None \<Rightarrow> Inl EmailVerified
     | Some w \<Rightarrow>
         and_then (committed w) (\<lambda>(db1, updated).
         and_then (committed (insert_verification verification_hash (usr_id u) email
             (clk_app (drw_clock drw) + verification_lifetime)
             (delete_verifications_for_user (usr_id u) db1))) (\<lambda>db2.
         and_then (send_mail env drw email VerifyPage verification db2) (\<lambda>db3.
         Inr (db3, account_from updated (has_password u) (discord_linked db (usr_id u))
                     (Some (usr_role u)))))))))))"

section \<open>Handles\<close>

definition rename_handle ::
  "account_env \<Rightarrow> clocks \<Rightarrow> string \<Rightarrow> string \<Rightarrow> account_db \<Rightarrow> account_answer account_result" where
  "rename_handle env clk token handle db =
     and_then (validate_handle handle) (\<lambda>_.
     and_then (or_refuse NotSignedIn (token_hash env token)) (\<lambda>h.
     and_then (or_refuse NotSignedIn (user_by_session clk h db)) (\<lambda>u.
     and_then (ensure (usr_verified u \<noteq> None) EmailUnverified) (\<lambda>_.
     and_then (or_refuse AccountFailed (map_option usr_name (user_by_id (usr_id u) db))) (\<lambda>old.
     if old = handle then Inr (db, known_account db (u\<lparr>usr_name := old\<rparr>))
     else
       and_then (ensure (\<not> handle_unavailable handle db) HandleTaken) (\<lambda>_.
       and_then (committed (insert_retired_handle old db)) (\<lambda>db1.
       and_then (committed (update_user_handle env (usr_id u) handle db1)) (\<lambda>db2.
       and_then (or_refuse AccountFailed (user_by_id (usr_id u) db2)) (\<lambda>updated.
       Inr (db2, account_from updated (has_password u) (discord_linked db (usr_id u))
                   (Some (usr_role u))))))))))))"

definition profile :: "string \<Rightarrow> account_db \<Rightarrow> account_error + profile_answer" where
  "profile handle db =
     or_refuse ProfileNotFound (map_option profile_from (profile_by_handle handle db))"

definition profile_by_discord_subject :: "string \<Rightarrow> account_db \<Rightarrow> account_error + profile_answer" where
  "profile_by_discord_subject subject db =
     or_refuse ProfileNotFound (map_option profile_from (user_by_identity subject db))"

section \<open>Passwords\<close>

definition set_password ::
  "account_env \<Rightarrow> account_draws \<Rightarrow> string \<Rightarrow> string \<Rightarrow> account_db \<Rightarrow> account_answer account_result" where
  "set_password env drw token password db =
     and_then (ensure (password \<noteq> []) (FieldError ''password'' ''Enter a password.'')) (\<lambda>_.
     and_then (or_refuse NotSignedIn (token_hash env token)) (\<lambda>h.
     and_then (or_refuse NotSignedIn (user_by_session (drw_clock drw) h db)) (\<lambda>u.
     and_then (or_refuse AccountFailed
         (aen_bcrypt env (drw_salt drw) (password_material env password))) (\<lambda>hash.
     and_then (or_refuse PasswordAlreadySet (set_first_password (usr_id u) hash db)) (\<lambda>(db', updated).
     Inr (db', account_from updated True (discord_linked db (usr_id u)) (Some (usr_role u))))))))"

definition request_password_reset ::
  "account_env \<Rightarrow> account_draws \<Rightarrow> string \<Rightarrow> account_db \<Rightarrow> unit account_result" where
  "request_password_reset env drw raw db =
     (case normalize_email env raw of
        Inl e \<Rightarrow> Inr (db, ())
      | Inr email \<Rightarrow>
          (case verified_user_by_email email db of
             None \<Rightarrow> Inr (db, ())
           | Some i \<Rightarrow>
               (let ((token, h), src) = new_token env (drw_bytes drw) in
                and_then (committed (insert_reset h i
                    (clk_app (drw_clock drw) + password_reset_lifetime)
                    (delete_reset_for_user i db))) (\<lambda>db1.
                and_then (send_mail env drw email ResetPage token db1) (\<lambda>db2.
                Inr (db2, ()))))))"

definition complete_password_reset ::
  "account_env \<Rightarrow> account_draws \<Rightarrow> string \<Rightarrow> string \<Rightarrow> account_db \<Rightarrow> unit account_result" where
  "complete_password_reset env drw token password db =
     and_then (ensure (password \<noteq> []) (FieldError ''password'' ''Enter a password.'')) (\<lambda>_.
     and_then (or_refuse PasswordReset (token_hash env token)) (\<lambda>h.
     and_then (or_refuse AccountFailed
         (aen_bcrypt env (drw_salt drw) (password_material env password))) (\<lambda>hash.
     and_then (or_refuse PasswordReset (take_reset (drw_clock drw) h db)) (\<lambda>(db', i).
     Inr (replace_password i hash db', ())))))"

section \<open>Discord\<close>

record discord_profile =
  dpr_subject :: string
  dpr_username :: string
  dpr_display :: string
  dpr_avatar :: string
  dpr_banner :: string
  dpr_email :: string
  dpr_verified :: bool

text \<open>The provider: where its page is for a state, and the profile it gives for a code.\<close>

record discord_provider =
  dsc_url :: "string \<Rightarrow> string"
  dsc_exchange :: "string \<Rightarrow> discord_profile option"

record discord_authorization =
  dau_url :: string
  dau_state :: string
  dau_expires :: int

record discord_completion =
  dcm_account :: account_answer
  dcm_session :: "(string \<times> int) option"

definition begin_discord ::
  "account_env \<Rightarrow> discord_provider option \<Rightarrow> account_draws \<Rightarrow> string \<Rightarrow> discord_intent \<Rightarrow> account_db \<Rightarrow>
     discord_authorization account_result" where
  "begin_discord env provider drw session intent db =
     and_then (or_refuse DiscordUnavailable provider) (\<lambda>discord.
     and_then
       (if intent = DiscordAttach
        then
          and_then (or_refuse NotSignedIn (token_hash env session)) (\<lambda>h.
          and_then (or_refuse NotSignedIn (user_by_session (drw_clock drw) h db)) (\<lambda>u.
          and_then (ensure (usr_verified u \<noteq> None) EmailUnverified) (\<lambda>_.
          Inr (Some (usr_id u)))))
        else Inr None) (\<lambda>user.
     let ((state, h), src) = new_token env (drw_bytes drw);
         expires = clk_app (drw_clock drw) + oauth_state_lifetime in
     and_then (committed (insert_oauth_state h intent user expires db)) (\<lambda>db'.
     Inr (db', \<lparr>dau_url = dsc_url discord state, dau_state = state, dau_expires = expires\<rparr>))))"

definition verified_discord_email :: "account_env \<Rightarrow> discord_profile \<Rightarrow> string option" where
  "verified_discord_email env p =
     (if \<not> dpr_verified p \<or> dpr_email p = [] then None
      else (case normalize_email env (dpr_email p) of Inl e \<Rightarrow> None | Inr email \<Rightarrow> Some email))"

definition shown_profile :: "discord_profile \<Rightarrow> string \<times> string \<times> string" where
  "shown_profile p = (dpr_display p, dpr_avatar p, dpr_banner p)"

text \<open>\<^verbatim>\<open>lockAvailableDiscordEmail\<close> and \<^verbatim>\<open>clearPendingDiscordEmail\<close>\<close>

definition available_discord_email :: "string \<Rightarrow> account_db \<Rightarrow> account_error + unit" where
  "available_discord_email email db = ensure (\<not> verified_email_exists email db) DiscordEmailConflict"

definition clear_pending_discord_email ::
  "account_env \<Rightarrow> string \<Rightarrow> uuid \<Rightarrow> account_db \<Rightarrow> account_error + account_db" where
  "clear_pending_discord_email env email i db =
     and_then (committed (clear_pending_email_copies env email i db)) (\<lambda>db'.
     Inr (delete_verifications_for_email email db'))"

definition may_sync :: "user_row \<Rightarrow> bool" where
  "may_sync u \<longleftrightarrow> usr_email u = None \<or> usr_source u = Some DiscordSource"

definition sync_discord_email ::
  "account_env \<Rightarrow> clocks \<Rightarrow> user_row \<Rightarrow> discord_profile \<Rightarrow> account_db \<Rightarrow> user_row account_result" where
  "sync_discord_email env clk linked p db =
     (case verified_discord_email env p of
        None \<Rightarrow> Inr (db, linked)
      | Some email \<Rightarrow>
          and_then
            (if may_sync linked \<and> usr_email linked \<noteq> Some email
             then
               and_then (available_discord_email email db) (\<lambda>_.
               and_then (or_refuse AccountFailed
                   (update_discord_email env clk (usr_id linked) email db)) (\<lambda>w.
               and_then (committed w) (\<lambda>(db1, updated).
               and_then (clear_pending_discord_email env email (usr_id linked) db1) (\<lambda>db2.
               Inr (db2, linked\<lparr>usr_email := usr_email updated, usr_verified := usr_verified updated,
                                usr_source := usr_source updated\<rparr>)))))
             else Inr (db, linked)) (\<lambda>(db', linked').
          and_then (committed (update_identity_email env (dpr_subject p) email db')) (\<lambda>db''.
          Inr (db'', linked'))))"

definition sync_discord_account ::
  "account_env \<Rightarrow> clocks \<Rightarrow> user_row \<Rightarrow> discord_profile \<Rightarrow> account_db \<Rightarrow> account_answer account_result" where
  "sync_discord_account env clk linked p db =
     and_then (sync_discord_email env clk linked p db) (\<lambda>(db', linked').
     Inr (update_discord_profile (usr_id linked') (shown_profile p) db',
          account_from linked' (has_password linked') True (Some (usr_role linked'))))"

text \<open>The panic of a handle whose ending no longer fits is a failure here; it is never reached.\<close>

definition create_discord_account ::
  "account_env \<Rightarrow> account_draws \<Rightarrow> discord_profile \<Rightarrow> account_db \<Rightarrow>
     (account_answer \<times> uuid) account_result" where
  "create_discord_account env drw p db =
     and_then (or_refuse AccountFailed
         (available_discord_handle env (\<lambda>h. handle_unavailable h db) (dpr_username p))) (\<lambda>handle.
     let email = verified_discord_email env p; user = drawn (drw_ids drw);
         verified = map_option (\<lambda>_. clk_app (drw_clock drw)) email in
     and_then (case email of None \<Rightarrow> Inr () | Some e \<Rightarrow> available_discord_email e db) (\<lambda>_.
     and_then (committed (insert_discord_user env user handle email verified (shown_profile p) db)) (\<lambda>db1.
     and_then (case email of None \<Rightarrow> Inr db1
               | Some e \<Rightarrow> clear_pending_discord_email env e user db1) (\<lambda>db2.
     and_then (committed (insert_identity env user (dpr_subject p) email db2)) (\<lambda>db3.
     Inr (db3, account_from ((new_user user handle)\<lparr>usr_email := email, usr_verified := verified\<rparr>)
                 False True None, user))))))"

definition sign_in_discord ::
  "account_env \<Rightarrow> account_draws \<Rightarrow> discord_profile \<Rightarrow> account_db \<Rightarrow> discord_completion account_result" where
  "sign_in_discord env drw p db =
     and_then
       (case user_by_identity (dpr_subject p) db of
          Some linked \<Rightarrow>
            and_then (sync_discord_account env (drw_clock drw) linked p db) (\<lambda>(db', a).
            Inr (db', a, usr_id linked))
        | None \<Rightarrow> create_discord_account env drw p db) (\<lambda>(db1, a, user).
     let ((token, h), src) = new_token env (drw_bytes drw);
         expires = clk_app (drw_clock drw) + session_lifetime in
     and_then (committed (insert_session h user expires db1)) (\<lambda>db2.
     Inr (db2, \<lparr>dcm_account = a, dcm_session = Some (token, expires)\<rparr>)))"

definition attach_discord ::
  "account_env \<Rightarrow> uuid option \<Rightarrow> discord_profile \<Rightarrow> account_db \<Rightarrow> discord_completion account_result" where
  "attach_discord env user p db =
     and_then (or_refuse DiscordFlow user) (\<lambda>i.
     case user_by_identity (dpr_subject p) db of
       Some linked \<Rightarrow>
         and_then (ensure (usr_id linked = i) DiscordClaimed) (\<lambda>_.
         Inr (db, \<lparr>dcm_account = account_from linked (has_password linked) True (Some (usr_role linked)),
                   dcm_session = None\<rparr>))
     | None \<Rightarrow>
         and_then (or_refuse NotSignedIn (user_by_id i db)) (\<lambda>u.
         and_then (committed (insert_identity env i (dpr_subject p) (verified_discord_email env p) db)) (\<lambda>db'.
         Inr (db', \<lparr>dcm_account = account_from u (has_password u) True (Some (usr_role u)),
                    dcm_session = None\<rparr>))))"

text \<open>
  The state is taken before the provider is asked, and stays taken when the rest is refused. The
  intent goes back to the caller also with a refusal, once it is known.
\<close>

definition complete_discord ::
  "account_env \<Rightarrow> discord_provider option \<Rightarrow> account_draws \<Rightarrow> string \<Rightarrow> string \<Rightarrow> account_db \<Rightarrow>
     account_db \<times> discord_intent option \<times> (account_error + discord_completion)" where
  "complete_discord env provider drw state code db =
     (case provider of
        None \<Rightarrow> (db, None, Inl DiscordUnavailable)
      | Some discord \<Rightarrow>
          (case token_hash env state of
             None \<Rightarrow> (db, None, Inl DiscordFlow)
           | Some h \<Rightarrow>
               if code = [] then (db, None, Inl DiscordFlow)
               else
                 (case take_oauth_state (drw_clock drw) h db of
                    None \<Rightarrow> (db, None, Inl DiscordFlow)
                  | Some (db1, flow) \<Rightarrow>
                      (case (case dsc_exchange discord code of
                               None \<Rightarrow> Inl DiscordFlow
                             | Some p \<Rightarrow>
                                 if dpr_subject p = [] then Inl DiscordFlow
                                 else if sta_intent flow = DiscordAttach
                                   then attach_discord env (sta_user flow) p db1
                                 else sign_in_discord env drw p db1) of
                         Inl e \<Rightarrow> (db1, Some (sta_intent flow), Inl e)
                       | Inr (db2, answer) \<Rightarrow> (db2, Some (sta_intent flow), Inr answer)))))"

definition detach_discord ::
  "account_env \<Rightarrow> clocks \<Rightarrow> string \<Rightarrow> account_db \<Rightarrow> account_answer account_result" where
  "detach_discord env clk session db =
     and_then (or_refuse NotSignedIn (token_hash env session)) (\<lambda>h.
     and_then (or_refuse NotSignedIn (user_by_session clk h db)) (\<lambda>s.
     and_then (ensure (discord_subjects_for_user (usr_id s) db \<noteq> []) DiscordNotLinked) (\<lambda>_.
     and_then (or_refuse AccountFailed (user_by_id (usr_id s) db)) (\<lambda>u.
     and_then (ensure (usr_verified u \<noteq> None \<and> has_password u) LastSignInMethod) (\<lambda>_.
     Inr (delete_identities_for_user (usr_id u) db,
          account_from u (has_password u) False (Some (usr_role u))))))))"

end
