(* ===== verification/AccountTables.thy ===== *)
theory AccountTables
  imports AccountService LinkTables
begin

text \<open>
  The invariant of the tables of accounts and what the statements that write them keep of it:
  nobody else has or awaits a verified address, no handle in use is a retired one, every account
  keeps a password or a Discord identity, and every link, session and identity is an account's.
\<close>

section \<open>The invariant\<close>

definition users_sound :: "account_env \<Rightarrow> user_row list \<Rightarrow> string list \<Rightarrow> bool" where
  "users_sound env us retired \<longleftrightarrow>
     list_all (user_checks env) us \<and> users_unique us \<and> distinct retired \<and>
     (\<forall>u \<in> set us. usr_name u \<notin> set retired \<and>
        (usr_source u = Some DiscordSource \<longrightarrow> usr_verified u \<noteq> None))"

definition exclusive :: "user_row list \<Rightarrow> bool" where
  "exclusive us \<longleftrightarrow>
     (\<forall>u \<in> set us. \<forall>v \<in> set us.
        usr_verified u \<noteq> None \<and> usr_email v = usr_email u \<longrightarrow> usr_id v = usr_id u)"

definition verifications_sound :: "user_row list \<Rightarrow> verification_row list \<Rightarrow> bool" where
  "verifications_sound us vs \<longleftrightarrow>
     distinct (map ver_hash vs) \<and> distinct (map ver_user vs) \<and>
     (\<forall>v \<in> set vs. \<exists>u \<in> set us. awaits_email (ver_user v) (ver_email v) u)"

definition ways_in :: "user_row list \<Rightarrow> identity_row list \<Rightarrow> bool" where
  "ways_in us ids \<longleftrightarrow>
     distinct (map idn_subject ids) \<and>
     (\<forall>u \<in> set us. usr_password u \<noteq> None \<or> usr_id u \<in> idn_user ` set ids)"

definition accounts_known :: "account_db \<Rightarrow> bool" where
  "accounts_known db \<longleftrightarrow>
     ses_user ` set (adb_sessions db) \<union> rst_user ` set (adb_resets db) \<union>
     idn_user ` set (adb_identities db) \<union> {i. Some i \<in> sta_user ` set (adb_states db)}
       \<subseteq> usr_id ` set (adb_users db)"

definition hashes_unique :: "account_db \<Rightarrow> bool" where
  "hashes_unique db \<longleftrightarrow>
     distinct (map ses_hash (adb_sessions db)) \<and> distinct (map rst_hash (adb_resets db)) \<and>
     distinct (map rst_user (adb_resets db)) \<and> distinct (map sta_hash (adb_states db)) \<and>
     (\<forall>s \<in> set (adb_states db). (sta_intent s = DiscordAttach) = (sta_user s \<noteq> None))"

definition accounts_sound :: "account_env \<Rightarrow> account_db \<Rightarrow> bool" where
  "accounts_sound env db \<longleftrightarrow>
     users_sound env (adb_users db) (adb_retired db) \<and> exclusive (adb_users db) \<and>
     verifications_sound (adb_users db) (adb_verifications db) \<and>
     ways_in (adb_users db) (adb_identities db) \<and> accounts_known db \<and> hashes_unique db"

lemma accounts_soundD:
  assumes "accounts_sound env db"
  shows "users_sound env (adb_users db) (adb_retired db)" "exclusive (adb_users db)"
    "verifications_sound (adb_users db) (adb_verifications db)"
    "ways_in (adb_users db) (adb_identities db)" "accounts_known db" "hashes_unique db"
  using assms by (simp_all add: accounts_sound_def)

text \<open>Unfolded, the law of exclusive addresses rewrites in a circle: it is used by these rules.\<close>

lemma exclusiveI:
  assumes "\<And>u v. \<lbrakk>u \<in> set us; v \<in> set us; usr_verified u \<noteq> None; usr_email v = usr_email u\<rbrakk> \<Longrightarrow>
    usr_id v = usr_id u"
  shows "exclusive us"
  unfolding exclusive_def using assms by blast

lemma exclusiveD:
  "\<lbrakk>exclusive us; u \<in> set us; v \<in> set us; usr_verified u \<noteq> None; usr_email v = usr_email u\<rbrakk> \<Longrightarrow>
   usr_id v = usr_id u"
  unfolding exclusive_def by blast

lemma exclusive_snoc:
  assumes "exclusive us" "usr_verified x = None"
    and "\<And>u. \<lbrakk>u \<in> set us; usr_verified u \<noteq> None\<rbrakk> \<Longrightarrow> usr_email u \<noteq> usr_email x"
  shows "exclusive (us @ [x])"
proof (rule exclusiveI)
  fix u v assume uv: "u \<in> set (us @ [x])" "v \<in> set (us @ [x])" "usr_verified u \<noteq> None"
    "usr_email v = usr_email u"
  have u: "u \<in> set us" using uv(1,3) assms(2) by auto
  have "v \<noteq> x" using assms(3) [OF u uv(3)] uv(4) by auto
  then have "v \<in> set us" using uv(2) by simp
  then show "usr_id v = usr_id u" by (rule exclusiveD [OF assms(1) u _ uv(3,4)])
qed

section \<open>What a statement wrote\<close>

lemma write_users_Written:
  "write_users env us db = Written db' \<longleftrightarrow>
     list_all (user_checks env) us \<and> users_unique us \<and> db' = db\<lparr>adb_users := us\<rparr>"
  by (auto simp: write_users_def)

lemma committed_Inr [simp]: "committed w = Inr x \<longleftrightarrow> w = Written x"
  by (cases w) (simp_all add: committed_def)

lemma user_known_iff: "user_known i db \<longleftrightarrow> i \<in> usr_id ` set (adb_users db)"
  by (auto simp: user_known_def list_ex_iff)

lemma insert_session_Written:
  "insert_session h i t db = Written db' \<longleftrightarrow>
     h \<notin> ses_hash ` set (adb_sessions db) \<and> i \<in> usr_id ` set (adb_users db) \<and>
     db' = db\<lparr>adb_sessions := adb_sessions db @ [\<lparr>ses_hash = h, ses_user = i, ses_expires = t\<rparr>]\<rparr>"
  by (auto simp: insert_session_def user_known_iff list_ex_iff)

lemma insert_verification_Written:
  "insert_verification h i e t db = Written db' \<longleftrightarrow>
     h \<notin> ver_hash ` set (adb_verifications db) \<and> i \<notin> ver_user ` set (adb_verifications db) \<and>
     i \<in> usr_id ` set (adb_users db) \<and>
     db' = db\<lparr>adb_verifications := adb_verifications db @
       [\<lparr>ver_hash = h, ver_user = i, ver_email = e, ver_expires = t\<rparr>]\<rparr>"
proof -
  have "list_ex (\<lambda>v. ver_hash v = h \<or> ver_user v = i) (adb_verifications db) \<longleftrightarrow>
      h \<in> ver_hash ` set (adb_verifications db) \<or> i \<in> ver_user ` set (adb_verifications db)"
    by (auto simp: list_ex_iff)
  then show ?thesis by (simp add: insert_verification_def user_known_iff eq_commute)
qed

lemma insert_reset_Written:
  "insert_reset h i t db = Written db' \<longleftrightarrow>
     h \<notin> rst_hash ` set (adb_resets db) \<and> i \<notin> rst_user ` set (adb_resets db) \<and>
     i \<in> usr_id ` set (adb_users db) \<and>
     db' = db\<lparr>adb_resets := adb_resets db @ [\<lparr>rst_hash = h, rst_user = i, rst_expires = t\<rparr>]\<rparr>"
proof -
  have "list_ex (\<lambda>r. rst_hash r = h \<or> rst_user r = i) (adb_resets db) \<longleftrightarrow>
      h \<in> rst_hash ` set (adb_resets db) \<or> i \<in> rst_user ` set (adb_resets db)"
    by (auto simp: list_ex_iff)
  then show ?thesis by (simp add: insert_reset_def user_known_iff eq_commute)
qed

lemma insert_identity_Written:
  "insert_identity env i s e db = Written db' \<longleftrightarrow>
     lower_stored env e \<and> s \<notin> idn_subject ` set (adb_identities db) \<and>
     i \<in> usr_id ` set (adb_users db) \<and>
     db' = db\<lparr>adb_identities := adb_identities db @ [\<lparr>idn_user = i, idn_subject = s, idn_email = e\<rparr>]\<rparr>"
  by (auto simp: insert_identity_def user_known_iff list_ex_iff)

lemma insert_state_Written:
  "insert_oauth_state h intent user t db = Written db' \<longleftrightarrow>
     (intent = DiscordAttach) = (user \<noteq> None) \<and> h \<notin> sta_hash ` set (adb_states db) \<and>
     (\<forall>i. user = Some i \<longrightarrow> i \<in> usr_id ` set (adb_users db)) \<and>
     db' = db\<lparr>adb_states := adb_states db @
       [\<lparr>sta_hash = h, sta_intent = intent, sta_user = user, sta_expires = t\<rparr>]\<rparr>"
  by (cases user) (auto simp: insert_oauth_state_def user_known_iff list_ex_iff)

lemma send_mail_Inr:
  "send_mail env drw a p t db = Inr db' \<longleftrightarrow>
     drw_sent drw \<and>
     db' = db\<lparr>adb_mails := adb_mails db @
       [\<lparr>mai_address = a, mai_page = p, mai_link = aen_site env @ page_path p @ query_escape t\<rparr>]\<rparr>"
  by (auto simp: send_mail_def)

lemma verified_email_exists_iff:
  "verified_email_exists e db \<longleftrightarrow>
     (\<exists>u \<in> set (adb_users db). usr_email u = Some e \<and> usr_verified u \<noteq> None)"
  by (simp add: verified_email_exists_def verified_with_def list_ex_iff)

lemma handle_unavailable_iff:
  "handle_unavailable h db \<longleftrightarrow> h \<in> usr_name ` set (adb_users db) \<or> h \<in> set (adb_retired db)"
  by (auto simp: handle_unavailable_def list_ex_iff)

lemmas statements_written =
  write_users_Written insert_session_Written insert_verification_Written insert_reset_Written
  insert_identity_Written insert_state_Written send_mail_Inr verified_email_exists_iff
  handle_unavailable_iff

lemma same_user:
  assumes "users_unique us" "u \<in> set us" "v \<in> set us" "usr_id u = usr_id v"
  shows "u = v"
  using assms by (auto simp: users_unique_def distinct_map inj_on_def)

lemma user_by_id_Some: "user_by_id i db = Some u \<Longrightarrow> u \<in> set (adb_users db) \<and> usr_id u = i"
  using find_one by (fastforce simp: user_by_id_def)

lemma user_by_session_Some:
  assumes "user_by_session clk h db = Some u"
  shows "u \<in> set (adb_users db)"
  using assms user_by_id_Some by (auto simp: user_by_session_def split: option.split_asm)

section \<open>Rows that change in no column the invariant speaks of\<close>

definition alike :: "user_row \<Rightarrow> user_row \<Rightarrow> bool" where
  "alike u v \<longleftrightarrow>
     usr_id v = usr_id u \<and> usr_name v = usr_name u \<and> usr_email v = usr_email u \<and>
     usr_verified v = usr_verified u \<and> usr_source v = usr_source u \<and>
     (usr_password u \<noteq> None \<longrightarrow> usr_password v \<noteq> None)"

lemma alike_columns:
  assumes "list_all2 alike us vs"
  shows "map usr_id vs = map usr_id us" "map usr_name vs = map usr_name us"
    "verified_emails vs = verified_emails us"
    "list_all (user_checks env) vs = list_all (user_checks env) us"
  using assms
  by (induction rule: list_all2_induct)
    (auto simp: alike_def verified_emails_def user_checks_def email_shape_def)

lemma alike_rows:
  assumes "list_all2 alike us vs"
  shows "v \<in> set vs \<Longrightarrow> \<exists>u \<in> set us. alike u v" "u \<in> set us \<Longrightarrow> \<exists>v \<in> set vs. alike u v"
  using assms by (induction rule: list_all2_induct) auto

lemma alike_update: "(\<And>u. alike u (f u)) \<Longrightarrow> list_all2 alike us (update_where p f us)"
  by (induction us) (auto simp: update_where_def alike_def)

lemma alike_ids: "list_all2 alike us vs \<Longrightarrow> usr_id ` set vs = usr_id ` set us"
  using alike_columns(1) by (metis list.set_map)

lemma alike_kept:
  assumes "accounts_sound env db" "list_all2 alike (adb_users db) us"
  shows "accounts_sound env (db\<lparr>adb_users := us\<rparr>)"
proof -
  note s = accounts_soundD [OF assms(1)]
  note older = alike_rows(1) [OF assms(2)] and newer = alike_rows(2) [OF assms(2)]
  have "users_sound env us (adb_retired db)"
    unfolding users_sound_def
  proof (intro conjI ballI)
    fix v assume "v \<in> set us"
    then obtain u where u: "u \<in> set (adb_users db)" "alike u v" using older by blast
    show "usr_name v \<notin> set (adb_retired db)" "usr_source v = Some DiscordSource \<longrightarrow> usr_verified v \<noteq> None"
      using s(1) u by (simp_all add: users_sound_def alike_def)
  qed (use s(1) alike_columns(1-3) [OF assms(2)] alike_columns(4) [OF assms(2), of env] in
      \<open>simp_all add: users_sound_def users_unique_def\<close>)
  moreover have "exclusive us"
    unfolding exclusive_def
  proof (intro ballI impI)
    fix u v assume uv: "u \<in> set us" "v \<in> set us" "usr_verified u \<noteq> None \<and> usr_email v = usr_email u"
    obtain u' where u: "u' \<in> set (adb_users db)" "alike u' u" using older [OF uv(1)] by blast
    obtain v' where v: "v' \<in> set (adb_users db)" "alike v' v" using older [OF uv(2)] by blast
    have "usr_verified u' \<noteq> None \<and> usr_email v' = usr_email u'"
      using uv(3) u(2) v(2) unfolding alike_def by metis
    then have "usr_id v' = usr_id u'"
      by (rule s(2) [unfolded exclusive_def, rule_format, OF u(1) v(1)])
    then show "usr_id v = usr_id u" using u(2) v(2) by (simp add: alike_def)
  qed
  moreover have "verifications_sound us (adb_verifications db)"
    unfolding verifications_sound_def
  proof (intro conjI ballI)
    fix v assume "v \<in> set (adb_verifications db)"
    then obtain u where "u \<in> set (adb_users db)" "awaits_email (ver_user v) (ver_email v) u"
      using s(3) by (auto simp: verifications_sound_def)
    then show "\<exists>u \<in> set us. awaits_email (ver_user v) (ver_email v) u"
      using newer by (force simp: awaits_email_def alike_def)
  qed (use s(3) in \<open>auto simp: verifications_sound_def\<close>)
  moreover have "ways_in us (adb_identities db)"
    using s(4) older by (fastforce simp: ways_in_def alike_def)
  moreover have "accounts_known (db\<lparr>adb_users := us\<rparr>)"
    using s(5) alike_ids [OF assms(2)] by (simp add: accounts_known_def)
  ultimately show ?thesis using s(6) by (simp add: accounts_sound_def hashes_unique_def)
qed

section \<open>An account that takes an address over\<close>

definition clear_copies :: "string \<Rightarrow> uuid \<Rightarrow> user_row list \<Rightarrow> user_row list" where
  "clear_copies e i us =
     update_where (\<lambda>u. usr_email u = Some e \<and> usr_id u \<noteq> i \<and> usr_verified u = None)
       (\<lambda>u. u\<lparr>usr_email := None, usr_source := None\<rparr>) us"

definition clear :: "string \<Rightarrow> uuid \<Rightarrow> user_row \<Rightarrow> user_row" where
  "clear e i u =
     (if usr_email u = Some e \<and> usr_id u \<noteq> i \<and> usr_verified u = None
      then u\<lparr>usr_email := None, usr_source := None\<rparr> else u)"

lemma clear_pending_email_copies_Written:
  "clear_pending_email_copies env e i db = Written db' \<longleftrightarrow>
     list_all (user_checks env) (clear_copies e i (adb_users db)) \<and>
     users_unique (clear_copies e i (adb_users db)) \<and>
     db' = db\<lparr>adb_users := clear_copies e i (adb_users db)\<rparr>"
  by (simp add: clear_pending_email_copies_def clear_copies_def write_users_Written)

lemma clear_copies_exclusive:
  assumes "\<And>u v. \<lbrakk>u \<in> set us; v \<in> set us; usr_verified u \<noteq> None; usr_email u \<noteq> Some e;
      usr_email u \<noteq> None; usr_email v = usr_email u\<rbrakk> \<Longrightarrow> usr_id v = usr_id u"
    and "\<And>u. \<lbrakk>u \<in> set us; usr_verified u \<noteq> None; usr_email u = Some e\<rbrakk> \<Longrightarrow> usr_id u = i"
    and "list_all (user_checks env) us"
  shows "exclusive (clear_copies e i us)"
proof -
  have shape: "usr_verified u \<noteq> None \<Longrightarrow> usr_email u \<noteq> None" if "u \<in> set us" for u
    using assms(3) that by (auto simp: list_all_iff user_checks_def email_shape_def)
  show ?thesis
    unfolding exclusive_def
  proof (intro ballI impI)
    fix u v assume "u \<in> set (clear_copies e i us)" "v \<in> set (clear_copies e i us)"
      and uv: "usr_verified u \<noteq> None \<and> usr_email v = usr_email u"
    then obtain u' v' where rows: "u' \<in> set us" "u = clear e i u'" "v' \<in> set us" "v = clear e i v'"
      by (auto simp: clear_copies_def update_where_def clear_def)
    have u: "u' = u" using uv rows(2) by (auto simp: clear_def split: if_splits)
    then have some: "usr_email u \<noteq> None" using shape rows(1) uv by blast
    then have v: "v' = v" using uv rows(4) by (auto simp: clear_def split: if_splits)
    show "usr_id v = usr_id u"
    proof (cases "usr_email u = Some e")
      case True
      then have "usr_id u = i" using assms(2) rows(1) u uv by blast
      moreover have "usr_id v = i"
      proof (cases "usr_verified v = None")
        case pending: True
        have "usr_email (clear e i v) = usr_email v" using rows(4) v by metis
        then show ?thesis using pending True uv by (simp add: clear_def split: if_splits)
      next
        case False
        then show ?thesis using assms(2) [of v] rows(3) v True uv by simp
      qed
      ultimately show ?thesis by simp
    next
      case False
      have m: "u \<in> set us" "v \<in> set us" using rows(1,3) u v by metis+
      show ?thesis by (rule assms(1) [OF m conjunct1 [OF uv] False some conjunct2 [OF uv]])
    qed
  qed
qed

lemma clear_copies_tokens:
  assumes "\<forall>v \<in> set vs. ver_email v \<noteq> e \<longrightarrow> (\<exists>u \<in> set us. awaits_email (ver_user v) (ver_email v) u)"
    and "distinct (map ver_hash vs)" "distinct (map ver_user vs)"
  shows "verifications_sound (clear_copies e i us) (filter (\<lambda>v. ver_email v \<noteq> e) vs)"
  using assms
  by (fastforce simp: verifications_sound_def clear_copies_def set_update_where awaits_email_def
      distinct_map_filter)

lemma clear_copies_columns:
  "map usr_id (clear_copies e i us) = map usr_id us"
  "map usr_name (clear_copies e i us) = map usr_name us"
  by (simp_all add: clear_copies_def update_where_def)

section \<open>Rows that change in what the invariant speaks of\<close>

definition follows :: "user_row \<Rightarrow> user_row \<Rightarrow> bool" where
  "follows u v \<longleftrightarrow>
     usr_id v = usr_id u \<and> (usr_password u \<noteq> None \<longrightarrow> usr_password v \<noteq> None) \<and>
     ((usr_source u = Some DiscordSource \<longrightarrow> usr_verified u \<noteq> None) \<longrightarrow>
      usr_source v = Some DiscordSource \<longrightarrow> usr_verified v \<noteq> None)"

lemma follows_update: "(\<And>u. p u \<Longrightarrow> follows u (f u)) \<Longrightarrow> list_all2 follows us (update_where p f us)"
  by (induction us) (auto simp: update_where_def follows_def)

lemma follows_trans:
  "\<lbrakk>list_all2 follows us vs; list_all2 follows vs ws\<rbrakk> \<Longrightarrow> list_all2 follows us ws"
  by (rule list_all2_trans [of follows follows follows]) (auto simp: follows_def)

lemma follows_rows: "\<lbrakk>list_all2 follows us vs; v \<in> set vs\<rbrakk> \<Longrightarrow> \<exists>u \<in> set us. follows u v"
  by (induction rule: list_all2_induct) auto

lemma follows_ids: "list_all2 follows us vs \<Longrightarrow> map usr_id vs = map usr_id us"
  by (induction rule: list_all2_induct) (auto simp: follows_def)

lemma follows_clear: "list_all2 follows us (clear_copies e i us)"
  unfolding clear_copies_def by (rule follows_update) (simp add: follows_def)

lemma users_kept:
  assumes "accounts_sound env db" "list_all2 follows (adb_users db) us"
    and "list_all (user_checks env) us" "users_unique us"
    and "exclusive us" "verifications_sound us vs"
    and "distinct ret" "\<And>v. v \<in> set us \<Longrightarrow> usr_name v \<notin> set ret"
  shows "accounts_sound env (db\<lparr>adb_users := us, adb_retired := ret, adb_verifications := vs,
    adb_mails := ms\<rparr>)"
proof -
  note s = accounts_soundD [OF assms(1)]
  have ids: "usr_id ` set us = usr_id ` set (adb_users db)"
    using follows_ids [OF assms(2)] by (metis list.set_map)
  have "users_sound env us ret"
    unfolding users_sound_def
  proof (intro conjI ballI)
    fix v assume v: "v \<in> set us"
    then obtain u where "u \<in> set (adb_users db)" "follows u v" using follows_rows [OF assms(2)] by blast
    then show "usr_source v = Some DiscordSource \<longrightarrow> usr_verified v \<noteq> None"
      using s(1) by (auto simp: users_sound_def follows_def)
  qed (use assms(3,4,7,8) in auto)
  moreover have "ways_in us (adb_identities db)"
    unfolding ways_in_def
  proof (intro conjI ballI)
    fix v assume v: "v \<in> set us"
    then obtain u where "u \<in> set (adb_users db)" "follows u v" using follows_rows [OF assms(2)] by blast
    then show "usr_password v \<noteq> None \<or> usr_id v \<in> idn_user ` set (adb_identities db)"
      using s(4) unfolding ways_in_def follows_def by metis
  qed (use s(4) in \<open>auto simp: ways_in_def\<close>)
  ultimately show ?thesis
    using assms(5,6) s(5,6) ids
    by (simp add: accounts_sound_def accounts_known_def hashes_unique_def)
qed

end
