(* ===== verification/AccountRuns.thy ===== *)
theory AccountRuns
  imports AccountTables
begin

text \<open>
  What each operation of the account service writes when it goes through, that it keeps the
  invariant, and runs of the service.
\<close>

section \<open>The tokens an operation draws\<close>

definition raw_token :: "account_draws \<Rightarrow> string" where
  "raw_token drw = next_bytes 32 (drw_bytes drw)"

definition second_token :: "account_draws \<Rightarrow> string" where
  "second_token drw = next_bytes 32 (after_bytes 32 (drw_bytes drw))"

lemma new_token_eq:
  "new_token env src =
     ((base64_encode (next_bytes 32 src), aen_sha256 env (next_bytes 32 src)), after_bytes 32 src)"
  by (simp add: new_token_def Let_def)

lemma token_hash_raw:
  "token_hash env (base64_encode (next_bytes 32 src)) = Some (aen_sha256 env (next_bytes 32 src))"
  by (simp add: token_hash_def next_bytes_def)

section \<open>What the operations write\<close>

definition new_mail :: "account_env \<Rightarrow> string \<Rightarrow> mail_page \<Rightarrow> string \<Rightarrow> mail" where
  "new_mail env address page token =
     \<lparr>mai_address = address, mai_page = page,
      mai_link = aen_site env @ page_path page @ query_escape token\<rparr>"

definition signed_up :: "account_draws \<Rightarrow> sign_up_input \<Rightarrow> string \<Rightarrow> string \<Rightarrow> user_row" where
  "signed_up drw inp email password =
     (new_user (drawn (drw_ids drw)) (sup_handle inp))\<lparr>usr_email := Some email,
        usr_password := Some password, usr_source := Some CreatorSource\<rparr>"

lemma sign_up_Inr:
  assumes "sign_up env drw inp db = Inr (db', s)"
  obtains email password where
    "normalize_email env (sup_email inp) = Inr email" "valid_handle (sup_handle inp)"
    "\<not> handle_unavailable (sup_handle inp) db" "\<not> verified_email_exists email db"
    "list_all (user_checks env) (adb_users db @ [signed_up drw inp email password])"
    "users_unique (adb_users db @ [signed_up drw inp email password])"
    "aen_sha256 env (raw_token drw) \<notin> ver_hash ` set (adb_verifications db)"
    "drawn (drw_ids drw) \<notin> ver_user ` set (adb_verifications db)"
    "aen_sha256 env (second_token drw) \<notin> ses_hash ` set (adb_sessions db)"
    "db' = db\<lparr>adb_users := adb_users db @ [signed_up drw inp email password],
        adb_verifications := adb_verifications db @
          [\<lparr>ver_hash = aen_sha256 env (raw_token drw), ver_user = drawn (drw_ids drw),
            ver_email = email, ver_expires = clk_app (drw_clock drw) + verification_lifetime\<rparr>],
        adb_sessions := adb_sessions db @
          [\<lparr>ses_hash = aen_sha256 env (second_token drw), ses_user = drawn (drw_ids drw),
            ses_expires = clk_app (drw_clock drw) + session_lifetime\<rparr>],
        adb_mails := adb_mails db @ [new_mail env email VerifyPage (base64_encode (raw_token drw))]\<rparr>"
    "aen_bcrypt env (drw_salt drw) (password_material env (sup_password inp)) = Some password"
    "sup_password inp \<noteq> []" "san_token s = base64_encode (second_token drw)"
  using assms
  by (auto simp: sign_up_def and_then_Inr new_token_eq Let_def insert_user_def write_users_Written
      insert_verification_Written insert_session_Written send_mail_Inr validate_handle_decides
      signed_up_def raw_token_def second_token_def new_mail_def)

lemma sign_up_kept:
  assumes "sign_up env drw inp db = Inr (db', s)" "accounts_sound env db"
  shows "accounts_sound env db'"
  using assms(1)
proof (cases rule: sign_up_Inr)
  case (1 email password)
  let ?u = "signed_up drw inp email password"
  note s = accounts_soundD [OF assms(2)]
  have row: "usr_id ?u = drawn (drw_ids drw)" "usr_name ?u = sup_handle inp" "usr_email ?u = Some email"
      "usr_verified ?u = None" "usr_password ?u \<noteq> None" "usr_source ?u = Some CreatorSource"
    by (simp_all add: signed_up_def new_user_def)
  have free: "usr_email u \<noteq> Some email" if "u \<in> set (adb_users db)" "usr_verified u \<noteq> None" for u
    using 1(4) that by (auto simp: verified_email_exists_iff)
  have "users_sound env (adb_users db @ [?u]) (adb_retired db)"
    using s(1) 1(3,5,6) row by (auto simp: users_sound_def handle_unavailable_iff)
  moreover have "exclusive (adb_users db @ [?u])"
    by (rule exclusive_snoc [OF s(2) row(4)]) (use free row(3) in simp)
  moreover have "verifications_sound (adb_users db @ [?u]) (adb_verifications db')"
    using s(3) 1(7,8) row by (auto simp: 1(10) verifications_sound_def awaits_email_def)
  moreover have "ways_in (adb_users db @ [?u]) (adb_identities db)"
    using s(4) row by (auto simp: ways_in_def)
  moreover have "accounts_known db'" using s(5) row by (auto simp: 1(10) accounts_known_def)
  moreover have "hashes_unique db'" using s(6) 1(9) by (auto simp: 1(10) hashes_unique_def)
  ultimately show ?thesis by (simp add: accounts_sound_def 1(10))
qed

lemma set_nsfw_visibility_kept:
  assumes "set_nsfw_visibility env clk token v db = Inr (db', u)" "accounts_sound env db"
  shows "accounts_sound env db'"
proof -
  obtain p f where "db' = db\<lparr>adb_users := update_where p f (adb_users db)\<rparr>" "\<And>u. alike u (f u)"
    using assms(1)
    by (fastforce simp: set_nsfw_visibility_def and_then_Inr set_visibility_by_session_def Let_def
        alike_def split: if_split_asm)
  then show ?thesis using alike_kept [OF assms(2) alike_update] by simp
qed

lemma session_kept:
  assumes "accounts_sound env db" "insert_session h i t db = Written db'"
  shows "accounts_sound env db'"
  using assms
  by (auto simp: accounts_sound_def insert_session_Written accounts_known_def hashes_unique_def)

lemma sign_in_kept:
  assumes "sign_in env drw email password db = Inr (db', s)" "accounts_sound env db"
  shows "accounts_sound env db'"
  using assms(1) session_kept [OF assms(2)]
  by (auto simp: sign_in_def new_token_eq Let_def and_then_Inr split: sum.split_asm list.split_asm)

lemma filtered_kept:
  assumes "accounts_sound env db"
  shows "accounts_sound env (db\<lparr>adb_sessions := filter p (adb_sessions db),
    adb_resets := filter q (adb_resets db), adb_states := filter r (adb_states db)\<rparr>)"
proof -
  note s = accounts_soundD [OF assms]
  let ?db = "db\<lparr>adb_sessions := filter p (adb_sessions db),
    adb_resets := filter q (adb_resets db), adb_states := filter r (adb_states db)\<rparr>"
  have "accounts_known ?db"
    using s(5) unfolding accounts_known_def by (simp add: subset_iff image_iff) blast
  moreover have "hashes_unique ?db" using s(6) by (simp add: hashes_unique_def distinct_map_filter)
  ultimately show ?thesis using s by (simp add: accounts_sound_def)
qed

lemma sign_out_kept:
  assumes "sign_out env token db = Inr (db', u)" "accounts_sound env db"
  shows "accounts_sound env db'"
  using assms(1) filtered_kept [OF assms(2), where p = "\<lambda>s. ses_hash s \<noteq> the (token_hash env token)"
      and q = "\<lambda>_. True" and r = "\<lambda>_. True"]
    assms(2)
  by (auto simp: sign_out_def delete_session_def split: option.split_asm)

section \<open>Verifying and changing an address\<close>

definition verify_rows :: "clocks \<Rightarrow> uuid \<Rightarrow> string \<Rightarrow> user_row list \<Rightarrow> user_row list" where
  "verify_rows clk i e us =
     clear_copies e i (update_where (awaits_email i e) (\<lambda>u. u\<lparr>usr_verified := Some (clk_db clk)\<rparr>) us)"

definition live_verification :: "clocks \<Rightarrow> string \<Rightarrow> account_db \<Rightarrow> verification_row \<Rightarrow> bool" where
  "live_verification clk h db v \<longleftrightarrow>
     v \<in> set (adb_verifications db) \<and> ver_hash v = h \<and> clk_db clk < ver_expires v"

lemma verify_email_Inr:
  assumes "verify_email env clk token db = Inr (db', a)"
  obtains h v where "token_hash env token = Some h" "live_verification clk h db v"
    "list_all (user_checks env) (verify_rows clk (ver_user v) (ver_email v) (adb_users db))"
    "users_unique (verify_rows clk (ver_user v) (ver_email v) (adb_users db))"
    "db' = db\<lparr>adb_users := verify_rows clk (ver_user v) (ver_email v) (adb_users db),
        adb_verifications := filter (\<lambda>w. ver_email w \<noteq> ver_email v) (adb_verifications db)\<rparr>"
  using assms
  by (auto simp: verify_email_def and_then_Inr verify_user_email_def verification_by_hash_def
      live_verification_def verify_rows_def clear_pending_email_copies_Written write_users_Written
      delete_verifications_for_email_def Let_def
      split: option.split_asm written.split_asm dest!: find_one)

lemma verify_rows_exclusive:
  assumes "accounts_sound env db" "v \<in> set (adb_verifications db)"
    and "list_all (user_checks env) (verify_rows clk (ver_user v) (ver_email v) (adb_users db))"
  shows "exclusive (verify_rows clk (ver_user v) (ver_email v) (adb_users db))"
proof -
  note s = accounts_soundD [OF assms(1)]
  let ?i = "ver_user v" and ?e = "ver_email v"
  let ?us = "update_where (awaits_email ?i ?e) (\<lambda>u. u\<lparr>usr_verified := Some (clk_db clk)\<rparr>) (adb_users db)"
  obtain w where w: "w \<in> set (adb_users db)" "awaits_email ?i ?e w"
    using s(3) assms(2) by (auto simp: verifications_sound_def)
  have other: "u \<in> set (adb_users db)" if "u \<in> set ?us" "usr_email u \<noteq> Some ?e" for u
    using that by (auto simp: set_update_where awaits_email_def)
  have same: "usr_id u = ?i" if "u \<in> set ?us" "usr_verified u \<noteq> None" "usr_email u = Some ?e" for u
  proof (cases "u \<in> set (adb_users db)")
    case True
    then show ?thesis using exclusiveD [OF s(2) True w(1) that(2)] w(2) that(3) by (simp add: awaits_email_def)
  next
    case False
    then show ?thesis using that(1) by (auto simp: set_update_where awaits_email_def)
  qed
  have shaped: "list_all (user_checks env) ?us"
    using s(1) by (auto simp: users_sound_def list_all_iff set_update_where user_checks_def
        email_shape_def awaits_email_def)
  show ?thesis
    unfolding verify_rows_def
  proof (rule clear_copies_exclusive [OF _ same shaped])
    fix u v assume "u \<in> set ?us" "v \<in> set ?us" "usr_verified u \<noteq> None" "usr_email u \<noteq> Some ?e"
      "usr_email u \<noteq> None" "usr_email v = usr_email u"
    then show "usr_id v = usr_id u" using exclusiveD [OF s(2)] other by metis
  qed
qed

lemma verify_email_kept:
  assumes "verify_email env clk token db = Inr (db', a)" "accounts_sound env db"
  shows "accounts_sound env db'"
  using assms(1)
proof (cases rule: verify_email_Inr)
  case (1 h v)
  note s = accounts_soundD [OF assms(2)]
  let ?us = "verify_rows clk (ver_user v) (ver_email v) (adb_users db)"
  let ?vs = "filter (\<lambda>w. ver_email w \<noteq> ver_email v) (adb_verifications db)"
  have v: "v \<in> set (adb_verifications db)" using 1(2) by (simp add: live_verification_def)
  have rows: "list_all2 follows (adb_users db) ?us"
    unfolding verify_rows_def
    by (rule follows_trans [OF follows_update follows_clear]) (simp add: follows_def)
  have names: "usr_name u \<notin> set (adb_retired db)" if "u \<in> set ?us" for u
    using that s(1) by (auto simp: verify_rows_def clear_copies_def set_update_where users_sound_def)
  have links: "verifications_sound ?us ?vs"
    unfolding verify_rows_def
  proof (rule clear_copies_tokens)
    show "\<forall>w \<in> set (adb_verifications db). ver_email w \<noteq> ver_email v \<longrightarrow>
        (\<exists>u \<in> set (update_where (awaits_email (ver_user v) (ver_email v))
          (\<lambda>u. u\<lparr>usr_verified := Some (clk_db clk)\<rparr>) (adb_users db)).
            awaits_email (ver_user w) (ver_email w) u)"
      using s(3) by (fastforce simp: verifications_sound_def set_update_where awaits_email_def)
  qed (use s(3) in \<open>simp_all add: verifications_sound_def\<close>)
  have "distinct (adb_retired db)" using s(1) by (simp add: users_sound_def)
  from users_kept [OF assms(2) rows 1(3,4) verify_rows_exclusive [OF assms(2) v 1(3)] links this names,
      of "adb_mails db"]
  show ?thesis by (simp add: 1(5))
qed

definition readdressed :: "uuid \<Rightarrow> string \<Rightarrow> user_row list \<Rightarrow> user_row list" where
  "readdressed i e us =
     update_where (\<lambda>u. usr_id u = i \<and> usr_verified u = None)
       (\<lambda>u. u\<lparr>usr_email := Some e, usr_source := Some CreatorSource\<rparr>) us"

lemma change_unverified_email_Inr:
  assumes "change_unverified_email env drw token raw db = Inr (db', a)"
  obtains h email u where "token_hash env token = Some h" "normalize_email env raw = Inr email"
    "user_by_session (drw_clock drw) h db = Some u" "usr_verified u = None"
    "\<not> verified_email_exists email db"
    "list_all (user_checks env) (readdressed (usr_id u) email (adb_users db))"
    "users_unique (readdressed (usr_id u) email (adb_users db))"
    "aen_sha256 env (raw_token drw)
       \<notin> ver_hash ` set (filter (\<lambda>v. ver_user v \<noteq> usr_id u) (adb_verifications db))"
    "db' = db\<lparr>adb_users := readdressed (usr_id u) email (adb_users db),
        adb_verifications := filter (\<lambda>v. ver_user v \<noteq> usr_id u) (adb_verifications db) @
          [\<lparr>ver_hash = aen_sha256 env (raw_token drw), ver_user = usr_id u, ver_email = email,
            ver_expires = clk_app (drw_clock drw) + verification_lifetime\<rparr>],
        adb_mails := adb_mails db @ [new_mail env email VerifyPage (base64_encode (raw_token drw))]\<rparr>"
  using assms
  by (auto simp: change_unverified_email_def and_then_Inr new_token_eq Let_def readdressed_def
      update_unverified_email_def write_users_Written delete_verifications_for_user_def
      insert_verification_Written send_mail_Inr raw_token_def new_mail_def
      split: option.split_asm written.split_asm)

lemma change_unverified_email_kept:
  assumes "change_unverified_email env drw token raw db = Inr (db', a)" "accounts_sound env db"
  shows "accounts_sound env db'"
  using assms(1)
proof (cases rule: change_unverified_email_Inr)
  case (1 h email u)
  note s = accounts_soundD [OF assms(2)]
  let ?us = "readdressed (usr_id u) email (adb_users db)"
  have u: "u \<in> set (adb_users db)" using user_by_session_Some [OF 1(3)] .
  have unique: "users_unique (adb_users db)" using s(1) by (simp add: users_sound_def)
  have old: "w \<in> set (adb_users db)" if "w \<in> set ?us" "usr_verified w \<noteq> None" for w
    using that by (auto simp: readdressed_def set_update_where)
  have free: "usr_email w \<noteq> Some email" if "w \<in> set (adb_users db)" "usr_verified w \<noteq> None" for w
    using 1(5) that by (auto simp: verified_email_exists_iff)
  have rows: "list_all2 follows (adb_users db) ?us"
    unfolding readdressed_def by (rule follows_update) (simp add: follows_def)
  have exclusive: "exclusive ?us"
  proof (rule exclusiveI)
    fix w x assume wx: "w \<in> set ?us" "x \<in> set ?us" "usr_verified w \<noteq> None" "usr_email x = usr_email w"
    have w: "w \<in> set (adb_users db)" using old wx(1,3) .
    then have "usr_email x \<noteq> Some email" using free wx(3,4) by metis
    then have "x \<in> set (adb_users db)" using wx(2) by (auto simp: readdressed_def set_update_where)
    then show "usr_id x = usr_id w" by (rule exclusiveD [OF s(2) w _ wx(3,4)])
  qed
  have here: "u\<lparr>usr_email := Some email, usr_source := Some CreatorSource\<rparr> \<in> set ?us"
    using u 1(4) by (auto simp: readdressed_def set_update_where)
  have links: "verifications_sound ?us (adb_verifications db')"
    unfolding verifications_sound_def
  proof (intro conjI ballI)
    fix v assume v: "v \<in> set (adb_verifications db')"
    show "\<exists>w \<in> set ?us. awaits_email (ver_user v) (ver_email v) w"
    proof (cases "v \<in> set (adb_verifications db) \<and> ver_user v \<noteq> usr_id u")
      case True
      then obtain w where "w \<in> set (adb_users db)" "awaits_email (ver_user v) (ver_email v) w"
        using s(3) by (auto simp: verifications_sound_def)
      then show ?thesis using True
        by (auto simp: readdressed_def set_update_where awaits_email_def intro!: bexI [of _ w])
    next
      case False
      then show ?thesis using v 1(4) by (auto simp: 1(9) awaits_email_def intro!: bexI [OF _ here])
    qed
  qed (use s(3) 1(8) in \<open>auto simp: 1(9) verifications_sound_def distinct_map_filter\<close>)
  have "usr_name w \<notin> set (adb_retired db)" if "w \<in> set ?us" for w
    using that s(1) by (auto simp: readdressed_def set_update_where users_sound_def)
  moreover have "distinct (adb_retired db)" using s(1) by (simp add: users_sound_def)
  ultimately show ?thesis
    using users_kept [OF assms(2) rows 1(6,7) exclusive links, of "adb_retired db" "adb_mails db'"]
    by (simp add: 1(9))
qed

section \<open>Renaming\<close>

definition renamed :: "uuid \<Rightarrow> string \<Rightarrow> user_row list \<Rightarrow> user_row list" where
  "renamed i h us = update_where (\<lambda>u. usr_id u = i) (\<lambda>u. u\<lparr>usr_name := h\<rparr>) us"

lemma rename_handle_Inr:
  assumes "rename_handle env clk token handle db = Inr (db', a)"
  obtains h u old where "token_hash env token = Some h" "user_by_session clk h db = Some u"
    "usr_verified u \<noteq> None" "user_by_id (usr_id u) db = Some old" "usr_name old = handle" "db' = db"
  | h u old where "token_hash env token = Some h" "user_by_session clk h db = Some u"
    "usr_verified u \<noteq> None" "user_by_id (usr_id u) db = Some old" "usr_name old \<noteq> handle"
    "\<not> handle_unavailable handle db" "usr_name old \<notin> set (adb_retired db)"
    "list_all (user_checks env) (renamed (usr_id u) handle (adb_users db))"
    "users_unique (renamed (usr_id u) handle (adb_users db))"
    "db' = db\<lparr>adb_users := renamed (usr_id u) handle (adb_users db),
        adb_retired := adb_retired db @ [usr_name old]\<rparr>"
proof -
  obtain h u old where who: "token_hash env token = Some h" "user_by_session clk h db = Some u"
      "usr_verified u \<noteq> None" "user_by_id (usr_id u) db = Some old"
    using assms by (auto simp: rename_handle_def and_then_Inr)
  show thesis
  proof (cases "usr_name old = handle")
    case True
    then have "db' = db" using assms who by (auto simp: rename_handle_def and_then_Inr)
    then show thesis using that(1) who True by blast
  next
    case False
    have "insert_retired_handle (usr_name old) db = Written db1 \<Longrightarrow>
        usr_name old \<notin> set (adb_retired db) \<and> db1 = db\<lparr>adb_retired := adb_retired db @ [usr_name old]\<rparr>" for db1
      by (auto simp: insert_retired_handle_def split: if_split_asm)
    then show thesis
      using assms who False that(2) [OF who False]
      by (auto simp: rename_handle_def and_then_Inr renamed_def update_user_handle_def write_users_Written)
  qed
qed

lemma rename_handle_kept:
  assumes "rename_handle env clk token handle db = Inr (db', a)" "accounts_sound env db"
  shows "accounts_sound env db'"
  using assms(1)
proof (cases rule: rename_handle_Inr)
  case (2 h u old)
  note s = accounts_soundD [OF assms(2)]
  let ?us = "renamed (usr_id u) handle (adb_users db)"
  have u: "old \<in> set (adb_users db)" "usr_id old = usr_id u" using user_by_id_Some [OF 2(4)] by simp_all
  have unique: "users_unique (adb_users db)" using s(1) by (simp add: users_sound_def)
  have rows: "list_all2 follows (adb_users db) ?us"
    unfolding renamed_def by (rule follows_update) (simp add: follows_def)
  have row: "\<exists>w0 \<in> set (adb_users db). usr_id w0 = usr_id w \<and> usr_email w0 = usr_email w \<and>
      usr_verified w0 = usr_verified w" if "w \<in> set ?us" for w
    using that by (auto simp: renamed_def set_update_where)
  have exclusive: "exclusive ?us"
    by (rule exclusiveI) (metis row exclusiveD [OF s(2)])
  have "verifications_sound ?us (adb_verifications db)"
    unfolding verifications_sound_def
  proof (intro conjI ballI)
    fix v assume "v \<in> set (adb_verifications db)"
    then obtain w where "w \<in> set (adb_users db)" "awaits_email (ver_user v) (ver_email v) w"
      using s(3) by (auto simp: verifications_sound_def)
    moreover from this(1) have "(if usr_id w = usr_id u then w\<lparr>usr_name := handle\<rparr> else w) \<in> set ?us"
      by (simp add: renamed_def update_where_def)
    ultimately show "\<exists>w \<in> set ?us. awaits_email (ver_user v) (ver_email v) w"
      by (auto simp: awaits_email_def split: if_split_asm elim!: bexI [rotated])
  qed (use s(3) in \<open>simp_all add: verifications_sound_def\<close>)
  moreover have "usr_name w \<notin> set (adb_retired db @ [usr_name old])" if w: "w \<in> set ?us" for w
  proof (cases "usr_id w = usr_id u")
    case True
    then have "usr_name w = handle" using w by (auto simp: renamed_def set_update_where)
    then show ?thesis using 2(5,6) by (simp add: handle_unavailable_iff)
  next
    case False
    then have w: "w \<in> set (adb_users db)" using w by (auto simp: renamed_def set_update_where)
    then have "usr_name w \<noteq> usr_name old"
      using False u unique by (auto simp: users_unique_def distinct_map inj_on_def)
    then show ?thesis using w s(1) by (simp add: users_sound_def)
  qed
  moreover have "distinct (adb_retired db @ [usr_name old])"
    using s(1) 2(7) by (simp add: users_sound_def)
  ultimately show ?thesis
    using users_kept [OF assms(2) rows 2(8,9) exclusive, of "adb_verifications db" _ "adb_mails db"]
    by (simp add: 2(10))
qed (use assms in simp)

section \<open>Passwords\<close>

lemma set_password_Inr:
  assumes "set_password env drw token password db = Inr (db', a)"
  obtains h u hash where "password \<noteq> []" "token_hash env token = Some h"
    "user_by_session (drw_clock drw) h db = Some u"
    "aen_bcrypt env (drw_salt drw) (password_material env password) = Some hash"
    "db' = db\<lparr>adb_users := update_where (\<lambda>v. usr_id v = usr_id u \<and> usr_password v = None)
        (\<lambda>v. v\<lparr>usr_password := Some hash\<rparr>) (adb_users db)\<rparr>"
  using assms
  by (auto simp: set_password_def and_then_Inr set_first_password_def Let_def split: option.split_asm)

lemma set_password_kept:
  assumes "set_password env drw token password db = Inr (db', a)" "accounts_sound env db"
  shows "accounts_sound env db'"
  using assms(1)
  by (cases rule: set_password_Inr) (auto intro!: alike_kept [OF assms(2)] alike_update simp: alike_def)

lemma request_password_reset_Inr:
  assumes "request_password_reset env drw raw db = Inr (db', u)"
  obtains "db' = db"
  | email i where "normalize_email env raw = Inr email" "verified_user_by_email email db = Some i"
    "drw_sent drw" "aen_sha256 env (raw_token drw)
       \<notin> rst_hash ` set (filter (\<lambda>r. rst_user r \<noteq> i) (adb_resets db))"
    "i \<in> usr_id ` set (adb_users db)"
    "db' = db\<lparr>adb_resets := filter (\<lambda>r. rst_user r \<noteq> i) (adb_resets db) @
          [\<lparr>rst_hash = aen_sha256 env (raw_token drw), rst_user = i,
            rst_expires = clk_app (drw_clock drw) + password_reset_lifetime\<rparr>],
        adb_mails := adb_mails db @ [new_mail env email ResetPage (base64_encode (raw_token drw))]\<rparr>"
proof -
  consider "db' = db" | email i where "normalize_email env raw = Inr email" "verified_user_by_email email db = Some i"
    using assms by (auto simp: request_password_reset_def split: sum.split_asm option.split_asm)
  then show thesis
  proof cases
    case (2 email i)
    then show thesis
      using assms that(2) [OF 2]
      by (auto simp: request_password_reset_def and_then_Inr new_token_eq Let_def
          delete_reset_for_user_def insert_reset_Written send_mail_Inr raw_token_def new_mail_def)
  qed (rule that(1))
qed

lemma request_password_reset_kept:
  assumes "request_password_reset env drw raw db = Inr (db', u)" "accounts_sound env db"
  shows "accounts_sound env db'"
  using assms(1)
proof (cases rule: request_password_reset_Inr)
  case (2 email i)
  note s = accounts_soundD [OF assms(2)]
  have "accounts_known db'"
    using s(5) 2(5) unfolding accounts_known_def by (simp add: 2(6) subset_iff image_iff) blast
  moreover have "hashes_unique db'"
    using s(6) 2(4) by (auto simp: 2(6) hashes_unique_def distinct_map_filter)
  ultimately show ?thesis using s by (simp add: accounts_sound_def 2(6))
qed (use assms in simp)

lemma take_reset_Some:
  assumes "take_reset clk h db = Some (db', i)"
  shows "\<exists>r \<in> set (adb_resets db). rst_hash r = h \<and> clk_db clk < rst_expires r \<and> i = rst_user r \<and>
    db' = db\<lparr>adb_resets := filter (\<lambda>r. \<not> (rst_hash r = h \<and> clk_db clk < rst_expires r)) (adb_resets db)\<rparr>"
proof -
  obtain r where r: "find (\<lambda>r. rst_hash r = h \<and> clk_db clk < rst_expires r) (adb_resets db) = Some r"
      "i = rst_user r" "db' = db\<lparr>adb_resets :=
        filter (\<lambda>r. \<not> (rst_hash r = h \<and> clk_db clk < rst_expires r)) (adb_resets db)\<rparr>"
    using assms by (auto simp: take_reset_def Let_def split: option.split_asm)
  then show ?thesis using find_one [OF r(1)] by blast
qed

lemma complete_password_reset_Inr:
  assumes "complete_password_reset env drw token password db = Inr (db', u)"
  obtains h hash r where "password \<noteq> []" "token_hash env token = Some h"
    "aen_bcrypt env (drw_salt drw) (password_material env password) = Some hash"
    "r \<in> set (adb_resets db)" "rst_hash r = h" "clk_db (drw_clock drw) < rst_expires r"
    "db' = db\<lparr>adb_resets :=
          filter (\<lambda>r. \<not> (rst_hash r = h \<and> clk_db (drw_clock drw) < rst_expires r)) (adb_resets db),
        adb_users := update_where (\<lambda>v. usr_id v = rst_user r) (\<lambda>v. v\<lparr>usr_password := Some hash\<rparr>)
          (adb_users db)\<rparr>"
proof -
  obtain h hash db1 i where got: "password \<noteq> []" "token_hash env token = Some h"
      "aen_bcrypt env (drw_salt drw) (password_material env password) = Some hash"
      "take_reset (drw_clock drw) h db = Some (db1, i)" "db' = replace_password i hash db1"
    using assms by (auto simp: complete_password_reset_def and_then_Inr)
  from take_reset_Some [OF got(4)] obtain r where r: "r \<in> set (adb_resets db)" "rst_hash r = h"
      "clk_db (drw_clock drw) < rst_expires r" "i = rst_user r"
      "db1 = db\<lparr>adb_resets :=
        filter (\<lambda>r. \<not> (rst_hash r = h \<and> clk_db (drw_clock drw) < rst_expires r)) (adb_resets db)\<rparr>"
    by blast
  show thesis by (rule that [OF got(1-3) r(1-3)]) (simp add: got(5) r(4,5) replace_password_def)
qed

lemma complete_password_reset_kept:
  assumes "complete_password_reset env drw token password db = Inr (db', u)" "accounts_sound env db"
  shows "accounts_sound env db'"
  using assms(1)
proof (cases rule: complete_password_reset_Inr)
  case (1 h hash r)
  let ?db = "db\<lparr>adb_resets :=
    filter (\<lambda>r. \<not> (rst_hash r = h \<and> clk_db (drw_clock drw) < rst_expires r)) (adb_resets db)\<rparr>"
  have "accounts_sound env ?db"
    using filtered_kept [OF assms(2), where p = "\<lambda>_. True" and r = "\<lambda>_. True"
        and q = "\<lambda>r. \<not> (rst_hash r = h \<and> clk_db (drw_clock drw) < rst_expires r)"] by simp
  moreover have "list_all2 alike (adb_users db)
      (update_where (\<lambda>v. usr_id v = rst_user r) (\<lambda>v. v\<lparr>usr_password := Some hash\<rparr>) (adb_users db))"
    by (rule alike_update) (simp add: alike_def)
  ultimately show ?thesis using alike_kept by (fastforce simp: 1(7))
qed

section \<open>Discord\<close>

lemma begin_discord_kept:
  assumes "begin_discord env provider drw session intent db = Inr (db', a)" "accounts_sound env db"
  shows "accounts_sound env db'"
proof -
  obtain h user t where w: "insert_oauth_state h intent user t db = Written db'"
    using assms(1) by (auto simp: begin_discord_def and_then_Inr new_token_eq Let_def split: if_split_asm)
  then show ?thesis
    using assms(2) unfolding insert_state_Written
    by (auto simp: accounts_sound_def accounts_known_def hashes_unique_def)
qed

lemma detach_discord_Inr:
  assumes "detach_discord env clk session db = Inr (db', a)"
  obtains h s u where "token_hash env session = Some h" "user_by_session clk h db = Some s"
    "discord_linked db (usr_id s)" "user_by_id (usr_id s) db = Some u"
    "usr_verified u \<noteq> None" "usr_password u \<noteq> None"
    "db' = db\<lparr>adb_identities := filter (\<lambda>d. idn_user d \<noteq> usr_id u) (adb_identities db)\<rparr>"
  using assms
  by (auto simp: detach_discord_def and_then_Inr has_password_def delete_identities_for_user_def
      discord_subjects_for_user_def discord_linked_def list_ex_iff filter_empty_conv)

lemma detach_discord_kept:
  assumes "detach_discord env clk session db = Inr (db', a)" "accounts_sound env db"
  shows "accounts_sound env db'"
  using assms(1)
proof (cases rule: detach_discord_Inr)
  case (1 h s u)
  note inv = accounts_soundD [OF assms(2)]
  have u: "u \<in> set (adb_users db)" using user_by_id_Some [OF 1(4)] by simp
  have unique: "users_unique (adb_users db)" using inv(1) by (simp add: users_sound_def)
  have "ways_in (adb_users db) (adb_identities db')"
    unfolding ways_in_def
  proof (intro conjI ballI)
    fix w assume w: "w \<in> set (adb_users db)"
    show "usr_password w \<noteq> None \<or> usr_id w \<in> idn_user ` set (adb_identities db')"
    proof (cases "usr_id w = usr_id u")
      case True
      then show ?thesis using same_user [OF unique w u] 1(6) by simp
    next
      case False
      then show ?thesis using inv(4) w by (auto simp: ways_in_def 1(7))
    qed
  qed (use inv(4) in \<open>simp add: ways_in_def 1(7) distinct_map_filter\<close>)
  moreover have "accounts_known db'"
    using inv(5) unfolding accounts_known_def by (simp add: 1(7) subset_iff image_iff) blast
  ultimately show ?thesis using inv by (simp add: accounts_sound_def hashes_unique_def 1(7))
qed

end
