(* ===== verification/AccountDiscord.thy ===== *)
theory AccountDiscord
  imports AccountRuns
begin

text \<open>
  The Discord operations keep the invariant of the tables of accounts, and with them every
  operation does: runs of the account service.
\<close>

section \<open>Taking an address over\<close>

lemma taken_over:
  assumes "accounts_sound env db" "\<not> verified_email_exists e db" "list_all (user_checks env) us"
    and "\<And>u. u \<in> set us \<Longrightarrow> u \<in> set (adb_users db) \<or> (usr_id u = i \<and> usr_email u = Some e)"
    and "\<And>v. \<lbrakk>v \<in> set (adb_verifications db); ver_email v \<noteq> e\<rbrakk> \<Longrightarrow>
      \<exists>w \<in> set us. awaits_email (ver_user v) (ver_email v) w"
  shows "exclusive (clear_copies e i us)"
    "verifications_sound (clear_copies e i us)
       (filter (\<lambda>v. ver_email v \<noteq> e) (adb_verifications db))"
proof -
  note s = accounts_soundD [OF assms(1)]
  have free: "usr_email u \<noteq> Some e" if "u \<in> set (adb_users db)" "usr_verified u \<noteq> None" for u
    using assms(2) that by (auto simp: verified_email_exists_iff)
  show "exclusive (clear_copies e i us)"
  proof (rule clear_copies_exclusive [OF _ _ assms(3)])
    fix u v assume uv: "u \<in> set us" "v \<in> set us" "usr_verified u \<noteq> None" "usr_email u \<noteq> Some e"
      "usr_email u \<noteq> None" "usr_email v = usr_email u"
    then have "u \<in> set (adb_users db)" "v \<in> set (adb_users db)" using assms(4) by metis+
    then show "usr_id v = usr_id u" using exclusiveD [OF s(2)] uv(3,6) by blast
  next
    fix u assume "u \<in> set us" "usr_verified u \<noteq> None" "usr_email u = Some e"
    then show "usr_id u = i" using assms(4) free by blast
  qed
  show "verifications_sound (clear_copies e i us)
       (filter (\<lambda>v. ver_email v \<noteq> e) (adb_verifications db))"
    by (rule clear_copies_tokens) (use assms(5) s(3) in \<open>auto simp: verifications_sound_def\<close>)
qed

section \<open>An account signing in with its identity\<close>

definition discord_addressed :: "clocks \<Rightarrow> uuid \<Rightarrow> string \<Rightarrow> user_row list \<Rightarrow> user_row list" where
  "discord_addressed clk i e us =
     update_where (\<lambda>u. usr_id u = i \<and> (usr_email u = None \<or> usr_source u = Some DiscordSource))
       (\<lambda>u. u\<lparr>usr_email := Some e, usr_verified := Some (clk_db clk),
              usr_source := Some DiscordSource\<rparr>) us"

lemma update_discord_email_Some:
  assumes "update_discord_email env clk i e db = Some (Written (db1, u))"
  shows "list_all (user_checks env) (discord_addressed clk i e (adb_users db)) \<and>
    users_unique (discord_addressed clk i e (adb_users db)) \<and>
    db1 = db\<lparr>adb_users := discord_addressed clk i e (adb_users db)\<rparr> \<and>
    usr_id u = i \<and> usr_email u = Some e \<and> usr_verified u = Some (clk_db clk)"
  using assms
  by (auto simp: update_discord_email_def Let_def discord_addressed_def write_users_Written
      split: option.split_asm written.split_asm dest!: find_one)

lemma clear_pending_discord_email_Inr:
  "clear_pending_discord_email env e i db = Inr db' \<longleftrightarrow>
     list_all (user_checks env) (clear_copies e i (adb_users db)) \<and>
     users_unique (clear_copies e i (adb_users db)) \<and>
     db' = db\<lparr>adb_users := clear_copies e i (adb_users db),
       adb_verifications := filter (\<lambda>v. ver_email v \<noteq> e) (adb_verifications db)\<rparr>"
  by (auto simp: clear_pending_discord_email_def and_then_Inr clear_pending_email_copies_Written
      delete_verifications_for_email_def)

lemma discord_addressed_kept:
  assumes "accounts_sound env db" "\<not> verified_email_exists e db"
    and "update_discord_email env clk i e db = Some (Written (db1, u))"
    and "clear_pending_discord_email env e i db1 = Inr db2"
  shows "accounts_sound env db2"
proof -
  note s = accounts_soundD [OF assms(1)]
  let ?us = "discord_addressed clk i e (adb_users db)"
  let ?vs = "filter (\<lambda>v. ver_email v \<noteq> e) (adb_verifications db)"
  have d: "list_all (user_checks env) ?us" "db1 = db\<lparr>adb_users := ?us\<rparr>"
    using update_discord_email_Some [OF assms(3)] by simp_all
  have c: "list_all (user_checks env) (clear_copies e i ?us)" "users_unique (clear_copies e i ?us)"
      "db2 = db\<lparr>adb_users := clear_copies e i ?us, adb_verifications := ?vs\<rparr>"
    using assms(4) by (simp_all add: clear_pending_discord_email_Inr d(2))
  have rows: "list_all2 follows (adb_users db) (clear_copies e i ?us)"
    unfolding discord_addressed_def
    by (rule follows_trans [OF follows_update follows_clear]) (simp add: follows_def)
  have awaiting: "\<exists>w \<in> set ?us. awaits_email (ver_user v) (ver_email v) w"
    if v: "v \<in> set (adb_verifications db)" for v
  proof -
    obtain w where w: "w \<in> set (adb_users db)" "awaits_email (ver_user v) (ver_email v) w"
      using s(3) v by (auto simp: verifications_sound_def)
    then have "usr_source w \<noteq> Some DiscordSource" "usr_email w \<noteq> None"
      using s(1) by (auto simp: users_sound_def awaits_email_def)
    then have "w \<in> set ?us" using w(1) by (simp add: discord_addressed_def set_update_where)
    then show ?thesis using w(2) by blast
  qed
  have origin: "u \<in> set (adb_users db) \<or> (usr_id u = i \<and> usr_email u = Some e)" if "u \<in> set ?us" for u
    using that by (auto simp: discord_addressed_def set_update_where)
  note over = taken_over [OF assms(1,2) d(1) origin awaiting]
  have "usr_name w \<notin> set (adb_retired db)" if "w \<in> set (clear_copies e i ?us)" for w
    using that s(1) by (auto simp: clear_copies_def discord_addressed_def set_update_where users_sound_def)
  moreover have "distinct (adb_retired db)" using s(1) by (simp add: users_sound_def)
  ultimately show ?thesis
    using users_kept [OF assms(1) rows c(1,2) over, of "adb_retired db" "adb_mails db"]
    by (simp add: c(3))
qed

lemma identity_email_kept:
  assumes "accounts_sound env db" "update_identity_email env subject e db = Written db'"
  shows "accounts_sound env db'"
proof -
  have w: "db' = db\<lparr>adb_identities := update_where (\<lambda>d. idn_subject d = subject)
      (\<lambda>d. d\<lparr>idn_email := Some e\<rparr>) (adb_identities db)\<rparr>" (is "_ = db\<lparr>adb_identities := ?ids\<rparr>")
    using assms(2) by (auto simp: update_identity_email_def split: if_split_asm)
  have m: "map idn_subject ?ids = map idn_subject (adb_identities db)"
    "map idn_user ?ids = map idn_user (adb_identities db)"
    by (simp_all add: update_where_def)
  have "idn_user ` set ?ids = idn_user ` set (adb_identities db)" using m(2) by (metis list.set_map)
  then show ?thesis
    using assms(1) m(1) by (simp add: w accounts_sound_def ways_in_def accounts_known_def hashes_unique_def)
qed

lemma sync_discord_email_Inr:
  assumes "sync_discord_email env clk linked p db = Inr (db', u)"
  obtains "db' = db" "u = linked"
  | e where "u = linked" "update_identity_email env (dpr_subject p) e db = Written db'"
  | e db0 w db1 where "\<not> verified_email_exists e db"
    "update_discord_email env clk (usr_id linked) e db = Some (Written (db0, w))"
    "clear_pending_discord_email env e (usr_id linked) db0 = Inr db1"
    "usr_id u = usr_id linked" "update_identity_email env (dpr_subject p) e db1 = Written db'"
proof (cases "verified_discord_email env p")
  case None
  then show thesis using assms that(1) by (simp add: sync_discord_email_def)
next
  case (Some e)
  show thesis
  proof (cases "may_sync linked \<and> usr_email linked \<noteq> Some e")
    case True
    then obtain db0 w db1 where w: "\<not> verified_email_exists e db"
        "update_discord_email env clk (usr_id linked) e db = Some (Written (db0, w))"
        "clear_pending_discord_email env e (usr_id linked) db0 = Inr db1"
        "usr_id u = usr_id linked" "update_identity_email env (dpr_subject p) e db1 = Written db'"
      using assms Some
      by (auto simp: sync_discord_email_def and_then_Inr available_discord_email_def)
    then show thesis by (rule that(3))
  next
    case False
    then have "u = linked" "update_identity_email env (dpr_subject p) e db = Written db'"
      using assms Some by (auto simp: sync_discord_email_def and_then_Inr split: if_split_asm)
    then show thesis by (rule that(2))
  qed
qed

lemma sync_discord_email_kept:
  assumes "sync_discord_email env clk linked p db = Inr (db', u)" "accounts_sound env db"
  shows "accounts_sound env db' \<and> usr_id u = usr_id linked"
  using assms(1)
proof (cases rule: sync_discord_email_Inr)
  case (3 e db0 w db1)
  then show ?thesis using identity_email_kept discord_addressed_kept [OF assms(2)] by blast
qed (use assms(2) identity_email_kept in simp_all)

lemma sync_discord_account_kept:
  assumes "sync_discord_account env clk linked p db = Inr (db', a)" "accounts_sound env db"
  shows "accounts_sound env db'"
proof -
  obtain db1 u where one: "sync_discord_email env clk linked p db = Inr (db1, u)"
      "db' = update_discord_profile (usr_id u) (shown_profile p) db1"
    using assms(1) by (auto simp: sync_discord_account_def and_then_Inr)
  have "accounts_sound env db1" using sync_discord_email_kept [OF one(1) assms(2)] by simp
  then show ?thesis
    unfolding one(2) update_discord_profile_def shown_profile_def split_conv
    by (rule alike_kept) (rule alike_update, simp add: alike_def)
qed

section \<open>A new account\<close>

definition discord_user ::
  "account_draws \<Rightarrow> string \<Rightarrow> string option \<Rightarrow> discord_profile \<Rightarrow> user_row" where
  "discord_user drw h email p =
     (new_user (drawn (drw_ids drw)) h)\<lparr>usr_email := email,
        usr_verified := map_option (\<lambda>_. clk_app (drw_clock drw)) email,
        usr_source := (case email of None \<Rightarrow> None | Some e \<Rightarrow> Some DiscordSource),
        usr_display := dpr_display p, usr_avatar := dpr_avatar p, usr_banner := dpr_banner p\<rparr>"

definition joined_rows :: "uuid \<Rightarrow> string option \<Rightarrow> user_row list \<Rightarrow> user_row list" where
  "joined_rows i email us = (case email of None \<Rightarrow> us | Some e \<Rightarrow> clear_copies e i us)"

definition joined_links :: "string option \<Rightarrow> verification_row list \<Rightarrow> verification_row list" where
  "joined_links email vs = filter (\<lambda>v. email \<noteq> Some (ver_email v)) vs"

lemma create_discord_account_Inr:
  assumes "create_discord_account env drw p db = Inr (db', a, i)"
  obtains h email where
    "available_discord_handle env (\<lambda>h. handle_unavailable h db) (dpr_username p) = Some h"
    "email = verified_discord_email env p" "\<And>e. email = Some e \<Longrightarrow> \<not> verified_email_exists e db"
    "i = drawn (drw_ids drw)" "dpr_subject p \<notin> idn_subject ` set (adb_identities db)"
    "list_all (user_checks env) (adb_users db @ [discord_user drw h email p])"
    "users_unique (adb_users db @ [discord_user drw h email p])"
    "list_all (user_checks env) (joined_rows i email (adb_users db @ [discord_user drw h email p]))"
    "users_unique (joined_rows i email (adb_users db @ [discord_user drw h email p]))"
    "db' = db\<lparr>adb_users := joined_rows i email (adb_users db @ [discord_user drw h email p]),
        adb_verifications := joined_links email (adb_verifications db),
        adb_identities := adb_identities db @
          [\<lparr>idn_user = i, idn_subject = dpr_subject p, idn_email = email\<rparr>]\<rparr>"
proof -
  obtain h where h: "available_discord_handle env (\<lambda>h. handle_unavailable h db) (dpr_username p) = Some h"
    using assms by (auto simp: create_discord_account_def and_then_Inr)
  show thesis
  proof (cases "verified_discord_email env p")
    case None
    have links: "joined_links None vs = vs" for vs by (simp add: joined_links_def)
    show thesis
      by (rule that [of h None])
        (use assms None h in \<open>auto simp: create_discord_account_def and_then_Inr Let_def
          insert_discord_user_def shown_profile_def write_users_Written insert_identity_Written
          discord_user_def joined_rows_def links\<close>)
  next
    case (Some e)
    have links: "joined_links (Some e) vs = filter (\<lambda>v. ver_email v \<noteq> e) vs" for vs
      by (auto simp: joined_links_def intro: filter_cong)
    show thesis
      by (rule that [of h "Some e"])
        (use assms Some h in \<open>auto simp: create_discord_account_def and_then_Inr Let_def
          insert_discord_user_def shown_profile_def write_users_Written insert_identity_Written
          discord_user_def joined_rows_def links available_discord_email_def
          clear_pending_discord_email_Inr\<close>)
  qed
qed

lemma create_discord_account_kept:
  assumes "create_discord_account env drw p db = Inr (db', a, i)" "accounts_sound env db"
  shows "accounts_sound env db'"
  using assms(1)
proof (cases rule: create_discord_account_Inr)
  case (1 h email)
  note s = accounts_soundD [OF assms(2)]
  let ?x = "discord_user drw h email p"
  let ?us = "joined_rows i email (adb_users db @ [?x])"
  let ?vs = "joined_links email (adb_verifications db)"
  have free: "\<not> handle_unavailable h db"
    using free_handle_free 1(1) unfolding available_discord_handle_def by blast
  have x: "usr_id ?x = i" "usr_name ?x = h" "usr_email ?x = email"
      "usr_source ?x = Some DiscordSource \<longrightarrow> usr_verified ?x \<noteq> None"
      "usr_verified ?x = None \<longleftrightarrow> email = None"
    by (auto simp: discord_user_def new_user_def 1(4) split: option.split_asm)
  have rows: "list_all2 follows (adb_users db @ [?x]) ?us"
    using follows_clear by (auto simp: joined_rows_def list_all2_conv_all_nth follows_def split: option.split)
  have ids: "usr_id ` set ?us = insert i (usr_id ` set (adb_users db))"
    using follows_ids [OF rows] x(1) by (metis list.set_map set_append Un_insert_right
        image_insert list.simps(15) list.set(1) sup_bot_right)
  have names: "map usr_name ?us = map usr_name (adb_users db) @ [h]"
    using x(2) by (cases email) (simp_all add: joined_rows_def clear_copies_columns)
  have passwords: "usr_password w \<noteq> None \<or> usr_id w \<in> insert i (idn_user ` set (adb_identities db))"
    if w: "w \<in> set ?us" for w
  proof -
    obtain u where u: "u \<in> set (adb_users db @ [?x])" "follows u w" using follows_rows [OF rows w] by blast
    then show ?thesis using s(4) x(1) unfolding ways_in_def follows_def by auto
  qed
  have shape: "usr_verified u \<noteq> None \<Longrightarrow> usr_email u \<noteq> None" if "u \<in> set (adb_users db)" for u
    using s(1) that by (auto simp: users_sound_def list_all_iff user_checks_def email_shape_def)
  have awaiting: "\<exists>w \<in> set (adb_users db @ [?x]). awaits_email (ver_user v) (ver_email v) w"
    if "v \<in> set (adb_verifications db)" for v
    using s(3) that by (auto simp: verifications_sound_def)
  have "exclusive ?us \<and> verifications_sound ?us ?vs"
  proof (cases email)
    case None
    have "exclusive (adb_users db @ [?x])"
      by (rule exclusive_snoc [OF s(2)]) (use x None shape in auto)
    then show ?thesis
      using None awaiting s(3) by (simp add: joined_rows_def joined_links_def verifications_sound_def)
  next
    case (Some e)
    have links: "joined_links (Some e) (adb_verifications db)
        = filter (\<lambda>v. ver_email v \<noteq> e) (adb_verifications db)"
      by (auto simp: joined_links_def intro: filter_cong)
    have "exclusive (clear_copies e i (adb_users db @ [?x])) \<and>
        verifications_sound (clear_copies e i (adb_users db @ [?x]))
          (filter (\<lambda>v. ver_email v \<noteq> e) (adb_verifications db))"
      by (intro conjI; rule taken_over [OF assms(2) 1(3) [OF Some] 1(6)]) (use x Some awaiting in auto)
    then show ?thesis by (simp add: joined_rows_def links Some)
  qed
  moreover have "users_sound env ?us (adb_retired db)"
    unfolding users_sound_def
  proof (intro conjI ballI)
    fix w assume w: "w \<in> set ?us"
    then have "usr_name w \<in> set (map usr_name (adb_users db) @ [h])" unfolding names [symmetric] by simp
    then show "usr_name w \<notin> set (adb_retired db)"
      using s(1) free by (auto simp: users_sound_def handle_unavailable_iff)
    obtain u where u: "u \<in> set (adb_users db @ [?x])" "follows u w" using follows_rows [OF rows w] by blast
    then show "usr_source w = Some DiscordSource \<longrightarrow> usr_verified w \<noteq> None"
      using s(1) x(4) unfolding users_sound_def follows_def by auto
  qed (use 1(8,9) s(1) in \<open>auto simp: users_sound_def\<close>)
  moreover have "ways_in ?us (adb_identities db')"
    using passwords s(4) 1(5) by (auto simp: ways_in_def 1(10))
  moreover have "accounts_known db'"
    using s(5) ids by (auto simp: accounts_known_def 1(10))
  ultimately show ?thesis using s(6) by (simp add: accounts_sound_def hashes_unique_def 1(10))
qed

section \<open>Signing in, attaching, completing\<close>

lemma sign_in_discord_Inr:
  assumes "sign_in_discord env drw p db = Inr (db', r)"
  obtains linked db1 where "user_by_identity (dpr_subject p) db = Some linked"
    "sync_discord_account env (drw_clock drw) linked p db = Inr (db1, dcm_account r)"
    "insert_session (aen_sha256 env (raw_token drw)) (usr_id linked)
       (clk_app (drw_clock drw) + session_lifetime) db1 = Written db'"
  | db1 i where "user_by_identity (dpr_subject p) db = None"
    "create_discord_account env drw p db = Inr (db1, dcm_account r, i)"
    "insert_session (aen_sha256 env (raw_token drw)) i
       (clk_app (drw_clock drw) + session_lifetime) db1 = Written db'"
  using assms
  by (auto simp: sign_in_discord_def and_then_Inr new_token_eq Let_def raw_token_def
      split: option.split_asm)

lemma sign_in_discord_kept:
  assumes "sign_in_discord env drw p db = Inr (db', r)" "accounts_sound env db"
  shows "accounts_sound env db'"
  using assms(1)
  by (cases rule: sign_in_discord_Inr)
    (use session_kept sync_discord_account_kept create_discord_account_kept assms(2) in blast)+

lemma attach_discord_Inr:
  assumes "attach_discord env user p db = Inr (db', r)"
  obtains linked where "user = Some (usr_id linked)" "user_by_identity (dpr_subject p) db = Some linked"
    "db' = db"
  | i u where "user = Some i" "user_by_identity (dpr_subject p) db = None" "user_by_id i db = Some u"
    "insert_identity env i (dpr_subject p) (verified_discord_email env p) db = Written db'"
proof (cases "user_by_identity (dpr_subject p) db")
  case None
  then show thesis
    using assms by (auto simp: attach_discord_def and_then_Inr intro: that(2))
next
  case (Some linked)
  then show thesis
    using assms by (auto simp: attach_discord_def and_then_Inr intro: that(1))
qed

lemma attach_discord_kept:
  assumes "attach_discord env user p db = Inr (db', r)" "accounts_sound env db"
  shows "accounts_sound env db'"
  using assms(1)
proof (cases rule: attach_discord_Inr)
  case (2 i u)
  have "ways_in (adb_users db) (adb_identities db')"
    using accounts_soundD(4) [OF assms(2)] 2(4)
    by (auto simp: ways_in_def insert_identity_Written)
  then show ?thesis
    using assms(2) 2(4)
    by (auto simp: accounts_sound_def insert_identity_Written accounts_known_def hashes_unique_def)
qed (use assms in simp)

lemma sign_in_intent: "k \<noteq> DiscordAttach \<longleftrightarrow> k = DiscordSignIn"
  by (cases k) simp_all

lemma complete_discord_cases:
  assumes "complete_discord env provider drw state code db = (db', k, r)"
  obtains e where "db' = db" "r = Inl e"
  | h flow db1 e where "token_hash env state = Some h" "code \<noteq> []"
    "take_oauth_state (drw_clock drw) h db = Some (db1, flow)" "db' = db1" "r = Inl e"
  | h flow db1 discord p a where "token_hash env state = Some h" "code \<noteq> []"
    "take_oauth_state (drw_clock drw) h db = Some (db1, flow)"
    "provider = Some discord" "dsc_exchange discord code = Some p" "dpr_subject p \<noteq> []"
    "sta_intent flow = DiscordAttach" "attach_discord env (sta_user flow) p db1 = Inr (db', a)" "r = Inr a"
  | h flow db1 discord p a where "token_hash env state = Some h" "code \<noteq> []"
    "take_oauth_state (drw_clock drw) h db = Some (db1, flow)"
    "provider = Some discord" "dsc_exchange discord code = Some p" "dpr_subject p \<noteq> []"
    "sta_intent flow = DiscordSignIn" "sign_in_discord env drw p db1 = Inr (db', a)" "r = Inr a"
  using assms
  by (auto simp: complete_discord_def sign_in_intent
      split: option.split_asm if_split_asm sum.split_asm)

lemma take_oauth_state_kept:
  assumes "take_oauth_state clk h db = Some (db', flow)" "accounts_sound env db"
  shows "accounts_sound env db'"
  using assms(1) filtered_kept [OF assms(2), where p = "\<lambda>_. True" and q = "\<lambda>_. True"
      and r = "\<lambda>s. \<not> (sta_hash s = h \<and> clk_db clk < sta_expires s)"]
  by (auto simp: take_oauth_state_def Let_def split: option.split_asm)

lemma complete_discord_kept:
  assumes "complete_discord env provider drw state code db = (db', k, r)" "accounts_sound env db"
  shows "accounts_sound env db'"
  using assms(1)
  by (cases rule: complete_discord_cases)
    (use assms(2) take_oauth_state_kept attach_discord_kept sign_in_discord_kept in blast)+

section \<open>Runs\<close>

inductive account_step :: "account_env \<Rightarrow> account_db \<Rightarrow> account_db \<Rightarrow> bool"
  for env :: account_env and db :: account_db where
  "sign_up env drw inp db = Inr (db', s) \<Longrightarrow> account_step env db db'"
| "set_nsfw_visibility env clk token v db = Inr (db', u) \<Longrightarrow> account_step env db db'"
| "sign_in env drw email password db = Inr (db', s) \<Longrightarrow> account_step env db db'"
| "sign_out env token db = Inr (db', u) \<Longrightarrow> account_step env db db'"
| "verify_email env clk token db = Inr (db', a) \<Longrightarrow> account_step env db db'"
| "change_unverified_email env drw token raw db = Inr (db', a) \<Longrightarrow> account_step env db db'"
| "rename_handle env clk token handle db = Inr (db', a) \<Longrightarrow> account_step env db db'"
| "set_password env drw token password db = Inr (db', a) \<Longrightarrow> account_step env db db'"
| "request_password_reset env drw raw db = Inr (db', u) \<Longrightarrow> account_step env db db'"
| "complete_password_reset env drw token password db = Inr (db', u) \<Longrightarrow> account_step env db db'"
| "begin_discord env provider drw token intent db = Inr (db', d) \<Longrightarrow> account_step env db db'"
| "complete_discord env provider drw state code db = (db', k, r) \<Longrightarrow> account_step env db db'"
| "detach_discord env clk token db = Inr (db', a) \<Longrightarrow> account_step env db db'"

abbreviation account_run :: "account_env \<Rightarrow> account_db \<Rightarrow> account_db \<Rightarrow> bool" where
  "account_run env \<equiv> (account_step env)\<^sup>*\<^sup>*"

lemmas operations_kept =
  sign_up_kept set_nsfw_visibility_kept sign_in_kept sign_out_kept verify_email_kept
  change_unverified_email_kept rename_handle_kept set_password_kept request_password_reset_kept
  complete_password_reset_kept begin_discord_kept complete_discord_kept detach_discord_kept

lemma account_step_kept: "\<lbrakk>account_step env db db'; accounts_sound env db\<rbrakk> \<Longrightarrow> accounts_sound env db'"
  by (erule account_step.cases) (blast intro: operations_kept)+

lemma account_run_kept: "\<lbrakk>account_run env db db'; accounts_sound env db\<rbrakk> \<Longrightarrow> accounts_sound env db'"
  by (induction rule: rtranclp_induct) (auto intro: account_step_kept)

end
