(* ===== verification/AccountFacts.thy ===== *)
theory AccountFacts
  imports AccountDiscord
begin

text \<open>
  What the account service gives those who use it: a handle stays its account's, a link
  verifies the address it was sent to, a verified address and its password sign in.
\<close>

section \<open>Handles\<close>

definition tag :: "user_row \<Rightarrow> uuid \<times> string" where
  "tag u = (usr_id u, usr_name u)"

definition tags :: "user_row list \<Rightarrow> (uuid \<times> string) set" where
  "tags us = tag ` set us"

text \<open>No account goes, and a handle an account no longer has is retired.\<close>

definition handles_kept :: "account_db \<Rightarrow> account_db \<Rightarrow> bool" where
  "handles_kept db db' \<longleftrightarrow>
     set (adb_retired db) \<subseteq> set (adb_retired db') \<and>
     (\<forall>(i, h) \<in> tags (adb_users db).
        \<exists>h'. (i, h') \<in> tags (adb_users db') \<and> (h' = h \<or> h \<in> set (adb_retired db')))"

lemma handles_kept_same:
  "\<lbrakk>adb_retired db' = adb_retired db; tags (adb_users db) \<subseteq> tags (adb_users db')\<rbrakk> \<Longrightarrow> handles_kept db db'"
  by (fastforce simp: handles_kept_def)

lemma handles_kept_trans:
  assumes "handles_kept a b" "handles_kept b c"
  shows "handles_kept a c"
  unfolding handles_kept_def
proof (intro conjI ballI, goal_cases)
  case 1
  then show ?case using assms by (auto simp: handles_kept_def)
next
  case (2 x)
  obtain i h where x: "x = (i, h)" by (cases x)
  then obtain h' where h': "(i, h') \<in> tags (adb_users b)" "h' = h \<or> h \<in> set (adb_retired b)"
    using assms(1) 2 by (auto simp: handles_kept_def)
  moreover obtain h'' where "(i, h'') \<in> tags (adb_users c)" "h'' = h' \<or> h' \<in> set (adb_retired c)"
    using assms(2) h'(1) by (auto simp: handles_kept_def)
  ultimately show ?case using assms(2) x by (auto simp: handles_kept_def)
qed

lemma tags_update: "(\<And>u. tag (f u) = tag u) \<Longrightarrow> tags (update_where p f us) = tags us"
  by (induction us) (simp_all add: tags_def update_where_def)

lemma tag_in: "u \<in> set us \<Longrightarrow> (usr_id u, usr_name u) \<in> tags us"
  by (force simp: tags_def tag_def)

lemma tags_append: "tags (us @ vs) = tags us \<union> tags vs"
  by (simp add: tags_def image_Un)

lemma tags_clear: "tags (clear_copies e i us) = tags us"
  unfolding clear_copies_def by (rule tags_update) (simp add: tag_def)

lemma tags_operations:
  "tags (verify_rows clk i e us) = tags us" "tags (readdressed i e us) = tags us"
  "tags (discord_addressed clk i e us) = tags us"
  unfolding verify_rows_def readdressed_def discord_addressed_def tags_clear
  by (rule tags_update, simp add: tag_def)+

lemma alike_tags: "list_all2 alike us vs \<Longrightarrow> tags vs = tags us"
  by (induction rule: list_all2_induct) (auto simp: tags_def tag_def alike_def)

lemma rename_handles_kept:
  assumes "rename_handle env clk token handle db = Inr (db', a)" "accounts_sound env db"
  shows "handles_kept db db'"
  using assms(1)
proof (cases rule: rename_handle_Inr)
  case (2 h u old)
  have unique: "users_unique (adb_users db)" using assms(2) by (simp add: accounts_sound_def users_sound_def)
  have old: "old \<in> set (adb_users db)" "usr_id old = usr_id u" using user_by_id_Some [OF 2(4)] by simp_all
  have "\<exists>h'. (i, h') \<in> tags (adb_users db') \<and> (h' = n \<or> n \<in> set (adb_retired db'))"
    if "(i, n) \<in> tags (adb_users db)" for i n
  proof -
    obtain w where w: "w \<in> set (adb_users db)" "i = usr_id w" "n = usr_name w"
      using \<open>(i, n) \<in> _\<close> by (auto simp: tags_def tag_def)
    show ?thesis
    proof (cases "usr_id w = usr_id u")
      case True
      then have "w = old" using same_user [OF unique w(1) old(1)] old(2) by simp
      have "w\<lparr>usr_name := handle\<rparr> \<in> set (adb_users db')"
        using w(1) True by (auto simp: 2(10) renamed_def set_update_where)
      then have "(i, handle) \<in> tags (adb_users db')" using tag_in w(2) by fastforce
      moreover have "n \<in> set (adb_retired db')" using \<open>w = old\<close> w(3) by (simp add: 2(10))
      ultimately show ?thesis by blast
    next
      case False
      then have "w \<in> set (adb_users db')" using w(1) by (auto simp: 2(10) renamed_def set_update_where)
      then show ?thesis using tag_in w(2,3) by blast
    qed
  qed
  then show ?thesis by (auto simp: handles_kept_def 2(10))
qed (simp add: handles_kept_same)

lemma written_tags:
  "insert_session h i t db = Written db' \<Longrightarrow> handles_kept db db'"
  "insert_oauth_state h k user t db = Written db' \<Longrightarrow> handles_kept db db'"
  "insert_identity env i s e db = Written db' \<Longrightarrow> handles_kept db db'"
  "update_identity_email env s f db = Written db' \<Longrightarrow> handles_kept db db'"
  "take_oauth_state clk h db = Some (db', flow) \<Longrightarrow> handles_kept db db'"
  by (auto simp: insert_session_Written insert_state_Written insert_identity_Written
      update_identity_email_def take_oauth_state_def Let_def handles_kept_same
      split: if_split_asm option.split_asm)

lemma sync_handles_kept:
  assumes "sync_discord_account env clk linked p db = Inr (db', a)"
  shows "handles_kept db db'"
proof -
  obtain db1 u where one: "sync_discord_email env clk linked p db = Inr (db1, u)"
      "db' = update_discord_profile (usr_id u) (shown_profile p) db1"
    using assms by (auto simp: sync_discord_account_def and_then_Inr)
  have mid: "handles_kept db db0"
    if "update_discord_email env clk (usr_id linked) e db = Some (Written (db2, w))"
      "clear_pending_discord_email env e (usr_id linked) db2 = Inr db0" for e db2 w db0
    using update_discord_email_Some [OF that(1)] that(2)
    by (auto simp: clear_pending_discord_email_Inr tags_clear tags_operations intro: handles_kept_same)
  have "handles_kept db db1"
    using one(1)
    by (auto simp: sync_discord_email_def and_then_Inr handles_kept_same
        dest!: written_tags(4) intro: handles_kept_trans mid split: option.split_asm if_split_asm)
  moreover have "tags (adb_users db') = tags (adb_users db1)"
    unfolding one(2) update_discord_profile_def shown_profile_def split_conv
    by simp (rule tags_update, simp add: tag_def)
  moreover have "adb_retired db' = adb_retired db1"
    by (simp add: one(2) update_discord_profile_def shown_profile_def)
  ultimately show ?thesis using handles_kept_trans handles_kept_same by blast
qed

lemma create_handles_kept:
  assumes "create_discord_account env drw p db = Inr (db', a, i)"
  shows "handles_kept db db'"
  using assms
  by (cases rule: create_discord_account_Inr)
    (auto simp: joined_rows_def tags_clear tags_append intro!: handles_kept_same split: option.split)

lemma complete_discord_handles_kept:
  assumes "complete_discord env provider drw state code db = (db', k, r)"
  shows "handles_kept db db'"
  using assms
proof (cases rule: complete_discord_cases)
  case 1
  then show ?thesis by (simp add: handles_kept_same)
next
  case (2 h flow db1 e)
  then show ?thesis using written_tags(5) by blast
next
  case (3 h flow db1 discord p a)
  from 3(8) have "handles_kept db1 db'"
    by (cases rule: attach_discord_Inr) (auto simp: handles_kept_same intro: written_tags(3))
  then show ?thesis using written_tags(5) [OF 3(3)] handles_kept_trans by blast
next
  case (4 h flow db1 discord p a)
  from 4(8) have "handles_kept db1 db'"
    by (cases rule: sign_in_discord_Inr)
      (blast intro: handles_kept_trans sync_handles_kept create_handles_kept written_tags(1))+
  then show ?thesis using written_tags(5) [OF 4(3)] handles_kept_trans by blast
qed

lemma tags_columns:
  "tags (update_where p (usr_visibility_update g) us) = tags us"
  "tags (update_where p (usr_password_update k) us) = tags us"
  by (rule tags_update, simp add: tag_def)+

lemma visibility_handles_kept:
  assumes "set_nsfw_visibility env clk token v db = Inr (db', u)"
  shows "handles_kept db db'"
  using assms
  by (auto simp: set_nsfw_visibility_def and_then_Inr set_visibility_by_session_def Let_def
      tags_columns intro!: handles_kept_same split: if_split_asm)

lemma password_handles_kept:
  "set_password env drw token password db = Inr (db', a) \<Longrightarrow> handles_kept db db'"
  "complete_password_reset env drw token password db = Inr (db', u) \<Longrightarrow> handles_kept db db'"
  by (auto elim!: set_password_Inr complete_password_reset_Inr
      intro!: handles_kept_same simp: tags_columns)

lemma session_handles_kept:
  "sign_in env drw email password db = Inr (db', s) \<Longrightarrow> handles_kept db db'"
  "sign_out env token db = Inr (db', u) \<Longrightarrow> handles_kept db db'"
  "begin_discord env provider drw token intent db = Inr (db', d) \<Longrightarrow> handles_kept db db'"
  "request_password_reset env drw raw db = Inr (db', u) \<Longrightarrow> handles_kept db db'"
  "detach_discord env clk token db = Inr (db', a) \<Longrightarrow> handles_kept db db'"
  by (auto simp: sign_in_def sign_out_def begin_discord_def new_token_eq Let_def and_then_Inr
      delete_session_def handles_kept_same intro: written_tags
      elim!: request_password_reset_Inr detach_discord_Inr
      split: sum.split_asm list.split_asm option.split_asm if_split_asm)

lemma address_handles_kept:
  "sign_up env drw inp db = Inr (db', s) \<Longrightarrow> handles_kept db db'"
  "verify_email env clk token db = Inr (db', a) \<Longrightarrow> handles_kept db db'"
  "change_unverified_email env drw token raw db = Inr (db', a) \<Longrightarrow> handles_kept db db'"
  by (auto elim!: sign_up_Inr verify_email_Inr change_unverified_email_Inr
      intro!: handles_kept_same simp: tags_operations tags_append)

lemmas handle_operations =
  address_handles_kept session_handles_kept password_handles_kept visibility_handles_kept
  rename_handles_kept complete_discord_handles_kept

lemma step_handles_kept:
  "\<lbrakk>account_step env db db'; accounts_sound env db\<rbrakk> \<Longrightarrow> handles_kept db db'"
  by (erule account_step.cases) (blast intro: handle_operations)+

text \<open>What each step of a sound state keeps, and what is kept twice is kept, a run keeps.\<close>

locale kept_by_steps =
  fixes move :: "'s \<Rightarrow> 's \<Rightarrow> bool"
    and sound :: "'s \<Rightarrow> bool"
    and kept :: "'s \<Rightarrow> 's \<Rightarrow> bool"
  assumes move_sound: "\<lbrakk>move s s'; sound s\<rbrakk> \<Longrightarrow> sound s'"
    and move_kept: "\<lbrakk>move s s'; sound s\<rbrakk> \<Longrightarrow> kept s s'"
    and kept_refl: "kept s s"
    and kept_trans: "\<lbrakk>kept s s'; kept s' s''\<rbrakk> \<Longrightarrow> kept s s''"
begin

lemma run_keeps:
  assumes "move\<^sup>*\<^sup>* s s'" "sound s"
  shows "sound s' \<and> kept s s'"
  using assms
  by (induction rule: rtranclp_induct) (blast intro: move_sound move_kept kept_refl kept_trans)+

end

interpretation handles: kept_by_steps "account_step env" "accounts_sound env" handles_kept for env
  by unfold_locales
    (auto intro: account_step_kept step_handles_kept handles_kept_same handles_kept_trans)

section \<open>Statements that are not refused\<close>

lemma distinct_verified:
  assumes "distinct (map usr_id us)"
    and "\<And>u v. \<lbrakk>u \<in> set us; v \<in> set us; usr_verified u \<noteq> None; usr_verified v \<noteq> None;
      usr_email u \<noteq> None; usr_email v = usr_email u\<rbrakk> \<Longrightarrow> usr_id v = usr_id u"
  shows "distinct (verified_emails us)"
  unfolding verified_emails_def distinct_map
proof
  show "distinct (filter (\<lambda>u. usr_verified u \<noteq> None \<and> usr_email u \<noteq> None) us)"
    using assms(1) by (simp add: distinct_map)
  show "inj_on usr_email (set (filter (\<lambda>u. usr_verified u \<noteq> None \<and> usr_email u \<noteq> None) us))"
  proof (rule inj_onI)
    fix u v
    assume "u \<in> set (filter (\<lambda>u. usr_verified u \<noteq> None \<and> usr_email u \<noteq> None) us)"
      "v \<in> set (filter (\<lambda>u. usr_verified u \<noteq> None \<and> usr_email u \<noteq> None) us)" "usr_email u = usr_email v"
    then have uv: "u \<in> set us" "v \<in> set us" "usr_verified u \<noteq> None" "usr_verified v \<noteq> None"
        "usr_email u \<noteq> None" "usr_email v = usr_email u" by simp_all
    have "usr_id v = usr_id u" by (rule assms(2) [OF uv])
    then show "u = v" using assms(1) uv(1,2) by (metis distinct_map inj_onD)
  qed
qed

lemma verified_emails_clear: "verified_emails (clear_copies e i us) = verified_emails us"
  by (induction us) (auto simp: verified_emails_def clear_copies_def update_where_def)

lemma clear_copies_fine:
  assumes "list_all (user_checks env) us" "users_unique us"
  shows "list_all (user_checks env) (clear_copies e i us)" "users_unique (clear_copies e i us)"
proof -
  show "list_all (user_checks env) (clear_copies e i us)"
    using assms(1)
    by (auto simp: list_all_iff clear_copies_def set_update_where user_checks_def email_shape_def
        lower_stored_def)
  show "users_unique (clear_copies e i us)"
    using assms(2) by (simp add: users_unique_def clear_copies_columns verified_emails_clear)
qed

lemma verify_fine:
  assumes "accounts_sound env db" "w \<in> set (adb_users db)" "awaits_email i e w"
  shows "list_all (user_checks env)
      (update_where (awaits_email i e) (\<lambda>u. u\<lparr>usr_verified := Some t\<rparr>) (adb_users db))"
    "users_unique (update_where (awaits_email i e) (\<lambda>u. u\<lparr>usr_verified := Some t\<rparr>) (adb_users db))"
proof -
  note s = accounts_soundD [OF assms(1)]
  let ?us = "update_where (awaits_email i e) (\<lambda>u. u\<lparr>usr_verified := Some t\<rparr>) (adb_users db)"
  show "list_all (user_checks env) ?us"
    using s(1) by (auto simp: users_sound_def list_all_iff set_update_where user_checks_def
        email_shape_def awaits_email_def)
  have columns: "map usr_id ?us = map usr_id (adb_users db)" "map usr_name ?us = map usr_name (adb_users db)"
    by (simp_all add: update_where_def)
  have row: "(u \<in> set (adb_users db) \<and> \<not> awaits_email i e u) \<or> (usr_id u = i \<and> usr_email u = Some e)"
    if "u \<in> set ?us" for u
    using that by (auto simp: set_update_where awaits_email_def)
  have same: "usr_id u = i" if "u \<in> set (adb_users db)" "usr_verified u \<noteq> None" "usr_email u = Some e" for u
    using exclusiveD [OF s(2) that(1) assms(2) that(2)] assms(3) that(3) by (simp add: awaits_email_def)
  have "distinct (verified_emails ?us)"
  proof (rule distinct_verified)
    fix u v assume uv: "u \<in> set ?us" "v \<in> set ?us" "usr_verified u \<noteq> None" "usr_verified v \<noteq> None"
      "usr_email v = usr_email u"
    show "usr_id v = usr_id u"
    proof (cases "usr_email u = Some e")
      case True
      then show ?thesis using row [OF uv(1)] row [OF uv(2)] same uv(3-5) by metis
    next
      case False
      then show ?thesis
        using row [OF uv(1)] row [OF uv(2)] uv(3-5) exclusiveD [OF s(2)] by metis
    qed
  qed (use s(1) columns in \<open>simp add: users_sound_def users_unique_def\<close>)
  then show "users_unique ?us"
    using s(1) columns by (simp add: users_sound_def users_unique_def)
qed

lemma find_awaiting:
  assumes "users_unique us" "w \<in> set us" "awaits_email i e w"
  shows "find (awaits_email i e) us = Some w"
  by (rule only_row) (use assms in \<open>auto simp: awaits_email_def intro: same_user\<close>)

lemma live_verification_found:
  assumes "accounts_sound env db" "live_verification clk h db v"
  shows "verification_by_hash clk h db = Some v"
  unfolding verification_by_hash_def
proof (rule only_row)
  have "distinct (map ver_hash (adb_verifications db))"
    using assms(1) by (simp add: accounts_sound_def verifications_sound_def)
  then show "q = v" if "q \<in> set (adb_verifications db)" "ver_hash q = h \<and> clk_db clk < ver_expires q" for q
    using that assms(2) by (auto simp: live_verification_def distinct_map inj_on_def)
qed (use assms(2) in \<open>auto simp: live_verification_def\<close>)

lemma verify_email_goes_through:
  assumes "accounts_sound env db" "token_hash env token = Some h" "live_verification clk h db v"
  obtains w where "w \<in> set (adb_users db)" "awaits_email (ver_user v) (ver_email v) w"
    "verify_email env clk token db =
       Inr (db\<lparr>adb_users := verify_rows clk (ver_user v) (ver_email v) (adb_users db),
             adb_verifications := filter (\<lambda>x. ver_email x \<noteq> ver_email v) (adb_verifications db)\<rparr>,
            account_from (w\<lparr>usr_verified := Some (clk_db clk)\<rparr>) (has_password w)
              (discord_linked db (usr_id w)) None)"
proof -
  note s = accounts_soundD [OF assms(1)]
  have unique: "users_unique (adb_users db)" using s(1) by (simp add: users_sound_def)
  have "v \<in> set (adb_verifications db)" using assms(3) by (simp add: live_verification_def)
  then obtain w where w: "w \<in> set (adb_users db)" "awaits_email (ver_user v) (ver_email v) w"
    using s(3) by (auto simp: verifications_sound_def)
  note fine = verify_fine [OF assms(1) w, of "clk_db clk"]
  have "verify_email env clk token db =
       Inr (db\<lparr>adb_users := verify_rows clk (ver_user v) (ver_email v) (adb_users db),
             adb_verifications := filter (\<lambda>x. ver_email x \<noteq> ver_email v) (adb_verifications db)\<rparr>,
            account_from (w\<lparr>usr_verified := Some (clk_db clk)\<rparr>) (has_password w)
              (discord_linked db (usr_id w)) None)"
    using live_verification_found [OF assms(1,3)] find_awaiting [OF unique w] fine clear_copies_fine [OF fine]
    by (simp add: verify_email_def assms(2) verification_email_by_hash_def verify_user_email_def Let_def
        write_users_def clear_pending_email_copies_def clear_copies_def [symmetric] committed_def
        delete_verifications_for_email_def verify_rows_def has_password_def discord_linked_def)
  then show thesis using that w by blast
qed

section \<open>Signing in with a verified address\<close>

lemma filter_only:
  assumes "distinct xs" "x \<in> set xs" "p x" "\<And>y. \<lbrakk>y \<in> set xs; p y\<rbrakk> \<Longrightarrow> y = x"
  shows "filter p xs = [x]"
proof -
  obtain as bs where xs: "xs = as @ x # bs" using assms(2) by (meson split_list)
  have "\<not> p y" if y: "y \<in> set as \<union> set bs" for y
  proof
    assume "p y"
    then have "y = x" using assms(4) [of y] y xs by auto
    then show False using assms(1) y xs by auto
  qed
  then have "filter p as = []" "filter p bs = []" by (simp_all add: filter_empty_conv)
  then show ?thesis using assms(3) by (simp add: xs)
qed

definition verified_owner :: "account_db \<Rightarrow> string \<Rightarrow> string \<Rightarrow> user_row \<Rightarrow> bool" where
  "verified_owner db e hash u \<longleftrightarrow>
     u \<in> set (adb_users db) \<and> usr_verified u \<noteq> None \<and> usr_email u = Some e \<and> usr_password u = Some hash"

lemma users_distinct: "accounts_sound env db \<Longrightarrow> distinct (adb_users db)"
  by (simp add: accounts_sound_def users_sound_def users_unique_def distinct_map)

lemma sole_owner:
  assumes "accounts_sound env db" "u \<in> set (adb_users db)" "usr_verified u \<noteq> None"
    "v \<in> set (adb_users db)" "usr_email v = usr_email u"
  shows "v = u"
proof -
  have "users_unique (adb_users db)" using assms(1) by (simp add: accounts_sound_def users_sound_def)
  then show ?thesis
    by (rule same_user [OF _ assms(4,2)])
      (use exclusiveD [OF accounts_soundD(2) [OF assms(1)] assms(2,4,3,5)] in simp)
qed

lemma users_for_sign_in_owner:
  assumes "accounts_sound env db" "verified_owner db e hash u"
  shows "users_for_sign_in e db = [u]"
  unfolding users_for_sign_in_def
proof (rule filter_only [OF users_distinct [OF assms(1)]])
  have u: "u \<in> set (adb_users db)" "usr_verified u \<noteq> None" "usr_email u = Some e" "usr_password u = Some hash"
    using assms(2) by (simp_all add: verified_owner_def)
  show "u \<in> set (adb_users db)" "usr_email u = Some e \<and> usr_password u \<noteq> None" using u by simp_all
  fix v assume v: "v \<in> set (adb_users db)" "usr_email v = Some e \<and> usr_password v \<noteq> None"
  show "v = u" by (rule sole_owner [OF assms(1) u(1,2) v(1)]) (use u(3) v(2) in simp)
qed

text \<open>The session a token opens right after it was stored\<close>

lemma new_session_opens:
  assumes "accounts_sound env db" "u \<in> set (adb_users db)" "h \<notin> ses_hash ` set (adb_sessions db)"
    and "insert_session h (usr_id u) t db = Written db'" "clk_db clk < t"
  shows "user_by_session clk h db' = Some u"
proof -
  have unique: "users_unique (adb_users db)" using assms(1) by (simp add: accounts_sound_def users_sound_def)
  have db': "db' = db\<lparr>adb_sessions := adb_sessions db @
      [\<lparr>ses_hash = h, ses_user = usr_id u, ses_expires = t\<rparr>]\<rparr>"
    using assms(4) by (simp add: insert_session_Written)
  have "find (live_session clk h) (adb_sessions db') =
      Some \<lparr>ses_hash = h, ses_user = usr_id u, ses_expires = t\<rparr>"
    by (rule only_row) (use assms(3,5) in \<open>auto simp: db' live_session_def\<close>)
  moreover have "user_by_id (usr_id u) db' = Some u"
    unfolding user_by_id_def
    by (rule only_row) (use assms(2) unique in \<open>auto simp: db' intro: same_user\<close>)
  ultimately show ?thesis by (simp add: user_by_session_def)
qed

lemma sign_in_owner:
  assumes "accounts_sound env db" "verified_owner db e hash u" "normalize_email env raw = Inr e"
    and "aen_sha256 env (raw_token drw) \<notin> ses_hash ` set (adb_sessions db)"
    and "aen_matches env hash (password_material env password)"
  shows "\<exists>db' s. sign_in env drw raw password db = Inr (db', s) \<and> san_account s = known_account db u \<and>
    san_token s = base64_encode (raw_token drw) \<and>
    san_expires s = clk_app (drw_clock drw) + session_lifetime \<and>
    (\<forall>clk. clk_db clk < san_expires s \<longrightarrow> current env clk (san_token s) db' = Some (known_account db u))"
proof -
  let ?h = "aen_sha256 env (raw_token drw)" and ?t = "clk_app (drw_clock drw) + session_lifetime"
  have u: "u \<in> set (adb_users db)" "usr_password u = Some hash" using assms(2) by (simp_all add: verified_owner_def)
  obtain db' where w: "insert_session ?h (usr_id u) ?t db = Written db'"
    using assms(4) u(1) by (simp add: insert_session_Written)
  then have links: "adb_identities db' = adb_identities db" by (simp add: insert_session_Written)
  have "sign_in env drw raw password db = Inr (db', \<lparr>san_account = known_account db u,
      san_token = base64_encode (raw_token drw), san_expires = ?t\<rparr>)"
    using users_for_sign_in_owner [OF assms(1,2)] assms(3,5) u(2) w links
    by (simp add: sign_in_def new_token_eq raw_token_def committed_def known_account_def has_password_def
        discord_linked_def)
  moreover have "current env clk (base64_encode (raw_token drw)) db' = Some (known_account db u)"
    if "clk_db clk < ?t" for clk
    using new_session_opens [OF assms(1) u(1) assms(4) w that] links
    by (simp add: current_def raw_token_def token_hash_raw known_account_def discord_linked_def)
  ultimately show ?thesis by (intro exI conjI) (assumption, simp_all)
qed

lemma sign_in_refused:
  assumes "accounts_sound env db" "verified_owner db e hash u" "normalize_email env raw = Inr e"
    and "\<not> aen_matches env hash (password_material env password)"
  shows "sign_in env drw raw password db = Inl CredentialsWrong"
  using users_for_sign_in_owner [OF assms(1,2)] assms by (simp add: sign_in_def verified_owner_def)

section \<open>A password reset\<close>

definition reset_asked :: "account_env \<Rightarrow> account_draws \<Rightarrow> string \<Rightarrow> user_row \<Rightarrow> account_db \<Rightarrow> account_db" where
  "reset_asked env drw e u db =
     db\<lparr>adb_resets := filter (\<lambda>r. rst_user r \<noteq> usr_id u) (adb_resets db) @
          [\<lparr>rst_hash = aen_sha256 env (raw_token drw), rst_user = usr_id u,
            rst_expires = clk_app (drw_clock drw) + password_reset_lifetime\<rparr>],
        adb_mails := adb_mails db @ [new_mail env e ResetPage (base64_encode (raw_token drw))]\<rparr>"

definition with_password :: "uuid \<Rightarrow> string \<Rightarrow> user_row list \<Rightarrow> user_row list" where
  "with_password i hash us =
     update_where (\<lambda>v. usr_id v = i) (\<lambda>v. v\<lparr>usr_password := Some hash\<rparr>) us"

lemma verified_user_found:
  assumes "accounts_sound env db" "u \<in> set (adb_users db)" "usr_verified u \<noteq> None" "usr_email u = Some e"
  shows "verified_user_by_email e db = Some (usr_id u)"
proof -
  have "find (verified_with e) (adb_users db) = Some u"
  proof (rule only_row [OF assms(2)])
    show "verified_with e u" using assms(3,4) by (simp add: verified_with_def)
    fix v assume "v \<in> set (adb_users db)" "verified_with e v"
    then show "v = u" using sole_owner [OF assms(1-3)] assms(4) by (simp add: verified_with_def)
  qed
  then show ?thesis by (simp add: verified_user_by_email_def)
qed

lemma request_goes_through:
  assumes "accounts_sound env db" "u \<in> set (adb_users db)" "usr_verified u \<noteq> None"
    "usr_email u = Some e" "normalize_email env raw = Inr e" "drw_sent drw"
    and "aen_sha256 env (raw_token drw) \<notin> rst_hash ` set (adb_resets db)"
  shows "request_password_reset env drw raw db = Inr (reset_asked env drw e u db, ())"
proof -
  have "usr_id u \<in> usr_id ` set (adb_users db)" using assms(2) by simp
  then have "insert_reset (aen_sha256 env (raw_token drw)) (usr_id u)
      (clk_app (drw_clock drw) + password_reset_lifetime) (delete_reset_for_user (usr_id u) db)
    = Written (db\<lparr>adb_resets := filter (\<lambda>r. rst_user r \<noteq> usr_id u) (adb_resets db) @
          [\<lparr>rst_hash = aen_sha256 env (raw_token drw), rst_user = usr_id u,
            rst_expires = clk_app (drw_clock drw) + password_reset_lifetime\<rparr>]\<rparr>)"
    unfolding insert_reset_Written using assms(7) by (auto simp: delete_reset_for_user_def)
  then show ?thesis
    using verified_user_found [OF assms(1-4)] assms(5,6)
    by (simp add: request_password_reset_def new_token_eq raw_token_def send_mail_def reset_asked_def
        new_mail_def committed_def)
qed

lemma complete_goes_through:
  assumes "aen_sha256 env (raw_token drw) \<notin> rst_hash ` set (adb_resets db)" "password \<noteq> []"
    and "aen_bcrypt env (drw_salt drw') (password_material env password) = Some hash"
    and "clk_db (drw_clock drw') < clk_app (drw_clock drw) + password_reset_lifetime"
    and "adb_resets db1 = adb_resets (reset_asked env drw e u db)"
  shows "complete_password_reset env drw' (base64_encode (raw_token drw)) password db1 =
    Inr (db1\<lparr>adb_resets := filter (\<lambda>r. rst_user r \<noteq> usr_id u) (adb_resets db),
          adb_users := with_password (usr_id u) hash (adb_users db1)\<rparr>, ())"
proof -
  let ?h = "aen_sha256 env (raw_token drw)"
  let ?hit = "\<lambda>r. rst_hash r = ?h \<and> clk_db (drw_clock drw') < rst_expires r"
  let ?r = "\<lparr>rst_hash = ?h, rst_user = usr_id u,
    rst_expires = clk_app (drw_clock drw) + password_reset_lifetime\<rparr>"
  have other: "rst_hash r \<noteq> ?h" if "r \<in> set (adb_resets db)" for r
    using assms(1) that by (metis image_eqI)
  have "find ?hit (adb_resets db1) = Some ?r"
    by (rule only_row) (use other assms(4) in \<open>auto simp: assms(5) reset_asked_def\<close>)
  moreover have "filter (\<lambda>r. \<not> ?hit r) (adb_resets db1) =
      filter (\<lambda>r. rst_user r \<noteq> usr_id u) (adb_resets db)"
    using other assms(4) by (auto simp: assms(5) reset_asked_def intro!: filter_cong)
  ultimately have "take_reset (drw_clock drw') ?h db1 =
      Some (db1\<lparr>adb_resets := filter (\<lambda>r. rst_user r \<noteq> usr_id u) (adb_resets db)\<rparr>, usr_id u)"
    by (simp add: take_reset_def Let_def)
  then show ?thesis
    using assms(2,3)
    by (simp add: complete_password_reset_def raw_token_def token_hash_raw replace_password_def with_password_def)
qed

lemma complete_refused:
  assumes "aen_sha256 env (raw_token drw) \<notin> rst_hash ` set (adb_resets db)" "password \<noteq> []"
    and "aen_bcrypt env (drw_salt drw') (password_material env password) = Some hash"
  shows "complete_password_reset env drw' (base64_encode (raw_token drw)) password db = Inl PasswordReset"
proof -
  have "find (\<lambda>r. rst_hash r = aen_sha256 env (raw_token drw) \<and> clk_db (drw_clock drw') < rst_expires r)
      (adb_resets db) = None"
    using assms(1) by (auto simp: find_None_iff image_iff)
  then show ?thesis
    using assms(2,3) by (simp add: complete_password_reset_def raw_token_def token_hash_raw take_reset_def Let_def)
qed

section \<open>Signing up\<close>

lemma valid_stored: "valid_handle h \<Longrightarrow> stored_handle h"
  by (simp add: valid_handle_def stored_handle_def)

lemma verification_users_known:
  assumes "accounts_sound env db" "v \<in> set (adb_verifications db)"
  shows "ver_user v \<in> usr_id ` set (adb_users db)"
proof -
  obtain u where "u \<in> set (adb_users db)" "awaits_email (ver_user v) (ver_email v) u"
    using assms by (auto simp: accounts_sound_def verifications_sound_def)
  then show ?thesis by (metis awaits_email_def image_eqI)
qed

lemma signed_up_fine:
  assumes "accounts_sound env db" "drawn (drw_ids drw) \<notin> usr_id ` set (adb_users db)"
    and "valid_handle (sup_handle inp)" "\<not> handle_unavailable (sup_handle inp) db"
    and "aen_db_lower env e = e"
  shows "list_all (user_checks env) (adb_users db @ [signed_up drw inp e hash])"
    "users_unique (adb_users db @ [signed_up drw inp e hash])"
proof -
  let ?x = "signed_up drw inp e hash"
  have x: "usr_id ?x = drawn (drw_ids drw)" "usr_name ?x = sup_handle inp" "usr_email ?x = Some e"
      "usr_verified ?x = None" "usr_source ?x = Some CreatorSource"
    by (simp_all add: signed_up_def new_user_def)
  have sound: "list_all (user_checks env) (adb_users db)" "users_unique (adb_users db)"
    using assms(1) by (simp_all add: accounts_sound_def users_sound_def)
  have "user_checks env ?x"
    using valid_stored [OF assms(3)] assms(5) by (simp add: user_checks_def email_shape_def lower_stored_def x)
  then show "list_all (user_checks env) (adb_users db @ [?x])" using sound(1) by simp
  have "verified_emails (adb_users db @ [?x]) = verified_emails (adb_users db)"
    by (simp add: verified_emails_def x(4))
  then show "users_unique (adb_users db @ [?x])"
    using sound(2) assms(2,4) by (simp add: users_unique_def x(1,2) handle_unavailable_iff)
qed

lemma sign_up_goes_through:
  assumes "accounts_sound env db" "drawn (drw_ids drw) \<notin> usr_id ` set (adb_users db)" "drw_sent drw"
    and "aen_sha256 env (raw_token drw) \<notin> ver_hash ` set (adb_verifications db)"
    and "aen_sha256 env (second_token drw) \<notin> ses_hash ` set (adb_sessions db)"
    and "aen_bcrypt env (drw_salt drw) (password_material env (sup_password inp)) = Some hash"
    and "normalize_email env (sup_email inp) = Inr e" "aen_db_lower env e = e"
    and "valid_handle (sup_handle inp)" "sup_password inp \<noteq> []"
    and "\<not> handle_unavailable (sup_handle inp) db" "\<not> verified_email_exists e db"
  shows "\<exists>db' s. sign_up env drw inp db = Inr (db', s)"
proof -
  let ?x = "signed_up drw inp e hash" and ?now = "clk_app (drw_clock drw)"
  let ?v = "\<lparr>ver_hash = aen_sha256 env (raw_token drw), ver_user = drawn (drw_ids drw),
      ver_email = e, ver_expires = ?now + verification_lifetime\<rparr>"
  let ?s = "\<lparr>ses_hash = aen_sha256 env (second_token drw), ses_user = drawn (drw_ids drw),
      ses_expires = ?now + session_lifetime\<rparr>"
  let ?db1 = "db\<lparr>adb_users := adb_users db @ [?x]\<rparr>"
  let ?db2 = "?db1\<lparr>adb_verifications := adb_verifications db @ [?v]\<rparr>"
  have id: "drawn (drw_ids drw) \<in> usr_id ` set (adb_users ?db1)"
    by (simp add: signed_up_def new_user_def)
  have "insert_user env (drawn (drw_ids drw)) (sup_handle inp) e hash db = Written ?db1"
    using signed_up_fine [OF assms(1,2,9,11,8), of hash]
    by (simp add: insert_user_def write_users_def signed_up_def)
  moreover have "insert_verification (aen_sha256 env (raw_token drw)) (drawn (drw_ids drw)) e
      (?now + verification_lifetime) ?db1 = Written ?db2"
    unfolding insert_verification_Written
    using assms(2,4) id verification_users_known [OF assms(1)] by auto
  moreover have "insert_session (aen_sha256 env (second_token drw)) (drawn (drw_ids drw))
      (?now + session_lifetime) ?db2 = Written (?db2\<lparr>adb_sessions := adb_sessions db @ [?s]\<rparr>)"
    unfolding insert_session_Written using assms(5) id by simp
  moreover have "validate_handle (sup_handle inp) = Inr ()" using assms(9) by (simp add: validate_handle_decides)
  ultimately show ?thesis
    using assms(3,6,7,10-12)
    by (simp add: sign_up_def new_token_eq raw_token_def second_token_def Let_def send_mail_def committed_def)
qed

section \<open>Discord identities\<close>

lemma user_by_id_iff:
  assumes "accounts_sound env db"
  shows "user_by_id i db = Some u \<longleftrightarrow> u \<in> set (adb_users db) \<and> usr_id u = i"
proof
  assume u: "u \<in> set (adb_users db) \<and> usr_id u = i"
  have unique: "users_unique (adb_users db)" using assms by (simp add: accounts_sound_def users_sound_def)
  show "user_by_id i db = Some u"
    unfolding user_by_id_def by (rule only_row) (use u unique in \<open>auto intro: same_user\<close>)
qed (rule user_by_id_Some)

definition identity_of :: "account_db \<Rightarrow> string \<Rightarrow> uuid \<Rightarrow> bool" where
  "identity_of db s i \<longleftrightarrow> (\<exists>d \<in> set (adb_identities db). idn_subject d = s \<and> idn_user d = i)"

lemma user_by_identity_iff:
  assumes "accounts_sound env db"
  shows "user_by_identity s db = Some u \<longleftrightarrow> u \<in> set (adb_users db) \<and> identity_of db s (usr_id u)"
proof -
  have distinct: "distinct (map idn_subject (adb_identities db))"
    using assms by (simp add: accounts_sound_def ways_in_def)
  have found: "find (\<lambda>d. idn_subject d = s) (adb_identities db) = Some d \<longleftrightarrow>
      d \<in> set (adb_identities db) \<and> idn_subject d = s" for d
  proof
    assume d: "d \<in> set (adb_identities db) \<and> idn_subject d = s"
    show "find (\<lambda>d. idn_subject d = s) (adb_identities db) = Some d"
      by (rule only_row) (use d distinct in \<open>auto simp: distinct_map inj_on_def\<close>)
  qed (use find_one in fastforce)
  show ?thesis
  proof (cases "find (\<lambda>d. idn_subject d = s) (adb_identities db)")
    case None
    then have "\<not> identity_of db s i" for i by (auto simp: identity_of_def find_None_iff)
    with None show ?thesis by (simp add: user_by_identity_def)
  next
    case (Some d)
    have only: "c = d" if "c \<in> set (adb_identities db)" "idn_subject c = s" for c
      using found [of c] that Some by simp
    have "d \<in> set (adb_identities db)" "idn_subject d = s" using found [of d] Some by simp_all
    then have "identity_of db s i \<longleftrightarrow> idn_user d = i" for i
      unfolding identity_of_def using only by metis
    moreover have "user_by_identity s db = user_by_id (idn_user d) db"
      using Some by (simp add: user_by_identity_def)
    ultimately show ?thesis using user_by_id_iff [OF assms, of "idn_user d" u] by metis
  qed
qed

lemma user_by_identity_None:
  assumes "accounts_sound env db"
  shows "user_by_identity s db = None \<longleftrightarrow> (\<forall>i. \<not> identity_of db s i)"
proof
  assume none: "user_by_identity s db = None"
  show "\<forall>i. \<not> identity_of db s i"
  proof (intro allI notI)
    fix i assume i: "identity_of db s i"
    then have "i \<in> usr_id ` set (adb_users db)"
      using accounts_soundD(5) [OF assms] by (auto simp: identity_of_def accounts_known_def)
    then obtain u where "u \<in> set (adb_users db)" "usr_id u = i" by blast
    then show False using user_by_identity_iff [OF assms, of s u] none i by simp
  qed
next
  assume "\<forall>i. \<not> identity_of db s i"
  then show "user_by_identity s db = None"
    using user_by_identity_iff [OF assms, of s] by (cases "user_by_identity s db") auto
qed

lemma sync_keeps_identities:
  assumes "sync_discord_account env clk linked p db = Inr (db', a)"
  shows "map usr_id (adb_users db') = map usr_id (adb_users db)"
    "identity_of db' s i = identity_of db s i" "adb_sessions db' = adb_sessions db"
    "acn_id a = usr_id linked"
proof -
  obtain db1 u where one: "sync_discord_email env clk linked p db = Inr (db1, u)"
      "db' = update_discord_profile (usr_id u) (shown_profile p) db1" "acn_id a = usr_id u"
    using assms by (auto simp: sync_discord_account_def and_then_Inr account_from_def)
  have ids: "map usr_id (update_where q f us) = map usr_id us" if "\<And>u. usr_id (f u) = usr_id u"
    for q us and f :: "user_row \<Rightarrow> user_row"
    using that by (simp add: update_where_def)
  have written: "adb_users db2 = adb_users db1' \<and> adb_sessions db2 = adb_sessions db1' \<and>
      map idn_subject (adb_identities db2) = map idn_subject (adb_identities db1') \<and>
      map idn_user (adb_identities db2) = map idn_user (adb_identities db1')"
    if "update_identity_email env t e db1' = Written db2" for t e db1' db2
    using that by (auto simp: update_identity_email_def update_where_def split: if_split_asm)
  have "map usr_id (adb_users db1) = map usr_id (adb_users db) \<and>
      map idn_subject (adb_identities db1) = map idn_subject (adb_identities db) \<and>
      map idn_user (adb_identities db1) = map idn_user (adb_identities db) \<and>
      adb_sessions db1 = adb_sessions db \<and> usr_id u = usr_id linked"
    using one(1)
  proof (cases rule: sync_discord_email_Inr)
    case (3 e db0 w db2)
    show ?thesis
      using written [OF 3(5)] 3(3,4) update_discord_email_Some [OF 3(2)]
      by (simp add: clear_pending_discord_email_Inr clear_copies_columns discord_addressed_def ids)
  qed (use written in auto)
  moreover have "identity_of x s i \<longleftrightarrow> (s, i) \<in> set (zip (map idn_subject (adb_identities x))
      (map idn_user (adb_identities x)))" for x
    by (auto simp: identity_of_def zip_map_map zip_same_conv_map image_iff)
  ultimately show "map usr_id (adb_users db') = map usr_id (adb_users db)"
    "identity_of db' s i = identity_of db s i" "adb_sessions db' = adb_sessions db"
    "acn_id a = usr_id linked"
    using one(2,3) by (auto simp: update_discord_profile_def shown_profile_def ids)
qed

lemma create_keeps_identities:
  assumes "create_discord_account env drw p db = Inr (db', a, i)"
  shows "usr_id ` set (adb_users db') = insert i (usr_id ` set (adb_users db)) \<and>
    i \<notin> usr_id ` set (adb_users db) \<and> identity_of db' (dpr_subject p) i \<and>
    adb_sessions db' = adb_sessions db \<and> acn_id a = i"
  using assms
proof (cases rule: create_discord_account_Inr)
  case (1 h email)
  let ?x = "discord_user drw h email p"
  have x: "usr_id ?x = i" by (simp add: discord_user_def new_user_def 1(4))
  have columns: "map usr_id (joined_rows i email us) = map usr_id us" for us
    by (cases email) (simp_all add: joined_rows_def clear_copies_columns)
  have ids: "usr_id ` set (adb_users db') = insert i (usr_id ` set (adb_users db))"
  proof -
    have "map usr_id (adb_users db') = map usr_id (adb_users db) @ [i]" by (simp add: 1(10) columns x)
    then have "set (map usr_id (adb_users db')) = set (map usr_id (adb_users db) @ [i])" by (rule arg_cong)
    then show ?thesis by simp
  qed
  have "i \<notin> usr_id ` set (adb_users db)" using 1(7) x by (auto simp: users_unique_def)
  moreover have "identity_of db' (dpr_subject p) i" by (simp add: 1(10) identity_of_def)
  moreover have "acn_id a = i"
    using assms 1(4) by (auto simp: create_discord_account_def and_then_Inr Let_def account_from_def new_user_def)
  ultimately show ?thesis using ids by (simp add: 1(10))
qed

lemma identity_unique:
  assumes "accounts_sound env db" "identity_of db s i" "identity_of db s j"
  shows "j = i"
proof -
  have "inj_on idn_subject (set (adb_identities db))"
    using assms(1) by (simp add: accounts_sound_def ways_in_def distinct_map)
  then show ?thesis using assms(2,3) by (auto simp: identity_of_def dest: inj_onD)
qed

lemma identities_of_session:
  assumes "insert_session h i t db = Written db'"
  shows "adb_users db' = adb_users db" "identity_of db' s j = identity_of db s j"
  using assms by (simp_all add: insert_session_Written identity_of_def)

end
