(* ===== verification/AccountClaims.thy ===== *)
theory AccountClaims
  imports AccountFacts
begin

text \<open>
  The properties of accounts, each applied to a small site: its accounts, its mail and a
  Discord profile.
\<close>

section \<open>A small site\<close>

definition plain_unicode :: unicode where
  "plain_unicode = \<lparr>uni_print = (\<lambda>_. True), uni_space = (\<lambda>_. False), uni_upper = id\<rparr>"

definition small_env :: account_env where
  "small_env =
     \<lparr>aen_unicode = plain_unicode, aen_lower = id, aen_address = Some, aen_sha256 = id,
      aen_bcrypt = (\<lambda>salt m. Some (salt @ m)), aen_matches = (\<lambda>hash m. hash = ''s'' @ m),
      aen_db_lower = id, aen_site = ''https://illarin''\<rparr>"

definition drawing :: "char \<Rightarrow> uuid \<Rightarrow> int \<Rightarrow> account_draws" where
  "drawing c i t =
     \<lparr>drw_clock = \<lparr>clk_app = t, clk_db = t\<rparr>, drw_bytes = (\<lambda>k. c), drw_ids = (\<lambda>k. i),
      drw_salt = ''s'', drw_sent = True\<rparr>"

definition ann :: user_row where
  "ann = (new_user 1 ''ann'')\<lparr>usr_email := Some ''a@x.y'', usr_password := Some ''spw'',
     usr_verified := Some 0, usr_source := Some CreatorSource\<rparr>"

definition bob :: user_row where
  "bob = (new_user 2 ''bob'')\<lparr>usr_email := Some ''b@x.y'', usr_password := Some ''spw'',
     usr_source := Some CreatorSource\<rparr>"

definition bob_again :: user_row where
  "bob_again = (new_user 3 ''bobby'')\<lparr>usr_email := Some ''b@x.y'', usr_password := Some ''szz'',
     usr_source := Some CreatorSource\<rparr>"

definition bob_link :: verification_row where
  "bob_link = \<lparr>ver_hash = replicate 32 (CHR ''v''), ver_user = 2, ver_email = ''b@x.y'', ver_expires = 100\<rparr>"

definition small_site :: account_db where
  "small_site =
     \<lparr>adb_users = [ann, bob, bob_again], adb_retired = [''anna''],
      adb_sessions = [\<lparr>ses_hash = replicate 32 (CHR ''a''), ses_user = 1, ses_expires = 1000\<rparr>],
      adb_verifications = [bob_link], adb_resets = [],
      adb_identities = [\<lparr>idn_user = 1, idn_subject = ''77'', idn_email = None\<rparr>],
      adb_states = [], adb_mails = []\<rparr>"

lemma small_site_sound: "accounts_sound small_env small_site"
  by (simp add: accounts_sound_def users_sound_def users_unique_def user_checks_def stored_handle_def
      email_shape_def lower_stored_def verified_emails_def exclusive_def verifications_sound_def
      awaits_email_def ways_in_def accounts_known_def hashes_unique_def small_site_def ann_def bob_def
      bob_again_def bob_link_def new_user_def small_env_def handle_char_def handle_rune_def
      rune_digit_def rune_dot_def byte_def)

section \<open>The invariant\<close>

text \<open>
  C31. Every run of the account service keeps the tables sound: handles, identifiers and verified
  addresses are unique, nobody else has or awaits an address that is verified, no handle in use
  is a retired one, every account keeps a password or a Discord identity, a verification link is
  for the address its account awaits, an identity, a state, a session and a reset are an
  account's.
\<close>

theorem accounts_stay_sound:
  assumes "accounts_sound env db" "account_run env db db'"
  shows "accounts_sound env db'"
  using assms(2,1) by (rule account_run_kept)

text \<open>
  C32. A handle never passes on: while the service runs, nobody but the account that has a handle
  ever has it, also when the account renames itself, and a retired handle has no profile.
\<close>

theorem handles_never_pass_on:
  assumes "accounts_sound env db" "account_run env db db'"
  shows "(\<forall>u \<in> set (adb_users db). \<forall>v \<in> set (adb_users db').
      usr_name v = usr_name u \<longrightarrow> usr_id v = usr_id u) \<and>
    (\<forall>h \<in> set (adb_retired db). handle_unavailable h db' \<and> profile h db' = Inl ProfileNotFound)"
proof (intro conjI ballI impI)
  have kept: "handles_kept db db'" "accounts_sound env db'"
    using handles.run_keeps [OF assms(2,1)] by simp_all
  have unique: "users_unique (adb_users db')"
    and gone: "\<And>v. v \<in> set (adb_users db') \<Longrightarrow> usr_name v \<notin> set (adb_retired db')"
    using kept(2) by (simp_all add: accounts_sound_def users_sound_def)
  fix u v assume u: "u \<in> set (adb_users db)" and v: "v \<in> set (adb_users db')" "usr_name v = usr_name u"
  obtain n where n: "(usr_id u, n) \<in> tags (adb_users db')" "n = usr_name u \<or> usr_name u \<in> set (adb_retired db')"
    using kept(1) tag_in [OF u] by (auto simp: handles_kept_def)
  then obtain w where "w \<in> set (adb_users db')" "usr_id w = usr_id u" "usr_name w = usr_name v"
    using gone [OF v(1)] v(2) by (auto simp: tags_def tag_def)
  then show "usr_id v = usr_id u"
    using v(1) unique by (auto simp: users_unique_def distinct_map inj_on_def)
next
  fix h assume "h \<in> set (adb_retired db)"
  then have h: "h \<in> set (adb_retired db')"
    using handles.run_keeps [OF assms(2,1)] by (auto simp: handles_kept_def)
  then show "handle_unavailable h db'" by (simp add: handle_unavailable_iff)
  have "usr_name v \<noteq> h" if "v \<in> set (adb_users db')" for v
    using handles.run_keeps [OF assms(2,1)] h that by (auto simp: accounts_sound_def users_sound_def)
  then have "profile_by_handle h db' = None" by (auto simp: profile_by_handle_def find_None_iff)
  then show "profile h db' = Inl ProfileNotFound" by (simp add: profile_def)
qed

section \<open>Verifying an address\<close>

text \<open>
  C34. A link that is live verifies its address, whatever else waits for it: the answer is its
  account, verified, under that address; then no other account has the address and no link for
  it is left, the link itself included, which is refused from then on. Nothing but a live link is
  accepted.
\<close>

theorem verify_takes_address:
  assumes "accounts_sound env db" "token_hash env token = Some h"
  shows "if \<exists>v. live_verification clk h db v
    then \<exists>v db' a. live_verification clk h db v \<and> verify_email env clk token db = Inr (db', a) \<and>
      acn_id a = ver_user v \<and> acn_email a = Some (ver_email v) \<and> acn_verified a \<and>
      (\<forall>u \<in> set (adb_users db'). usr_email u = Some (ver_email v) \<longleftrightarrow> usr_id u = ver_user v) \<and>
      (\<forall>w \<in> set (adb_verifications db'). ver_email w \<noteq> ver_email v) \<and>
      verify_email env clk token db' = Inl VerificationInvalid
    else verify_email env clk token db = Inl VerificationInvalid"
proof (cases "\<exists>v. live_verification clk h db v")
  case True
  then obtain v where v: "live_verification clk h db v" ..
  let ?us = "verify_rows clk (ver_user v) (ver_email v) (adb_users db)"
  from verify_email_goes_through [OF assms v] obtain w where
    w: "w \<in> set (adb_users db)" "awaits_email (ver_user v) (ver_email v) w" and
    ok: "verify_email env clk token db =
       Inr (db\<lparr>adb_users := ?us,
             adb_verifications := filter (\<lambda>x. ver_email x \<noteq> ver_email v) (adb_verifications db)\<rparr>,
            account_from (w\<lparr>usr_verified := Some (clk_db clk)\<rparr>) (has_password w)
              (discord_linked db (usr_id w)) None)" (is "_ = Inr (?db', ?a)")
    by blast
  have sound: "accounts_sound env ?db'" using verify_email_kept [OF ok assms(1)] .
  have unique: "users_unique (adb_users db)" using assms(1) by (simp add: accounts_sound_def users_sound_def)
  let ?w = "w\<lparr>usr_verified := Some (clk_db clk)\<rparr>"
  have here: "?w \<in> set ?us"
    using w by (auto simp: verify_rows_def clear_copies_def set_update_where awaits_email_def)
  have exclusive: "exclusive ?us" and unique': "users_unique ?us"
    using sound by (simp_all add: accounts_sound_def users_sound_def)
  have theirs: "usr_email u = Some (ver_email v) \<longleftrightarrow> usr_id u = ver_user v" if u: "u \<in> set ?us" for u
  proof
    assume "usr_email u = Some (ver_email v)"
    then show "usr_id u = ver_user v"
      using exclusiveD [OF exclusive here u] w(2) by (simp add: awaits_email_def)
  next
    assume "usr_id u = ver_user v"
    then have "u = ?w" by (intro same_user [OF unique' u here]) (use w(2) in \<open>simp add: awaits_email_def\<close>)
    then show "usr_email u = Some (ver_email v)" using w(2) by (simp add: awaits_email_def)
  qed
  have "\<not> live_verification clk h ?db' x" for x
    using live_verification_found [OF assms(1) v] live_verification_found [OF assms(1), of clk h x] v
    by (auto simp: live_verification_def)
  then have "verification_by_hash clk h ?db' = None"
    by (auto simp: verification_by_hash_def find_None_iff live_verification_def)
  then have "verify_email env clk token ?db' = Inl VerificationInvalid"
    by (simp add: verify_email_def assms(2) verification_email_by_hash_def)
  then show ?thesis
    unfolding if_P [OF True] using v ok theirs w(2)
    by (intro exI [of _ v] exI [of _ ?db'] exI [of _ ?a])
      (simp add: account_from_def awaits_email_def)
next
  case False
  then have "verification_by_hash clk h db = None"
    by (auto simp: verification_by_hash_def find_None_iff live_verification_def)
  then show ?thesis
    using False by (simp add: verify_email_def assms(2) verification_email_by_hash_def)
qed

section \<open>Signing in\<close>

text \<open>
  C33. The address of a verified account signs in with its password and no other, whoever else
  signed up with the address or awaits it, and the session is the account's until it expires.
\<close>

theorem verified_account_signs_in:
  assumes "accounts_sound env db" "verified_owner db e hash u" "normalize_email env raw = Inr e"
    and "aen_sha256 env (raw_token drw) \<notin> ses_hash ` set (adb_sessions db)"
  shows "if aen_matches env hash (password_material env password)
    then \<exists>db' s. sign_in env drw raw password db = Inr (db', s) \<and>
      san_account s = known_account db u \<and>
      san_expires s = clk_app (drw_clock drw) + session_lifetime \<and>
      (\<forall>clk. clk_db clk < san_expires s \<longrightarrow>
         current env clk (san_token s) db' = Some (known_account db u))
    else sign_in env drw raw password db = Inl CredentialsWrong"
  using sign_in_owner [OF assms, of password] sign_in_refused [OF assms(1-3), of password drw] by auto

text \<open>
  C35. A reset asked for with the address of a verified account is mailed to that address alone,
  and its link sets the password once within the hour: afterwards the address signs in with the
  new password, nobody else's row has changed, and the link is refused. Open sessions stay open.
\<close>

theorem reset_sets_password:
  assumes "accounts_sound env db" "u \<in> set (adb_users db)" "usr_verified u \<noteq> None"
    "usr_email u = Some e" "normalize_email env raw = Inr e" "drw_sent drw"
    and "aen_sha256 env (raw_token drw) \<notin> rst_hash ` set (adb_resets db)" "password \<noteq> []"
    and "aen_bcrypt env (drw_salt drw') (password_material env password) = Some hash"
    and "clk_db (drw_clock drw') < clk_app (drw_clock drw) + password_reset_lifetime"
    and "aen_matches env hash (password_material env password)"
    and "aen_sha256 env (raw_token drw'') \<notin> ses_hash ` set (adb_sessions db)"
  shows "\<exists>db1 db2 db3 s.
    request_password_reset env drw raw db = Inr (db1, ()) \<and>
    adb_mails db1 = adb_mails db @ [new_mail env e ResetPage (base64_encode (raw_token drw))] \<and>
    complete_password_reset env drw' (base64_encode (raw_token drw)) password db1 = Inr (db2, ()) \<and>
    (\<forall>v. usr_id v \<noteq> usr_id u \<longrightarrow> v \<in> set (adb_users db2) \<longleftrightarrow> v \<in> set (adb_users db)) \<and>
    adb_sessions db2 = adb_sessions db \<and>
    complete_password_reset env drw' (base64_encode (raw_token drw)) password db2 = Inl PasswordReset \<and>
    sign_in env drw'' raw password db2 = Inr (db3, s) \<and> acn_id (san_account s) = usr_id u"
proof -
  let ?db1 = "reset_asked env drw e u db"
  let ?db2 = "?db1\<lparr>adb_resets := filter (\<lambda>r. rst_user r \<noteq> usr_id u) (adb_resets db),
    adb_users := with_password (usr_id u) hash (adb_users ?db1)\<rparr>"
  let ?u = "u\<lparr>usr_password := Some hash\<rparr>"
  note one = request_goes_through [OF assms(1-7)]
  note two = complete_goes_through [where ?db1.0 = ?db1 and e = e and u = u, OF assms(7-10) refl]
  have "accounts_sound env ?db1" using request_password_reset_kept [OF one assms(1)] .
  then have sound: "accounts_sound env ?db2" by (rule complete_password_reset_kept [OF two])
  have users: "adb_users ?db2 = with_password (usr_id u) hash (adb_users db)" by (simp add: reset_asked_def)
  have owner: "verified_owner ?db2 e hash ?u"
    using assms(2-4) by (auto simp: verified_owner_def reset_asked_def with_password_def set_update_where)
  have others: "usr_id v \<noteq> usr_id u \<longrightarrow> v \<in> set (adb_users ?db2) \<longleftrightarrow> v \<in> set (adb_users db)" for v
    by (auto simp: reset_asked_def with_password_def set_update_where)
  have sessions: "adb_sessions ?db2 = adb_sessions db" by (simp add: reset_asked_def)
  have "aen_sha256 env (raw_token drw) \<notin> rst_hash ` set (adb_resets ?db2)" using assms(7) by auto
  note three = complete_refused [OF this assms(8,9)]
  obtain db3 s where four: "sign_in env drw'' raw password ?db2 = Inr (db3, s)"
      "san_account s = known_account ?db2 ?u"
    using sign_in_owner [OF sound owner assms(5) _ assms(11)] assms(12) sessions by metis
  have "acn_id (san_account s) = usr_id u" by (simp add: four(2) known_account_def account_from_def)
  moreover have "adb_mails ?db1 = adb_mails db @ [new_mail env e ResetPage (base64_encode (raw_token drw))]"
    by (simp add: reset_asked_def)
  ultimately show ?thesis using one two three four(1) others sessions by blast
qed

section \<open>Signing up\<close>

text \<open>
  C37. With fresh draws and a sender that takes the message, signing up goes through exactly when
  the address is well formed and nobody's verified address, the handle is valid and neither in
  use nor retired, and there is a password: no constraint of the tables stands in the way.
\<close>

theorem sign_up_decides:
  assumes "accounts_sound env db" "drawn (drw_ids drw) \<notin> usr_id ` set (adb_users db)" "drw_sent drw"
    and "aen_sha256 env (raw_token drw) \<notin> ver_hash ` set (adb_verifications db)"
    and "aen_sha256 env (second_token drw) \<notin> ses_hash ` set (adb_sessions db)"
    and "aen_bcrypt env (drw_salt drw) (password_material env (sup_password inp)) = Some hash"
    and "\<And>e. normalize_email env (sup_email inp) = Inr e \<Longrightarrow> aen_db_lower env e = e"
  shows "(\<exists>db' s. sign_up env drw inp db = Inr (db', s)) \<longleftrightarrow>
    (\<exists>e. normalize_email env (sup_email inp) = Inr e \<and> \<not> verified_email_exists e db) \<and>
    valid_handle (sup_handle inp) \<and> \<not> handle_unavailable (sup_handle inp) db \<and> sup_password inp \<noteq> []"
proof
  assume "\<exists>db' s. sign_up env drw inp db = Inr (db', s)"
  then show "(\<exists>e. normalize_email env (sup_email inp) = Inr e \<and> \<not> verified_email_exists e db) \<and>
    valid_handle (sup_handle inp) \<and> \<not> handle_unavailable (sup_handle inp) db \<and> sup_password inp \<noteq> []"
    by (auto simp: sign_up_def and_then_Inr validate_handle_decides Let_def new_token_eq)
qed (use sign_up_goes_through [OF assms(1-6)] assms(7) in blast)

text \<open>
  C36. Whoever signed up gets in: the session is theirs at once, the one message goes to their
  address, its link verifies the account within a day, and from then on the address and the
  password sign in.
\<close>

theorem newcomer_gets_in:
  assumes "accounts_sound env db" "sign_up env drw inp db = Inr (db1, s)"
    and "\<And>hash. aen_bcrypt env (drw_salt drw) (password_material env (sup_password inp)) = Some hash \<Longrightarrow>
      aen_matches env hash (password_material env (sup_password inp))"
    and "clk_db clk < clk_app (drw_clock drw) + verification_lifetime"
    and "aen_sha256 env (raw_token drw') \<notin> ses_hash ` set (adb_sessions db1)"
  shows "\<exists>e a db2 b db3 t.
    normalize_email env (sup_email inp) = Inr e \<and>
    adb_mails db1 = adb_mails db @ [new_mail env e VerifyPage (base64_encode (raw_token drw))] \<and>
    current env clk (san_token s) db1 = Some a \<and> acn_id a = drawn (drw_ids drw) \<and>
    acn_handle a = sup_handle inp \<and> \<not> acn_verified a \<and>
    verify_email env clk (base64_encode (raw_token drw)) db1 = Inr (db2, b) \<and>
    acn_id b = drawn (drw_ids drw) \<and> acn_verified b \<and>
    sign_in env drw' (sup_email inp) (sup_password inp) db2 = Inr (db3, t) \<and>
    acn_id (san_account t) = drawn (drw_ids drw)"
  using assms(2)
proof (cases rule: sign_up_Inr)
  case (1 e hash)
  let ?x = "signed_up drw inp e hash" and ?i = "drawn (drw_ids drw)"
  let ?h = "aen_sha256 env (raw_token drw)"
  let ?v = "\<lparr>ver_hash = ?h, ver_user = ?i, ver_email = e,
      ver_expires = clk_app (drw_clock drw) + verification_lifetime\<rparr>"
  have sound: "accounts_sound env db1" using sign_up_kept [OF assms(2,1)] .
  have unique: "users_unique (adb_users db1)" using 1(6) by (simp add: 1(10))
  have x: "?x \<in> set (adb_users db1)" "usr_id ?x = ?i" "usr_name ?x = sup_handle inp"
      "usr_verified ?x = None" "usr_email ?x = Some e" "usr_password ?x = Some hash"
    by (simp_all add: 1(10) signed_up_def new_user_def)
  have later: "clk_db clk < clk_app (drw_clock drw) + session_lifetime"
    using assms(4) by (simp add: verification_lifetime_def session_lifetime_def seconds_def)
  have opened: "find (live_session clk (aen_sha256 env (second_token drw))) (adb_sessions db1) =
      Some \<lparr>ses_hash = aen_sha256 env (second_token drw), ses_user = ?i,
        ses_expires = clk_app (drw_clock drw) + session_lifetime\<rparr>"
    by (rule only_row) (use 1(9) later in \<open>auto simp: 1(10) live_session_def image_iff\<close>)
  have "user_by_id ?i db1 = Some ?x"
    unfolding user_by_id_def by (rule only_row) (use x(1,2) unique in \<open>auto intro: same_user\<close>)
  then have cur: "current env clk (san_token s) db1 = Some (known_account db1 ?x)"
    by (simp add: current_def 1(13) second_token_def token_hash_raw user_by_session_def
        opened [unfolded second_token_def])
  have th: "token_hash env (base64_encode (raw_token drw)) = Some ?h" by (simp add: raw_token_def token_hash_raw)
  have live: "live_verification clk ?h db1 ?v" using assms(4) by (simp add: live_verification_def 1(10))
  from verify_email_goes_through [OF sound th live] obtain w where
    w: "w \<in> set (adb_users db1)" "awaits_email ?i e w" and
    ok: "verify_email env clk (base64_encode (raw_token drw)) db1 =
       Inr (db1\<lparr>adb_users := verify_rows clk ?i e (adb_users db1),
             adb_verifications := filter (\<lambda>x. ver_email x \<noteq> e) (adb_verifications db1)\<rparr>,
            account_from (w\<lparr>usr_verified := Some (clk_db clk)\<rparr>) (has_password w)
              (discord_linked db1 (usr_id w)) None)" (is "_ = Inr (?db2, ?b)")
    by auto
  have "w = ?x" by (rule same_user [OF unique w(1) x(1)]) (use w(2) x(2) in \<open>simp add: awaits_email_def\<close>)
  let ?y = "w\<lparr>usr_verified := Some (clk_db clk)\<rparr>"
  have sound2: "accounts_sound env ?db2" using verify_email_kept [OF ok sound] .
  have "?y \<in> set (adb_users ?db2)"
    using w by (auto simp: verify_rows_def clear_copies_def set_update_where awaits_email_def)
  then have owner: "verified_owner ?db2 e hash ?y"
    using w(2) x(6) \<open>w = ?x\<close> by (simp add: verified_owner_def awaits_email_def)
  have fresh: "aen_sha256 env (raw_token drw') \<notin> ses_hash ` set (adb_sessions ?db2)" using assms(5) by simp
  obtain db3 t where "sign_in env drw' (sup_email inp) (sup_password inp) ?db2 = Inr (db3, t)"
      "san_account t = known_account ?db2 ?y"
    using sign_in_owner [OF sound2 owner 1(1) fresh assms(3) [OF 1(11)]] by blast
  then show ?thesis
    using 1(1,10) cur ok x w(2)
    by (intro exI [of _ e] exI [of _ "known_account db1 ?x"] exI [of _ ?db2] exI [of _ ?b]
        exI [of _ db3] exI [of _ t])
      (simp add: known_account_def account_from_def awaits_email_def)
qed

section \<open>Discord\<close>

text \<open>
  C38. An account made from a Discord profile always gets a handle: whatever the profile's name,
  the search ends with a valid handle that nobody has and nobody had, the first free one of the
  seed and its numbered forms.
\<close>

theorem discord_handle_free:
  assumes "length (adb_users db) + length (adb_retired db) < 2 ^ 62"
  shows "\<exists>k h. available_discord_handle env (\<lambda>h. handle_unavailable h db) username = Some h \<and>
    validate_handle h = Inr () \<and> \<not> handle_unavailable h db \<and>
    h = handle_candidate (discord_handle_seed env username) k \<and> 1 \<le> k \<and>
    (\<forall>j. 1 \<le> j \<and> j < k \<longrightarrow> handle_unavailable (handle_candidate (discord_handle_seed env username) j) db)"
proof -
  have taken: "{h. handle_unavailable h db} = set (map usr_name (adb_users db) @ adb_retired db)"
    by (auto simp: handle_unavailable_iff)
  have "card {h. handle_unavailable h db} < 2 ^ 62"
    using card_length [of "map usr_name (adb_users db) @ adb_retired db"] assms
    unfolding taken by simp
  moreover have "finite {h. handle_unavailable h db}" unfolding taken by simp
  ultimately show ?thesis
    using discord_handle_found [of "\<lambda>h. handle_unavailable h db" env username]
    by (auto simp: validate_handle_decides)
qed

text \<open>
  C39. A Discord identity is one account's: signing in with it reaches the account it belongs to
  and adds none, or makes one account it belongs to from then on; the session is that account's.
\<close>

theorem identity_is_one_account:
  assumes "accounts_sound env db" "sign_in_discord env drw p db = Inr (db', r)"
    and "clk_db clk < clk_app (drw_clock drw) + session_lifetime"
  shows "(\<exists>i a. acn_id (dcm_account r) = i \<and> identity_of db' (dpr_subject p) i \<and>
      (\<forall>j. identity_of db' (dpr_subject p) j \<longrightarrow> j = i) \<and>
      dcm_session r = Some (base64_encode (raw_token drw), clk_app (drw_clock drw) + session_lifetime) \<and>
      current env clk (base64_encode (raw_token drw)) db' = Some a \<and> acn_id a = i \<and>
      (if \<exists>j. identity_of db (dpr_subject p) j
       then identity_of db (dpr_subject p) i \<and> usr_id ` set (adb_users db') = usr_id ` set (adb_users db)
       else i \<notin> usr_id ` set (adb_users db) \<and>
         usr_id ` set (adb_users db') = insert i (usr_id ` set (adb_users db))))"
proof -
  let ?h = "aen_sha256 env (raw_token drw)" and ?t = "clk_app (drw_clock drw) + session_lifetime"
  have session: "dcm_session r = Some (base64_encode (raw_token drw), ?t)"
    using assms(2) by (auto simp: sign_in_discord_def and_then_Inr new_token_eq raw_token_def Let_def)
  obtain db1 i where mid: "accounts_sound env db1" "identity_of db1 (dpr_subject p) i"
      "insert_session ?h i ?t db1 = Written db'" "acn_id (dcm_account r) = i"
      "if \<exists>j. identity_of db (dpr_subject p) j
       then identity_of db (dpr_subject p) i \<and> usr_id ` set (adb_users db1) = usr_id ` set (adb_users db)
       else i \<notin> usr_id ` set (adb_users db) \<and>
         usr_id ` set (adb_users db1) = insert i (usr_id ` set (adb_users db))"
    using assms(2)
  proof (cases rule: sign_in_discord_Inr)
    case (1 linked db1)
    note sync = sync_keeps_identities [OF 1(2)]
    have "identity_of db (dpr_subject p) (usr_id linked)"
      using 1(1) user_by_identity_iff [OF assms(1)] by simp
    moreover have "usr_id ` set (adb_users db1) = usr_id ` set (adb_users db)"
      using sync(1) by (metis list.set_map)
    ultimately show thesis
      by (intro that [OF sync_discord_account_kept [OF 1(2) assms(1)] _ 1(3) sync(4)]) (auto simp: sync(2))
  next
    case (2 db1 i)
    have new: "usr_id ` set (adb_users db1) = insert i (usr_id ` set (adb_users db))"
      "i \<notin> usr_id ` set (adb_users db)" "identity_of db1 (dpr_subject p) i" "acn_id (dcm_account r) = i"
      using create_keeps_identities [OF 2(2)] by simp_all
    have "\<not> identity_of db (dpr_subject p) j" for j
      using 2(1) user_by_identity_None [OF assms(1)] by blast
    then show thesis
      using that [OF create_discord_account_kept [OF 2(2) assms(1)] new(3) 2(3) new(4)] new(1,2) by simp
  qed
  have sound: "accounts_sound env db'" using session_kept [OF mid(1,3)] .
  note same = identities_of_session [OF mid(3)]
  have "i \<in> usr_id ` set (adb_users db1)" using mid(3) by (simp add: insert_session_Written)
  then obtain u where u: "u \<in> set (adb_users db1)" "usr_id u = i" by blast
  have "?h \<notin> ses_hash ` set (adb_sessions db1)" using mid(3) by (simp add: insert_session_Written)
  from new_session_opens [OF mid(1) u(1) this _ assms(3)] have "user_by_session clk ?h db' = Some u"
    using mid(3) u(2) by simp
  then have cur: "current env clk (base64_encode (raw_token drw)) db' = Some (known_account db' u)"
    by (simp add: current_def raw_token_def token_hash_raw)
  have sole: "j = i" if "identity_of db' (dpr_subject p) j" for j
    using identity_unique [OF sound _ that] mid(2) same(2) by blast
  have "acn_id (known_account db' u) = i" using u(2) by (simp add: known_account_def account_from_def)
  moreover have "identity_of db' (dpr_subject p) i" using mid(2) same(2) by simp
  ultimately show ?thesis
    using mid(5) sole session cur unfolding same(1)
    by (intro exI [of _ i] exI [of _ "known_account db' u"] conjI mid(4)) blast+
qed

text \<open>
  C40. Detaching leaves a way in: it is refused to an account that could not sign in by its
  address and a password, and otherwise frees every identity of the account and of nobody else,
  and the address still signs in.
\<close>

theorem detach_leaves_way_in:
  assumes "accounts_sound env db" "token_hash env token = Some h"
    and "user_by_session clk h db = Some u" "discord_linked db (usr_id u)"
  shows "if usr_verified u \<noteq> None \<and> usr_password u \<noteq> None
    then \<exists>db' a e hash. detach_discord env clk token db = Inr (db', a) \<and> acn_id a = usr_id u \<and>
      \<not> acn_discord a \<and> verified_owner db' e hash u \<and>
      (\<forall>s i. identity_of db' s i \<longleftrightarrow> identity_of db s i \<and> i \<noteq> usr_id u)
    else detach_discord env clk token db = Inl LastSignInMethod"
proof -
  have u: "u \<in> set (adb_users db)" using user_by_session_Some [OF assms(3)] .
  have found: "user_by_id (usr_id u) db = Some u" using user_by_id_iff [OF assms(1)] u by simp
  have linked: "discord_subjects_for_user (usr_id u) db \<noteq> []"
    using assms(4) by (auto simp: discord_subjects_for_user_def discord_linked_def list_ex_iff filter_empty_conv)
  have email: "usr_email u \<noteq> None" if "usr_verified u \<noteq> None"
    using assms(1) u that
    by (auto simp: accounts_sound_def users_sound_def list_all_iff user_checks_def email_shape_def)
  show ?thesis
    using assms(2,3) found linked email u
    by (auto simp: detach_discord_def has_password_def account_from_def verified_owner_def ensure_def
        delete_identities_for_user_def identity_of_def)
qed

section \<open>The properties on the small site\<close>

definition the_clock :: clocks where
  "the_clock = \<lparr>clk_app = 50, clk_db = 50\<rparr>"

definition token_of :: "char \<Rightarrow> string" where
  "token_of c = base64_encode (replicate 32 c)"

definition the_draws :: account_draws where
  "the_draws = drawing (CHR ''n'') 4 50"

lemma token_of_hash [simp]: "token_hash small_env (token_of c) = Some (replicate 32 c)"
  by (simp add: token_hash_def token_of_def small_env_def)

lemma the_raw_token: "raw_token the_draws = replicate 32 (CHR ''n'')"
  "second_token the_draws = replicate 32 (CHR ''n'')"
  by (simp_all add: raw_token_def second_token_def the_draws_def drawing_def next_bytes_def after_bytes_def
      map_replicate_const)

lemma fresh_draw:
  "aen_sha256 small_env (raw_token the_draws) \<notin> rst_hash ` set (adb_resets small_site)"
  "aen_sha256 small_env (raw_token the_draws) \<notin> ver_hash ` set (adb_verifications small_site)"
  "aen_sha256 small_env (raw_token the_draws) \<notin> ses_hash ` set (adb_sessions small_site)"
  "aen_sha256 small_env (second_token the_draws) \<notin> ses_hash ` set (adb_sessions small_site)"
  by (simp_all add: the_raw_token small_env_def small_site_def bob_link_def)

lemma plain_email:
  "normalize_email small_env ''a@x.y'' = Inr ''a@x.y''" "normalize_email small_env ''c@x.y'' = Inr ''c@x.y''"
  by (simp_all add: normalize_email_def lower_text_def trim_space_def runes_ascii ascii_def byte_def
      is_space_def to_lower_def encode_rune_def small_env_def plain_unicode_def Let_def char_of_eq_iff)

lemma bob_live: "live_verification the_clock (replicate 32 (CHR ''v'')) small_site bob_link"
  by (simp add: live_verification_def small_site_def bob_link_def the_clock_def)

lemma bob_verifies:
  "\<exists>db' a. verify_email small_env the_clock (token_of (CHR ''v'')) small_site = Inr (db', a)"
  using verify_email_goes_through [OF small_site_sound token_of_hash bob_live] by metis

theorem accounts_stay_sound_witness:
  "\<exists>db' a. verify_email small_env the_clock (token_of (CHR ''v'')) small_site = Inr (db', a) \<and>
    accounts_sound small_env db'"
proof -
  obtain db' a where v: "verify_email small_env the_clock (token_of (CHR ''v'')) small_site = Inr (db', a)"
    using bob_verifies by blast
  then have "account_run small_env small_site db'" by (intro r_into_rtranclp account_step.intros(5))
  then show ?thesis using accounts_stay_sound [OF small_site_sound] v by blast
qed

lemmas handle_shape =
  valid_handle_def stored_handle_def handle_char_def handle_rune_def rune_digit_def rune_dot_def byte_def

lemma ann_signed_in: "user_by_session the_clock (replicate 32 (CHR ''a'')) small_site = Some ann"
  by (simp add: user_by_session_def user_by_id_def live_session_def the_clock_def small_site_def
      ann_def new_user_def)

lemma ann_renames:
  "\<exists>db' a. rename_handle small_env the_clock (token_of (CHR ''a'')) ''annie'' small_site = Inr (db', a)"
proof -
  have "validate_handle ''annie'' = Inr ()" by (simp add: validate_handle_decides handle_shape)
  moreover have "user_by_id (usr_id ann) small_site = Some ann"
    using user_by_id_iff [OF small_site_sound] by (simp add: small_site_def)
  moreover have "\<not> handle_unavailable ''annie'' small_site"
    by (simp add: handle_unavailable_iff small_site_def ann_def bob_def bob_again_def new_user_def)
  moreover have "insert_retired_handle ''ann'' small_site = Written (small_site\<lparr>adb_retired := [''anna'', ''ann'']\<rparr>)"
    by (simp add: insert_retired_handle_def small_site_def handle_shape)
  moreover have "\<exists>db2. update_user_handle small_env 1 ''annie'' (small_site\<lparr>adb_retired := [''anna'', ''ann'']\<rparr>)
      = Written db2 \<and> user_by_id 1 db2 = Some (ann\<lparr>usr_name := ''annie''\<rparr>)"
    by (simp add: update_user_handle_def write_users_def update_where_def user_by_id_def small_site_def ann_def bob_def
        bob_again_def new_user_def user_checks_def email_shape_def lower_stored_def users_unique_def
        verified_emails_def small_env_def handle_shape)
  ultimately show ?thesis
    using ann_signed_in
    by (auto simp: rename_handle_def committed_def ann_def new_user_def)
qed

theorem handles_never_pass_on_witness:
  "\<exists>db' a. rename_handle small_env the_clock (token_of (CHR ''a'')) ''annie'' small_site = Inr (db', a) \<and>
    profile ''anna'' db' = Inl ProfileNotFound"
proof -
  obtain db' a where r: "rename_handle small_env the_clock (token_of (CHR ''a'')) ''annie'' small_site = Inr (db', a)"
    using ann_renames by blast
  then have "account_run small_env small_site db'" by (intro r_into_rtranclp account_step.intros(7))
  then show ?thesis using handles_never_pass_on [OF small_site_sound] r by (auto simp: small_site_def)
qed

theorem verify_takes_address_witness:
  "\<exists>db' a. verify_email small_env the_clock (token_of (CHR ''v'')) small_site = Inr (db', a) \<and>
    acn_verified a \<and> verify_email small_env the_clock (token_of (CHR ''v'')) db' = Inl VerificationInvalid"
  using verify_takes_address [OF small_site_sound token_of_hash, of the_clock "CHR ''v''"] bob_live
  by (auto split: if_split_asm)

lemma ann_owner: "verified_owner small_site ''a@x.y'' ''spw'' ann"
  by (simp add: verified_owner_def small_site_def ann_def)

theorem verified_account_signs_in_witness:
  "(\<exists>db' s. sign_in small_env the_draws ''a@x.y'' ''pw'' small_site = Inr (db', s) \<and>
      acn_handle (san_account s) = ''ann'') \<and>
   sign_in small_env the_draws ''a@x.y'' ''zz'' small_site = Inl CredentialsWrong"
  using verified_account_signs_in [OF small_site_sound ann_owner plain_email(1) fresh_draw(3), of "''pw''"]
    verified_account_signs_in [OF small_site_sound ann_owner plain_email(1) fresh_draw(3), of "''zz''"]
  by (auto simp: small_env_def password_material_def known_account_def account_from_def ann_def new_user_def)

theorem reset_sets_password_witness:
  "\<exists>db1 db2 db3 s.
    request_password_reset small_env the_draws ''a@x.y'' small_site = Inr (db1, ()) \<and>
    complete_password_reset small_env the_draws (token_of (CHR ''n'')) ''qq'' db1 = Inr (db2, ()) \<and>
    complete_password_reset small_env the_draws (token_of (CHR ''n'')) ''qq'' db2 = Inl PasswordReset \<and>
    sign_in small_env the_draws ''a@x.y'' ''qq'' db2 = Inr (db3, s) \<and> acn_id (san_account s) = 1"
proof -
  have ann: "ann \<in> set (adb_users small_site)" "usr_verified ann \<noteq> None" "usr_email ann = Some ''a@x.y''"
      "usr_id ann = 1" "drw_sent the_draws" "''qq'' \<noteq> []"
      "aen_bcrypt small_env (drw_salt the_draws) (password_material small_env ''qq'') = Some ''sqq''"
      "clk_db (drw_clock the_draws) < clk_app (drw_clock the_draws) + password_reset_lifetime"
      "aen_matches small_env ''sqq'' (password_material small_env ''qq'')"
    by (simp_all add: small_site_def ann_def new_user_def the_draws_def drawing_def small_env_def
        password_material_def password_reset_lifetime_def seconds_def)
  show ?thesis
    using reset_sets_password [OF small_site_sound ann(1-3) plain_email(1) ann(5) fresh_draw(1)
        ann(6,7,8,9) fresh_draw(3)] ann(4)
    unfolding the_raw_token token_of_def by auto
qed

definition carl :: sign_up_input where
  "carl = \<lparr>sup_email = ''c@x.y'', sup_password = ''pw'', sup_handle = ''carl''\<rparr>"

lemma carl_draws:
  "drawn (drw_ids the_draws) \<notin> usr_id ` set (adb_users small_site)" "drw_sent the_draws"
  "aen_bcrypt small_env (drw_salt the_draws) (password_material small_env (sup_password carl)) = Some ''spw''"
  "aen_db_lower small_env e = e"
  by (simp_all add: the_draws_def drawing_def drawn_def small_site_def ann_def bob_def bob_again_def
      new_user_def small_env_def carl_def password_material_def)

lemma carl_fine:
  "normalize_email small_env (sup_email carl) = Inr ''c@x.y''" "sup_password carl \<noteq> []"
  "valid_handle (sup_handle carl)" "\<not> handle_unavailable (sup_handle carl) small_site"
  "\<not> verified_email_exists ''c@x.y'' small_site"
  using plain_email(2)
  by (simp_all add: carl_def handle_shape verified_email_exists_iff handle_unavailable_iff
      small_site_def ann_def bob_def bob_again_def new_user_def)

theorem sign_up_decides_witness: "\<exists>db' s. sign_up small_env the_draws carl small_site = Inr (db', s)"
  using sign_up_decides [OF small_site_sound carl_draws(1,2) fresh_draw(2,4) carl_draws(3,4)] carl_fine
  by blast

lemma carl_signs_up: "\<exists>db' s. sign_up small_env the_draws carl small_site = Inr (db', s)"
  by (rule sign_up_goes_through [OF small_site_sound carl_draws(1,2) fresh_draw(2,4) carl_draws(3)
        carl_fine(1) carl_draws(4) carl_fine(3,2,4,5)])

theorem newcomer_gets_in_witness:
  "\<exists>db1 s a db2 b. sign_up small_env the_draws carl small_site = Inr (db1, s) \<and>
    current small_env the_clock (san_token s) db1 = Some a \<and> acn_handle a = ''carl'' \<and>
    verify_email small_env the_clock (token_of (CHR ''n'')) db1 = Inr (db2, b) \<and> acn_verified b"
proof -
  obtain db1 s where up: "sign_up small_env the_draws carl small_site = Inr (db1, s)"
    using carl_signs_up by blast
  let ?draws = "drawing (CHR ''m'') 5 50"
  have raw: "raw_token ?draws = replicate 32 (CHR ''m'')"
    by (simp add: raw_token_def drawing_def next_bytes_def map_replicate_const)
  from up have "replicate 32 (CHR ''m'') \<notin> ses_hash ` set (adb_sessions db1)"
    by (cases rule: sign_up_Inr) (simp add: the_raw_token small_env_def small_site_def)
  then have fresh: "aen_sha256 small_env (raw_token ?draws) \<notin> ses_hash ` set (adb_sessions db1)"
    by (simp add: raw small_env_def)
  have "clk_db the_clock < clk_app (drw_clock the_draws) + verification_lifetime"
    by (simp add: the_clock_def the_draws_def drawing_def verification_lifetime_def seconds_def)
  moreover have "aen_matches small_env hash (password_material small_env (sup_password carl))"
    if "aen_bcrypt small_env (drw_salt the_draws) (password_material small_env (sup_password carl)) = Some hash" for hash
    using that by (auto simp: small_env_def the_draws_def drawing_def)
  ultimately show ?thesis
    using newcomer_gets_in [OF small_site_sound up _ _ fresh] up
    unfolding the_raw_token token_of_def by (simp add: carl_def) metis
qed

theorem discord_handle_free_witness:
  "\<exists>h. available_discord_handle small_env (\<lambda>h. handle_unavailable h small_site) ''Ann'' = Some h \<and>
    \<not> handle_unavailable h small_site"
  using discord_handle_free [of small_site small_env "''Ann''"] by (auto simp: small_site_def)

definition ann_discord :: discord_profile where
  "ann_discord =
     \<lparr>dpr_subject = ''77'', dpr_username = ''Ann'', dpr_display = ''Ann'', dpr_avatar = [],
      dpr_banner = [], dpr_email = [], dpr_verified = False\<rparr>"

lemma ann_signs_in_discord:
  "\<exists>db' r. sign_in_discord small_env the_draws ann_discord small_site = Inr (db', r)"
  using the_raw_token(1)
  by (simp add: sign_in_discord_def sync_discord_account_def sync_discord_email_def
      verified_discord_email_def ann_discord_def new_token_eq raw_token_def Let_def and_then_Inr
      insert_session_Written update_discord_profile_def shown_profile_def update_where_def
      user_by_identity_def user_by_id_def small_env_def small_site_def ann_def bob_def bob_again_def
      new_user_def)

theorem identity_is_one_account_witness:
  "\<exists>db' r a. sign_in_discord small_env the_draws ann_discord small_site = Inr (db', r) \<and>
    current small_env the_clock (token_of (CHR ''n'')) db' = Some a \<and> acn_id a = acn_id (dcm_account r)"
proof -
  obtain db' r where r: "sign_in_discord small_env the_draws ann_discord small_site = Inr (db', r)"
    using ann_signs_in_discord by blast
  have "clk_db the_clock < clk_app (drw_clock the_draws) + session_lifetime"
    by (simp add: the_clock_def the_draws_def drawing_def session_lifetime_def seconds_def)
  from identity_is_one_account [OF small_site_sound r this] show ?thesis
    using r unfolding the_raw_token token_of_def by metis
qed

theorem detach_leaves_way_in_witness:
  "\<exists>db' a. detach_discord small_env the_clock (token_of (CHR ''a'')) small_site = Inr (db', a) \<and>
    \<not> acn_discord a \<and> \<not> identity_of db' ''77'' 1"
proof -
  have "discord_linked small_site (usr_id ann)"
    by (simp add: discord_linked_def small_site_def ann_def new_user_def)
  from detach_leaves_way_in [OF small_site_sound token_of_hash ann_signed_in this] show ?thesis
    by (auto simp: ann_def new_user_def)
qed

end
