(* ===== verification/Spec2Isabelle.thy ===== *)
theory Spec2Isabelle
  imports DecodeFacts PageSamples DeliveryClaims AccountClaims
begin

text \<open>
  A model of Illarin's API (\<^verbatim>\<open>src/api\<close>), a service where creators keep the pages of their assets
  (characters, presets, lorebooks, themes, packs), link the applications they use and send assets to
  them. Four parts are modelled: what a page is and how it is edited, how an application is linked
  to an account, how assets reach a linked application, and the accounts themselves.

  \<^bold>\<open>The page.\<close> A page is a list of blocks, each an instance of a catalog definition with a layout,
  whose slots hold elements of typed content.

  \<^item> \<open>Vocabulary\<close>, \<open>Content\<close>, \<open>Decode\<close>: the closed vocabularies and their wire forms, the types of content
    and \<^verbatim>\<open>DecodeContent\<close> (\<^verbatim>\<open>block/element.go\<close>, \<^verbatim>\<open>preset.go\<close>, \<^verbatim>\<open>entry_table.go\<close>, \<^verbatim>\<open>theme.go\<close>, \<^verbatim>\<open>pack.go\<close>,
    \<^verbatim>\<open>schema.go\<close>, \<^verbatim>\<open>item.go\<close>), over the values \<^verbatim>\<open>encoding/json\<close> reads. \<open>DecodeFacts\<close>: what is accepted
    is well typed, has passed its type's checks and carries identifiers; sent again it decodes to itself.
  \<^item> \<open>Catalog\<close>, \<open>Placement\<close>, \<open>PlacedPages\<close>: the five catalogs and their layouts, \<^verbatim>\<open>Place\<close>, \<^verbatim>\<open>Offers\<close> and
    \<^verbatim>\<open>NewBlock\<close> (\<^verbatim>\<open>block/catalog.go\<close>, \<^verbatim>\<open>layout.go\<close>, \<^verbatim>\<open>block.go\<close>, \<^verbatim>\<open>placement.go\<close>, \<^verbatim>\<open>tray.go\<close>). Placing loses no
    element and its pages pass the catalog's check.
  \<^item> \<open>Validation\<close>: the three checks of a save (\<^verbatim>\<open>block/validation.go\<close>), each equivalent to a declarative
    description. \<open>Measures\<close>: \<^verbatim>\<open>ContentFloor\<close>, facets and facts (\<^verbatim>\<open>floor.go\<close>, \<^verbatim>\<open>facet.go\<close>, \<^verbatim>\<open>facts.go\<close>),
    and what a page is found under.
  \<^item> \<open>Protected\<close>: prompts whose texts are sealed away from the page (\<^verbatim>\<open>protected/prompt.go\<close>).
  \<^item> \<open>PageStore\<close>, \<open>PageEdits\<close>: the rows of one asset and the six edits, each one transaction
    (\<^verbatim>\<open>asset/blocks.go\<close>, \<^verbatim>\<open>generation.go\<close>, \<^verbatim>\<open>projection.go\<close>, \<^verbatim>\<open>facet.go\<close>, \<^verbatim>\<open>preserved.go\<close>). \<open>PageFacts\<close> and
    \<open>PageRemovals\<close> hold the lemmas per edit, \<open>PageContracts\<close> the contract all edits share (a locale),
    \<open>PageRuns\<close> sequences of edits and their invariants, \<open>PageSamples\<close> concrete runs.

  \<^bold>\<open>Linking.\<close> An application asks for a link with a device code or in a browser, its user approves or
  denies, and the application takes tokens it refreshes and authenticates with.

  \<^item> \<open>LinkText\<close>, \<open>LinkCodes\<close>, \<open>LinkCodeFacts\<close>: bytes, UTF-8 and base64, declarations, scopes, codes,
    tokens, redirects and PKCE (\<^verbatim>\<open>linking/linking.go\<close>).
  \<^item> \<open>LinkStore\<close>: the tables and the SQL statements (\<^verbatim>\<open>db/queries.sql.go\<close>, \<^verbatim>\<open>db/models.go\<close>), one definition
    per statement; a row an index or check refuses makes it fail. \<open>LinkService\<close>: every operation of
    \<^verbatim>\<open>linking/service.go\<close>, \<^verbatim>\<open>credentials.go\<close> and \<^verbatim>\<open>instances.go\<close> with its early returns; an operation gives
    the tables it commits with its answer or refusal.
  \<^item> \<open>LinkTables\<close>: the invariant of the tables and that each statement keeps it. \<open>LinkRuns\<close>: operations as
    sequences of changes, and their runs. \<open>LinkSpec\<close>: the promise of the service (a request is decided
    and redeemed once, what is cut off stays so) and the simulation. \<open>LinkGrants\<close>: the contract of what
    is used once (a locale, for both kinds of request). \<open>LinkRates\<close>: how many attempts get through.
    \<open>LinkFlow\<close>: the whole device flow. \<open>LinkClaims\<close>: properties and samples.

  \<^bold>\<open>Delivery.\<close> A creator queues an asset for a linked instance, which collects it, fetches it at a
  signed address, acknowledges it and reports what it has installed.

  \<^item> \<open>DeliveryStore\<close>: the statements of the queue and of the mirror, on the same tables. \<open>Delivery\<close>: the
    service (\<^verbatim>\<open>delivery\<close>), the signatures (\<^verbatim>\<open>signing/signing.go\<close>) and what is read of an asset
    (\<^verbatim>\<open>asset/deliverable.go\<close>, \<^verbatim>\<open>asset/export.go\<close>), with the policy of \<open>Protected\<close>.
  \<^item> \<open>DeliveryRuns\<close>: the invariant, and runs of what is committed at once: a transaction, or a statement
    outside one. \<^verbatim>\<open>Queue\<close> is no transaction, so a press of it goes through its stages one statement at a
    time. \<open>DeliveryPresses\<close>: presses that overlap, beside all other calls, and how far what \<^verbatim>\<open>Queue\<close> checks
    carries to what it writes (a locale, for the cap and for instances cut off).
    \<open>DeliveryGrants\<close>: leases (a locale that extends the one of \<open>LinkGrants\<close>) and instances cut off.
    \<open>DeliveryFacts\<close>: formats, fairness, signatures, the mirror and the requests that wait.
    \<open>DeliveryClaims\<close>: properties and samples.

  \<^bold>\<open>Accounts.\<close> A creator signs up with an address, which a mailed link verifies, or through Discord,
  signs in, renames the account, resets the password and attaches or detaches a Discord identity.

  \<^item> \<open>AccountText\<close>, \<open>AccountHandles\<close>: handles, addresses, credentials, password material and the
    handles tried for a Discord profile. \<open>AccountStore\<close>: the tables of accounts with their constraints
    (\<^verbatim>\<open>migrations\<close> 9 to 12, 16, 18 and 36), one definition per statement of \<^verbatim>\<open>db/queries.sql.go\<close>; a
    statement says whether it wrote, collided or broke another constraint.
  \<^item> \<open>AccountService\<close>: every operation of \<^verbatim>\<open>account/service.go\<close> and \<^verbatim>\<open>account/discord.go\<close> with its
    refusals (\<^verbatim>\<open>account/account.go\<close>). What an operation draws is the record \<open>account_draws\<close>. The
    advisory locks it takes on a handle, an address or an identity make it one step.
  \<^item> \<open>AccountTables\<close>: the invariant of the tables and that the statements keep it. \<open>AccountRuns\<close>,
    \<open>AccountDiscord\<close>: what each operation writes when it goes through, that it keeps the invariant, and
    runs. \<open>AccountFacts\<close>: what every step keeps, runs keep (the locale \<open>kept_by_steps\<close>, interpreted for
    handles); links, sign-in, resets, sign-up and identities. \<open>AccountClaims\<close>: properties and samples.

  \<^bold>\<open>How the code is translated.\<close> A struct is a record, a closed vocabulary a datatype, a map or a table
  a list or a partial function, an error a value of the component's error type. A transaction is
  one step, and leaves its tables as they were when it fails; the linking service's operations outside a
  transaction write in single statements that check what they rely on. Identifiers are 128-bit words, drawn through an argument;
  byte strings are char lists; times are whole microseconds, and every operation has two clocks, the
  application's and the database's, which need not agree. Loops over a list are recursions on it.
  \<^verbatim>\<open>newCode\<close> draws until it has enough letters and is a partial function, shown to end whenever the
  source keeps giving usable bytes; the attempts to store a new code have the code's own bound of
  eight; a request that waits follows the list of what wakes it, and is shown to end with the wait; the search for a free handle is a partial function, shown to end within
  two more attempts than there are handles taken, while those are fewer than \<^verbatim>\<open>2^62\<close>.
  Where the code's integers are narrower than their values the width is written out: the generation
  a report gives is cut to 32 bits, a deadline is read into 64.

  \<^bold>\<open>Parameters.\<close> What is not in the repository or belongs to the language's library is an argument:
  the JSON reader and the lengths \<^verbatim>\<open>json.Marshal\<close> gives, the URL parser and Unicode's tables, SHA-256,
  HMAC, the random source, and the registry's offered targets; for accounts bcrypt, \<^verbatim>\<open>mail.ParseAddress\<close>,
  the database's \<^verbatim>\<open>lower\<close>, the profile Discord answers with, and whether the mail sender takes a
  message.

  \<^bold>\<open>Not modelled.\<close> The HTTP surface (generated from the OpenAPI document, and handlers that pass requests
  on); the senders of mail and Discord's OAuth exchange, which talk to services; ingestion, revisions
  and media, which move bytes through storage and image libraries; the readers and writers of foreign
  formats, which are rewritings of raw JSON; probing and migration, which read files and an older
  database. Of the modelled parts: the upgrades of stored content, the digest of the facet catalogs
  and the sweeps that recompute stale projections; a cancelled context outside \<^verbatim>\<open>Collect\<close>, a lost
  connection and the tickers of the sweepers.
\<close>

end
